(* ===== verification/Go_Prelude.thy ===== *)
theory Go_Prelude
  imports Main "HOL-Library.Word" "HOL-Library.Sublist"
begin

text \<open>
  Shared vocabulary of the development: bytes, Go results (value, error or panic), the part of
  Go's \<^verbatim>\<open>strings\<close>, \<^verbatim>\<open>strconv\<close> and \<^verbatim>\<open>encoding/binary\<close> packages
  that the modelled code calls, and the generic lemmas the component theories use.

  A Go string and a \<^verbatim>\<open>[]byte\<close> are both a list of bytes, and a byte is HOL's 8-bit
  \<open>char\<close>. Case mapping and white space follow Go on the ASCII range; Go's Unicode tables
  (case mapping and white space of multi-byte runes) are outside the model.

  An operation of the source that can fail returns \<open>'a go\<close>: \<open>Ok\<close> for a value,
  \<open>Err\<close> for a returned \<^verbatim>\<open>error\<close>, \<open>Panic\<close> for a run-time panic
  (an index or slice bound out of range).
\<close>

named_theorems handler_defs \<open>definitions of the request handlers\<close>
named_theorems store_steps \<open>operations and handlers that take at most one step of the store\<close>

unbundle bit_operations_syntax

section \<open>Types\<close>

type_synonym byte = char
type_synonym bytes = "char list"
type_synonym uuid = nat

text \<open>
  The error values that the modelled packages create, wrap or compare. \<open>Errorf\<close> is
  \<^verbatim>\<open>errors.New\<close> or \<^verbatim>\<open>fmt.Errorf\<close> without a wrapped cause, \<open>ErrorfW\<close> is
  \<^verbatim>\<open>fmt.Errorf\<close> with a wrapped cause and carries the full rendered text.
\<close>

datatype go_error =
    EOF
  | UnexpectedEOF
  | WriteFailed
  | ErrNotFound
  | Errorf string
  | ErrorfW string go_error
  | GoogleAPIError int string
  | SQLStateErr string string "go_error option"

datatype 'a go = Ok 'a | Err go_error | Panic

fun bind_go :: "'a go \<Rightarrow> ('a \<Rightarrow> 'b go) \<Rightarrow> 'b go" where
  "bind_go (Ok x) f = f x"
| "bind_go (Err e) f = Err e"
| "bind_go Panic f = Panic"

lemma bind_go_eq_Ok:
  "bind_go r f = Ok y \<longleftrightarrow> (\<exists>x. r = Ok x \<and> f x = Ok y)"
  by (cases r) auto

section \<open>Strings\<close>

definition is_space :: "char \<Rightarrow> bool" where
  "is_space c \<longleftrightarrow> c \<in> {CHR '' '', CHR 0x09, CHR 0x0A, CHR 0x0B, CHR 0x0C, CHR 0x0D}"

definition TrimLeft :: "string \<Rightarrow> string \<Rightarrow> string" where
  "TrimLeft s cutset = dropWhile (\<lambda>c. c \<in> set cutset) s"

definition TrimRight :: "string \<Rightarrow> string \<Rightarrow> string" where
  "TrimRight s cutset = rev (dropWhile (\<lambda>c. c \<in> set cutset) (rev s))"

definition Trim :: "string \<Rightarrow> string \<Rightarrow> string" where
  "Trim s cutset = TrimRight (TrimLeft s cutset) cutset"

definition TrimSpace :: "string \<Rightarrow> string" where
  "TrimSpace s = rev (dropWhile is_space (rev (dropWhile is_space s)))"

definition HasPrefix :: "string \<Rightarrow> string \<Rightarrow> bool" where
  "HasPrefix s p \<longleftrightarrow> take (length p) s = p"

definition HasSuffix :: "string \<Rightarrow> string \<Rightarrow> bool" where
  "HasSuffix s p \<longleftrightarrow> length p \<le> length s \<and> drop (length s - length p) s = p"

definition TrimPrefix :: "string \<Rightarrow> string \<Rightarrow> string" where
  "TrimPrefix s p = (if HasPrefix s p then drop (length p) s else s)"

definition TrimSuffix :: "string \<Rightarrow> string \<Rightarrow> string" where
  "TrimSuffix s p = (if HasSuffix s p then take (length s - length p) s else s)"

text \<open>\<open>None\<close> stands for Go's result -1.\<close>

fun Index :: "string \<Rightarrow> string \<Rightarrow> nat option" where
  "Index [] sub = (if sub = [] then Some 0 else None)"
| "Index (c # cs) sub =
     (if HasPrefix (c # cs) sub then Some 0 else map_option Suc (Index cs sub))"

fun LastIndexByte :: "string \<Rightarrow> char \<Rightarrow> nat option" where
  "LastIndexByte [] b = None"
| "LastIndexByte (c # cs) b =
     (case LastIndexByte cs b of
        Some i \<Rightarrow> Some (Suc i)
      | None \<Rightarrow> (if c = b then Some 0 else None))"

definition IndexByte :: "string \<Rightarrow> char \<Rightarrow> nat option" where
  "IndexByte s c = Index s [c]"

definition Contains :: "string \<Rightarrow> string \<Rightarrow> bool" where
  "Contains s sub \<longleftrightarrow> Index s sub \<noteq> None"

definition ContainsAny :: "string \<Rightarrow> string \<Rightarrow> bool" where
  "ContainsAny s chars \<longleftrightarrow> list_ex (\<lambda>c. c \<in> set chars) s"

text \<open>\<^verbatim>\<open>strings.Split\<close> with a one-byte separator, the only form the code uses.\<close>

fun Split :: "string \<Rightarrow> char \<Rightarrow> string list" where
  "Split [] sep = [[]]"
| "Split (c # cs) sep =
     (if c = sep then [] # Split cs sep
      else (case Split cs sep of [] \<Rightarrow> [[c]] | p # ps \<Rightarrow> (c # p) # ps))"

fun Join :: "string list \<Rightarrow> string \<Rightarrow> string" where
  "Join [] sep = []"
| "Join [x] sep = x"
| "Join (x # y # ys) sep = x @ sep @ Join (y # ys) sep"

text \<open>\<^verbatim>\<open>strings.SplitN\<close> with a one-byte separator and \<open>n > 0\<close>.\<close>

definition SplitN :: "string \<Rightarrow> char \<Rightarrow> nat \<Rightarrow> string list" where
  "SplitN s sep n =
     (let ps = Split s sep in
      if length ps \<le> n then ps
      else take (n - 1) ps @ [Join (drop (n - 1) ps) [sep]])"

definition upper_char :: "char \<Rightarrow> char" where
  "upper_char c = (let n = of_char c :: nat in if 97 \<le> n \<and> n \<le> 122 then char_of (n - 32) else c)"

definition lower_char :: "char \<Rightarrow> char" where
  "lower_char c = (let n = of_char c :: nat in if 65 \<le> n \<and> n \<le> 90 then char_of (n + 32) else c)"

definition ToUpper :: "string \<Rightarrow> string" where
  "ToUpper s = map upper_char s"

definition ToLower :: "string \<Rightarrow> string" where
  "ToLower s = map lower_char s"

definition EqualFold :: "string \<Rightarrow> string \<Rightarrow> bool" where
  "EqualFold s t \<longleftrightarrow> ToLower s = ToLower t"

text \<open>\<^verbatim>\<open>strings.Fields\<close>: the maximal runs of non-space bytes.\<close>

function Fields :: "string \<Rightarrow> string list" where
  "Fields s =
     (let t = dropWhile is_space s in
      if t = [] then []
      else takeWhile (\<lambda>c. \<not> is_space c) t # Fields (dropWhile (\<lambda>c. \<not> is_space c) t))"
  by pat_completeness auto
termination
proof (relation "measure length")
  fix s t :: string
  assume t: "t = dropWhile is_space s" and ne: "t \<noteq> []"
  have "\<not> is_space (hd t)"
    using t ne hd_dropWhile by blast
  then have "length (dropWhile (\<lambda>c. \<not> is_space c) t) < length t"
    using ne by (cases t) (auto simp: le_imp_less_Suc length_dropWhile_le)
  moreover have "length t \<le> length s"
    by (simp add: t length_dropWhile_le)
  ultimately show "(dropWhile (\<lambda>c. \<not> is_space c) t, s) \<in> measure length"
    by simp
qed simp

declare Fields.simps [simp del]

text \<open>
  \<^verbatim>\<open>strings.ReplaceAll\<close> with a non-empty old string: non-overlapping occurrences from
  the left. Every step consumes a byte, so the length of the rest is the termination measure.
\<close>

function ReplaceAll :: "string \<Rightarrow> string \<Rightarrow> string \<Rightarrow> string" where
  "ReplaceAll s old new =
     (if s = [] \<or> old = [] then s
      else if HasPrefix s old then new @ ReplaceAll (drop (length old) s) old new
      else hd s # ReplaceAll (tl s) old new)"
  by pat_completeness auto
termination
  by (relation "measure (\<lambda>(s, _, _). length s)") (auto simp: neq_Nil_conv)

declare ReplaceAll.simps [simp del]

section \<open>Integers as text\<close>

definition digit_char :: "nat \<Rightarrow> char" where
  "digit_char d = char_of (48 + d)"

fun nat_digits :: "nat \<Rightarrow> string" where
  "nat_digits n = (if n < 10 then [digit_char n] else nat_digits (n div 10) @ [digit_char (n mod 10)])"

declare nat_digits.simps [simp del]

definition Itoa :: "int \<Rightarrow> string" where
  "Itoa i = (if i < 0 then CHR ''-'' # nat_digits (nat (- i)) else nat_digits (nat i))"

section \<open>Quoted text, the verb \%q on ASCII\<close>

definition hex_digit :: "nat \<Rightarrow> char" where
  "hex_digit d = (if d < 10 then char_of (48 + d) else char_of (87 + d))"

definition quote_char :: "char \<Rightarrow> string" where
  "quote_char c =
     (let n = of_char c :: nat; esc = CHR 0x5C in
      if n = 34 \<or> n = 92 then [esc, c]
      else if n = 7 then [esc, CHR ''a''] else if n = 8 then [esc, CHR ''b'']
      else if n = 12 then [esc, CHR ''f''] else if n = 10 then [esc, CHR ''n'']
      else if n = 13 then [esc, CHR ''r''] else if n = 9 then [esc, CHR ''t'']
      else if n = 11 then [esc, CHR ''v'']
      else if n < 32 \<or> 127 \<le> n then [esc, CHR ''x'', hex_digit (n div 16), hex_digit (n mod 16)]
      else [c])"

definition Quote :: "string \<Rightarrow> string" where
  "Quote s = CHR 0x22 # concat (map quote_char s) @ [CHR 0x22]"

section \<open>Errors as text\<close>

fun Error :: "go_error \<Rightarrow> string" where
  "Error EOF = ''EOF''"
| "Error UnexpectedEOF = ''unexpected EOF''"
| "Error WriteFailed = ''write failed''"
| "Error ErrNotFound = ''not found''"
| "Error (Errorf s) = s"
| "Error (ErrorfW s e) = s"
| "Error (GoogleAPIError code msg) = ''googleapi: Error '' @ Itoa code @ '': '' @ msg"
| "Error (SQLStateErr code msg w) =
     (if msg \<noteq> [] then msg else (case w of Some e \<Rightarrow> Error e | None \<Rightarrow> code))"

text \<open>\<^verbatim>\<open>errors.Is\<close> for the sentinel \<^verbatim>\<open>store.ErrNotFound\<close>: the chain of causes is walked.\<close>

fun is_not_found :: "go_error \<Rightarrow> bool" where
  "is_not_found ErrNotFound = True"
| "is_not_found (ErrorfW s e) = is_not_found e"
| "is_not_found (SQLStateErr c m (Some e)) = is_not_found e"
| "is_not_found _ = False"

section \<open>Bytes and machine words, big-endian\<close>

definition low_byte :: "'a::len word \<Rightarrow> byte" where
  "low_byte w = Char (bit w 0) (bit w 1) (bit w 2) (bit w 3) (bit w 4) (bit w 5) (bit w 6) (bit w 7)"

definition word_of_byte :: "byte \<Rightarrow> 'a::len word" where
  "word_of_byte c = of_char c"

definition PutUint16 :: "16 word \<Rightarrow> bytes" where
  "PutUint16 v = [low_byte (drop_bit 8 v), low_byte v]"

definition PutUint32 :: "32 word \<Rightarrow> bytes" where
  "PutUint32 v = [low_byte (drop_bit 24 v), low_byte (drop_bit 16 v), low_byte (drop_bit 8 v), low_byte v]"

text \<open>The readers panic in Go on a short slice; every caller of the model checks the length first.\<close>

fun Uint16 :: "bytes \<Rightarrow> 16 word" where
  "Uint16 (a # b # _) = push_bit 8 (word_of_byte a) OR word_of_byte b"
| "Uint16 _ = 0"

fun Uint32 :: "bytes \<Rightarrow> 32 word" where
  "Uint32 (a # b # c # d # _) =
     push_bit 24 (word_of_byte a) OR push_bit 16 (word_of_byte b) OR push_bit 8 (word_of_byte c)
       OR word_of_byte d"
| "Uint32 _ = 0"

section \<open>Lemmas on bytes and words\<close>


lemma bit_word_of_byte:
  "bit (word_of_byte c :: 'a::len word) n \<longleftrightarrow>
     n < min LENGTH('a) 8 \<and> [digit0 c, digit1 c, digit2 c, digit3 c, digit4 c, digit5 c, digit6 c, digit7 c] ! n"
proof (cases c)
  case (Char b0 b1 b2 b3 b4 b5 b6 b7)
  have "(word_of_byte c :: 'a word) = horner_sum of_bool 2 [b0, b1, b2, b3, b4, b5, b6, b7]"
    by (simp only: Char word_of_byte_def of_char_Char)
  then show ?thesis
    by (simp only: bit_horner_sum_bit_word_iff) (simp add: Char numeral_eq_Suc del: horner_sum_simps)
qed

lemma lt8_cases:
  obtains "n = (0::nat)" | "n = 1" | "n = 2" | "n = 3" | "n = 4" | "n = 5" | "n = 6" | "n = 7" | "8 \<le> n"
  by linarith

lemma nth8:
  "n < 8 \<Longrightarrow> [a0, a1, a2, a3, a4, a5, a6, a7] ! n =
   (if n = 0 then a0 else if n = 1 then a1 else if n = 2 then a2 else if n = 3 then a3
    else if n = 4 then a4 else if n = 5 then a5 else if n = 6 then a6 else a7)"
  by (cases n rule: lt8_cases) simp_all

lemma bit_word_of_low_byte:
  "bit (word_of_byte (low_byte (v :: 'b::len word)) :: 'a::len word) n \<longleftrightarrow> n < min LENGTH('a) 8 \<and> bit v n"
  by (cases n rule: lt8_cases) (simp_all add: bit_word_of_byte low_byte_def)

lemma Uint16_PutUint16 [simp]: "Uint16 (PutUint16 v @ r) = v"
  by (rule bit_word_eqI)
    (auto simp: PutUint16_def bit_or_iff bit_push_bit_iff bit_word_of_low_byte bit_drop_bit_eq)

lemma Uint32_PutUint32 [simp]: "Uint32 (PutUint32 v @ r) = v"
proof (rule bit_word_eqI)
  fix n
  assume "n < LENGTH(32)"
  then consider "n < 8" | "8 \<le> n" "n < 16" | "16 \<le> n" "n < 24" | "24 \<le> n" "n < 32"
    by fastforce
  then show "bit (Uint32 (PutUint32 v @ r)) n = bit v n"
    by cases (simp_all add: PutUint32_def bit_or_iff bit_push_bit_iff bit_word_of_low_byte bit_drop_bit_eq, auto)
qed

lemma low_byte_word_of_byte: "8 \<le> LENGTH('a) \<Longrightarrow> low_byte (word_of_byte c :: 'a::len word) = c"
  by (cases c) (simp add: low_byte_def bit_word_of_byte nth8)

lemma length_PutUint16 [simp]: "length (PutUint16 v) = 2"
  by (simp add: PutUint16_def)

lemma length_PutUint32 [simp]: "length (PutUint32 v) = 4"
  by (simp add: PutUint32_def)

lemma PutUint16_Uint16: "length bs = 2 \<Longrightarrow> PutUint16 (Uint16 bs) = bs"
  by (cases bs rule: Uint16.cases)
    (auto simp: PutUint16_def low_byte_def bit_or_iff bit_push_bit_iff bit_word_of_byte bit_drop_bit_eq nth8)

lemma PutUint32_Uint32: "length bs = 4 \<Longrightarrow> PutUint32 (Uint32 bs) = bs"
  by (cases bs rule: Uint32.cases)
    (auto simp: PutUint32_def low_byte_def bit_or_iff bit_push_bit_iff bit_word_of_byte bit_drop_bit_eq nth8)

section \<open>Lemmas on strings\<close>

lemma dropWhile_idem: "dropWhile P (dropWhile P xs) = dropWhile P xs"
  by (induction xs) auto

lemma TrimSpace_idem [simp]: "TrimSpace (TrimSpace s) = TrimSpace s"
proof -
  let ?d = "dropWhile is_space"
  have fix1: "xs = [] \<or> \<not> is_space (hd xs) \<Longrightarrow> ?d xs = xs" for xs :: string
    by (cases xs) auto
  have hd_rev: "?d (rev (?d (rev (?d s)))) = rev (?d (rev (?d s)))"
  proof (cases "?d (rev (?d s)) = []")
    case False
    have "?d s \<noteq> []" using False by (metis dropWhile.simps(1) rev.simps(1))
    then have h: "\<not> is_space (hd (?d s))" using hd_dropWhile by blast
    have "last (?d (rev (?d s))) = last (rev (?d s))"
      using False by (metis dropWhile_eq_drop drop_eq_Nil2 last_drop not_le_imp_less)
    then have "hd (rev (?d (rev (?d s)))) = hd (?d s)"
      using False \<open>?d s \<noteq> []\<close> by (simp add: hd_rev last_rev)
    with h show ?thesis using fix1 by (metis)
  qed (simp only: rev.simps dropWhile.simps)
  show ?thesis by (simp add: TrimSpace_def hd_rev dropWhile_idem)
qed

lemma ball_dropWhile: "(\<forall>c \<in> set (dropWhile P s). P c) \<longleftrightarrow> (\<forall>c \<in> set s. P c)"
  by (induction s) auto

lemma TrimSpace_eq_Nil: "TrimSpace s = [] \<longleftrightarrow> list_all is_space s"
  by (simp add: TrimSpace_def dropWhile_eq_Nil_conv ball_dropWhile list_all_iff)

lemma Join_Split: "Join (Split s sep) [sep] = s"
proof (induction s)
  case (Cons c cs)
  have ne: "Split cs sep \<noteq> []" by (cases cs) (auto split: list.splits)
  then obtain p ps where p: "Split cs sep = p # ps" by (cases "Split cs sep") auto
  show ?case using Cons.IH by (cases ps) (auto simp: p)
qed simp

lemma Split_nonempty [simp]: "Split s sep \<noteq> []"
  by (cases s) (auto split: list.splits)

lemma Split_no_sep: "p \<in> set (Split s sep) \<Longrightarrow> sep \<notin> set p"
  by (induction s arbitrary: p) (auto split: if_splits list.splits)

lemma Split_append_sep: "sep \<notin> set p \<Longrightarrow> Split (p @ sep # s) sep = p # Split s sep"
  by (induction p) auto

lemma Split_single: "sep \<notin> set p \<Longrightarrow> Split p sep = [p]"
  by (induction p) auto

lemma Split_Join: "ps \<noteq> [] \<Longrightarrow> \<forall>p\<in>set ps. sep \<notin> set p \<Longrightarrow> Split (Join ps [sep]) sep = ps"
  by (induction ps "[sep]" rule: Join.induct) (auto simp: Split_single Split_append_sep)

lemma HasPrefix_iff: "HasPrefix s p \<longleftrightarrow> (\<exists>r. s = p @ r)"
  by (metis HasPrefix_def append_eq_conv_conj append_take_drop_id)

lemma HasSuffix_iff: "HasSuffix s p \<longleftrightarrow> (\<exists>r. s = r @ p)"
  unfolding HasSuffix_def
  by (metis append_eq_conv_conj append_take_drop_id diff_add_inverse2 length_append le_add2)

lemma Index_SomeD: "Index s sub = Some i \<Longrightarrow> i + length sub \<le> length s \<and> take (length sub) (drop i s) = sub"
proof (induction s arbitrary: i)
  case (Cons c cs)
  show ?case
  proof (cases "HasPrefix (c # cs) sub")
    case True
    then have "length sub \<le> length (c # cs)" by (metis HasPrefix_def length_take min.bounded_iff order_refl)
    with True Cons.prems show ?thesis by (simp add: HasPrefix_def)
  next
    case False
    with Cons.prems obtain j where "Index cs sub = Some j" "i = Suc j" by auto
    with Cons.IH show ?thesis by auto
  qed
qed (auto split: if_splits)

lemma Index_None: "Index s sub = None \<Longrightarrow> \<not> (\<exists>p q. s = p @ sub @ q)"
proof (induction s)
  case (Cons c cs)
  then have np: "\<not> HasPrefix (c # cs) sub" and "Index cs sub = None" by (auto split: if_splits)
  with Cons.IH have ih: "\<nexists>p q. cs = p @ sub @ q" by simp
  show ?case
  proof
    assume "\<exists>p q. c # cs = p @ sub @ q"
    then obtain p q where e: "c # cs = p @ sub @ q" by blast
    show False
    proof (cases p)
      case Nil with e np show False by (auto simp: HasPrefix_iff)
    next
      case (Cons a p') with e ih show False by auto
    qed
  qed
qed (auto split: if_splits)

lemma Contains_iff: "Contains s sub \<longleftrightarrow> (\<exists>p q. s = p @ sub @ q)"
proof
  assume "Contains s sub"
  then obtain i where i: "Index s sub = Some i" by (auto simp: Contains_def)
  from Index_SomeD [OF i] have "s = take i s @ sub @ drop (i + length sub) s"
    by (metis add.commute append_take_drop_id drop_drop)
  then show "\<exists>p q. s = p @ sub @ q" by blast
next
  assume "\<exists>p q. s = p @ sub @ q"
  then show "Contains s sub" using Index_None [of s sub] unfolding Contains_def by blast
qed

lemma length_ToUpper [simp]: "length (ToUpper s) = length s" by (simp add: ToUpper_def)

lemma length_ToLower [simp]: "length (ToLower s) = length s" by (simp add: ToLower_def)

lemma lower_char_idem [simp]: "lower_char (lower_char c) = lower_char c"
  by (auto simp: lower_char_def Let_def)

lemma ToLower_idem [simp]: "ToLower (ToLower s) = ToLower s" by (simp add: ToLower_def)

lemma upper_char_idem [simp]: "upper_char (upper_char c) = upper_char c"
  by (auto simp: upper_char_def Let_def)

lemma ToUpper_idem [simp]: "ToUpper (ToUpper s) = ToUpper s" by (simp add: ToUpper_def)

end
