(* ===== verification/Scram.thy ===== *)
theory Scram
  imports Go_Prelude
begin

text \<open>
  The SCRAM-SHA-256 server, \<^verbatim>\<open>internal/protocols/pgwire/scram.go\<close>. PBKDF2, HMAC-SHA-256,
  SHA-256 and base64 are the fields of the record \<open>crypto\<close>; what a property needs of them (digest
  length, decoding inverts encoding, the base64 alphabet has no comma) are its hypotheses.

  The theory also states the client's side of RFC 5802, as the reference the server is proved
  against.
\<close>

section \<open>Definitions\<close>

record crypto =
  pbkdf2 :: "bytes \<Rightarrow> bytes \<Rightarrow> nat \<Rightarrow> bytes"
  hmacSHA256 :: "bytes \<Rightarrow> bytes \<Rightarrow> bytes"
  sha256Sum :: "bytes \<Rightarrow> bytes"
  b64enc :: "bytes \<Rightarrow> string"
  b64dec :: "string \<Rightarrow> bytes go"

definition scramIterCount :: nat where
  "scramIterCount = 4096"

record scram_verifier =
  Salt :: bytes
  IterCount :: nat
  StoredKey :: bytes
  ServerKey :: bytes

text \<open>\<open>rnd\<close> is the result of \<^verbatim>\<open>rand.Read\<close> into the salt.\<close>

definition NewScramVerifier :: "crypto \<Rightarrow> bytes go \<Rightarrow> string \<Rightarrow> scram_verifier go" where
  "NewScramVerifier cr rnd password =
     (case rnd of
        Err e \<Rightarrow> Err e
      | Panic \<Rightarrow> Panic
      | Ok salt \<Rightarrow>
          (let saltedPassword = pbkdf2 cr password salt scramIterCount;
               clientKey = hmacSHA256 cr saltedPassword ''Client Key'';
               storedKey = sha256Sum cr clientKey;
               serverKey = hmacSHA256 cr saltedPassword ''Server Key''
           in Ok \<lparr>Salt = salt, IterCount = scramIterCount, StoredKey = storedKey, ServerKey = serverKey\<rparr>))"

record scram_exchange =
  verifier :: scram_verifier
  clientNonce :: string
  serverNonce :: string
  clientFirst :: string
  serverFirst :: string

definition NewScramExchange :: "scram_verifier \<Rightarrow> scram_exchange" where
  "NewScramExchange v =
     \<lparr>verifier = v, clientNonce = [], serverNonce = [], clientFirst = [], serverFirst = []\<rparr>"

definition scan_nonce :: "string list \<Rightarrow> scram_exchange \<Rightarrow> scram_exchange" where
  "scan_nonce kvs e =
     foldl (\<lambda>e kv. if HasPrefix kv ''r='' then e\<lparr>clientNonce := TrimPrefix kv ''r=''\<rparr> else e) e kvs"

definition ServerFirst :: "crypto \<Rightarrow> bytes go \<Rightarrow> string \<Rightarrow> scram_exchange \<Rightarrow> string go \<times> scram_exchange" where
  "ServerFirst cr rnd initial e =
     (let parts = SplitN initial (CHR '','') 4 in
      if length parts < 4 then (Err (Errorf ''scram: malformed client-first''), e)
      else
        (let bare = parts ! 2 @ '','' @ parts ! 3;
             e1 = scan_nonce (Split bare (CHR '','')) e in
         if clientNonce e1 = [] then (Err (Errorf ''scram: missing client nonce''), e1)
         else (case rnd of
                 Err er \<Rightarrow> (Err er, e1)
               | Panic \<Rightarrow> (Panic, e1)
               | Ok srvBytes \<Rightarrow>
                   (let sn = b64enc cr srvBytes;
                        msg = ''r='' @ clientNonce e1 @ sn @ '',s='' @ b64enc cr (Salt (verifier e1)) @
                              '',i='' @ Itoa (int (IterCount (verifier e1)))
                    in (Ok msg, e1\<lparr>serverNonce := sn, clientFirst := bare, serverFirst := msg\<rparr>)))))"

definition scram_parts :: "string \<Rightarrow> (string \<rightharpoonup> string)" where
  "scram_parts clientFinal =
     foldl (\<lambda>m kv. case Index kv ''='' of
              Some i \<Rightarrow> if 0 < i then m(take i kv \<mapsto> drop (i + 1) kv) else m
            | None \<Rightarrow> m) Map.empty (Split clientFinal (CHR '',''))"

definition get_or_empty :: "(string \<rightharpoonup> string) \<Rightarrow> string \<Rightarrow> string" where
  "get_or_empty m k = (case m k of Some v \<Rightarrow> v | None \<Rightarrow> [])"

definition xor_byte :: "byte \<Rightarrow> byte \<Rightarrow> byte" where
  "xor_byte a b = low_byte (word_of_byte a XOR word_of_byte b :: 8 word)"

definition xor_bytes :: "bytes \<Rightarrow> bytes \<Rightarrow> bytes" where
  "xor_bytes a b =
     (let n = min (length a) (length b) in map (\<lambda>i. xor_byte (a ! i) (b ! i)) [0..<n])"

definition ServerFinal :: "crypto \<Rightarrow> scram_exchange \<Rightarrow> string \<Rightarrow> string go" where
  "ServerFinal cr e clientFinal =
     (let parts = scram_parts clientFinal in
      case parts ''p'' of
        None \<Rightarrow> Err (Errorf ''scram: missing client proof'')
      | Some clientProofB64 \<Rightarrow>
          bind_go (b64dec cr clientProofB64) (\<lambda>clientProof.
            let channelBinding = get_or_empty parts ''c'';
                nonce = get_or_empty parts ''r'';
                withoutProof = ''c='' @ channelBinding @ '',r='' @ nonce;
                authMessage = clientFirst e @ '','' @ serverFirst e @ '','' @ withoutProof;
                clientSignature = hmacSHA256 cr (StoredKey (verifier e)) authMessage;
                clientKey = xor_bytes clientProof clientSignature;
                storedKeyDerived = sha256Sum cr clientKey
            in if storedKeyDerived \<noteq> StoredKey (verifier e) then Err (Errorf ''scram: bad password'')
               else Ok (''v='' @ b64enc cr (hmacSHA256 cr (ServerKey (verifier e)) authMessage))))"

section \<open>The client, by RFC 5802\<close>

definition client_first :: "string \<Rightarrow> string \<Rightarrow> string" where
  "client_first user cnonce = ''n,,n='' @ user @ '',r='' @ cnonce"

text \<open>The proof a client that knows \<open>password\<close> computes for an authentication message.\<close>

definition client_proof :: "crypto \<Rightarrow> string \<Rightarrow> bytes \<Rightarrow> string \<Rightarrow> bytes" where
  "client_proof cr password salt authMessage =
     (let ck = hmacSHA256 cr (pbkdf2 cr password salt 4096) ''Client Key''
      in xor_bytes ck (hmacSHA256 cr (sha256Sum cr ck) authMessage))"

definition client_final :: "crypto \<Rightarrow> string \<Rightarrow> string \<Rightarrow> bytes \<Rightarrow> string" where
  "client_final cr cb nonce proof = ''c='' @ cb @ '',r='' @ nonce @ '',p='' @ b64enc cr proof"

section \<open>Lemmas\<close>

lemma word8_byte [simp]: "word_of_byte (low_byte (w :: 8 word)) = w"
  by (rule bit_word_eqI) (simp add: bit_word_of_low_byte)

lemma xor_byte_cancel: "xor_byte (xor_byte a b) b = a"
  by (simp add: xor_byte_def low_byte_word_of_byte xor.assoc)

lemma xor_bytes_cancel: "length a = length b \<Longrightarrow> xor_bytes (xor_bytes a b) b = a"
  by (auto simp: xor_bytes_def Let_def xor_byte_cancel intro: nth_equalityI)

lemma Index_second: "k \<noteq> CHR ''='' \<Longrightarrow> Index (k # CHR ''='' # v) ''='' = Some 1"
  by (simp add: HasPrefix_def)

lemma scram_parts_client_final:
  assumes "CHR '','' \<notin> set cb" and "CHR '','' \<notin> set nonce" and "CHR '','' \<notin> set (b64enc cr pr)"
  shows "scram_parts (client_final cr cb nonce pr) = [''c'' \<mapsto> cb, ''r'' \<mapsto> nonce, ''p'' \<mapsto> b64enc cr pr]"
proof -
  let ?c = "CHR ''c'' # CHR ''='' # cb" and ?r = "CHR ''r'' # CHR ''='' # nonce"
  let ?p = "CHR ''p'' # CHR ''='' # b64enc cr pr"
  have "client_final cr cb nonce pr = ?c @ CHR '','' # (?r @ CHR '','' # ?p)"
    by (simp add: client_final_def)
  then have "Split (client_final cr cb nonce pr) (CHR '','') = [?c, ?r, ?p]"
    using assms by (simp only: Split_append_sep Split_single) (simp add: Split_append_sep Split_single)
  moreover have "Index ?c ''='' = Some 1" "Index ?r ''='' = Some 1" "Index ?p ''='' = Some 1"
    by (rule Index_second, simp)+
  ultimately show ?thesis by (simp add: scram_parts_def del: Index.simps)
qed

lemma Split_length_ge2: "sep \<in> set s \<Longrightarrow> 2 \<le> length (Split s sep)"
  by (induction s) (auto split: list.splits simp: Suc_le_eq)

lemma ServerFirst_client_first:
  assumes "CHR '','' \<notin> set user" and "CHR '','' \<notin> set cnonce" and "cnonce \<noteq> []"
  shows "\<exists>e'. ServerFirst cr (Ok srv) (client_first user cnonce) (NewScramExchange v) = (Ok (serverFirst e'), e') \<and>
    verifier e' = v \<and> clientNonce e' = cnonce \<and> serverNonce e' = b64enc cr srv \<and>
    clientFirst e' = ''n='' @ user @ '',r='' @ cnonce \<and>
    serverFirst e' = ''r='' @ cnonce @ b64enc cr srv @ '',s='' @ b64enc cr (Salt v) @ '',i='' @ Itoa (int (IterCount v))"
proof -
  let ?u = "CHR ''n'' # CHR ''='' # user" and ?r = "CHR ''r'' # CHR ''='' # cnonce"
  have bare: "Split (''n='' @ user @ '',r='' @ cnonce) (CHR '','') = [?u, ?r]"
    using assms Split_append_sep [of "CHR '',''" ?u ?r] Split_single [of "CHR '',''" ?r] by simp
  have "Split (client_first user cnonce) (CHR '','') = [''n'', [], ?u, ?r]"
    using assms bare by (simp add: client_first_def)
  then have "SplitN (client_first user cnonce) (CHR '','') 4 = [''n'', [], ?u, ?r]"
    by (simp add: SplitN_def)
  moreover have "scan_nonce [?u, ?r] (NewScramExchange v) = (NewScramExchange v)\<lparr>clientNonce := cnonce\<rparr>"
    by (simp add: scan_nonce_def HasPrefix_def TrimPrefix_def)
  ultimately show ?thesis
    using assms bare by (simp add: ServerFirst_def Let_def NewScramExchange_def)
qed

lemma NewScramVerifier_Ok:
  assumes "NewScramVerifier cr (Ok salt) password = Ok v"
  shows "Salt v = salt" and "IterCount v = 4096"
    and "StoredKey v = sha256Sum cr (hmacSHA256 cr (pbkdf2 cr password salt 4096) ''Client Key'')"
  using assms by (auto simp: NewScramVerifier_def Let_def scramIterCount_def)

lemma ServerFinal_accepts:
  assumes hmac_len: "\<And>k m. length (hmacSHA256 cr k m) = 32"
    and b64: "\<And>x. b64dec cr (b64enc cr x) = Ok x" "\<And>x. CHR '','' \<notin> set (b64enc cr x)"
    and v: "NewScramVerifier cr (Ok salt) password = Ok (verifier e)"
    and "CHR '','' \<notin> set cb" and "CHR '','' \<notin> set nonce"
    and auth: "auth = clientFirst e @ '','' @ serverFirst e @ '',c='' @ cb @ '',r='' @ nonce"
  shows "ServerFinal cr e (client_final cr cb nonce (client_proof cr password salt auth)) =
    Ok (''v='' @ b64enc cr (hmacSHA256 cr (ServerKey (verifier e)) auth))"
proof -
  define ck where "ck = hmacSHA256 cr (pbkdf2 cr password salt 4096) ''Client Key''"
  have sk: "StoredKey (verifier e) = sha256Sum cr ck"
    using NewScramVerifier_Ok [OF v] by (simp add: ck_def)
  have "xor_bytes (client_proof cr password salt auth) (hmacSHA256 cr (StoredKey (verifier e)) auth) = ck"
    using xor_bytes_cancel [of ck "hmacSHA256 cr (StoredKey (verifier e)) auth"]
    by (simp add: client_proof_def Let_def sk hmac_len flip: ck_def) (simp add: ck_def hmac_len)
  then show ?thesis
    using assms(5,6) b64 sk auth
    by (simp add: ServerFinal_def Let_def scram_parts_client_final get_or_empty_def)
qed

section \<open>Properties\<close>

text \<open>
  C11. SCRAM completes for a client that knows the password: with the verifier derived from the
  password, the client-first message is answered with the combined nonce, the salt and the
  iteration count, and the client-final message built from them by RFC 5802 is accepted with the
  server signature over the same authentication message.
\<close>

theorem scram_completes:
  assumes hmac_len: "\<And>k m. length (hmacSHA256 cr k m) = 32"
    and b64: "\<And>x. b64dec cr (b64enc cr x) = Ok x" "\<And>x. CHR '','' \<notin> set (b64enc cr x)"
    and v: "NewScramVerifier cr (Ok salt) password = Ok v"
    and names: "CHR '','' \<notin> set user" "CHR '','' \<notin> set cnonce" "cnonce \<noteq> []" "CHR '','' \<notin> set cb"
  shows "\<exists>e sf auth. ServerFirst cr (Ok srv) (client_first user cnonce) (NewScramExchange v) = (Ok sf, e) \<and>
    sf = ''r='' @ cnonce @ b64enc cr srv @ '',s='' @ b64enc cr salt @ '',i=4096'' \<and>
    auth = ''n='' @ user @ '',r='' @ cnonce @ '','' @ sf @ '',c='' @ cb @ '',r='' @ cnonce @ b64enc cr srv \<and>
    ServerFinal cr e (client_final cr cb (cnonce @ b64enc cr srv) (client_proof cr password salt auth)) =
      Ok (''v='' @ b64enc cr (hmacSHA256 cr (ServerKey v) auth))"
proof -
  note sv = NewScramVerifier_Ok(1,2) [OF v]
  have it: "Itoa 4096 = ''4096''" by code_simp
  obtain e where e: "ServerFirst cr (Ok srv) (client_first user cnonce) (NewScramExchange v) = (Ok (serverFirst e), e)"
    "verifier e = v" "clientFirst e = ''n='' @ user @ '',r='' @ cnonce"
    "serverFirst e = ''r='' @ cnonce @ b64enc cr srv @ '',s='' @ b64enc cr salt @ '',i=4096''"
    using ServerFirst_client_first [OF names(1-3), of cr srv v] by (auto simp: sv it)
  define auth where
    "auth = clientFirst e @ '','' @ serverFirst e @ '',c='' @ cb @ '',r='' @ cnonce @ b64enc cr srv"
  have "ServerFinal cr e (client_final cr cb (cnonce @ b64enc cr srv) (client_proof cr password salt auth)) =
      Ok (''v='' @ b64enc cr (hmacSHA256 cr (ServerKey v) auth))"
    using ServerFinal_accepts [of cr salt password e cb "cnonce @ b64enc cr srv" auth] hmac_len b64 v names e(2)
    by (simp add: auth_def)
  moreover have "auth = ''n='' @ user @ '',r='' @ cnonce @ '','' @ serverFirst e @ '',c='' @ cb @ '',r='' @ cnonce @ b64enc cr srv"
    unfolding auth_def e(3) by simp
  ultimately show ?thesis using e(1,4) by blast
qed

text \<open>A crypto record that satisfies the hypotheses: hex digits stand for base64.\<close>

definition toy_enc :: "bytes \<Rightarrow> string" where
  "toy_enc x = concat (map (\<lambda>c. [hex_digit (of_char c div 16), hex_digit (of_char c mod 16)]) x)"

definition hex_val :: "char \<Rightarrow> nat" where
  "hex_val c = (let n = of_char c in if n < 58 then n - 48 else n - 87)"

fun toy_dec :: "string \<Rightarrow> bytes" where
  "toy_dec (a # b # s) = char_of (16 * hex_val a + hex_val b) # toy_dec s"
| "toy_dec _ = []"

definition toy_crypto :: crypto where
  "toy_crypto = \<lparr>pbkdf2 = (\<lambda>p s n. p @ s), hmacSHA256 = (\<lambda>k m. take 32 (k @ m @ replicate 32 (CHR ''0''))),
     sha256Sum = id, b64enc = toy_enc, b64dec = (\<lambda>s. Ok (toy_dec s))\<rparr>"

lemma hex_val_digit: "d < 16 \<Longrightarrow> hex_val (hex_digit d) = d"
  by (simp add: hex_val_def hex_digit_def Let_def)

lemma of_char_nibbles: "(of_char c :: nat) div 16 < 16" "(of_char c :: nat) mod 16 < 16"
proof -
  have "(of_char c :: nat) < 16 * 16" by simp
  then show "(of_char c :: nat) div 16 < 16" by (rule less_mult_imp_div_less)
qed simp

lemma toy_dec_enc: "toy_dec (toy_enc x) = x"
proof (induction x)
  case (Cons c x)
  have "toy_dec (toy_enc (c # x)) = char_of (16 * (of_char c div 16 :: nat) + of_char c mod 16) # toy_dec (toy_enc x)"
    by (simp add: toy_enc_def hex_val_digit of_char_nibbles)
  also have "\<dots> = c # x"
    using Cons by (simp only: mult_div_mod_eq) simp
  finally show ?case .
qed (simp add: toy_enc_def)

lemma comma_not_hex: "d < 16 \<Longrightarrow> hex_digit d \<noteq> CHR '',''"
proof
  assume "d < 16" "hex_digit d = CHR '',''"
  then have "(of_char (hex_digit d) :: nat) = 44" by simp
  then show False using \<open>d < 16\<close> by (auto simp: hex_digit_def split: if_splits)
qed

lemma toy_enc_no_comma: "CHR '','' \<notin> set (toy_enc x)"
proof (induction x)
  case (Cons c x)
  have "hex_digit (of_char c div 16) \<noteq> CHR '',''" "hex_digit (of_char c mod 16) \<noteq> CHR '',''"
    by (simp_all add: comma_not_hex of_char_nibbles)
  with Cons show ?case by (auto simp: toy_enc_def)
qed (simp add: toy_enc_def)

lemma toy_crypto_laws:
  "length (hmacSHA256 toy_crypto k m) = 32" "b64dec toy_crypto (b64enc toy_crypto x) = Ok x"
  "CHR '','' \<notin> set (b64enc toy_crypto x)"
  by (simp_all add: toy_crypto_def toy_dec_enc toy_enc_no_comma)

theorem scram_completes_witness:
  "\<exists>v e sf auth. NewScramVerifier toy_crypto (Ok ''salt'') ''pencil'' = Ok v \<and>
    ServerFirst toy_crypto (Ok ''srv'') (client_first ''u'' ''cn'') (NewScramExchange v) = (Ok sf, e) \<and>
    ServerFinal toy_crypto e (client_final toy_crypto ''biws'' (''cn'' @ toy_enc ''srv'') (client_proof toy_crypto ''pencil'' ''salt'' auth)) =
      Ok (''v='' @ toy_enc (hmacSHA256 toy_crypto (ServerKey v) auth))"
proof -
  obtain v where v: "NewScramVerifier toy_crypto (Ok ''salt'') ''pencil'' = Ok v"
    by (simp add: NewScramVerifier_def Let_def)
  have "\<exists>e sf auth. ServerFirst toy_crypto (Ok ''srv'') (client_first ''u'' ''cn'') (NewScramExchange v) = (Ok sf, e) \<and>
    sf = ''r='' @ ''cn'' @ b64enc toy_crypto ''srv'' @ '',s='' @ b64enc toy_crypto ''salt'' @ '',i=4096'' \<and>
    auth = ''n='' @ ''u'' @ '',r='' @ ''cn'' @ '','' @ sf @ '',c='' @ ''biws'' @ '',r='' @ ''cn'' @ b64enc toy_crypto ''srv'' \<and>
    ServerFinal toy_crypto e (client_final toy_crypto ''biws'' (''cn'' @ b64enc toy_crypto ''srv'') (client_proof toy_crypto ''pencil'' ''salt'' auth)) =
      Ok (''v='' @ b64enc toy_crypto (hmacSHA256 toy_crypto (ServerKey v) auth))"
    by (rule scram_completes [OF _ _ _ v]) (simp_all add: toy_crypto_laws)
  moreover have "b64enc toy_crypto = toy_enc" by (simp add: toy_crypto_def)
  ultimately show ?thesis using v by metis
qed

text \<open>
  The server accepts a client-final message only with a proof that opens to a preimage of the
  stored key under this exchange's own first messages, but it never compares the nonce in that
  message with the one it issued: a message carrying any other nonce is accepted as long as its
  proof is computed over that nonce (RFC 5802 makes the server verify it).
\<close>

theorem scram_nonce_not_checked:
  assumes hmac_len: "\<And>k m. length (hmacSHA256 cr k m) = 32"
    and b64: "\<And>x. b64dec cr (b64enc cr x) = Ok x" "\<And>x. CHR '','' \<notin> set (b64enc cr x)"
    and "NewScramVerifier cr (Ok salt) password = Ok (verifier e)"
    and "CHR '','' \<notin> set cb" and "CHR '','' \<notin> set nonce" and "nonce \<noteq> clientNonce e @ serverNonce e"
  shows "\<exists>sig. ServerFinal cr e (client_final cr cb nonce
     (client_proof cr password salt (clientFirst e @ '','' @ serverFirst e @ '',c='' @ cb @ '',r='' @ nonce))) = Ok sig"
  using ServerFinal_accepts [OF assms(1-6)] by blast

theorem scram_nonce_not_checked_witness:
  "\<exists>e sig. clientNonce e @ serverNonce e = ''cnsn'' \<and>
     ServerFinal toy_crypto e (client_final toy_crypto ''biws'' ''replayed''
       (client_proof toy_crypto ''pencil'' ''salt'' (clientFirst e @ '','' @ serverFirst e @ '',c='' @ ''biws'' @ '',r='' @ ''replayed''))) = Ok sig"
proof -
  obtain v where v: "NewScramVerifier toy_crypto (Ok ''salt'') ''pencil'' = Ok v"
    by (simp add: NewScramVerifier_def Let_def)
  let ?e = "\<lparr>verifier = v, clientNonce = ''cn'', serverNonce = ''sn'', clientFirst = ''n=u,r=cn'', serverFirst = ''r=cnsn''\<rparr>"
  have "\<exists>sig. ServerFinal toy_crypto ?e (client_final toy_crypto ''biws'' ''replayed''
       (client_proof toy_crypto ''pencil'' ''salt'' (clientFirst ?e @ '','' @ serverFirst ?e @ '',c='' @ ''biws'' @ '',r='' @ ''replayed''))) = Ok sig"
    by (rule scram_nonce_not_checked) (simp_all add: toy_crypto_laws v)
  then show ?thesis by (intro exI [of _ ?e]) simp
qed

end
