(* ===== verification/Wire_Codec.thy ===== *)
theory Wire_Codec
  imports Go_Prelude
begin

text \<open>
  The Postgres v3 wire codec, \<^verbatim>\<open>internal/protocols/pgwire/protocol.go\<close>: the readers of
  startup messages and typed frames, and the frame writers.

  The input side of a connection (\<^verbatim>\<open>bufio.Reader\<close>) is the list of bytes not yet read,
  which a reader returns updated. The output side (\<^verbatim>\<open>bufio.Writer\<close>) is the record
  \<open>writer\<close>: bytes accepted, bytes sent to the peer by a flush, and bufio's sticky error.
  The 32 KiB buffer is taken as unbounded, so bytes leave at \<open>Flush\<close>; the order of the
  bytes does not depend on it. \<open>w_broken\<close> is the state of the peer: a flush towards a
  broken peer fails, and every later write fails too.

  The theory ends with a reference decoder for the messages the server writes (what a client
  does with them), the round-trip theorems and the bounds on what a reader accepts.
\<close>

section \<open>Message types\<close>

definition MsgQuery :: byte where [simp]: "MsgQuery = CHR ''Q''"
definition MsgParse :: byte where [simp]: "MsgParse = CHR ''P''"
definition MsgBind :: byte where [simp]: "MsgBind = CHR ''B''"
definition MsgExecute :: byte where [simp]: "MsgExecute = CHR ''E''"
definition MsgDescribe :: byte where [simp]: "MsgDescribe = CHR ''D''"
definition MsgSync :: byte where [simp]: "MsgSync = CHR ''S''"
definition MsgFlush :: byte where [simp]: "MsgFlush = CHR ''H''"
definition MsgClose :: byte where [simp]: "MsgClose = CHR ''C''"
definition MsgTerminate :: byte where [simp]: "MsgTerminate = CHR ''X''"
definition MsgPasswordMsg :: byte where [simp]: "MsgPasswordMsg = CHR ''p''"

definition BMsgAuthentication :: byte where [simp]: "BMsgAuthentication = CHR ''R''"
definition BMsgBackendKeyData :: byte where [simp]: "BMsgBackendKeyData = CHR ''K''"
definition BMsgBindComplete :: byte where [simp]: "BMsgBindComplete = CHR ''2''"
definition BMsgCloseComplete :: byte where [simp]: "BMsgCloseComplete = CHR ''3''"
definition BMsgCommandComplete :: byte where [simp]: "BMsgCommandComplete = CHR ''C''"
definition BMsgDataRow :: byte where [simp]: "BMsgDataRow = CHR ''D''"
definition BMsgEmptyQueryResp :: byte where [simp]: "BMsgEmptyQueryResp = CHR ''I''"
definition BMsgErrorResponse :: byte where [simp]: "BMsgErrorResponse = CHR ''E''"
definition BMsgNoData :: byte where [simp]: "BMsgNoData = CHR ''n''"
definition BMsgParameterDesc :: byte where [simp]: "BMsgParameterDesc = CHR ''t''"
definition BMsgParameterStatus :: byte where [simp]: "BMsgParameterStatus = CHR ''S''"
definition BMsgParseComplete :: byte where [simp]: "BMsgParseComplete = CHR ''1''"
definition BMsgReadyForQuery :: byte where [simp]: "BMsgReadyForQuery = CHR ''Z''"
definition BMsgRowDescription :: byte where [simp]: "BMsgRowDescription = CHR ''T''"
definition BMsgPortalSuspended :: byte where [simp]: "BMsgPortalSuspended = CHR ''s''"

definition AuthOK :: "32 word" where [simp]: "AuthOK = 0"
definition AuthCleartextPassword :: "32 word" where [simp]: "AuthCleartextPassword = 3"

definition OIDBool :: "32 word" where [simp]: "OIDBool = 16"
definition OIDBytea :: "32 word" where [simp]: "OIDBytea = 17"
definition OIDInt8 :: "32 word" where [simp]: "OIDInt8 = 20"
definition OIDInt4 :: "32 word" where [simp]: "OIDInt4 = 23"
definition OIDText :: "32 word" where [simp]: "OIDText = 25"
definition OIDFloat4 :: "32 word" where [simp]: "OIDFloat4 = 700"
definition OIDFloat8 :: "32 word" where [simp]: "OIDFloat8 = 701"
definition OIDDate :: "32 word" where [simp]: "OIDDate = 1082"
definition OIDTime :: "32 word" where [simp]: "OIDTime = 1083"
definition OIDTimestamptz :: "32 word" where [simp]: "OIDTimestamptz = 1184"
definition OIDNumeric :: "32 word" where [simp]: "OIDNumeric = 1700"
definition OIDJSONB :: "32 word" where [simp]: "OIDJSONB = 3802"
definition OIDUUID :: "32 word" where [simp]: "OIDUUID = 2950"

section \<open>Data\<close>

text \<open>The signed 16- and 32-bit fields are kept as words, read with \<open>sint\<close>.\<close>

record pg_field =
  f_Name :: string
  f_TableOID :: "32 word"
  f_ColumnAttrNo :: "16 word"
  f_TypeOID :: "32 word"
  f_TypeSize :: "16 word"
  f_TypeModifier :: "32 word"
  f_Format :: "16 word"

record cancel_key =
  PID :: "32 word"
  Secret :: "32 word"

record startup_message =
  ProtocolVersion :: "32 word"
  Parameters :: "string \<rightharpoonup> string"
  CancelKey :: "cancel_key option"

record frame =
  fr_Type :: byte
  fr_Body :: bytes

definition sslRequestMagic :: "32 word" where [simp]: "sslRequestMagic = 80877103"
definition cancelRequestMagic :: "32 word" where [simp]: "cancelRequestMagic = 80877102"

section \<open>Readers\<close>

text \<open>\<^verbatim>\<open>io.ReadFull\<close> of \<open>n\<close> bytes: what it read, and the rest of the stream.\<close>

definition ReadFull :: "nat \<Rightarrow> bytes \<Rightarrow> bytes go \<times> bytes" where
  "ReadFull n r =
     (if n \<le> length r then (Ok (take n r), drop n r)
      else if r = [] then (Err EOF, []) else (Err UnexpectedEOF, []))"

fun readCString_from :: "nat \<Rightarrow> bytes \<Rightarrow> bytes \<Rightarrow> string \<times> nat" where
  "readCString_from i acc [] = ([], 0)"
| "readCString_from i acc (c # cs) =
     (if c = CHR 0x00 then (rev acc, i + 1) else readCString_from (i + 1) (c # acc) cs)"

definition readCString :: "bytes \<Rightarrow> string \<times> nat" where
  "readCString b = readCString_from 0 [] b"

text \<open>The loop of \<^verbatim>\<open>ReadStartupMessage\<close> over the parameter section.\<close>

lemma readCString_from_bounds:
  "readCString_from i acc b = (s, n) \<Longrightarrow> n = 0 \<or> i < n \<and> n \<le> i + length b"
  by (induction i acc b rule: readCString_from.induct) (auto split: if_splits)

lemma readCString_bounds: "readCString b = (s, n) \<Longrightarrow> n \<le> length b"
  using readCString_from_bounds [of 0 "[]" b s n] by (auto simp: readCString_def)

function startup_params :: "bytes \<Rightarrow> (string \<rightharpoonup> string) \<Rightarrow> (string \<rightharpoonup> string)" where
  "startup_params rest params =
     (if 1 < length rest then
        (let (k, n) = readCString rest in
         if n = 0 then params
         else (let rest1 = drop n rest; (v, n2) = readCString rest1; rest2 = drop n2 rest1 in
               if k = [] then params else startup_params rest2 (params(k \<mapsto> v))))
      else params)"
  by pat_completeness auto
termination
  by (relation "measure (\<lambda>(rest, _). length rest)") auto

declare startup_params.simps [simp del]

type_synonym startup_result = "startup_message option \<times> bool \<times> bool \<times> go_error option"

definition ReadStartupMessage :: "bytes \<Rightarrow> startup_result \<times> bytes" where
  "ReadStartupMessage r =
     (case ReadFull 4 r of
        (Err e, r1) \<Rightarrow> ((None, False, False, Some e), r1)
      | (Panic, r1) \<Rightarrow> ((None, False, False, Some EOF), r1)
      | (Ok lenBuf, r1) \<Rightarrow>
          (let len = unat (Uint32 lenBuf) in
           if len < 8 \<or> len > 2 ^ 20 then
             ((None, False, False, Some (Errorf (''startup length out of range: '' @ Itoa (int len)))), r1)
           else
             (case ReadFull (len - 4) r1 of
                (Err e, r2) \<Rightarrow> ((None, False, False, Some e), r2)
              | (Panic, r2) \<Rightarrow> ((None, False, False, Some EOF), r2)
              | (Ok body, r2) \<Rightarrow>
                  (let version = Uint32 (take 4 body) in
                   if version = sslRequestMagic then ((None, True, False, None), r2)
                   else if version = cancelRequestMagic then
                     (if length body < 12
                      then ((None, False, True, Some (Errorf ''cancel request truncated'')), r2)
                      else ((Some \<lparr>ProtocolVersion = 0, Parameters = Map.empty,
                               CancelKey = Some \<lparr>PID = Uint32 (drop 4 body), Secret = Uint32 (drop 8 body)\<rparr>\<rparr>,
                             False, True, None), r2))
                   else ((Some \<lparr>ProtocolVersion = version,
                            Parameters = startup_params (drop 4 body) Map.empty,
                            CancelKey = None\<rparr>, False, False, None), r2)))))"

definition ReadFrame :: "bytes \<Rightarrow> frame go \<times> bytes" where
  "ReadFrame r =
     (case r of
        [] \<Rightarrow> (Err EOF, [])
      | t # r0 \<Rightarrow>
          (case ReadFull 4 r0 of
             (Err e, r1) \<Rightarrow> (Err e, r1)
           | (Panic, r1) \<Rightarrow> (Panic, r1)
           | (Ok lenBuf, r1) \<Rightarrow>
               (let len = unat (Uint32 lenBuf) in
                if len < 4 \<or> len > 2 ^ 24 then
                  (Err (Errorf (''frame length out of range: '' @ Itoa (int len))), r1)
                else
                  (case ReadFull (len - 4) r1 of
                     (Err e, r2) \<Rightarrow> (Err e, r2)
                   | (Panic, r2) \<Rightarrow> (Panic, r2)
                   | (Ok body, r2) \<Rightarrow> (Ok \<lparr>fr_Type = t, fr_Body = body\<rparr>, r2)))))"

section \<open>Writers\<close>

record writer =
  w_pending :: bytes
  w_sent :: bytes
  w_err :: bool
  w_broken :: bool

type_synonym write_op = "writer \<Rightarrow> writer \<times> go_error option"

definition NewWriter :: "bool \<Rightarrow> writer" where
  "NewWriter broken = \<lparr>w_pending = [], w_sent = [], w_err = False, w_broken = broken\<rparr>"

definition Write :: "bytes \<Rightarrow> write_op" where
  "Write bs w = (if w_err w then (w, Some WriteFailed) else (w\<lparr>w_pending := w_pending w @ bs\<rparr>, None))"

definition Flush :: write_op where
  "Flush w =
     (if w_err w then (w, Some WriteFailed)
      else if w_broken w then (w\<lparr>w_err := True\<rparr>, Some WriteFailed)
      else (w\<lparr>w_sent := w_sent w @ w_pending w, w_pending := []\<rparr>, None))"

definition writeFrame :: "byte \<Rightarrow> bytes \<Rightarrow> write_op" where
  "writeFrame t body w =
     (let hdr = t # PutUint32 (word_of_nat (length body + 4)) in
      case Write hdr w of
        (w1, Some e) \<Rightarrow> (w1, Some e)
      | (w1, None) \<Rightarrow> Write body w1)"

definition WriteAuthOK :: write_op where
  "WriteAuthOK = writeFrame BMsgAuthentication (PutUint32 AuthOK)"

definition WriteAuthCleartext :: write_op where
  "WriteAuthCleartext = writeFrame BMsgAuthentication (PutUint32 AuthCleartextPassword)"

definition WriteParameterStatus :: "string \<Rightarrow> string \<Rightarrow> write_op" where
  "WriteParameterStatus name val = writeFrame BMsgParameterStatus (name @ [CHR 0x00] @ val @ [CHR 0x00])"

definition WriteBackendKeyData :: "32 word \<Rightarrow> 32 word \<Rightarrow> write_op" where
  "WriteBackendKeyData pid secret = writeFrame BMsgBackendKeyData (PutUint32 pid @ PutUint32 secret)"

definition WriteReadyForQuery :: "byte \<Rightarrow> write_op" where
  "WriteReadyForQuery status = writeFrame BMsgReadyForQuery [status]"

definition MaxColumns :: nat where [simp]: "MaxColumns = 1664"

definition appendFieldDesc :: "bytes \<Rightarrow> pg_field \<Rightarrow> bytes" where
  "appendFieldDesc buf f =
     buf @ f_Name f @ [CHR 0x00] @ PutUint32 (f_TableOID f) @ PutUint16 (f_ColumnAttrNo f)
         @ PutUint32 (f_TypeOID f) @ PutUint16 (f_TypeSize f) @ PutUint32 (f_TypeModifier f)
         @ PutUint16 (f_Format f)"

definition WriteRowDescription :: "pg_field list \<Rightarrow> write_op" where
  "WriteRowDescription flds w =
     (if length flds > MaxColumns then
        (w, Some (Errorf (''RowDescription: '' @ Itoa (int (length flds)) @
                          '' columns exceeds PG limit '' @ Itoa (int MaxColumns))))
      else writeFrame BMsgRowDescription
             (foldl appendFieldDesc (PutUint16 (word_of_nat (length flds))) flds) w)"

definition appendU16 :: "bytes \<Rightarrow> 16 word \<Rightarrow> bytes" where
  "appendU16 b v = b @ PutUint16 v"

definition appendI32 :: "bytes \<Rightarrow> 32 word \<Rightarrow> bytes" where
  "appendI32 b v = b @ PutUint32 v"

text \<open>A column value is \<open>None\<close> for a nil slice (SQL NULL) or its text encoding.\<close>

definition appendValue :: "bytes \<Rightarrow> bytes option \<Rightarrow> bytes" where
  "appendValue buf v =
     (case v of None \<Rightarrow> appendI32 buf (- 1)
      | Some x \<Rightarrow> appendI32 buf (word_of_nat (length x)) @ x)"

definition WriteDataRow :: "bytes option list \<Rightarrow> write_op" where
  "WriteDataRow values =
     writeFrame BMsgDataRow (foldl appendValue (appendU16 [] (word_of_nat (length values))) values)"

definition WriteCommandComplete :: "string \<Rightarrow> write_op" where
  "WriteCommandComplete tag = writeFrame BMsgCommandComplete (tag @ [CHR 0x00])"

definition WriteEmptyQueryResponse :: write_op where
  "WriteEmptyQueryResponse = writeFrame BMsgEmptyQueryResp []"

definition WriteParameterDescription :: "32 word list \<Rightarrow> write_op" where
  "WriteParameterDescription paramOIDs =
     writeFrame BMsgParameterDesc
       (foldl (\<lambda>buf oid. buf @ PutUint32 oid) (PutUint16 (word_of_nat (length paramOIDs))) paramOIDs)"

definition WriteParseComplete :: write_op where
  "WriteParseComplete = writeFrame BMsgParseComplete []"

definition WriteBindComplete :: write_op where
  "WriteBindComplete = writeFrame BMsgBindComplete []"

definition WriteCloseComplete :: write_op where
  "WriteCloseComplete = writeFrame BMsgCloseComplete []"

definition WriteNoData :: write_op where
  "WriteNoData = writeFrame BMsgNoData []"

definition WritePortalSuspended :: write_op where
  "WritePortalSuspended = writeFrame BMsgPortalSuspended []"

record error_field =
  ef_Code :: byte
  ef_Val :: string

definition appendField :: "bytes \<Rightarrow> byte \<Rightarrow> string \<Rightarrow> bytes" where
  "appendField b code v = b @ [code] @ v @ [CHR 0x00]"

definition WriteErrorResponse :: "string \<Rightarrow> string \<Rightarrow> string \<Rightarrow> error_field list \<Rightarrow> write_op" where
  "WriteErrorResponse severity sqlstate message extras =
     (let b0 = appendField [] (CHR ''S'') severity;
          b1 = appendField b0 (CHR ''V'') severity;
          b2 = appendField b1 (CHR ''C'') sqlstate;
          b3 = appendField b2 (CHR ''M'') message;
          b4 = foldl (\<lambda>b e. appendField b (ef_Code e) (ef_Val e)) b3 extras
      in writeFrame BMsgErrorResponse (b4 @ [CHR 0x00]))"

section \<open>Frames on the wire\<close>

text \<open>
  A frame as bytes, and the effect of a successful write as the frames it appends. Every writer
  above is \<open>writeFrame\<close> at one frame, so the component proofs reason about frames.
\<close>

definition enc_frame :: "frame \<Rightarrow> bytes" where
  "enc_frame f = fr_Type f # PutUint32 (word_of_nat (length (fr_Body f) + 4)) @ fr_Body f"

abbreviation fr :: "byte \<Rightarrow> bytes \<Rightarrow> frame" where
  "fr t b \<equiv> \<lparr>fr_Type = t, fr_Body = b\<rparr>"

definition emit :: "frame list \<Rightarrow> writer \<Rightarrow> writer" where
  "emit fs w = w\<lparr>w_pending := w_pending w @ concat (map enc_frame fs)\<rparr>"

lemma emit_Nil [simp]: "emit [] w = w"
  by (simp add: emit_def)

lemma emit_emit [simp]: "emit gs (emit fs w) = emit (fs @ gs) w"
  by (simp add: emit_def)

lemma emit_sel [simp]: "w_err (emit fs w) = w_err w" "w_broken (emit fs w) = w_broken w" "w_sent (emit fs w) = w_sent w"
  by (simp_all add: emit_def)

lemma writeFrame_emit:
  "writeFrame t body w = (if w_err w then (w, Some WriteFailed) else (emit [fr t body] w, None))"
  by (simp add: writeFrame_def Write_def emit_def enc_frame_def)

lemma ReadFull_append [simp]: "ReadFull (length bs) (bs @ r) = (Ok bs, r)"
  by (simp add: ReadFull_def)

lemma ReadFull_PutUint32 [simp]: "ReadFull 4 (PutUint32 v @ r) = (Ok (PutUint32 v), r)"
  using ReadFull_append [of "PutUint32 v" r] by simp

lemma ReadFull_never_panics [simp]: "fst (ReadFull n r) \<noteq> Panic"
  by (simp add: ReadFull_def)

lemma Uint32_PutUint32_Nil [simp]: "Uint32 (PutUint32 v) = v"
  using Uint32_PutUint32 [of v "[]"] by simp

lemma Uint16_PutUint16_Nil [simp]: "Uint16 (PutUint16 v) = v"
  using Uint16_PutUint16 [of v "[]"] by simp

lemma unat_word32: "n < 2 ^ 32 \<Longrightarrow> unat (word_of_nat n :: 32 word) = n"
  by (simp add: unat_of_nat)

lemma unat_word16: "n < 2 ^ 16 \<Longrightarrow> unat (word_of_nat n :: 16 word) = n"
  by (simp add: unat_of_nat)

lemma ReadFrame_enc_frame:
  assumes "length (fr_Body f) + 4 \<le> 2 ^ 24"
  shows "ReadFrame (enc_frame f @ r) = (Ok f, r)"
proof -
  have "unat (word_of_nat (length (fr_Body f) + 4) :: 32 word) = length (fr_Body f) + 4"
    using assms by (intro unat_word32) simp
  then show ?thesis
    using assms by (simp add: ReadFrame_def enc_frame_def Let_def)
qed

lemma ReadFull_bounds: "ReadFull n r = (Ok b, r') \<Longrightarrow> length b = n \<and> r = b @ r'"
  by (auto simp: ReadFull_def split: if_splits)

lemma ReadFrame_Ok:
  assumes "ReadFrame r = (Ok f, r')"
  shows "r = enc_frame f @ r' \<and> length (fr_Body f) + 4 \<le> 2 ^ 24"
proof -
  obtain t r0 where r: "r = t # r0" using assms by (cases r) (auto simp: ReadFrame_def)
  obtain lenBuf r1 where l: "ReadFull 4 r0 = (Ok lenBuf, r1)"
    using assms by (auto simp: ReadFrame_def r split: prod.splits go.splits)
  define len where "len = unat (Uint32 lenBuf)"
  have len: "4 \<le> len" "len \<le> 2 ^ 24"
    using assms by (auto simp: ReadFrame_def r l Let_def len_def split: if_splits)
  obtain body where b: "ReadFull (len - 4) r1 = (Ok body, r')" and f: "f = fr t body"
    using assms len by (auto simp: ReadFrame_def r l Let_def len_def split: prod.splits go.splits if_splits)
  from ReadFull_bounds [OF l] have lb: "length lenBuf = 4" "r0 = lenBuf @ r1" by auto
  from ReadFull_bounds [OF b] have bb: "length body = len - 4" "r1 = body @ r'" by auto
  have "word_of_nat (length body + 4) = Uint32 lenBuf"
    using bb len by (simp add: len_def)
  then have "PutUint32 (word_of_nat (length body + 4)) = lenBuf"
    using lb PutUint32_Uint32 by metis
  with r lb bb f len show ?thesis by (simp add: enc_frame_def)
qed

fun ReadFrames :: "nat \<Rightarrow> bytes \<Rightarrow> frame list \<times> bytes" where
  "ReadFrames 0 r = ([], r)"
| "ReadFrames (Suc k) r =
     (case ReadFrame r of (Ok f, r1) \<Rightarrow> (let (fs, r2) = ReadFrames k r1 in (f # fs, r2)) | (_, r1) \<Rightarrow> ([], r1))"

lemma ReadFrames_enc:
  assumes "\<forall>f \<in> set fs. length (fr_Body f) + 4 \<le> 2 ^ 24"
  shows "ReadFrames (length fs) (concat (map enc_frame fs) @ r) = (fs, r)"
  using assms by (induction fs) (auto simp: ReadFrame_enc_frame)

lemma readCString_from_append:
  "CHR 0x00 \<notin> set s \<Longrightarrow> readCString_from i acc (s @ CHR 0x00 # r) = (rev acc @ s, i + length s + 1)"
  by (induction s arbitrary: i acc) auto

lemma readCString_append: "CHR 0x00 \<notin> set s \<Longrightarrow> readCString (s @ CHR 0x00 # r) = (s, length s + 1)"
  by (simp add: readCString_def readCString_from_append)

lemma readCString_from_unterminated: "CHR 0x00 \<notin> set s \<Longrightarrow> readCString_from i acc s = ([], 0)"
  by (induction s arbitrary: i acc) auto

text \<open>What a client sends to open a connection: a length, the version, the parameters and a zero byte.\<close>

definition enc_cstr :: "string \<Rightarrow> bytes" where "enc_cstr s = s @ [CHR 0x00]"

fun enc_params :: "(string \<times> string) list \<Rightarrow> bytes" where
  "enc_params [] = [CHR 0x00]"
| "enc_params ((k, v) # ps) = enc_cstr k @ enc_cstr v @ enc_params ps"

definition enc_startup :: "32 word \<Rightarrow> (string \<times> string) list \<Rightarrow> bytes" where
  "enc_startup version ps = PutUint32 (word_of_nat (8 + length (enc_params ps))) @ PutUint32 version @ enc_params ps"

lemma enc_params_ne: "enc_params ps \<noteq> []" by (cases ps rule: enc_params.cases) (auto simp: enc_cstr_def)

lemma startup_params_enc:
  assumes "\<forall>(k, v) \<in> set ps. k \<noteq> [] \<and> CHR 0x00 \<notin> set k \<and> CHR 0x00 \<notin> set v"
  shows "startup_params (enc_params ps) m = m ++ map_of (rev ps)"
  using assms
proof (induction ps arbitrary: m rule: enc_params.induct)
  case 1
  show ?case by (simp add: startup_params.simps)
next
  case (2 k v ps)
  have k: "k \<noteq> []" "CHR 0x00 \<notin> set k" "CHR 0x00 \<notin> set v" using 2 by auto
  have "startup_params (enc_params ((k, v) # ps)) m = startup_params (enc_params ps) (m(k \<mapsto> v))"
    using k readCString_append [of k "enc_cstr v @ enc_params ps"] readCString_append [of v "enc_params ps"]
    by (subst startup_params.simps) (simp add: enc_cstr_def Let_def)
  also have "\<dots> = m ++ map_of (rev ((k, v) # ps))"
    using 2 by (simp add: map_add_def fun_eq_iff split: option.splits)
  finally show ?case .
qed

lemma startup_roundtrip:
  assumes "\<forall>(k, v) \<in> set ps. k \<noteq> [] \<and> CHR 0x00 \<notin> set k \<and> CHR 0x00 \<notin> set v"
    and "8 + length (enc_params ps) \<le> 2 ^ 20"
    and "version \<noteq> sslRequestMagic" "version \<noteq> cancelRequestMagic"
  shows "ReadStartupMessage (enc_startup version ps @ r) =
     ((Some \<lparr>ProtocolVersion = version, Parameters = map_of (rev ps), CancelKey = None\<rparr>, False, False, None), r)"
proof -
  let ?n = "8 + length (enc_params ps)"
  have u: "unat (word_of_nat ?n :: 32 word) = ?n" using assms(2) by (intro unat_word32) simp
  have rf: "ReadFull (?n - 4) ((PutUint32 version @ enc_params ps) @ r) = (Ok (PutUint32 version @ enc_params ps), r)"
    using ReadFull_append [of "PutUint32 version @ enc_params ps" r] by (simp add: add.commute)
  show ?thesis
    using assms u rf by (simp add: ReadStartupMessage_def enc_startup_def Let_def startup_params_enc)
qed

section \<open>Reference decoders of the server's messages\<close>

text \<open>What a client makes of a \<^verbatim>\<open>DataRow\<close> and of a \<^verbatim>\<open>RowDescription\<close> body.\<close>

fun dec_values :: "nat \<Rightarrow> bytes \<Rightarrow> bytes option list option" where
  "dec_values 0 bs = (if bs = [] then Some [] else None)"
| "dec_values (Suc n) bs =
     (if length bs < 4 then None
      else let l = sint (Uint32 bs); r = drop 4 bs in
        if l = -1 then map_option (\<lambda>vs. None # vs) (dec_values n r)
        else if l < 0 \<or> nat l > length r then None
        else map_option (\<lambda>vs. Some (take (nat l) r) # vs) (dec_values n (drop (nat l) r)))"

definition dec_data_row :: "bytes \<Rightarrow> bytes option list option" where
  "dec_data_row bs = (if length bs < 2 then None else dec_values (unat (Uint16 bs)) (drop 2 bs))"

fun enc_value :: "bytes option \<Rightarrow> bytes" where
  "enc_value None = PutUint32 (- 1)"
| "enc_value (Some x) = PutUint32 (word_of_nat (length x)) @ x"

lemma foldl_append_map: "(\<And>b x. f b x = b @ g x) \<Longrightarrow> foldl f b xs = b @ concat (map g xs)"
  by (induction xs arbitrary: b) auto

lemma WriteDataRow_emit:
  "WriteDataRow vs = writeFrame BMsgDataRow (PutUint16 (word_of_nat (length vs)) @ concat (map enc_value vs))"
proof -
  have "appendValue b v = b @ enc_value v" for b v
    by (simp add: appendValue_def appendI32_def split: option.splits)
  then show ?thesis by (simp add: WriteDataRow_def appendU16_def foldl_append_map)
qed

lemma sint_word32_nat: "n < 2 ^ 31 \<Longrightarrow> sint (word_of_nat n :: 32 word) = int n"
  by (simp add: signed_of_nat signed_take_bit_int_eq_self)

lemma dec_values_enc:
  assumes "\<forall>v x. v \<in> set vs \<and> v = Some x \<longrightarrow> length x < 2 ^ 31"
  shows "dec_values (length vs) (concat (map enc_value vs)) = Some vs"
  using assms
proof (induction vs)
  case (Cons v vs)
  then have IH: "dec_values (length vs) (concat (map enc_value vs)) = Some vs" by auto
  show ?case
  proof (cases v)
    case None
    then show ?thesis using IH by (simp add: Let_def)
  next
    case (Some x)
    then have "length x < 2 ^ 31" using Cons.prems by auto
    from sint_word32_nat [OF this] show ?thesis using IH Some by (simp add: Let_def)
  qed
qed simp

lemma dec_data_row_enc:
  assumes "length vs < 2 ^ 16" "\<forall>v x. v \<in> set vs \<and> v = Some x \<longrightarrow> length x < 2 ^ 31"
  shows "dec_data_row (PutUint16 (word_of_nat (length vs)) @ concat (map enc_value vs)) = Some vs"
  using assms by (simp add: dec_data_row_def unat_word16 dec_values_enc)

fun dec_fields :: "nat \<Rightarrow> bytes \<Rightarrow> pg_field list option" where
  "dec_fields 0 bs = (if bs = [] then Some [] else None)"
| "dec_fields (Suc n) bs =
     (let (name, k) = readCString bs; r = drop k bs in
      if k = 0 \<or> length r < 18 then None
      else map_option (\<lambda>fs. \<lparr>f_Name = name, f_TableOID = Uint32 r, f_ColumnAttrNo = Uint16 (drop 4 r),
               f_TypeOID = Uint32 (drop 6 r), f_TypeSize = Uint16 (drop 10 r),
               f_TypeModifier = Uint32 (drop 12 r), f_Format = Uint16 (drop 16 r)\<rparr> # fs)
             (dec_fields n (drop 18 r)))"

definition dec_row_description :: "bytes \<Rightarrow> pg_field list option" where
  "dec_row_description bs = (if length bs < 2 then None else dec_fields (unat (Uint16 bs)) (drop 2 bs))"

lemma dec_fields_enc:
  assumes "\<forall>f \<in> set flds. CHR 0x00 \<notin> set (f_Name f)"
  shows "dec_fields (length flds) (concat (map (appendFieldDesc []) flds)) = Some flds"
  using assms
proof (induction flds)
  case (Cons f flds)
  let ?t = "concat (map (appendFieldDesc []) flds)"
  let ?d = "PutUint32 (f_TableOID f) @ PutUint16 (f_ColumnAttrNo f) @ PutUint32 (f_TypeOID f) @
      PutUint16 (f_TypeSize f) @ PutUint32 (f_TypeModifier f) @ PutUint16 (f_Format f) @ ?t"
  have "readCString (f_Name f @ CHR 0x00 # ?d) = (f_Name f, length (f_Name f) + 1)"
    using Cons.prems by (intro readCString_append) simp
  moreover have "dec_fields (length flds) ?t = Some flds" using Cons by simp
  ultimately show ?case by (simp add: appendFieldDesc_def [of "[]" f] Let_def)
qed simp

lemma WriteRowDescription_emit:
  "length flds \<le> MaxColumns \<Longrightarrow> WriteRowDescription flds w =
     writeFrame BMsgRowDescription (PutUint16 (word_of_nat (length flds)) @ concat (map (appendFieldDesc []) flds)) w"
  using foldl_append_map [of appendFieldDesc "appendFieldDesc []"]
  by (simp add: WriteRowDescription_def appendFieldDesc_def)

lemma dec_row_description_enc:
  assumes "\<forall>f \<in> set flds. CHR 0x00 \<notin> set (f_Name f)" "length flds \<le> MaxColumns"
  shows "dec_row_description (PutUint16 (word_of_nat (length flds)) @ concat (map (appendFieldDesc []) flds)) = Some flds"
  using assms by (simp add: dec_row_description_def unat_word16 dec_fields_enc)

definition enc_cancel :: "32 word \<Rightarrow> 32 word \<Rightarrow> bytes" where
  "enc_cancel pid secret = PutUint32 16 @ PutUint32 cancelRequestMagic @ PutUint32 pid @ PutUint32 secret"

lemma cancel_roundtrip: "ReadStartupMessage (enc_cancel pid secret @ r) =
    ((Some \<lparr>ProtocolVersion = 0, Parameters = Map.empty, CancelKey = Some \<lparr>PID = pid, Secret = secret\<rparr>\<rparr>, False, True, None), r)"
proof -
  let ?b = "PutUint32 cancelRequestMagic @ PutUint32 pid @ PutUint32 secret"
  have "ReadFull 12 (?b @ r) = (Ok ?b, r)" using ReadFull_append [of ?b r] by simp
  then show ?thesis by (simp add: ReadStartupMessage_def enc_cancel_def Let_def)
qed

lemma ReadStartup_bound:
  assumes "ReadStartupMessage r = ((m, ssl, cancel, None), r')"
  shows "\<exists>p. r = p @ r' \<and> 8 \<le> length p \<and> length p \<le> 2 ^ 20"
proof -
  obtain lenBuf r1 where l: "ReadFull 4 r = (Ok lenBuf, r1)"
    using assms by (auto simp: ReadStartupMessage_def split: prod.splits go.splits)
  define len where "len = unat (Uint32 lenBuf)"
  have len: "8 \<le> len" "len \<le> 2 ^ 20"
    using assms by (auto simp: ReadStartupMessage_def l Let_def len_def split: if_splits)
  obtain body where b: "ReadFull (len - 4) r1 = (Ok body, r')"
    using assms len
    by (auto simp: ReadStartupMessage_def l Let_def len_def split: prod.splits go.splits if_splits)
  from ReadFull_bounds [OF l] ReadFull_bounds [OF b] len show ?thesis
    by (intro exI [of _ "lenBuf @ body"]) simp
qed

lemma frame_eta [simp]: "fr (fr_Type f) (fr_Body f) = f"
  by (cases f) simp

lemma fold_writeFrame:
  "\<not> w_err w \<Longrightarrow> fold (\<lambda>f w. fst (writeFrame (fr_Type f) (fr_Body f) w)) fs w = emit fs w"
  by (induction fs arbitrary: w) (simp_all add: writeFrame_emit)

section \<open>Properties\<close>



text \<open>
  \<open>ReadFrame\<close> on arbitrary bytes from the network never panics; when it returns a frame,
  the bytes it consumed are exactly that frame's encoding and its body is at most 16 MiB less 4
  bytes, so the allocation a peer can cause is bounded.
\<close>

theorem ReadFrame_sound:
  "fst (ReadFrame r) \<noteq> Panic \<and>
   (\<forall>f r'. ReadFrame r = (Ok f, r') \<longrightarrow> r = enc_frame f @ r' \<and> length (fr_Body f) \<le> 2 ^ 24 - 4)"
proof (intro conjI allI impI)
  show "fst (ReadFrame r) \<noteq> Panic"
    by (auto simp: ReadFrame_def ReadFull_def Let_def split: list.splits)
next
  fix f r'
  assume "ReadFrame r = (Ok f, r')"
  from ReadFrame_Ok [OF this]
  show "r = enc_frame f @ r'" "length (fr_Body f) \<le> 2 ^ 24 - 4" by auto
qed

theorem ReadFrame_sound_witness:
  "fst (ReadFrame (enc_frame (fr (CHR ''Q'') ''x''))) \<noteq> Panic \<and>
   enc_frame (fr (CHR ''Q'') ''x'') = enc_frame (fr (CHR ''Q'') ''x'') @ [] \<and>
   length (fr_Body (fr (CHR ''Q'') ''x'')) \<le> 2 ^ 24 - 4"
  using ReadFrame_sound [of "enc_frame (fr (CHR ''Q'') ''x'')"]
    ReadFrame_enc_frame [of "fr (CHR ''Q'') ''x''" "[]"] by simp

text \<open>
  A startup packet with protocol version \<open>version\<close> and a list of non-empty parameter names
  with their values, up to 1 MiB, is parsed by \<open>ReadStartupMessage\<close> into that version and the
  map of the parameters (the last value wins for a repeated name), and nothing behind it is read.
\<close>

theorem ReadStartupMessage_roundtrip:
  assumes "\<forall>(k, v) \<in> set ps. k \<noteq> [] \<and> CHR 0x00 \<notin> set k \<and> CHR 0x00 \<notin> set v"
    and "8 + length (enc_params ps) \<le> 2 ^ 20"
    and "version \<noteq> sslRequestMagic" and "version \<noteq> cancelRequestMagic"
  shows "ReadStartupMessage (enc_startup version ps @ r) =
     ((Some \<lparr>ProtocolVersion = version, Parameters = map_of (rev ps), CancelKey = None\<rparr>,
       False, False, None), r)"
  using assms by (rule startup_roundtrip)

theorem ReadStartupMessage_roundtrip_witness:
  "ReadStartupMessage (enc_startup 196608 [(''user'', ''key''), (''database'', ''acme_bigquery'')] @ ''p'') =
     ((Some \<lparr>ProtocolVersion = 196608,
        Parameters = map_of [(''database'', ''acme_bigquery''), (''user'', ''key'')],
        CancelKey = None\<rparr>, False, False, None), ''p'')"
  using ReadStartupMessage_roundtrip
    [of "[(''user'', ''key''), (''database'', ''acme_bigquery'')]" 196608 "''p''"]
  by (simp add: enc_cstr_def)

text \<open>
  A client that decodes a written \<^verbatim>\<open>DataRow\<close> gets back the column values,
  NULLs included, when the row has fewer than 65536 columns and every value is shorter than 2 GiB.
\<close>

theorem WriteDataRow_roundtrip:
  assumes "\<not> w_err w" and "length vs < 2 ^ 16"
    and "\<forall>x. Some x \<in> set vs \<longrightarrow> length x < 2 ^ 31"
  shows "\<exists>body. WriteDataRow vs w = (emit [fr BMsgDataRow body] w, None) \<and> dec_data_row body = Some vs"
  using assms dec_data_row_enc [of vs] by (auto simp: WriteDataRow_emit writeFrame_emit)

theorem WriteDataRow_roundtrip_witness:
  "\<exists>body. WriteDataRow [Some ''1'', None, Some []] (NewWriter False) =
      (emit [fr BMsgDataRow body] (NewWriter False), None) \<and>
    dec_data_row body = Some [Some ''1'', None, Some []]"
  by (rule WriteDataRow_roundtrip) (auto simp: NewWriter_def)

text \<open>
  \<open>WriteRowDescription\<close> refuses more than 1664 columns without writing a byte, and
  otherwise writes one frame from which a client recovers every field of every column.
\<close>

theorem WriteRowDescription_correct:
  assumes "\<not> w_err w" and "\<forall>f \<in> set flds. CHR 0x00 \<notin> set (f_Name f)"
  shows "if length flds > 1664
         then \<exists>msg. WriteRowDescription flds w = (w, Some (Errorf msg))
         else \<exists>body. WriteRowDescription flds w = (emit [fr BMsgRowDescription body] w, None) \<and>
                     dec_row_description body = Some flds"
proof (cases "length flds > 1664")
  case True
  then show ?thesis by (simp add: WriteRowDescription_def)
next
  case False
  then show ?thesis
    using assms dec_row_description_enc [of flds]
    by (auto simp: WriteRowDescription_emit writeFrame_emit)
qed

theorem WriteRowDescription_correct_witness:
  "\<exists>body. WriteRowDescription
      [\<lparr>f_Name = ''?column?'', f_TableOID = 0, f_ColumnAttrNo = 0, f_TypeOID = OIDInt4,
        f_TypeSize = 4, f_TypeModifier = 0, f_Format = 0\<rparr>] (NewWriter False) =
      (emit [fr BMsgRowDescription body] (NewWriter False), None) \<and>
    dec_row_description body =
      Some [\<lparr>f_Name = ''?column?'', f_TableOID = 0, f_ColumnAttrNo = 0, f_TypeOID = OIDInt4,
        f_TypeSize = 4, f_TypeModifier = 0, f_Format = 0\<rparr>]"
  using WriteRowDescription_correct [of "NewWriter False"
      "[\<lparr>f_Name = ''?column?'', f_TableOID = 0, f_ColumnAttrNo = 0, f_TypeOID = OIDInt4,
        f_TypeSize = 4, f_TypeModifier = 0, f_Format = 0\<rparr>]"]
  by (simp add: NewWriter_def)

end
