(* ===== verification/Control_Store.thy ===== *)
theory Control_Store
  imports Go_Prelude Complex_Main
begin

text \<open>
  The control-plane store, \<^verbatim>\<open>internal/store/db.go\<close> and \<^verbatim>\<open>crypto.go\<close>.

  A Postgres table is the list of its rows in insertion order and a statement of the source is a
  function on those lists, with the UNIQUE and FOREIGN KEY constraints of
  \<^verbatim>\<open>migrations/0001_initial.up.sql\<close> that an insert can violate. \<open>db_fail = Some e\<close>
  is a database that answers the statement with the driver error \<open>e\<close>. \<open>db_now\<close> is
  \<^verbatim>\<open>now()\<close>; \<open>db_next\<close> supplies \<^verbatim>\<open>gen_random_uuid()\<close>, and 0 is
  \<^verbatim>\<open>uuid.Nil\<close>. A \<^verbatim>\<open>QueryRow\<close> without ORDER BY takes the first row in
  insertion order. SHA-256 and AES-GCM are parameters.
\<close>

section \<open>Rows\<close>

record customer =
  c_ID :: uuid
  c_Slug :: string
  c_DisplayName :: string
  c_CreatedAt :: int

record connection =
  cn_ID :: uuid
  cn_CustomerID :: uuid
  cn_WarehouseType :: string
  cn_Name :: string
  cn_StorageMode :: string
  cn_S3Bucket :: "string option"
  cn_S3Prefix :: "string option"
  cn_CreatedAt :: int
  cn_Ciphertext :: bytes
  cn_Nonce :: bytes

record api_key =
  k_ID :: uuid
  k_CustomerID :: uuid
  k_KeyHash :: bytes
  k_KeyPrefix :: string
  k_Description :: "string option"
  k_CreatedAt :: int
  k_LastUsedAt :: "int option"
  k_RevokedAt :: "int option"

record synced_table =
  t_ID :: uuid
  t_ConnectionID :: uuid
  t_SchemaName :: string
  t_TableName :: string
  t_SyncMode :: string
  t_WatermarkColumn :: "string option"
  t_LastSyncAt :: "int option"
  t_LastSnapshotID :: "int option"
  t_LastWatermark :: "string option"
  t_IcebergPath :: "string option"
  t_RowCount :: int
  t_State :: string
  t_LastError :: "string option"

record query_log_entry =
  q_CustomerID :: uuid
  q_ConnectionID :: "uuid option"
  q_APIKeyID :: "uuid option"
  q_UserID :: "uuid option"
  q_DashboardID :: "uuid option"
  q_QueryHash :: string
  q_NormalizedSQL :: string
  q_RouteDecision :: string
  q_FallbackReason :: "string option"
  q_DurationMS :: int
  q_RowsReturned :: int
  q_BytesScanned :: "int option"
  q_EstimatedCostUSD :: "real option"
  q_ErrorCode :: "string option"

record db =
  customers :: "customer list"
  connections :: "connection list"
  api_keys :: "api_key list"
  synced_tables :: "synced_table list"
  query_log :: "query_log_entry list"
  db_now :: int
  db_next :: uuid
  db_fail :: "go_error option"

abbreviation constraint_violation :: go_error where
  "constraint_violation \<equiv> Errorf ''constraint violation''"

section \<open>Credentials\<close>

text \<open>AES-GCM as the standard library's AEAD interface: nonce size, seal and open.\<close>

record aead =
  NonceSize :: nat
  Seal :: "bytes \<Rightarrow> bytes \<Rightarrow> bytes"
  Open :: "bytes \<Rightarrow> bytes \<Rightarrow> bytes go"

definition NewEncryptor :: "(bytes \<Rightarrow> aead) \<Rightarrow> bytes \<Rightarrow> aead go" where
  "NewEncryptor gcm_of key =
     (if length key \<noteq> 32
      then Err (Errorf (''encryption key must be 32 bytes, got '' @ Itoa (int (length key))))
      else Ok (gcm_of key))"

text \<open>\<open>rnd\<close> is what \<^verbatim>\<open>rand.Reader\<close> delivers: the bytes read, or its error.\<close>

definition Encrypt :: "aead \<Rightarrow> bytes go \<Rightarrow> bytes \<Rightarrow> (bytes \<times> bytes) go" where
  "Encrypt e rnd plaintext =
     (case rnd of
        Err er \<Rightarrow> Err (ErrorfW (''nonce: '' @ Error er) er)
      | Panic \<Rightarrow> Panic
      | Ok nonce \<Rightarrow> Ok (Seal e nonce plaintext, nonce))"

definition Decrypt :: "aead \<Rightarrow> bytes \<Rightarrow> bytes \<Rightarrow> bytes go" where
  "Decrypt e ciphertext nonce =
     (if length nonce \<noteq> NonceSize e
      then Err (Errorf (''nonce length mismatch: want '' @ Itoa (int (NonceSize e)) @ '' got '' @ Itoa (int (length nonce))))
      else (case Open e nonce ciphertext of
              Err er \<Rightarrow> Err (ErrorfW (''decrypt: '' @ Error er) er)
            | Panic \<Rightarrow> Panic
            | Ok pt \<Rightarrow> Ok pt))"

definition HashAPIKey :: "(bytes \<Rightarrow> bytes) \<Rightarrow> string \<Rightarrow> bytes" where
  "HashAPIKey sha256 apiKey = sha256 apiKey"

section \<open>Customers\<close>

definition CreateCustomer :: "string \<Rightarrow> string \<Rightarrow> db \<Rightarrow> customer go \<times> db" where
  "CreateCustomer slug displayName d =
     (case db_fail d of Some e \<Rightarrow> (Err e, d)
      | None \<Rightarrow>
          if slug \<in> c_Slug ` set (customers d) then (Err constraint_violation, d)
          else (let c = \<lparr>c_ID = db_next d, c_Slug = slug, c_DisplayName = displayName, c_CreatedAt = db_now d\<rparr>
                in (Ok c, d\<lparr>customers := customers d @ [c], db_next := db_next d + 1\<rparr>)))"

definition GetCustomerBySlug :: "string \<Rightarrow> db \<Rightarrow> customer go" where
  "GetCustomerBySlug slug d =
     (case db_fail d of Some e \<Rightarrow> Err e
      | None \<Rightarrow> (case find (\<lambda>c. c_Slug c = slug) (customers d) of
                   None \<Rightarrow> Err ErrNotFound | Some c \<Rightarrow> Ok c))"

definition ListCustomers :: "db \<Rightarrow> customer list go" where
  "ListCustomers d =
     (case db_fail d of Some e \<Rightarrow> Err e
      | None \<Rightarrow> Ok (sort_key (\<lambda>c. - c_CreatedAt c) (customers d)))"

section \<open>API keys\<close>

definition CreateAPIKey ::
  "(bytes \<Rightarrow> bytes) \<Rightarrow> uuid \<Rightarrow> string \<Rightarrow> string \<Rightarrow> string option \<Rightarrow> db \<Rightarrow> api_key go \<times> db" where
  "CreateAPIKey sha256 customerID apiKey keyPrefix description d =
     (let hash = HashAPIKey sha256 apiKey in
      case db_fail d of Some e \<Rightarrow> (Err e, d)
      | None \<Rightarrow>
          if customerID \<notin> c_ID ` set (customers d) \<or> hash \<in> k_KeyHash ` set (api_keys d)
          then (Err constraint_violation, d)
          else (let k = \<lparr>k_ID = db_next d, k_CustomerID = customerID, k_KeyHash = hash, k_KeyPrefix = keyPrefix,
                         k_Description = description, k_CreatedAt = db_now d, k_LastUsedAt = None,
                         k_RevokedAt = None\<rparr>
                in (Ok k, d\<lparr>api_keys := api_keys d @ [k], db_next := db_next d + 1\<rparr>)))"

definition CustomerIDByAPIKeyHash :: "bytes \<Rightarrow> db \<Rightarrow> uuid go" where
  "CustomerIDByAPIKeyHash hash d =
     (case db_fail d of Some e \<Rightarrow> Err e
      | None \<Rightarrow> (case find (\<lambda>k. k_KeyHash k = hash \<and> k_RevokedAt k = None) (api_keys d) of
                   None \<Rightarrow> Err ErrNotFound | Some k \<Rightarrow> Ok (k_CustomerID k)))"

text \<open>The join of \<^verbatim>\<open>LookupAPIKey\<close>: live keys with the hash, each with its customer.\<close>

definition live_key_rows :: "bytes \<Rightarrow> db \<Rightarrow> (api_key \<times> customer) list" where
  "live_key_rows hash d =
     [(k, c). k \<leftarrow> api_keys d, c \<leftarrow> customers d,
        c_ID c = k_CustomerID k \<and> k_KeyHash k = hash \<and> k_RevokedAt k = None]"

definition LookupAPIKey ::
  "(bytes \<Rightarrow> bytes) \<Rightarrow> string \<Rightarrow> db \<Rightarrow> (uuid \<times> uuid \<times> string) go \<times> db" where
  "LookupAPIKey sha256 apiKey d =
     (case db_fail d of Some e \<Rightarrow> (Err e, d)
      | None \<Rightarrow>
          (case live_key_rows (HashAPIKey sha256 apiKey) d of
             [] \<Rightarrow> (Err ErrNotFound, d)
           | (k, c) # _ \<Rightarrow>
               (Ok (k_ID k, k_CustomerID k, c_Slug c),
                d\<lparr>api_keys := map (\<lambda>x. if k_ID x = k_ID k then x\<lparr>k_LastUsedAt := Some (db_now d)\<rparr> else x) (api_keys d)\<rparr>)))"

definition ListAPIKeys :: "uuid \<Rightarrow> db \<Rightarrow> api_key list go" where
  "ListAPIKeys customerID d =
     (case db_fail d of Some e \<Rightarrow> Err e
      | None \<Rightarrow> Ok (sort_key (\<lambda>k. - k_CreatedAt k) (filter (\<lambda>k. k_CustomerID k = customerID) (api_keys d))))"

definition RevokeAPIKey :: "uuid \<Rightarrow> db \<Rightarrow> unit go \<times> db" where
  "RevokeAPIKey i d =
     (case db_fail d of Some e \<Rightarrow> (Err e, d)
      | None \<Rightarrow> (Ok (), d\<lparr>api_keys := map (\<lambda>k. if k_ID k = i then k\<lparr>k_RevokedAt := Some (db_now d)\<rparr> else k) (api_keys d)\<rparr>))"

section \<open>Connections\<close>

definition CreateConnection ::
  "uuid \<Rightarrow> string \<Rightarrow> string \<Rightarrow> bytes \<Rightarrow> bytes \<Rightarrow> string \<Rightarrow> string option \<Rightarrow> string option \<Rightarrow> db \<Rightarrow> connection go \<times> db" where
  "CreateConnection customerID warehouseType name ciphertext nonce storageMode s3Bucket s3Prefix d =
     (case db_fail d of Some e \<Rightarrow> (Err e, d)
      | None \<Rightarrow>
          if customerID \<notin> c_ID ` set (customers d) \<or>
             (\<exists>x \<in> set (connections d). cn_CustomerID x = customerID \<and> cn_Name x = name)
          then (Err constraint_violation, d)
          else (let c = \<lparr>cn_ID = db_next d, cn_CustomerID = customerID, cn_WarehouseType = warehouseType,
                         cn_Name = name, cn_StorageMode = storageMode, cn_S3Bucket = s3Bucket,
                         cn_S3Prefix = s3Prefix, cn_CreatedAt = db_now d, cn_Ciphertext = ciphertext,
                         cn_Nonce = nonce\<rparr>
                in (Ok c, d\<lparr>connections := connections d @ [c], db_next := db_next d + 1\<rparr>)))"

text \<open>ORDER BY created_at DESC LIMIT 1.\<close>

definition newest_connection :: "uuid \<Rightarrow> string \<Rightarrow> db \<Rightarrow> connection option" where
  "newest_connection customerID warehouseType d =
     (case sort_key (\<lambda>c. - cn_CreatedAt c)
             (filter (\<lambda>c. cn_CustomerID c = customerID \<and> cn_WarehouseType c = warehouseType) (connections d)) of
        [] \<Rightarrow> None | c # _ \<Rightarrow> Some c)"

definition GetConnectionForCustomer ::
  "aead \<Rightarrow> uuid \<Rightarrow> string \<Rightarrow> db \<Rightarrow> (connection \<times> bytes) go" where
  "GetConnectionForCustomer enc customerID warehouseType d =
     (case db_fail d of Some e \<Rightarrow> Err e
      | None \<Rightarrow>
          (case newest_connection customerID warehouseType d of
             None \<Rightarrow> Err ErrNotFound
           | Some c \<Rightarrow> bind_go (Decrypt enc (cn_Ciphertext c) (cn_Nonce c)) (\<lambda>pt. Ok (c, pt))))"

definition ListConnections :: "uuid \<Rightarrow> db \<Rightarrow> connection list go" where
  "ListConnections customerID d =
     (case db_fail d of Some e \<Rightarrow> Err e
      | None \<Rightarrow> Ok (sort_key (\<lambda>c. - cn_CreatedAt c) (filter (\<lambda>c. cn_CustomerID c = customerID) (connections d))))"

section \<open>Synced tables\<close>

definition nullDefault :: "string \<Rightarrow> string \<Rightarrow> string" where
  "nullDefault s def = (if s = [] then def else s)"

definition same_table :: "synced_table \<Rightarrow> synced_table \<Rightarrow> bool" where
  "same_table t x \<longleftrightarrow> t_ConnectionID x = t_ConnectionID t \<and> t_SchemaName x = t_SchemaName t \<and> t_TableName x = t_TableName t"

definition UpsertSyncedTable :: "synced_table \<Rightarrow> db \<Rightarrow> uuid go \<times> db" where
  "UpsertSyncedTable t d =
     (case db_fail d of Some e \<Rightarrow> (Err e, d)
      | None \<Rightarrow>
          if t_ConnectionID t \<notin> cn_ID ` set (connections d) then (Err constraint_violation, d)
          else (case find (same_table t) (synced_tables d) of
                  Some x \<Rightarrow>
                    (Ok (t_ID x),
                     d\<lparr>synced_tables := map (\<lambda>y. if same_table t y
                          then y\<lparr>t_SyncMode := t_SyncMode t, t_WatermarkColumn := t_WatermarkColumn t\<rparr> else y) (synced_tables d)\<rparr>)
                | None \<Rightarrow>
                    (Ok (db_next d),
                     d\<lparr>synced_tables := synced_tables d @
                          [\<lparr>t_ID = db_next d, t_ConnectionID = t_ConnectionID t, t_SchemaName = t_SchemaName t,
                            t_TableName = t_TableName t, t_SyncMode = t_SyncMode t,
                            t_WatermarkColumn = t_WatermarkColumn t, t_LastSyncAt = None, t_LastSnapshotID = None,
                            t_LastWatermark = None, t_IcebergPath = t_IcebergPath t, t_RowCount = 0,
                            t_State = nullDefault (t_State t) ''pending'', t_LastError = None\<rparr>],
                       db_next := db_next d + 1\<rparr>)))"

text \<open>Byte order on strings, the order of \<^verbatim>\<open>ORDER BY schema_name, table_name\<close>.\<close>

definition str_key :: "string \<Rightarrow> nat list" where
  "str_key s = map of_char s"

fun lex_le :: "nat list \<Rightarrow> nat list \<Rightarrow> bool" where
  "lex_le [] ys = True"
| "lex_le (x # xs) [] = False"
| "lex_le (x # xs) (y # ys) = (x < y \<or> x = y \<and> lex_le xs ys)"

definition table_le :: "synced_table \<Rightarrow> synced_table \<Rightarrow> bool" where
  "table_le a b \<longleftrightarrow>
     (if t_SchemaName a = t_SchemaName b then lex_le (str_key (t_TableName a)) (str_key (t_TableName b))
      else lex_le (str_key (t_SchemaName a)) (str_key (t_SchemaName b)))"

fun insert_table :: "synced_table \<Rightarrow> synced_table list \<Rightarrow> synced_table list" where
  "insert_table t [] = [t]"
| "insert_table t (x # xs) = (if table_le t x then t # x # xs else x # insert_table t xs)"

definition ListSyncedTables :: "uuid \<Rightarrow> db \<Rightarrow> synced_table list go" where
  "ListSyncedTables connectionID d =
     (case db_fail d of Some e \<Rightarrow> Err e
      | None \<Rightarrow> Ok (foldr insert_table (filter (\<lambda>t. t_ConnectionID t = connectionID) (synced_tables d)) []))"

definition coalesce :: "'a option \<Rightarrow> 'a option \<Rightarrow> 'a option" where
  "coalesce a b = (case a of None \<Rightarrow> b | Some x \<Rightarrow> Some x)"

definition MarkSyncedTableState ::
  "uuid \<Rightarrow> string \<Rightarrow> string option \<Rightarrow> int option \<Rightarrow> string option \<Rightarrow> int \<Rightarrow> db \<Rightarrow> unit go \<times> db" where
  "MarkSyncedTableState i state lastErr snapshotID watermark rowCount d =
     (case db_fail d of Some e \<Rightarrow> (Err e, d)
      | None \<Rightarrow>
          (Ok (), d\<lparr>synced_tables := map (\<lambda>t. if t_ID t = i
              then t\<lparr>t_State := state, t_LastError := lastErr,
                     t_LastSnapshotID := coalesce snapshotID (t_LastSnapshotID t),
                     t_LastWatermark := coalesce watermark (t_LastWatermark t),
                     t_RowCount := rowCount, t_LastSyncAt := Some (db_now d)\<rparr>
              else t) (synced_tables d)\<rparr>))"

definition LookupSyncedTable ::
  "uuid \<Rightarrow> string \<Rightarrow> string \<Rightarrow> string \<Rightarrow> db \<Rightarrow> synced_table go" where
  "LookupSyncedTable customerID warehouseType schema table d =
     (case db_fail d of Some e \<Rightarrow> Err e
      | None \<Rightarrow>
          (case find (\<lambda>t. t_SchemaName t = schema \<and> t_TableName t = table \<and>
                       (\<exists>c \<in> set (connections d). cn_ID c = t_ConnectionID t \<and>
                           cn_CustomerID c = customerID \<and> cn_WarehouseType c = warehouseType)) (synced_tables d) of
             None \<Rightarrow> Err ErrNotFound | Some t \<Rightarrow> Ok t))"

section \<open>Query log\<close>

definition InsertQueryLog :: "query_log_entry \<Rightarrow> db \<Rightarrow> unit go \<times> db" where
  "InsertQueryLog e d =
     (case db_fail d of Some er \<Rightarrow> (Err er, d)
      | None \<Rightarrow> (Ok (), d\<lparr>query_log := query_log d @ [e]\<rparr>))"

section \<open>The invariant of the store and its steps\<close>

text \<open>
  Keys are unique, references resolve, and every identifier in use was supplied before. A step of
  the store is one of its writing operations, the passing of time, or the database going down or
  coming back.
\<close>

definition db_ok :: "db \<Rightarrow> bool" where
  "db_ok d \<longleftrightarrow>
     distinct (map c_ID (customers d)) \<and> distinct (map c_Slug (customers d)) \<and>
     distinct (map k_ID (api_keys d)) \<and> distinct (map k_KeyHash (api_keys d)) \<and>
     distinct (map cn_ID (connections d)) \<and> distinct (map t_ID (synced_tables d)) \<and>
     distinct (map (\<lambda>t. (t_ConnectionID t, t_SchemaName t, t_TableName t)) (synced_tables d)) \<and>
     k_CustomerID ` set (api_keys d) \<subseteq> c_ID ` set (customers d) \<and>
     cn_CustomerID ` set (connections d) \<subseteq> c_ID ` set (customers d) \<and>
     t_ConnectionID ` set (synced_tables d) \<subseteq> cn_ID ` set (connections d) \<and>
     c_ID ` set (customers d) \<union> k_ID ` set (api_keys d) \<union> cn_ID ` set (connections d) \<union> t_ID ` set (synced_tables d)
       \<subseteq> {0<..<db_next d} \<and> 0 < db_next d"

definition empty_db :: "int \<Rightarrow> db" where
  "empty_db now = \<lparr>customers = [], connections = [], api_keys = [], synced_tables = [], query_log = [],
     db_now = now, db_next = 1, db_fail = None\<rparr>"

inductive db_step :: "(bytes \<Rightarrow> bytes) \<Rightarrow> db \<Rightarrow> db \<Rightarrow> bool" for sha256 where
  create_customer: "db_step sha256 d (snd (CreateCustomer slug name d))"
| create_key: "db_step sha256 d (snd (CreateAPIKey sha256 cid key pre desc d))"
| lookup_key: "db_step sha256 d (snd (LookupAPIKey sha256 key d))"
| revoke_key: "db_step sha256 d (snd (RevokeAPIKey i d))"
| create_connection: "db_step sha256 d (snd (CreateConnection cid wh name ct nonce mode b p d))"
| upsert_table: "db_step sha256 d (snd (UpsertSyncedTable t d))"
| mark_table: "db_step sha256 d (snd (MarkSyncedTableState i st err snap wm rc d))"
| log_query: "db_step sha256 d (snd (InsertQueryLog e d))"
| tick: "db_now d \<le> n \<Longrightarrow> db_step sha256 d (d\<lparr>db_now := n\<rparr>)"
| outage: "db_step sha256 d (d\<lparr>db_fail := f\<rparr>)"

inductive db_reachable :: "(bytes \<Rightarrow> bytes) \<Rightarrow> db \<Rightarrow> bool" for sha256 where
  init: "db_reachable sha256 (empty_db now)"
| step: "db_reachable sha256 d \<Longrightarrow> db_step sha256 d d' \<Longrightarrow> db_reachable sha256 d'"

section \<open>Lemmas\<close>

lemma map_sel_update: "(\<And>x. f (g x) = f x) \<Longrightarrow> map f (map (\<lambda>x. if P x then g x else x) xs) = map f xs"
  by (induction xs) auto

lemma image_sel_update: "(\<And>x. f (g x) = f x) \<Longrightarrow> f ` (\<lambda>x. if P x then g x else x) ` A = f ` A"
  by (simp add: image_image if_distrib [of f] cong: if_cong del: if_image_distrib)

lemma db_ok_map_keys:
  assumes "\<And>k. k_ID (g k) = k_ID k" "\<And>k. k_KeyHash (g k) = k_KeyHash k" "\<And>k. k_CustomerID (g k) = k_CustomerID k"
  shows "db_ok (d\<lparr>api_keys := map (\<lambda>k. if P k then g k else k) (api_keys d)\<rparr>) = db_ok d"
  using assms by (simp add: db_ok_def map_sel_update image_sel_update del: map_map if_image_distrib)

lemma db_ok_map_tables:
  assumes "\<And>t. t_ID (g t) = t_ID t" "\<And>t. t_ConnectionID (g t) = t_ConnectionID t"
    "\<And>t. t_SchemaName (g t) = t_SchemaName t" "\<And>t. t_TableName (g t) = t_TableName t"
  shows "db_ok (d\<lparr>synced_tables := map (\<lambda>t. if P t then g t else t) (synced_tables d)\<rparr>) = db_ok d"
  using assms by (simp add: db_ok_def map_sel_update image_sel_update del: map_map if_image_distrib)

lemma db_ok_CreateCustomer: "db_ok d \<Longrightarrow> db_ok (snd (CreateCustomer slug name d))"
  by (auto simp: CreateCustomer_def db_ok_def Let_def split: option.splits)

lemma db_ok_CreateAPIKey: "db_ok d \<Longrightarrow> db_ok (snd (CreateAPIKey sha256 cid key pre desc d))"
  by (auto simp: CreateAPIKey_def db_ok_def Let_def split: option.splits)

lemma db_ok_CreateConnection: "db_ok d \<Longrightarrow> db_ok (snd (CreateConnection cid wh name ct nonce mode b p d))"
  by (auto simp: CreateConnection_def db_ok_def Let_def split: option.splits)

lemma db_ok_UpsertSyncedTable:
  assumes "db_ok d"
  shows "db_ok (snd (UpsertSyncedTable t d))"
proof (cases "db_fail d = None \<and> t_ConnectionID t \<in> cn_ID ` set (connections d)")
  case True
  show ?thesis
  proof (cases "find (same_table t) (synced_tables d)")
    case None
    then have "\<forall>x \<in> set (synced_tables d). \<not> same_table t x"
      by (simp add: find_None_iff)
    with None True assms show ?thesis
      by (auto simp: UpsertSyncedTable_def db_ok_def same_table_def)
  next
    case (Some x)
    with True assms show ?thesis by (simp add: UpsertSyncedTable_def db_ok_map_tables)
  qed
next
  case False
  with assms show ?thesis by (auto simp: UpsertSyncedTable_def split: option.splits)
qed

lemma db_ok_update: "db_ok (d\<lparr>query_log := x\<rparr>) = db_ok d" "db_ok (d\<lparr>db_now := n\<rparr>) = db_ok d" "db_ok (d\<lparr>db_fail := f\<rparr>) = db_ok d"
  by (simp_all add: db_ok_def)

lemma db_step_ok: "db_step sha256 d d' \<Longrightarrow> db_ok d \<Longrightarrow> db_ok d'"
  by (induction rule: db_step.induct)
    (auto simp: db_ok_CreateCustomer db_ok_CreateAPIKey db_ok_CreateConnection db_ok_UpsertSyncedTable
      db_ok_update LookupAPIKey_def RevokeAPIKey_def MarkSyncedTableState_def InsertQueryLog_def
      db_ok_map_keys db_ok_map_tables split: option.splits list.splits)

lemma db_ok_empty: "db_ok (empty_db now)"
  by (simp add: db_ok_def empty_db_def)

lemma db_reachable_ok: "db_reachable sha256 d \<Longrightarrow> db_ok d"
  by (induction rule: db_reachable.induct) (auto simp: db_ok_empty intro: db_step_ok)

lemma live_key_rows_iff:
  "(k, c) \<in> set (live_key_rows h d) \<longleftrightarrow>
     k \<in> set (api_keys d) \<and> c \<in> set (customers d) \<and> c_ID c = k_CustomerID k \<and>
     k_KeyHash k = h \<and> k_RevokedAt k = None"
  by (auto simp: live_key_rows_def)

lemma distinct_map_unique:
  "distinct (map f xs) \<Longrightarrow> x \<in> set xs \<Longrightarrow> y \<in> set xs \<Longrightarrow> f x = f y \<Longrightarrow> x = y"
  by (auto simp: distinct_map dest: inj_onD)

lemma live_key_rows_unique:
  assumes "db_ok d" and "(k, c) \<in> set (live_key_rows h d)" and "(k', c') \<in> set (live_key_rows h d)"
  shows "k' = k \<and> c' = c"
proof -
  have "k' = k"
    using assms distinct_map_unique [of k_KeyHash "api_keys d" k' k]
    by (simp add: live_key_rows_iff db_ok_def)
  moreover have "c' = c"
    using assms distinct_map_unique [of c_ID "customers d" c' c] \<open>k' = k\<close>
    by (simp add: live_key_rows_iff db_ok_def)
  ultimately show ?thesis by simp
qed

lemma LookupAPIKey_live:
  assumes "db_ok d" and "db_fail d = None" and "(k, c) \<in> set (live_key_rows (HashAPIKey sha256 key) d)"
  shows "fst (LookupAPIKey sha256 key d) = Ok (k_ID k, k_CustomerID k, c_Slug c)"
proof (cases "live_key_rows (HashAPIKey sha256 key) d")
  case Nil
  with assms show ?thesis by simp
next
  case (Cons x xs)
  obtain k' c' where x: "x = (k', c')" by (cases x)
  with Cons have "(k', c') \<in> set (live_key_rows (HashAPIKey sha256 key) d)" by simp
  then have "k' = k \<and> c' = c" using live_key_rows_unique assms by blast
  with Cons x assms(2) show ?thesis by (simp add: LookupAPIKey_def)
qed

lemma LookupAPIKey_Ok:
  assumes "fst (LookupAPIKey sha256 key d) = Ok (kid, cid, slug)"
  shows "\<exists>k c. (k, c) \<in> set (live_key_rows (HashAPIKey sha256 key) d) \<and> k_ID k = kid \<and> k_CustomerID k = cid \<and> c_Slug c = slug"
proof (cases "live_key_rows (HashAPIKey sha256 key) d")
  case Nil
  with assms show ?thesis by (auto simp: LookupAPIKey_def split: option.splits)
next
  case (Cons x xs)
  obtain k c where x: "x = (k, c)" by (cases x)
  with assms Cons have "k_ID k = kid \<and> k_CustomerID k = cid \<and> c_Slug c = slug"
    by (auto simp: LookupAPIKey_def split: option.splits)
  with Cons x show ?thesis by auto
qed

lemma newest_connection_new:
  assumes "\<forall>x \<in> set (connections d). cn_CustomerID x = cid \<and> cn_WarehouseType x = wh \<longrightarrow> cn_CreatedAt x < cn_CreatedAt c"
    and "cn_CustomerID c = cid" and "cn_WarehouseType c = wh"
  shows "newest_connection cid wh (d\<lparr>connections := connections d @ [c], db_next := n\<rparr>) = Some c"
proof -
  let ?ms = "filter (\<lambda>x. cn_CustomerID x = cid \<and> cn_WarehouseType x = wh) (connections d)"
  let ?s = "sort_key (\<lambda>x. - cn_CreatedAt x) (?ms @ [c])"
  have "length ?s = Suc (length ?ms)" by simp
  then obtain y ys where s: "?s = y # ys" by (meson length_Suc_conv)
  have "\<forall>x \<in> set ys. - cn_CreatedAt y \<le> - cn_CreatedAt x"
    using sorted_sort_key [of "\<lambda>x. - cn_CreatedAt x" "?ms @ [c]"] unfolding s by simp
  moreover have mem: "set (y # ys) = insert c (set ?ms)"
    using set_sort [of "\<lambda>x. - cn_CreatedAt x" "?ms @ [c]"] unfolding s by auto
  moreover have lt: "cn_CreatedAt x < cn_CreatedAt c" if "x \<in> set ?ms" for x
    using that assms(1) by auto
  ultimately have le: "cn_CreatedAt x \<le> cn_CreatedAt y" if "x \<in> insert c (set ?ms)" for x
    using that unfolding mem [symmetric] by auto
  have "y \<in> insert c (set ?ms)" unfolding mem [symmetric] by simp
  then have "y = c" using le [of c] lt [of y] by auto
  with s assms show ?thesis by (simp add: newest_connection_def)
qed

section \<open>Properties\<close>



text \<open>
  Revocation is effective at once and for good: after \<open>RevokeAPIKey\<close> of a key's row the
  plaintext key is answered with ErrNotFound, in any consistent store.
\<close>

theorem revoked_key_not_found:
  assumes "db_ok d" and "db_fail d = None"
    and "k \<in> set (api_keys d)" and "k_KeyHash k = HashAPIKey sha256 key"
  shows "fst (LookupAPIKey sha256 key (snd (RevokeAPIKey (k_ID k) d))) = Err ErrNotFound"
proof -
  have uniq: "x = k" if "x \<in> set (api_keys d)" "k_KeyHash x = HashAPIKey sha256 key" for x
    using that assms distinct_map_unique [of k_KeyHash "api_keys d" x k] by (simp add: db_ok_def)
  have "live_key_rows (HashAPIKey sha256 key) (snd (RevokeAPIKey (k_ID k) d)) = []"
    using assms(2) uniq
    by (auto simp: live_key_rows_def RevokeAPIKey_def split: if_splits dest: uniq)
  then show ?thesis
    using assms(2) by (simp add: LookupAPIKey_def RevokeAPIKey_def)
qed

theorem revoked_key_not_found_witness:
  "let d = snd (CreateAPIKey id 1 ''uvk_1'' ''uvk'' None (snd (CreateCustomer ''acme'' ''Acme'' (empty_db 0))))
   in fst (LookupAPIKey id ''uvk_1'' d) = Ok (2, 1, ''acme'') \<and>
      fst (LookupAPIKey id ''uvk_1'' (snd (RevokeAPIKey 2 d))) = Err ErrNotFound"
proof -
  define d where "d = snd (CreateAPIKey id 1 ''uvk_1'' ''uvk'' None (snd (CreateCustomer ''acme'' ''Acme'' (empty_db 0))))"
  have ok: "db_ok d" "db_fail d = None"
    by (simp_all add: d_def db_ok_CreateAPIKey db_ok_CreateCustomer db_ok_empty,
        simp add: CreateAPIKey_def CreateCustomer_def empty_db_def Let_def HashAPIKey_def)
  obtain k where k: "k \<in> set (api_keys d)" "k_KeyHash k = HashAPIKey id ''uvk_1''" "k_ID k = 2"
    by (simp add: d_def CreateAPIKey_def CreateCustomer_def empty_db_def Let_def HashAPIKey_def)
  have "fst (LookupAPIKey id ''uvk_1'' d) = Ok (2, 1, ''acme'')"
    by (simp add: d_def CreateAPIKey_def CreateCustomer_def empty_db_def Let_def HashAPIKey_def
        LookupAPIKey_def live_key_rows_def)
  moreover have "fst (LookupAPIKey id ''uvk_1'' (snd (RevokeAPIKey 2 d))) = Err ErrNotFound"
    using revoked_key_not_found [OF ok k(1,2)] unfolding k(3) .
  ultimately show ?thesis
    unfolding Let_def d_def [symmetric] by blast
qed

text \<open>
  Credentials survive the store: what \<open>Encrypt\<close> seals and \<open>CreateConnection\<close> stores is
  what \<open>GetConnectionForCustomer\<close> decrypts, when the connection is the newest of its customer and
  warehouse and the cipher opens what it sealed (the documented behaviour of the AEAD).
\<close>

theorem credentials_roundtrip:
  assumes aead: "\<And>n p. Open enc n (Seal enc n p) = Ok p"
    and enc: "Encrypt enc (Ok nonce) creds = Ok (ct, nonce')" and "length nonce = NonceSize enc"
    and new: "\<forall>x \<in> set (connections d). cn_CustomerID x = cid \<and> cn_WarehouseType x = wh \<longrightarrow> cn_CreatedAt x < db_now d"
    and created: "CreateConnection cid wh name ct nonce' mode b p d = (Ok c, d')"
  shows "GetConnectionForCustomer enc cid wh d' = Ok (c, creds)"
proof -
  have ct: "ct = Seal enc nonce creds" "nonce' = nonce" using enc by (auto simp: Encrypt_def)
  have d: "db_fail d = None" "d' = d\<lparr>connections := connections d @ [c], db_next := db_next d + 1\<rparr>"
    "cn_CustomerID c = cid" "cn_WarehouseType c = wh" "cn_CreatedAt c = db_now d"
    "cn_Ciphertext c = ct" "cn_Nonce c = nonce'"
    using created by (auto simp: CreateConnection_def Let_def split: option.splits if_splits)
  have "newest_connection cid wh d' = Some c"
    unfolding d(2) by (rule newest_connection_new) (use new d in auto)
  with d ct assms(3) aead show ?thesis
    by (simp add: GetConnectionForCustomer_def Decrypt_def)
qed

theorem credentials_roundtrip_witness:
  "let enc = \<lparr>NonceSize = 1, Seal = (\<lambda>n p. p @ n), Open = (\<lambda>n c. Ok (take (length c - length n) c))\<rparr>;
       d = snd (CreateCustomer ''acme'' ''Acme'' (empty_db 0));
       (c, d') = CreateConnection 1 ''bigquery'' ''bq'' ''kn'' ''n'' ''managed'' None None d
   in c \<noteq> Panic \<and> GetConnectionForCustomer enc 1 ''bigquery'' d' = bind_go c (\<lambda>c. Ok (c, ''k''))"
proof -
  define enc :: aead where
    "enc = \<lparr>NonceSize = 1, Seal = (\<lambda>n p. p @ n), Open = (\<lambda>n c. Ok (take (length c - length n) c))\<rparr>"
  define d where "d = snd (CreateCustomer ''acme'' ''Acme'' (empty_db 0))"
  obtain c d' where c: "CreateConnection 1 ''bigquery'' ''bq'' ''kn'' ''n'' ''managed'' None None d = (Ok c, d')"
    by (simp add: d_def CreateConnection_def CreateCustomer_def empty_db_def Let_def)
  have "GetConnectionForCustomer enc 1 ''bigquery'' d' = Ok (c, ''k'')"
    by (rule credentials_roundtrip [where nonce = "''n''" and d = d, OF _ _ _ _ c])
      (simp_all add: enc_def Encrypt_def d_def CreateCustomer_def empty_db_def Let_def)
  with c show ?thesis
    unfolding Let_def enc_def [symmetric] d_def [symmetric] by simp
qed

end
