(* ===== verification/Pg_Auth.thy ===== *)
theory Pg_Auth
  imports Control_Store
begin

text \<open>
  Authentication of a wire session, \<^verbatim>\<open>internal/protocols/pgwire/auth.go\<close>: the database name
  is split into customer slug and warehouse, the API key is looked up in the control plane, and the
  key must belong to the customer named in the database.

  The lookup is the interface between the wire layer and the store: the locale \<open>key_directory\<close>
  states what the authenticator relies on and proves its guarantees once; it is interpreted on the
  store's \<open>LookupAPIKey\<close>.
\<close>

section \<open>Definitions\<close>

record session_identity =
  APIKeyID :: uuid
  CustomerID :: uuid
  CustomerSlug :: string
  WarehouseType :: string

definition ErrAuthFailed :: go_error where
  "ErrAuthFailed = Errorf ''authentication failed''"

definition ErrBadDatabase :: go_error where
  "ErrBadDatabase = Errorf ''database must be {customer_slug}_{warehouse_type}''"

definition warehouse_names :: "string list" where
  "warehouse_names = [''bigquery'', ''snowflake'', ''databricks'']"

definition ParseDatabase :: "string \<Rightarrow> (string \<times> string) go" where
  "ParseDatabase database =
     (case LastIndexByte database (CHR ''_'') of
        None \<Rightarrow> Err ErrBadDatabase
      | Some idx \<Rightarrow>
          if idx < 1 \<or> idx = length database - 1 then Err ErrBadDatabase
          else (let wh = drop (idx + 1) database in
                if wh \<in> set warehouse_names then Ok (take idx database, wh)
                else Err (ErrorfW (Error ErrBadDatabase @ '': unknown warehouse '' @ Quote wh) ErrBadDatabase)))"

text \<open>\<open>lookup\<close> is the store behind the authenticator's field \<^verbatim>\<open>DB\<close>.\<close>

definition Authenticate ::
  "(string \<Rightarrow> 'd \<Rightarrow> (uuid \<times> uuid \<times> string) go \<times> 'd) \<Rightarrow> string \<Rightarrow> string \<Rightarrow> 'd \<Rightarrow> session_identity go \<times> 'd" where
  "Authenticate lookup apiKey database d =
     (case ParseDatabase database of
        Err e \<Rightarrow> (Err e, d)
      | Panic \<Rightarrow> (Panic, d)
      | Ok (slug, warehouse) \<Rightarrow>
          (case lookup apiKey d of
             (Err e, d') \<Rightarrow> (Err (if is_not_found e then ErrAuthFailed else e), d')
           | (Panic, d') \<Rightarrow> (Panic, d')
           | (Ok (keyID, customerID, customerSlug), d') \<Rightarrow>
               if \<not> EqualFold slug customerSlug then (Err ErrAuthFailed, d')
               else (Ok \<lparr>APIKeyID = keyID, CustomerID = customerID, CustomerSlug = customerSlug,
                         WarehouseType = warehouse\<rparr>, d')))"

text \<open>\<^verbatim>\<open>stripWarehouseSuffix\<close> of \<^verbatim>\<open>session.go\<close>.\<close>

definition stripWarehouseSuffix :: "string \<Rightarrow> string" where
  "stripWarehouseSuffix database =
     (case find (\<lambda>w. HasSuffix database (CHR ''_'' # w)) warehouse_names of Some w \<Rightarrow> w | None \<Rightarrow> [])"

section \<open>Lemmas on the database name\<close>

lemma LastIndexByte_None: "LastIndexByte s b = None \<longleftrightarrow> b \<notin> set s"
  by (induction s) (auto split: option.splits)

lemma LastIndexByte_Some:
  "LastIndexByte s b = Some i \<longleftrightarrow> i < length s \<and> s ! i = b \<and> b \<notin> set (drop (Suc i) s)"
proof (induction s arbitrary: i)
  case (Cons c cs)
  show ?case
  proof (cases "LastIndexByte cs b")
    case None
    then have "b \<notin> set cs" by (simp add: LastIndexByte_None)
    then have "i < length cs \<Longrightarrow> cs ! i \<noteq> b" for i using nth_mem by blast
    with None \<open>b \<notin> set cs\<close> show ?thesis by (cases i) auto
  next
    case (Some j)
    then have "b \<in> set cs" using LastIndexByte_None [of cs b] by auto
    show ?thesis
    proof (cases i)
      case 0
      with Some \<open>b \<in> set cs\<close> show ?thesis by simp
    next
      case (Suc m)
      with Some Cons.IH [of m] show ?thesis by simp
    qed
  qed
qed simp

lemma LastIndexByte_append: "b \<notin> set q \<Longrightarrow> LastIndexByte (p @ b # q) b = Some (length p)"
  by (simp add: LastIndexByte_Some)

lemma warehouse_no_underscore: "wh \<in> set warehouse_names \<Longrightarrow> CHR ''_'' \<notin> set wh \<and> wh \<noteq> []"
  by (auto simp: warehouse_names_def)

lemma ParseDatabase_Ok:
  "ParseDatabase db = Ok (slug, wh) \<longleftrightarrow>
     slug \<noteq> [] \<and> wh \<in> set warehouse_names \<and> db = slug @ CHR ''_'' # wh"
proof
  assume "ParseDatabase db = Ok (slug, wh)"
  then obtain i where i: "LastIndexByte db (CHR ''_'') = Some i" "0 < i" "slug = take i db"
    "wh = drop (Suc i) db" "wh \<in> set warehouse_names"
    by (auto simp: ParseDatabase_def Let_def split: option.splits if_splits)
  then have "i < length db" "db ! i = CHR ''_''" by (simp_all add: LastIndexByte_Some)
  with i show "slug \<noteq> [] \<and> wh \<in> set warehouse_names \<and> db = slug @ CHR ''_'' # wh"
    using id_take_nth_drop [of i db] by auto
next
  assume a: "slug \<noteq> [] \<and> wh \<in> set warehouse_names \<and> db = slug @ CHR ''_'' # wh"
  with warehouse_no_underscore [of wh] have "LastIndexByte db (CHR ''_'') = Some (length slug)"
    by (simp add: LastIndexByte_append)
  with a warehouse_no_underscore [of wh] show "ParseDatabase db = Ok (slug, wh)"
    by (auto simp: ParseDatabase_def)
qed

lemma ParseDatabase_not_Panic [simp]: "ParseDatabase db \<noteq> Panic"
  by (auto simp: ParseDatabase_def Let_def split: option.splits)

section \<open>The interface to the store\<close>

text \<open>
  \<open>owns d key kid cid slug\<close>: in store \<open>d\<close> the plaintext key is the live key \<open>kid\<close> of
  customer \<open>cid\<close> with that slug. A lookup returns an owner or reports failure, and finds every owner
  of a store that is up.
\<close>

locale key_directory =
  fixes lookup :: "string \<Rightarrow> 'd \<Rightarrow> (uuid \<times> uuid \<times> string) go \<times> 'd"
    and owns :: "'d \<Rightarrow> string \<Rightarrow> uuid \<Rightarrow> uuid \<Rightarrow> string \<Rightarrow> bool"
    and up :: "'d \<Rightarrow> bool"
  assumes lookup_sound: "fst (lookup key d) = Ok (kid, cid, slug) \<Longrightarrow> owns d key kid cid slug"
    and lookup_complete: "up d \<Longrightarrow> owns d key kid cid slug \<Longrightarrow> fst (lookup key d) = Ok (kid, cid, slug)"
    and lookup_absent: "up d \<Longrightarrow> \<forall>kid cid slug. \<not> owns d key kid cid slug \<Longrightarrow> fst (lookup key d) = Err ErrNotFound"
begin

lemma authenticate_Ok:
  assumes "fst (Authenticate lookup key db d) = Ok ident"
  shows "owns d key (APIKeyID ident) (CustomerID ident) (CustomerSlug ident) \<and>
    (\<exists>slug. db = slug @ CHR ''_'' # WarehouseType ident \<and> EqualFold slug (CustomerSlug ident)) \<and>
    WarehouseType ident \<in> set warehouse_names"
proof -
  obtain slug wh where p: "ParseDatabase db = Ok (slug, wh)"
    using assms by (cases "ParseDatabase db") (auto simp: Authenticate_def)
  obtain kid cid cslug d' where l: "lookup key d = (Ok (kid, cid, cslug), d')"
    using assms p by (cases "lookup key d"; cases "fst (lookup key d)") (auto simp: Authenticate_def)
  have eq: "EqualFold slug cslug" "ident = \<lparr>APIKeyID = kid, CustomerID = cid, CustomerSlug = cslug, WarehouseType = wh\<rparr>"
    using assms p l by (auto simp: Authenticate_def split: if_splits)
  have "owns d key kid cid cslug" by (rule lookup_sound) (simp add: l)
  with eq p show ?thesis by (simp add: ParseDatabase_Ok)
qed

lemma authenticate_accepts:
  assumes "up d" and "owns d key kid cid slug" and "slug \<noteq> []" and "wh \<in> set warehouse_names"
  shows "fst (Authenticate lookup key (slug @ CHR ''_'' # wh) d) =
    Ok \<lparr>APIKeyID = kid, CustomerID = cid, CustomerSlug = slug, WarehouseType = wh\<rparr>"
proof -
  have "ParseDatabase (slug @ CHR ''_'' # wh) = Ok (slug, wh)"
    using assms by (simp add: ParseDatabase_Ok)
  with lookup_complete [OF assms(1,2)] show ?thesis
    by (cases "lookup key d") (simp add: Authenticate_def EqualFold_def)
qed

lemma authenticate_unknown:
  assumes "up d" and "\<forall>kid cid slug. \<not> owns d key kid cid slug" and "ParseDatabase db = Ok p"
  shows "fst (Authenticate lookup key db d) = Err ErrAuthFailed"
  using lookup_absent [OF assms(1,2)] assms(3)
  by (cases p; cases "lookup key d") (simp add: Authenticate_def)

end

text \<open>The store provides the interface.\<close>

definition key_owner :: "(bytes \<Rightarrow> bytes) \<Rightarrow> db \<Rightarrow> string \<Rightarrow> uuid \<Rightarrow> uuid \<Rightarrow> string \<Rightarrow> bool" where
  "key_owner sha256 d key kid cid slug \<longleftrightarrow>
     (\<exists>k c. (k, c) \<in> set (live_key_rows (HashAPIKey sha256 key) d) \<and> k_ID k = kid \<and> k_CustomerID k = cid \<and> c_Slug c = slug)"

definition store_up :: "db \<Rightarrow> bool" where
  "store_up d \<longleftrightarrow> db_ok d \<and> db_fail d = None"

interpretation store_keys: key_directory "LookupAPIKey sha256" "key_owner sha256" store_up
proof unfold_locales
  show "key_owner sha256 d key kid cid slug"
    if "fst (LookupAPIKey sha256 key d) = Ok (kid, cid, slug)" for key d kid cid slug
    using LookupAPIKey_Ok [OF that] by (simp add: key_owner_def)
  show "fst (LookupAPIKey sha256 key d) = Ok (kid, cid, slug)"
    if "store_up d" "key_owner sha256 d key kid cid slug" for d key kid cid slug
    using that LookupAPIKey_live by (auto simp: store_up_def key_owner_def)
  show "fst (LookupAPIKey sha256 key d) = Err ErrNotFound"
    if "store_up d" "\<forall>kid cid slug. \<not> key_owner sha256 d key kid cid slug" for d key
  proof (cases "live_key_rows (HashAPIKey sha256 key) d")
    case Nil
    with that show ?thesis by (simp add: LookupAPIKey_def store_up_def)
  next
    case (Cons x xs)
    then have "key_owner sha256 d key (k_ID (fst x)) (k_CustomerID (fst x)) (c_Slug (snd x))"
      by (cases x) (auto simp: key_owner_def)
    with that show ?thesis by blast
  qed
qed

section \<open>Properties\<close>

text \<open>
  \<open>ParseDatabase\<close> accepts exactly the names \<^verbatim>\<open>slug_warehouse\<close> with a non-empty slug
  and one of the three warehouses, splits at the last underscore so that slugs may contain
  underscores, and reports every other name as an error without panicking.
\<close>

theorem ParseDatabase_correct:
  "ParseDatabase database = Ok (slug, wh) \<longleftrightarrow>
     slug \<noteq> [] \<and> wh \<in> {''bigquery'', ''snowflake'', ''databricks''} \<and> database = slug @ CHR ''_'' # wh"
  by (simp add: ParseDatabase_Ok warehouse_names_def)

text \<open>
  C10. Tenant isolation of authentication: whatever identity \<open>Authenticate\<close> returns, the presented
  key is a live (not revoked) key of exactly that customer, the database the client asked for names
  that customer up to case, and the warehouse is a supported one. A key of another customer, a
  revoked key or an unknown key never yields an identity.
\<close>

theorem Authenticate_isolation:
  assumes "fst (Authenticate (LookupAPIKey sha256) key database d) = Ok ident"
  shows "(\<exists>k \<in> set (api_keys d). \<exists>c \<in> set (customers d).
            k_KeyHash k = sha256 key \<and> k_RevokedAt k = None \<and> k_ID k = APIKeyID ident \<and>
            k_CustomerID k = CustomerID ident \<and> c_ID c = CustomerID ident \<and> c_Slug c = CustomerSlug ident) \<and>
         (\<exists>slug. database = slug @ CHR ''_'' # WarehouseType ident \<and> EqualFold slug (CustomerSlug ident)) \<and>
         WarehouseType ident \<in> {''bigquery'', ''snowflake'', ''databricks''}"
proof -
  note a = store_keys.authenticate_Ok [OF assms]
  then obtain k c where "(k, c) \<in> set (live_key_rows (HashAPIKey sha256 key) d)" "k_ID k = APIKeyID ident"
    "k_CustomerID k = CustomerID ident" "c_Slug c = CustomerSlug ident"
    by (auto simp: key_owner_def)
  with a show ?thesis
    by (auto simp: live_key_rows_iff HashAPIKey_def warehouse_names_def)
qed

theorem Authenticate_isolation_witness:
  "let d = snd (CreateAPIKey id 1 ''uvk_1'' ''uvk'' None (snd (CreateCustomer ''acme'' ''Acme'' (empty_db 0))))
   in fst (Authenticate (LookupAPIKey id) ''uvk_1'' ''ACME_bigquery'' d) =
        Ok \<lparr>APIKeyID = 2, CustomerID = 1, CustomerSlug = ''acme'', WarehouseType = ''bigquery''\<rparr> \<and>
      (\<exists>k \<in> set (api_keys d). k_KeyHash k = id ''uvk_1'' \<and> k_RevokedAt k = None \<and> k_CustomerID k = 1)"
proof -
  define d where "d = snd (CreateAPIKey id 1 ''uvk_1'' ''uvk'' None (snd (CreateCustomer ''acme'' ''Acme'' (empty_db 0))))"
  have a: "fst (Authenticate (LookupAPIKey id) ''uvk_1'' ''ACME_bigquery'' d) =
      Ok \<lparr>APIKeyID = 2, CustomerID = 1, CustomerSlug = ''acme'', WarehouseType = ''bigquery''\<rparr>"
    unfolding d_def by code_simp
  from Authenticate_isolation [OF a] a show ?thesis
    unfolding Let_def d_def [symmetric] by auto
qed

end
