(* ===== verification/Pg_Session.thy ===== *)
theory Pg_Session
  imports Wire_Codec Pg_Auth "HOL-Library.Multiset"
begin

text \<open>
  The PG server, \<^verbatim>\<open>internal/protocols/pgwire/session.go\<close>: the cancel-key registry, the
  admission of connections, the startup and authentication of a connection, and the query loop with the
  simple and the extended protocol.

  A context is the list of the cancellable roots it derives from, with the tightest timeout set on it;
  a cancel function is the root it cancels, and \<open>cancelled\<close> collects the roots cancelled so far. The query
  handler and the authenticator are parameters acting on a state \<open>'h\<close> of their own. The bytes of a
  connection are a list: the peer sends them and then closes. A \<open>Panic\<close> in a connection's goroutine ends
  the process, since no handler in the package recovers.
\<close>

section \<open>Data\<close>

fun errSQLState :: "go_error \<Rightarrow> string" where
  "errSQLState (SQLStateErr code _ _) = code"
| "errSQLState (ErrorfW _ e) = errSQLState e"
| "errSQLState _ = ''XX000''"

record ctx =
  ctx_roots :: "nat list"
  ctx_timeout :: "nat option"

definition Background :: ctx where
  "Background = \<lparr>ctx_roots = [], ctx_timeout = None\<rparr>"

record prepared_statement =
  ps_Name :: string
  ps_SQL :: string
  ps_ParamOIDs :: "32 word list"

record portal =
  po_Name :: string
  po_Statement :: prepared_statement
  po_ParamFormatCodes :: "16 word list"
  po_ParamValues :: "bytes option list"
  po_ResultFormatCodes :: "16 word list"

record session =
  s_Identity :: session_identity
  s_Application :: string
  s_ClientEncoding :: string
  s_StartedAt :: int
  s_preparedStatements :: "string \<rightharpoonup> prepared_statement"
  s_portals :: "string \<rightharpoonup> portal"
  s_cancelKey :: "cancel_key option"
  s_ctx :: "ctx option"
  s_ctxCancel :: "nat option"

record server =
  TLSConfig :: bool
  MaxInflight :: int
  sv_sem :: "nat option"
  sv_inflight :: nat
  cancelFns :: "64 word \<rightharpoonup> nat"
  cancelled :: "nat list"
  next_ctx :: nat

record 'h query_handler =
  HandleSimpleQuery :: "ctx \<Rightarrow> session \<Rightarrow> string \<Rightarrow> 'h \<Rightarrow> writer \<Rightarrow> unit go \<times> 'h \<times> writer"
  HandleExtendedExecute :: "ctx \<Rightarrow> session \<Rightarrow> portal \<Rightarrow> 'h \<Rightarrow> writer \<Rightarrow> unit go \<times> 'h \<times> writer"

section \<open>Cancel keys\<close>

definition randomBackendKey :: "bytes option \<Rightarrow> 32 word \<times> 32 word" where
  "randomBackendKey rand =
     (case rand of None \<Rightarrow> (1, 1)
      | Some b \<Rightarrow> (Uint32 (take 4 b) AND 0x7fffffff, Uint32 (drop 4 b) AND 0x7fffffff))"

definition cancelKey :: "32 word \<Rightarrow> 32 word \<Rightarrow> 64 word" where
  "cancelKey pid secret = push_bit 32 (ucast pid) OR ucast secret"

definition registerCancelKey :: "32 word \<Rightarrow> 32 word \<Rightarrow> nat \<Rightarrow> server \<Rightarrow> server" where
  "registerCancelKey pid secret fn s = s\<lparr>cancelFns := (cancelFns s)(cancelKey pid secret \<mapsto> fn)\<rparr>"

definition unregisterCancelKey :: "32 word \<Rightarrow> 32 word \<Rightarrow> server \<Rightarrow> server" where
  "unregisterCancelKey pid secret s = s\<lparr>cancelFns := (cancelFns s)(cancelKey pid secret := None)\<rparr>"

definition cancel_root :: "nat \<Rightarrow> server \<Rightarrow> server" where
  "cancel_root i s = s\<lparr>cancelled := i # cancelled s\<rparr>"

definition fireCancel :: "32 word \<Rightarrow> 32 word \<Rightarrow> server \<Rightarrow> server" where
  "fireCancel pid secret s =
     (case cancelFns s (cancelKey pid secret) of None \<Rightarrow> s | Some fn \<Rightarrow> cancel_root fn s)"

definition WithCancel :: "ctx \<Rightarrow> server \<Rightarrow> ctx \<times> nat \<times> server" where
  "WithCancel parent s =
     (parent\<lparr>ctx_roots := next_ctx s # ctx_roots parent\<rparr>, next_ctx s, s\<lparr>next_ctx := next_ctx s + 1\<rparr>)"

definition WithTimeout :: "ctx \<Rightarrow> nat \<Rightarrow> ctx" where
  "WithTimeout c secs = c\<lparr>ctx_timeout := (case ctx_timeout c of None \<Rightarrow> Some secs | Some t \<Rightarrow> Some (min t secs))\<rparr>"

definition ctx_done :: "server \<Rightarrow> ctx \<Rightarrow> bool" where
  "ctx_done s c \<longleftrightarrow> (\<exists>i \<in> set (ctx_roots c). i \<in> set (cancelled s))"

text \<open>The merged context is a child of \<open>a\<close> that the goroutine cancels when \<open>b\<close> is done.\<close>

definition mergeCtx :: "ctx \<Rightarrow> ctx option \<Rightarrow> ctx" where
  "mergeCtx a b = (case b of None \<Rightarrow> a | Some b' \<Rightarrow> a\<lparr>ctx_roots := ctx_roots a @ ctx_roots b'\<rparr>)"

section \<open>Admission\<close>

definition initSem :: "server \<Rightarrow> server" where
  "initSem s =
     (case sv_sem s of Some _ \<Rightarrow> s
      | None \<Rightarrow> s\<lparr>sv_sem := Some (if MaxInflight s \<le> 0 then 4096 else nat (MaxInflight s))\<rparr>)"

text \<open>
  The accept loop. An accepted connection takes a slot of the semaphore or is closed at once; a finished
  connection gives its slot back; after shutdown nothing is accepted and the loop returns when every
  connection is done or the grace time is over.
\<close>

record listener =
  ln_srv :: server
  ln_open :: "nat list"
  ln_rejected :: "nat list"
  ln_shutdown :: bool
  ln_returned :: bool

definition accept_conn :: "nat \<Rightarrow> listener \<Rightarrow> listener" where
  "accept_conn c l =
     (case sv_sem (ln_srv l) of
        None \<Rightarrow> l
      | Some cap \<Rightarrow>
          if sv_inflight (ln_srv l) < cap
          then l\<lparr>ln_srv := (ln_srv l)\<lparr>sv_inflight := sv_inflight (ln_srv l) + 1\<rparr>, ln_open := c # ln_open l\<rparr>
          else l\<lparr>ln_rejected := c # ln_rejected l\<rparr>)"

definition conn_done :: "nat \<Rightarrow> listener \<Rightarrow> listener" where
  "conn_done c l = l\<lparr>ln_srv := (ln_srv l)\<lparr>sv_inflight := sv_inflight (ln_srv l) - 1\<rparr>, ln_open := remove1 c (ln_open l)\<rparr>"

inductive listen_step :: "listener \<Rightarrow> listener \<Rightarrow> bool" where
  accept: "\<lbrakk>\<not> ln_shutdown l; c \<notin> set (ln_open l)\<rbrakk> \<Longrightarrow> listen_step l (accept_conn c l)"
| finish: "c \<in> set (ln_open l) \<Longrightarrow> listen_step l (conn_done c l)"
| shutdown: "listen_step l (l\<lparr>ln_shutdown := True\<rparr>)"
| drained: "\<lbrakk>ln_shutdown l; ln_open l = []\<rbrakk> \<Longrightarrow> listen_step l (l\<lparr>ln_returned := True\<rparr>)"
| grace_over: "ln_shutdown l \<Longrightarrow> listen_step l (l\<lparr>ln_returned := True\<rparr>)"

definition listen_start :: "server \<Rightarrow> listener" where
  "listen_start s = \<lparr>ln_srv = initSem s, ln_open = [], ln_rejected = [], ln_shutdown = False, ln_returned = False\<rparr>"

section \<open>Extended protocol\<close>

definition result_of :: "go_error option \<Rightarrow> unit go" where
  "result_of e = (case e of None \<Rightarrow> Ok () | Some x \<Rightarrow> Err x)"

fun read_oids :: "nat \<Rightarrow> bytes \<Rightarrow> 32 word list" where
  "read_oids 0 body = []"
| "read_oids (Suc k) body = Uint32 body # read_oids k (drop 4 body)"

definition handleParse :: "session \<Rightarrow> bytes \<Rightarrow> writer \<Rightarrow> unit go \<times> session \<times> writer" where
  "handleParse sess body w =
     (let (name, n) = readCString body; body1 = drop n body;
          (sql, n2) = readCString body1; body2 = drop n2 body1 in
      if length body2 < 2 then (Err (Errorf ''parse: short body''), sess, w)
      else
        (let pCount = unat (Uint16 body2); body3 = drop 2 body2 in
         if 0 < pCount \<and> length body3 < 4 * pCount
         then (Err (Errorf ''parse: short param-OID list''), sess, w)
         else
           (let st = \<lparr>ps_Name = name, ps_SQL = sql, ps_ParamOIDs = read_oids pCount body3\<rparr>;
                (w', e) = WriteParseComplete w
            in (result_of e, sess\<lparr>s_preparedStatements := (s_preparedStatements sess)(name \<mapsto> st)\<rparr>, w'))))"

definition handleDescribe :: "session \<Rightarrow> bytes \<Rightarrow> writer \<Rightarrow> unit go \<times> writer" where
  "handleDescribe sess body w =
     (case body of
        [] \<Rightarrow> (Err (Errorf ''describe: empty body''), w)
      | target # rest \<Rightarrow>
          (let (name, _) = readCString rest;
               (w1, e1) =
                 (if target = CHR ''S'' then
                    WriteParameterDescription
                      (case s_preparedStatements sess name of None \<Rightarrow> [] | Some st \<Rightarrow> ps_ParamOIDs st) w
                  else (w, None))
           in case e1 of
                Some e \<Rightarrow> (Err e, w1)
              | None \<Rightarrow> (let (w2, e2) = WriteNoData w1 in (result_of e2, w2))))"

text \<open>Format codes: the count is the sender's, the codes are as many as the body holds, the others stay 0.\<close>

fun read_formats :: "nat \<Rightarrow> bytes \<Rightarrow> 16 word list \<times> bytes" where
  "read_formats 0 body = ([], body)"
| "read_formats (Suc k) body =
     (if length body < 2 then (replicate (Suc k) 0, body)
      else (let (fs, rest) = read_formats k (drop 2 body) in (Uint16 body # fs, rest)))"

text \<open>
  Parameter values. A length below -1 is not above the number of bytes left, so it passes the check and
  the slice \<^verbatim>\<open>body[:l]\<close> panics.
\<close>

fun read_values :: "nat \<Rightarrow> nat \<Rightarrow> bytes \<Rightarrow> (bytes option list \<times> bytes) go" where
  "read_values i 0 body = Ok ([], body)"
| "read_values i (Suc k) body =
     (if length body < 4 then Err (Errorf ''bind: short param length'')
      else
        (let l = sint (Uint32 body); body1 = drop 4 body in
         if l = - 1 then bind_go (read_values (i + 1) k body1) (\<lambda>(vs, r). Ok (None # vs, r))
         else if l > int (length body1) then Err (Errorf (''bind: param '' @ Itoa (int i) @ '' truncated''))
         else if l < 0 then Panic
         else bind_go (read_values (i + 1) k (drop (nat l) body1)) (\<lambda>(vs, r). Ok (Some (take (nat l) body1) # vs, r))))"

definition handleBind :: "session \<Rightarrow> bytes \<Rightarrow> writer \<Rightarrow> unit go \<times> session \<times> writer" where
  "handleBind sess body w =
     (let (portalName, n) = readCString body; body1 = drop n body;
          (stmtName, n2) = readCString body1; body2 = drop n2 body1 in
      case s_preparedStatements sess stmtName of
        None \<Rightarrow> (Err (Errorf (''unknown prepared statement '' @ Quote stmtName)), sess, w)
      | Some stmt \<Rightarrow>
          if length body2 < 2 then (Err (Errorf ''bind: short body''), sess, w)
          else
            (let (pFormats, body3) = read_formats (unat (Uint16 body2)) (drop 2 body2) in
             if length body3 < 2 then (Err (Errorf ''bind: short param count''), sess, w)
             else
               (case read_values 0 (unat (Uint16 body3)) (drop 2 body3) of
                  Err e \<Rightarrow> (Err e, sess, w)
                | Panic \<Rightarrow> (Panic, sess, w)
                | Ok (pValues, body4) \<Rightarrow>
                    if length body4 < 2 then (Err (Errorf ''bind: short result-format list''), sess, w)
                    else
                      (let (rFormats, _) = read_formats (unat (Uint16 body4)) (drop 2 body4);
                           p = \<lparr>po_Name = portalName, po_Statement = stmt, po_ParamFormatCodes = pFormats,
                                po_ParamValues = pValues, po_ResultFormatCodes = rFormats\<rparr>;
                           (w', e) = WriteBindComplete w
                       in (result_of e, sess\<lparr>s_portals := (s_portals sess)(portalName \<mapsto> p)\<rparr>, w')))))"

definition WriteHardcodedSelectOne :: "string \<Rightarrow> writer \<Rightarrow> unit go \<times> writer" where
  "WriteHardcodedSelectOne sql w =
     (let t = ToUpper (TrimSpace sql) in
      if HasPrefix t ''SELECT'' then
        (case WriteRowDescription [\<lparr>f_Name = ''?column?'', f_TableOID = 0, f_ColumnAttrNo = 0, f_TypeOID = OIDInt4,
                                    f_TypeSize = 4, f_TypeModifier = 0, f_Format = 0\<rparr>] w of
           (w1, Some e) \<Rightarrow> (Err e, w1)
         | (w1, None) \<Rightarrow>
             (case WriteDataRow [Some ''1''] w1 of
                (w2, Some e) \<Rightarrow> (Err e, w2)
              | (w2, None) \<Rightarrow> (let (w3, e) = WriteCommandComplete ''SELECT 1'' w2 in (result_of e, w3))))
      else (let (w1, e) = WriteCommandComplete ''OK'' w in (result_of e, w1)))"

definition handleExecute ::
  "'h query_handler option \<Rightarrow> ctx \<Rightarrow> session \<Rightarrow> bytes \<Rightarrow> 'h \<Rightarrow> writer \<Rightarrow> unit go \<times> 'h \<times> writer" where
  "handleExecute handler c sess body h w =
     (let (portalName, _) = readCString body in
      case s_portals sess portalName of
        None \<Rightarrow> (Err (Errorf (''unknown portal '' @ Quote portalName)), h, w)
      | Some p \<Rightarrow>
          (case handler of
             None \<Rightarrow> (let (r, w') = WriteHardcodedSelectOne (ps_SQL (po_Statement p)) w in (r, h, w'))
           | Some H \<Rightarrow> HandleExtendedExecute H (WithTimeout c 30) sess p h w))"

definition dispatch ::
  "'h query_handler option \<Rightarrow> ctx \<Rightarrow> session \<Rightarrow> string \<Rightarrow> 'h \<Rightarrow> writer \<Rightarrow> unit go \<times> 'h \<times> writer" where
  "dispatch handler c sess sql h w =
     (case handler of
        None \<Rightarrow> (let (r, w') = WriteHardcodedSelectOne sql w in (r, h, w'))
      | Some H \<Rightarrow> HandleSimpleQuery H (WithTimeout (mergeCtx c (s_ctx sess)) 30) sess sql h w)"

section \<open>The query loop\<close>

record 'h conn =
  cn_srv :: server
  cn_sess :: session
  cn_h :: 'h
  cn_w :: writer

text \<open>Writes whose error the loop discards.\<close>

definition quietly :: "write_op \<Rightarrow> writer \<Rightarrow> writer" where
  "quietly op w = fst (op w)"

definition report :: "string \<Rightarrow> go_error \<Rightarrow> writer \<Rightarrow> writer" where
  "report code e = quietly (WriteErrorResponse ''ERROR'' code (Error e) [])"

definition ready :: "writer \<Rightarrow> writer" where
  "ready w = quietly Flush (quietly (WriteReadyForQuery (CHR ''I'')) w)"

text \<open>One iteration after \<open>ReadFrame\<close>: \<open>Ok True\<close> goes round again, \<open>Ok False\<close> returns from the loop.\<close>

definition handle_frame :: "'h query_handler option \<Rightarrow> ctx \<Rightarrow> frame \<Rightarrow> 'h conn \<Rightarrow> bool go \<times> 'h conn" where
  "handle_frame handler c f k =
     (if fr_Type f = MsgQuery then
        (let sql = TrimRight (fr_Body f) [CHR 0x00] in
         if TrimSpace sql = [] then (Ok True, k\<lparr>cn_w := ready (quietly WriteEmptyQueryResponse (cn_w k))\<rparr>)
         else (case dispatch handler c (cn_sess k) sql (cn_h k) (cn_w k) of
                 (Ok _, h, w) \<Rightarrow> (Ok True, k\<lparr>cn_h := h, cn_w := ready w\<rparr>)
               | (Err e, h, w) \<Rightarrow> (Ok True, k\<lparr>cn_h := h, cn_w := ready (report (errSQLState e) e w)\<rparr>)
               | (Panic, h, w) \<Rightarrow> (Panic, k\<lparr>cn_h := h, cn_w := w\<rparr>)))
      else if fr_Type f = MsgParse then
        (case handleParse (cn_sess k) (fr_Body f) (cn_w k) of
           (Ok _, s, w) \<Rightarrow> (Ok True, k\<lparr>cn_sess := s, cn_w := w\<rparr>)
         | (Err e, s, w) \<Rightarrow> (Ok True, k\<lparr>cn_sess := s, cn_w := quietly Flush (report ''42601'' e w)\<rparr>)
         | (Panic, s, w) \<Rightarrow> (Panic, k\<lparr>cn_sess := s, cn_w := w\<rparr>))
      else if fr_Type f = MsgBind then
        (case handleBind (cn_sess k) (fr_Body f) (cn_w k) of
           (Ok _, s, w) \<Rightarrow> (Ok True, k\<lparr>cn_sess := s, cn_w := w\<rparr>)
         | (Err e, s, w) \<Rightarrow> (Ok True, k\<lparr>cn_sess := s, cn_w := quietly Flush (report ''42601'' e w)\<rparr>)
         | (Panic, s, w) \<Rightarrow> (Panic, k\<lparr>cn_sess := s, cn_w := w\<rparr>))
      else if fr_Type f = MsgDescribe then
        (case handleDescribe (cn_sess k) (fr_Body f) (cn_w k) of
           (Ok _, w) \<Rightarrow> (Ok True, k\<lparr>cn_w := quietly Flush w\<rparr>)
         | (Err e, w) \<Rightarrow> (Ok True, k\<lparr>cn_w := quietly Flush (report ''42601'' e w)\<rparr>)
         | (Panic, w) \<Rightarrow> (Panic, k\<lparr>cn_w := w\<rparr>))
      else if fr_Type f = MsgExecute then
        (case handleExecute handler c (cn_sess k) (fr_Body f) (cn_h k) (cn_w k) of
           (Ok _, h, w) \<Rightarrow> (Ok True, k\<lparr>cn_h := h, cn_w := w\<rparr>)
         | (Err e, h, w) \<Rightarrow> (Ok True, k\<lparr>cn_h := h, cn_w := quietly Flush (report (errSQLState e) e w)\<rparr>)
         | (Panic, h, w) \<Rightarrow> (Panic, k\<lparr>cn_h := h, cn_w := w\<rparr>))
      else if fr_Type f = MsgSync then (Ok True, k\<lparr>cn_w := ready (cn_w k)\<rparr>)
      else if fr_Type f = MsgClose then (Ok True, k\<lparr>cn_w := quietly Flush (quietly WriteCloseComplete (cn_w k))\<rparr>)
      else if fr_Type f = MsgFlush then (Ok True, k\<lparr>cn_w := quietly Flush (cn_w k)\<rparr>)
      else if fr_Type f = MsgTerminate then
        (let s1 = (case s_cancelKey (cn_sess k) of None \<Rightarrow> cn_srv k
                   | Some ck \<Rightarrow> unregisterCancelKey (PID ck) (Secret ck) (cn_srv k));
             s2 = (case s_ctxCancel (cn_sess k) of None \<Rightarrow> s1 | Some i \<Rightarrow> cancel_root i s1)
         in (Ok False, k\<lparr>cn_srv := s2\<rparr>))
      else (Ok True, k))"

lemma ReadFrame_shorter: "ReadFrame r = (Ok f, r') \<Longrightarrow> length r' < length r"
  using ReadFrame_Ok [of r f r'] by (simp add: enc_frame_def)

text \<open>The loop: \<open>Ok ()\<close> where it returns (Terminate, end of stream, read error).\<close>

function runQueryLoop :: "'h query_handler option \<Rightarrow> ctx \<Rightarrow> bytes \<Rightarrow> 'h conn \<Rightarrow> unit go \<times> 'h conn" where
  "runQueryLoop handler c r k =
     (case ReadFrame r of
        (Ok f, r') \<Rightarrow>
          (case handle_frame handler c f k of
             (Ok True, k') \<Rightarrow> runQueryLoop handler c r' k'
           | (Ok False, k') \<Rightarrow> (Ok (), k')
           | (Err e, k') \<Rightarrow> (Err e, k')
           | (Panic, k') \<Rightarrow> (Panic, k'))
      | (Err e, r') \<Rightarrow> (Ok (), k)
      | (Panic, r') \<Rightarrow> (Panic, k))"
  by pat_completeness auto
termination
  by (relation "measure (\<lambda>(_, _, r, _). length r)") (auto dest: ReadFrame_shorter [OF sym])

declare runQueryLoop.simps [simp del]

section \<open>Startup\<close>

definition brand_Name :: "string option \<Rightarrow> string" where
  "brand_Name env = (case env of Some v \<Rightarrow> if v \<noteq> [] then v else ''Ultraviolet'' | None \<Rightarrow> ''Ultraviolet'')"

definition ServerVersion :: "string option \<Rightarrow> string" where
  "ServerVersion env = ''16.0 ('' @ brand_Name env @ '')''"

definition startup_statuses :: "string option \<Rightarrow> session \<Rightarrow> (string \<times> string) list" where
  "startup_statuses env sess =
     [(''server_version'', ServerVersion env), (''server_encoding'', ''UTF8''), (''client_encoding'', ''UTF8''),
      (''DateStyle'', ''ISO, MDY''), (''TimeZone'', ''UTC''), (''integer_datetimes'', ''on''),
      (''standard_conforming_strings'', ''on''), (''application_name'', s_Application sess)]"

fun write_statuses :: "(string \<times> string) list \<Rightarrow> write_op" where
  "write_statuses [] w = (w, None)"
| "write_statuses ((k, v) # ps) w =
     (case WriteParameterStatus k v w of (w1, Some e) \<Rightarrow> (w1, Some e) | (w1, None) \<Rightarrow> write_statuses ps w1)"

text \<open>
  What the environment supplies to a connection: the brand variable, the order in which Go's runtime
  iterates over the map of parameters, the eight random bytes (or a failure), the clock, and what \<^verbatim>\<open>ListenAndServe\<close> was started with.
\<close>

record 'h env =
  e_brand :: "string option"
  e_order :: "(string \<times> string) list \<Rightarrow> (string \<times> string) list"
  e_rand :: "bytes option"
  e_now :: int
  e_ctx :: ctx
  e_Auth :: "(string \<Rightarrow> string \<Rightarrow> 'h \<Rightarrow> session_identity go \<times> 'h) option"
  e_Handler :: "'h query_handler option"

definition completeStartup :: "'h env \<Rightarrow> server \<Rightarrow> session \<Rightarrow> writer \<Rightarrow> go_error option \<times> server \<times> session \<times> writer" where
  "completeStartup env srv sess w =
     (case WriteAuthOK w of
        (w1, Some e) \<Rightarrow> (Some e, srv, sess, w1)
      | (w1, None) \<Rightarrow>
          (case write_statuses (e_order env (startup_statuses (e_brand env) sess)) w1 of
             (w2, Some e) \<Rightarrow> (Some e, srv, sess, w2)
           | (w2, None) \<Rightarrow>
               (let (pid, secret) = randomBackendKey (e_rand env);
                    (sessCtx, cancel, srv1) = WithCancel Background srv;
                    srv2 = registerCancelKey pid secret cancel srv1;
                    sess2 = sess\<lparr>s_cancelKey := Some \<lparr>PID = pid, Secret = secret\<rparr>, s_ctxCancel := Some cancel,
                                 s_ctx := Some sessCtx\<rparr>
                in case WriteBackendKeyData pid secret w2 of
                     (w3, Some e) \<Rightarrow> (Some e, srv2, sess2, w3)
                   | (w3, None) \<Rightarrow>
                       (case WriteReadyForQuery (CHR ''I'') w3 of
                          (w4, Some e) \<Rightarrow> (Some e, srv2, sess2, w4)
                        | (w4, None) \<Rightarrow> (let (w5, e) = Flush w4 in (e, srv2, sess2, w5))))))"

definition new_session :: "session_identity \<Rightarrow> string \<Rightarrow> string \<Rightarrow> int \<Rightarrow> session" where
  "new_session ident app encoding now =
     \<lparr>s_Identity = ident, s_Application = app, s_ClientEncoding = encoding, s_StartedAt = now,
      s_preparedStatements = Map.empty, s_portals = Map.empty, s_cancelKey = None, s_ctx = None, s_ctxCancel = None\<rparr>"

definition param :: "startup_message \<Rightarrow> string \<Rightarrow> string" where
  "param m k = (case Parameters m k of None \<Rightarrow> [] | Some v \<Rightarrow> v)"

definition handleSession ::
  "'h env \<Rightarrow> server \<Rightarrow> 'h \<Rightarrow> bool \<Rightarrow> bytes \<Rightarrow> startup_message \<Rightarrow> unit go \<times> server \<times> 'h \<times> writer" where
  "handleSession env srv h broken r startup =
     (let w = NewWriter broken;
          user = param startup ''user'';
          database = (if param startup ''database'' = [] then user else param startup ''database'')
      in case e_Auth env of
           None \<Rightarrow>
             (let ident = \<lparr>APIKeyID = 0, CustomerID = 0, CustomerSlug = user, WarehouseType = stripWarehouseSuffix database\<rparr>
              in case completeStartup env srv (new_session ident [] [] (e_now env)) w of
                   (Some e, srv1, _, w1) \<Rightarrow> (Ok (), srv1, h, w1)
                 | (None, srv1, _, w1) \<Rightarrow>
                     (let (res, k) = runQueryLoop (e_Handler env) (e_ctx env) r
                            \<lparr>cn_srv = srv1, cn_sess = new_session (ident\<lparr>WarehouseType := []\<rparr>) [] [] 0, cn_h = h, cn_w = w1\<rparr>
                      in (res, cn_srv k, cn_h k, cn_w k)))
         | Some auth \<Rightarrow>
             (case WriteAuthCleartext w of
                (w1, Some e) \<Rightarrow> (Ok (), srv, h, w1)
              | (w1, None) \<Rightarrow>
                  (case Flush w1 of
                     (w2, Some e) \<Rightarrow> (Ok (), srv, h, w2)
                   | (w2, None) \<Rightarrow>
                       (case ReadFrame r of
                          (Ok pw, r1) \<Rightarrow>
                            if fr_Type pw \<noteq> MsgPasswordMsg then
                              (Ok (), srv, h, quietly Flush (quietly
                                 (WriteErrorResponse ''FATAL'' ''28000'' ''expected password message'' []) w2))
                            else
                              (case auth (TrimRight (fr_Body pw) [CHR 0x00]) database h of
                                 (Err e, h1) \<Rightarrow>
                                   (Ok (), srv, h1, quietly Flush (quietly
                                      (WriteErrorResponse ''FATAL'' ''28P01'' ''authentication failed'' []) w2))
                               | (Panic, h1) \<Rightarrow> (Panic, srv, h1, w2)
                               | (Ok ident, h1) \<Rightarrow>
                                   (case completeStartup env srv
                                           (new_session ident (param startup ''application_name'')
                                              (param startup ''client_encoding'') (e_now env)) w2 of
                                      (Some e, srv1, _, w3) \<Rightarrow> (Ok (), srv1, h1, w3)
                                    | (None, srv1, sess, w3) \<Rightarrow>
                                        (let (res, k) = runQueryLoop (e_Handler env) (e_ctx env) r1
                                               \<lparr>cn_srv = srv1, cn_sess = sess, cn_h = h1, cn_w = w3\<rparr>
                                         in (res, cn_srv k, cn_h k, cn_w k))))
                        | (_, r1) \<Rightarrow>
                            (Ok (), srv, h, quietly Flush (quietly
                               (WriteErrorResponse ''FATAL'' ''28000'' ''expected password message'' []) w2))))))"

text \<open>
  A connection delivers the bytes \<open>r\<close>; after an SSLRequest the handshake either fails (\<open>None\<close>) or opens
  the next layer, whose bytes are the next element of \<open>tls\<close>. The single bytes 'S' and 'N' are written to
  the socket directly. The result is the outcome, the server, the handler's state and all bytes sent.
\<close>

lemma ReadStartup_shorter: "ReadStartupMessage r = ((m, ssl, cancel, None), r') \<Longrightarrow> length r' < length r"
  using ReadStartup_bound [of r m ssl cancel r'] by auto

function serveConn ::
  "'h env \<Rightarrow> server \<Rightarrow> 'h \<Rightarrow> bool \<Rightarrow> bytes \<Rightarrow> bytes option list \<Rightarrow> bytes \<Rightarrow> unit go \<times> server \<times> 'h \<times> bytes" where
  "serveConn env srv h broken r tls out =
     (case ReadStartupMessage r of
        ((msg, isSSL, isCancel, Some e), r') \<Rightarrow> (Ok (), srv, h, out)
      | ((msg, isSSL, isCancel, None), r') \<Rightarrow>
          if isCancel then
            (case msg of
               None \<Rightarrow> (Ok (), srv, h, out)
             | Some m \<Rightarrow>
                 (case CancelKey m of
                    None \<Rightarrow> (Ok (), srv, h, out)
                  | Some ck \<Rightarrow> (Ok (), fireCancel (PID ck) (Secret ck) srv, h, out)))
          else if isSSL then
            (if broken then (Ok (), srv, h, out)
             else if TLSConfig srv then
               (case tls of
                  Some r2 # tls' \<Rightarrow> serveConn env srv h broken r2 tls' (out @ ''S'')
                | _ \<Rightarrow> (Ok (), srv, h, out @ ''S''))
             else serveConn env srv h broken r' tls (out @ ''N''))
          else
            (case msg of
               None \<Rightarrow> (Panic, srv, h, out)
             | Some m \<Rightarrow>
                 (let (res, srv', h', w) = handleSession env srv h broken r' m in (res, srv', h', out @ w_sent w))))"
  by pat_completeness auto
termination
  by (relation "measures [\<lambda>(_, _, _, _, _, tls, _). length tls, \<lambda>(_, _, _, _, r, _, _). length r]")
     (auto dest: ReadStartup_shorter [OF sym])

declare serveConn.simps [simp del]

section \<open>Cancel keys are packed without loss\<close>

lemma bit_cancelKey:
  "bit (cancelKey pid secret) n \<longleftrightarrow> (if n < 32 then bit secret n else n < 64 \<and> bit pid (n - 32))"
  using bit_imp_le_length [of secret n]
  by (auto simp: cancelKey_def bit_or_iff bit_push_bit_iff bit_ucast_iff)

lemma cancelKey_inject [simp]: "cancelKey p s = cancelKey p' s' \<longleftrightarrow> p = p' \<and> s = s'"
proof
  assume eq: "cancelKey p s = cancelKey p' s'"
  have "s = s'"
  proof (rule bit_word_eqI)
    fix n assume "n < LENGTH(32)"
    then show "bit s n = bit s' n" using bit_cancelKey [of p s n] bit_cancelKey [of p' s' n] eq by simp
  qed
  moreover have "p = p'"
  proof (rule bit_word_eqI)
    fix n assume "n < LENGTH(32)"
    then show "bit p n = bit p' n" using bit_cancelKey [of p s "n + 32"] bit_cancelKey [of p' s' "n + 32"] eq by simp
  qed
  ultimately show "p = p' \<and> s = s'" by simp
qed simp

section \<open>What reaches the wire\<close>

text \<open>
  All bytes written so far, sent or still buffered. \<open>writes fs w w'\<close>: on a working connection the step
  from \<open>w\<close> to \<open>w'\<close> adds exactly the frames \<open>fs\<close>.
\<close>

definition wire :: "writer \<Rightarrow> bytes" where
  "wire w = w_sent w @ w_pending w"

definition encs :: "frame list \<Rightarrow> bytes" where
  "encs fs = concat (map enc_frame fs)"

definition good :: "writer \<Rightarrow> bool" where
  "good w \<longleftrightarrow> \<not> w_err w \<and> \<not> w_broken w"

lemma encs_simps [simp]: "encs [] = []" "encs (f # fs) = enc_frame f @ encs fs" "encs (fs @ gs) = encs fs @ encs gs"
  by (simp_all add: encs_def)

definition writes :: "frame list \<Rightarrow> writer \<Rightarrow> writer \<Rightarrow> bool" where
  "writes fs w w' \<longleftrightarrow> good w \<longrightarrow> good w' \<and> wire w' = wire w @ encs fs"

lemma writes_refl [intro]: "writes [] w w"
  by (simp add: writes_def)

lemma writes_trans: "writes fs w w1 \<Longrightarrow> writes gs w1 w2 \<Longrightarrow> writes (fs @ gs) w w2"
  by (auto simp: writes_def)

lemma writes_emit: "writes fs w (emit fs w)"
  by (auto simp: writes_def good_def wire_def emit_def encs_def)

lemma writes_flush: "writes [] w (quietly Flush w)"
  by (auto simp: writes_def good_def quietly_def Flush_def wire_def)

lemma writes_frame: "writes [fr t b] w (quietly (writeFrame t b) w)"
  using writes_emit [of "[fr t b]" w] by (auto simp: quietly_def writeFrame_emit writes_def good_def)

lemma writes_flush_after: "writes fs w w' \<Longrightarrow> writes fs w (quietly Flush w')"
  using writes_trans [OF _ writes_flush] by force

lemma writes_frame_after: "writes fs w w' \<Longrightarrow> writes (fs @ [fr t b]) w (quietly (writeFrame t b) w')"
  using writes_trans [OF _ writes_frame] .

lemma writeFrame_result:
  "writeFrame t b w = (w', e) \<Longrightarrow> writes [fr t b] w w' \<and> (good w \<longrightarrow> e = None)"
  using writes_frame [of t b w] by (auto simp: quietly_def writeFrame_emit good_def split: if_splits)

lemma WriteErrorResponse_frame: "\<exists>b. WriteErrorResponse sev code msg ex = writeFrame BMsgErrorResponse b"
  by (auto simp: WriteErrorResponse_def Let_def)

lemma writes_report: "writes fs w w' \<Longrightarrow> \<exists>b. writes (fs @ [fr BMsgErrorResponse b]) w (report code e w')"
  using WriteErrorResponse_frame [of "''ERROR''" code "Error e" "[]"] writes_frame_after [of fs w w' BMsgErrorResponse]
  by (fastforce simp: report_def)

lemma writes_ready: "writes fs w w' \<Longrightarrow> writes (fs @ [fr BMsgReadyForQuery ''I'']) w (ready w')"
  by (simp add: ready_def WriteReadyForQuery_def writes_flush_after writes_frame_after)

text \<open>
  The answer the protocol prescribes to one message, as the types of the frames sent back: one final
  \<^verbatim>\<open>ReadyForQuery\<close> for a simple query, exactly one for a Sync, none anywhere else.
\<close>

definition conforms :: "frame \<Rightarrow> byte list \<Rightarrow> bool" where
  "conforms f out \<longleftrightarrow>
     (if fr_Type f = MsgQuery then
        out \<noteq> [] \<and> last out = BMsgReadyForQuery \<and> BMsgReadyForQuery \<notin> set (butlast out)
      else if fr_Type f = MsgParse then out \<in> {[BMsgParseComplete], [BMsgErrorResponse]}
      else if fr_Type f = MsgBind then out \<in> {[BMsgBindComplete], [BMsgErrorResponse]}
      else if fr_Type f = MsgDescribe then
        out \<in> {[BMsgNoData], [BMsgParameterDesc, BMsgNoData], [BMsgErrorResponse]}
      else if fr_Type f = MsgExecute then BMsgReadyForQuery \<notin> set out
      else if fr_Type f = MsgSync then out = [BMsgReadyForQuery]
      else if fr_Type f = MsgClose then out = [BMsgCloseComplete]
      else out = [])"

definition answers :: "writer \<Rightarrow> writer \<Rightarrow> bool" where
  "answers w w' \<longleftrightarrow> (\<exists>fs. writes fs w w' \<and> BMsgReadyForQuery \<notin> fr_Type ` set fs)"

lemma writeFrame_good:
  "good w \<Longrightarrow> writeFrame t b w = (emit [fr t b] w, None) \<and> good (emit [fr t b] w)"
  by (simp add: writeFrame_emit good_def)

lemma answers_emit: "BMsgReadyForQuery \<notin> fr_Type ` set fs \<Longrightarrow> answers w (emit fs w)"
  unfolding answers_def using writes_emit by blast

lemma answers_refl: "answers w w"
  using answers_emit [of "[]" w] by simp

lemma WriteHardcodedSelectOne_answers:
  assumes "good w" "WriteHardcodedSelectOne sql w = (r, w')"
  shows "answers w w' \<and> r = Ok ()"
  using assms(2)
  by (auto simp: WriteHardcodedSelectOne_def Let_def WriteRowDescription_emit WriteDataRow_emit WriteCommandComplete_def
        writeFrame_emit good_def [THEN iffD1, OF assms(1)] result_of_def answers_emit split: if_splits)

lemma handleParse_conforms:
  assumes "handleParse sess body w = (r, s', w')" "good w"
  shows "(r = Ok () \<and> writes [fr BMsgParseComplete []] w w') \<or> (\<exists>e. r = Err e \<and> w' = w)"
  using assms by (auto simp: handleParse_def Let_def WriteParseComplete_def result_of_def split: prod.splits if_splits option.splits dest!: writeFrame_result)

lemma handleBind_conforms:
  assumes "handleBind sess body w = (r, s', w')" "good w"
  shows "(r = Ok () \<and> writes [fr BMsgBindComplete []] w w') \<or> ((r = Panic \<or> (\<exists>e. r = Err e)) \<and> w' = w)"
  using assms by (auto simp: handleBind_def Let_def WriteBindComplete_def result_of_def split: prod.splits if_splits option.splits go.splits dest!: writeFrame_result)

lemma handleDescribe_conforms:
  assumes "handleDescribe sess body w = (r, w')" "good w"
  shows "(r = Ok () \<and> (\<exists>fs. writes fs w w' \<and> map fr_Type fs \<in> {[BMsgNoData], [BMsgParameterDesc, BMsgNoData]})) \<or> (\<exists>e. r = Err e \<and> w' = w)"
proof (cases body)
  case Nil
  with assms show ?thesis by (auto simp: handleDescribe_def)
next
  case (Cons target rest)
  obtain b where b: "WriteParameterDescription
      (case s_preparedStatements sess (fst (readCString rest)) of None \<Rightarrow> [] | Some st \<Rightarrow> ps_ParamOIDs st) =
      writeFrame BMsgParameterDesc b"
    by (simp add: WriteParameterDescription_def)
  have "handleDescribe sess body w =
      (Ok (), emit ((if target = CHR ''S'' then [fr BMsgParameterDesc b] else []) @ [fr BMsgNoData []]) w)"
    using b assms(2) Cons
    by (simp add: handleDescribe_def Let_def WriteNoData_def writeFrame_emit good_def result_of_def case_prod_unfold)
  then show ?thesis
    using assms(1) writes_emit [of "[fr BMsgParameterDesc b, fr BMsgNoData []]" w] writes_emit [of "[fr BMsgNoData []]" w]
    by (auto split: if_splits intro: exI [of _ "[fr BMsgParameterDesc b, fr BMsgNoData []]"] exI [of _ "[fr BMsgNoData []]"])
qed

lemma answers_trans: "answers w w1 \<Longrightarrow> writes fs w1 w2 \<Longrightarrow> BMsgReadyForQuery \<notin> fr_Type ` set fs \<Longrightarrow> answers w w2"
  unfolding answers_def using writes_trans by (metis UnE image_Un set_append)

lemma answers_report: "answers w w1 \<Longrightarrow> answers w (report code e w1)"
  using writes_report [OF writes_refl, of w1 code e] by (auto intro: answers_trans)

lemma answers_flush: "answers w w1 \<Longrightarrow> answers w (quietly Flush w1)"
  by (rule answers_trans [OF _ writes_flush]) simp_all

definition responds :: "frame \<Rightarrow> writer \<Rightarrow> writer \<Rightarrow> bool" where
  "responds f w w' \<longleftrightarrow> (\<exists>fs. writes fs w w' \<and> conforms f (map fr_Type fs))"

lemma respondsI: "writes fs w w' \<Longrightarrow> conforms f (map fr_Type fs) \<Longrightarrow> responds f w w'"
  by (auto simp: responds_def)

lemma responds_ready: "fr_Type f = MsgQuery \<Longrightarrow> answers w w1 \<Longrightarrow> responds f w (ready w1)"
  unfolding answers_def by (elim exE conjE, rule respondsI, erule writes_ready) (auto simp: conforms_def)

lemma responds_execute: "fr_Type f = MsgExecute \<Longrightarrow> answers w w' \<Longrightarrow> responds f w w'"
  unfolding answers_def by (elim exE conjE, erule respondsI) (auto simp: conforms_def)

lemma responds_error:
  "fr_Type f \<in> {MsgParse, MsgBind, MsgDescribe} \<Longrightarrow> responds f w (quietly Flush (report code e w))"
  using writes_report [OF writes_refl, of w code e]
  by (auto simp: conforms_def intro!: respondsI [OF writes_flush_after])

lemma handle_other:
  assumes "fr_Type f \<notin> {MsgQuery, MsgParse, MsgBind, MsgDescribe, MsgExecute}"
  shows "\<exists>k'. handle_frame handler c f k = (Ok (fr_Type f \<noteq> MsgTerminate), k') \<and> responds f (cn_w k) (cn_w k')"
proof -
  have "writes [] (cn_w k) (quietly Flush (cn_w k))" "writes [] (cn_w k) (cn_w k)"
    "writes [fr BMsgCloseComplete []] (cn_w k) (quietly Flush (quietly WriteCloseComplete (cn_w k)))"
    "writes [fr BMsgReadyForQuery ''I''] (cn_w k) (ready (cn_w k))"
    using writes_ready [of "[]" "cn_w k" "cn_w k"] writes_flush_after [OF writes_frame [of BMsgCloseComplete "[]" "cn_w k"]]
    by (auto simp: writes_flush WriteCloseComplete_def)
  then show ?thesis
    using assms by (auto simp: handle_frame_def Let_def conforms_def intro!: respondsI)
qed

lemma runQueryLoop_Cons:
  assumes "length (fr_Body f) + 4 \<le> 2 ^ 24" and "handle_frame handler c f k = (r, k1)"
  shows "runQueryLoop handler c (encs (f # fs)) k =
      (case r of Ok b \<Rightarrow> if b then runQueryLoop handler c (encs fs) k1 else (Ok (), k1) | Err e \<Rightarrow> (Err e, k1) | Panic \<Rightarrow> (Panic, k1))"
  using assms ReadFrame_enc_frame [of f "encs fs"]
  by (subst runQueryLoop.simps) (simp split: go.splits bool.splits)

section \<open>The contract of a query handler\<close>

text \<open>
  The query loop owns \<^verbatim>\<open>ReadyForQuery\<close>: all it needs of a handler is that on a working connection
  the handler only adds frames and none of them is a \<^verbatim>\<open>ReadyForQuery\<close>. Without a handler the server
  answers by itself.
\<close>

locale query_backend =
  fixes handler :: "'h query_handler option"
  assumes simple: "\<lbrakk>handler = Some H; good w; HandleSimpleQuery H c sess sql h w = (r, h', w')\<rbrakk> \<Longrightarrow> answers w w'"
    and extended: "\<lbrakk>handler = Some H; good w; HandleExtendedExecute H c sess p h w = (r, h', w')\<rbrakk> \<Longrightarrow> answers w w'"
begin

lemma dispatch_answers: "good w \<Longrightarrow> dispatch handler c sess sql h w = (r, h', w') \<Longrightarrow> answers w w'"
  by (cases handler)
     (auto simp: dispatch_def dest: simple WriteHardcodedSelectOne_answers [THEN conjunct1] split: prod.splits)

lemma execute_answers: "good w \<Longrightarrow> handleExecute handler c sess body h w = (r, h', w') \<Longrightarrow> answers w w'"
  by (cases handler)
     (auto simp: handleExecute_def answers_refl split: prod.splits option.splits
       dest: extended WriteHardcodedSelectOne_answers [THEN conjunct1])

lemma handle_frame_conforms:
  assumes "good (cn_w k)" "handle_frame handler c f k = (Ok b, k')"
  shows "responds f (cn_w k) (cn_w k') \<and> (b \<longleftrightarrow> fr_Type f \<noteq> MsgTerminate)"
proof -
  consider "fr_Type f = MsgQuery" | "fr_Type f = MsgParse" | "fr_Type f = MsgBind" | "fr_Type f = MsgDescribe"
    | "fr_Type f = MsgExecute" | "fr_Type f \<notin> {MsgQuery, MsgParse, MsgBind, MsgDescribe, MsgExecute}" by auto
  then show ?thesis
  proof cases
    case 1
    let ?sql = "TrimRight (fr_Body f) [CHR 0x00]"
    have "answers (cn_w k) (quietly WriteEmptyQueryResponse (cn_w k))"
      using answers_trans [OF answers_refl writes_frame [of BMsgEmptyQueryResp "[]" "cn_w k"]] by (simp add: WriteEmptyQueryResponse_def)
    with 1 show ?thesis
      using assms dispatch_answers [OF assms(1), of c "cn_sess k" ?sql "cn_h k"]
      by (auto simp: handle_frame_def Let_def split: if_splits prod.splits go.splits intro!: responds_ready answers_report)
  next
    case 2
    then show ?thesis
      using assms(2) handleParse_conforms [OF _ assms(1), of "cn_sess k" "fr_Body f"] responds_error [of f "cn_w k"]
      by (auto simp: handle_frame_def conforms_def split: prod.splits go.splits intro: respondsI)
  next
    case 3
    then show ?thesis
      using assms(2) handleBind_conforms [OF _ assms(1), of "cn_sess k" "fr_Body f"] responds_error [of f "cn_w k"]
      by (auto simp: handle_frame_def conforms_def split: prod.splits go.splits intro: respondsI)
  next
    case 4
    obtain r w1 where d: "handleDescribe (cn_sess k) (fr_Body f) (cn_w k) = (r, w1)" by force
    from handleDescribe_conforms [OF d assms(1)] show ?thesis
    proof
      assume "r = Ok () \<and> (\<exists>fs. writes fs (cn_w k) w1 \<and> map fr_Type fs \<in> {[BMsgNoData], [BMsgParameterDesc, BMsgNoData]})"
      then obtain fs where "r = Ok ()" "writes fs (cn_w k) w1" "conforms f (map fr_Type fs)"
        using 4 by (auto simp: conforms_def simp del: map_eq_Cons_conv)
      then show ?thesis
        using 4 assms(2) d respondsI [OF writes_flush_after] by (auto simp: handle_frame_def)
    next
      assume "\<exists>e. r = Err e \<and> w1 = cn_w k"
      then show ?thesis using 4 assms(2) d responds_error [of f "cn_w k"] by (auto simp: handle_frame_def)
    qed
  next
    case 5
    then show ?thesis
      using assms execute_answers [OF assms(1), of c "cn_sess k" "fr_Body f" "cn_h k"]
      by (auto simp: handle_frame_def split: prod.splits go.splits intro!: responds_execute answers_flush answers_report)
  next
    case 6
    with handle_other [of f handler c k] assms(2) show ?thesis by auto
  qed
qed

lemma runQueryLoop_conforms:
  assumes "good (cn_w k)" "\<forall>f \<in> set fs. length (fr_Body f) + 4 \<le> 2 ^ 24"
    and "runQueryLoop handler c (encs fs) k = (Ok (), k')"
  shows "\<exists>outs. list_all2 (\<lambda>f out. conforms f (map fr_Type out)) (takeWhile (\<lambda>f. fr_Type f \<noteq> MsgTerminate) fs) outs \<and>
           good (cn_w k') \<and> wire (cn_w k') = wire (cn_w k) @ encs (concat outs)"
  using assms
proof (induction fs arbitrary: k)
  case Nil
  then show ?case by (simp add: runQueryLoop.simps ReadFrame_def)
next
  case (Cons f fs)
  obtain r k1 where h: "handle_frame handler c f k = (r, k1)" by force
  note loop = runQueryLoop_Cons [OF _ h, of fs]
  then obtain b where r: "r = Ok b" using Cons.prems(2,3) by (cases r) auto
  from handle_frame_conforms [OF Cons.prems(1) h [unfolded r]] obtain out where
    out: "good (cn_w k1)" "wire (cn_w k1) = wire (cn_w k) @ encs out" "conforms f (map fr_Type out)" "b \<longleftrightarrow> fr_Type f \<noteq> MsgTerminate"
    using Cons.prems(1) by (auto simp: responds_def writes_def)
  show ?case
  proof (cases b)
    case True
    then obtain outs where "list_all2 (\<lambda>f out. conforms f (map fr_Type out)) (takeWhile (\<lambda>f. fr_Type f \<noteq> MsgTerminate) fs) outs"
      "good (cn_w k')" "wire (cn_w k') = wire (cn_w k1) @ encs (concat outs)"
      using Cons.IH [of k1] Cons.prems loop r out(1) by auto
    with out True show ?thesis by (intro exI [of _ "out # outs"]) auto
  next
    case False
    with out have "out = []" by (simp add: conforms_def)
    with out False loop r Cons.prems(2,3) show ?thesis by auto
  qed
qed

end

interpretation smoke: query_backend None
  by unfold_locales simp_all

lemma conforms_count:
  "list_all2 (\<lambda>f out. conforms f (map fr_Type out)) fs outs \<Longrightarrow>
     count_list (map fr_Type (concat outs)) BMsgReadyForQuery = length (filter (\<lambda>f. fr_Type f \<in> {MsgQuery, MsgSync}) fs)"
proof (induction rule: list_all2_induct)
  case (Cons f fs out outs)
  have "count_list (map fr_Type out) BMsgReadyForQuery = (if fr_Type f \<in> {MsgQuery, MsgSync} then 1 else 0)"
  proof (cases "fr_Type f = MsgQuery")
    case True
    let ?o = "map fr_Type out"
    have o: "?o \<noteq> []" "last ?o = BMsgReadyForQuery" "BMsgReadyForQuery \<notin> set (butlast ?o)"
      using Cons.hyps(1) True by (simp_all add: conforms_def del: list.map_disc_iff)
    have "count_list (butlast ?o) BMsgReadyForQuery = 0" using o(3) by (simp add: count_list_0_iff)
    moreover have "?o = butlast ?o @ [BMsgReadyForQuery]" using o(1,2) by (metis append_butlast_last_id)
    ultimately have "count_list ?o BMsgReadyForQuery = 1" by (metis count_list_append count_list.simps add_0)
    with True show ?thesis by simp
  next
    case False
    then show ?thesis using Cons.hyps(1) by (auto simp: conforms_def count_list_0_iff split: if_splits)
  qed
  with Cons.IH show ?case by simp
qed simp


section \<open>Messages of the extended protocol\<close>

text \<open>What a client sends as the body of a Parse and of a Bind.\<close>

definition enc_parse :: "string \<Rightarrow> string \<Rightarrow> 32 word list \<Rightarrow> bytes" where
  "enc_parse name sql oids =
     enc_cstr name @ enc_cstr sql @ PutUint16 (word_of_nat (length oids)) @ concat (map PutUint32 oids)"

definition enc_formats :: "16 word list \<Rightarrow> bytes" where
  "enc_formats fs = PutUint16 (word_of_nat (length fs)) @ concat (map PutUint16 fs)"

definition enc_bind :: "string \<Rightarrow> string \<Rightarrow> 16 word list \<Rightarrow> bytes option list \<Rightarrow> 16 word list \<Rightarrow> bytes" where
  "enc_bind por stmt pfs vs rfs =
     enc_cstr por @ enc_cstr stmt @ enc_formats pfs @ PutUint16 (word_of_nat (length vs)) @
     concat (map enc_value vs) @ enc_formats rfs"

lemma read_oids_enc: "read_oids (length oids) (concat (map PutUint32 oids) @ r) = oids"
  by (induction oids) simp_all

lemma read_formats_enc: "read_formats (length fs) (concat (map PutUint16 fs) @ r) = (fs, r)"
  by (induction fs) simp_all

lemma length_concat_PutUint32 [simp]: "length (concat (map PutUint32 oids)) = 4 * length oids"
  by (induction oids) simp_all

lemma read_values_enc:
  assumes "\<forall>x. Some x \<in> set vs \<longrightarrow> length x < 2 ^ 31"
  shows "read_values i (length vs) (concat (map enc_value vs) @ r) = Ok (vs, r)"
  using assms
proof (induction vs arbitrary: i)
  case (Cons v vs)
  then have IH: "read_values (i + 1) (length vs) (concat (map enc_value vs) @ r) = Ok (vs, r)" by auto
  show ?case
  proof (cases v)
    case None
    then show ?thesis using IH by (simp add: Let_def)
  next
    case (Some x)
    then have "length x < 2 ^ 31" using Cons.prems by auto
    from sint_word32_nat [OF this] show ?thesis using IH Some by (simp add: Let_def)
  qed
qed simp

lemma read_values_panic:
  assumes "\<forall>x. Some x \<in> set vs \<longrightarrow> length x < 2 ^ 31" "sint l < - 1"
  shows "read_values i (length vs + Suc m) (concat (map enc_value vs) @ PutUint32 l @ r) = Panic"
  using assms
proof (induction vs arbitrary: i)
  case Nil
  then show ?case by (simp add: Let_def)
next
  case (Cons v vs)
  then have IH: "read_values (i + 1) (length vs + Suc m) (concat (map enc_value vs) @ PutUint32 l @ r) = Panic" by auto
  show ?case
  proof (cases v)
    case None
    then show ?thesis using IH by (simp add: Let_def)
  next
    case (Some x)
    then have "length x < 2 ^ 31" using Cons.prems by auto
    from sint_word32_nat [OF this] show ?thesis using IH Some by (simp add: Let_def)
  qed
qed

lemma handleParse_enc:
  assumes "CHR 0x00 \<notin> set name" "CHR 0x00 \<notin> set sql" "length oids < 2 ^ 16" "good w"
  shows "handleParse sess (enc_parse name sql oids) w =
    (Ok (), sess\<lparr>s_preparedStatements := (s_preparedStatements sess)(name \<mapsto> \<lparr>ps_Name = name, ps_SQL = sql, ps_ParamOIDs = oids\<rparr>)\<rparr>,
     emit [fr BMsgParseComplete []] w)"
proof -
  let ?t = "PutUint16 (word_of_nat (length oids)) @ concat (map PutUint32 oids)"
  have "handleParse sess (name @ CHR 0x00 # sql @ CHR 0x00 # ?t) w =
    (Ok (), sess\<lparr>s_preparedStatements := (s_preparedStatements sess)(name \<mapsto> \<lparr>ps_Name = name, ps_SQL = sql, ps_ParamOIDs = oids\<rparr>)\<rparr>,
     emit [fr BMsgParseComplete []] w)"
    using assms(3,4) read_oids_enc [of oids "[]"] readCString_append [OF assms(1), of "sql @ CHR 0x00 # ?t"]
      readCString_append [OF assms(2), of ?t]
    by (simp add: handleParse_def Let_def unat_word16 WriteParseComplete_def writeFrame_emit good_def result_of_def)
  then show ?thesis by (simp add: enc_parse_def enc_cstr_def)
qed

lemma bind_header:
  assumes "CHR 0x00 \<notin> set por" "CHR 0x00 \<notin> set stmt" "s_preparedStatements sess stmt = Some st" "length pfs < 2 ^ 16"
  shows "handleBind sess (enc_cstr por @ enc_cstr stmt @ enc_formats pfs @ PutUint16 n @ vals) w =
     (case read_values 0 (unat n) vals of
                  Err e \<Rightarrow> (Err e, sess, w)
                | Panic \<Rightarrow> (Panic, sess, w)
                | Ok (pValues, body4) \<Rightarrow>
                    if length body4 < 2 then (Err (Errorf ''bind: short result-format list''), sess, w)
                    else
                      (let (rFormats, _) = read_formats (unat (Uint16 body4)) (drop 2 body4);
                           p = \<lparr>po_Name = por, po_Statement = st, po_ParamFormatCodes = pfs,
                                po_ParamValues = pValues, po_ResultFormatCodes = rFormats\<rparr>;
                           (w', e) = WriteBindComplete w
                       in (result_of e, sess\<lparr>s_portals := (s_portals sess)(por \<mapsto> p)\<rparr>, w')))"
proof -
  let ?t = "PutUint16 n @ vals"
  have f: "read_formats (length pfs) (concat (map PutUint16 pfs) @ ?t) = (pfs, ?t)"
    by (rule read_formats_enc)
  show ?thesis
    using assms(3,4) f readCString_append [OF assms(1), of "stmt @ CHR 0x00 # enc_formats pfs @ ?t"]
      readCString_append [OF assms(2), of "enc_formats pfs @ ?t"]
    by (simp add: handleBind_def enc_cstr_def enc_formats_def unat_word16)
qed

lemma handleBind_enc:
  assumes "CHR 0x00 \<notin> set por" "CHR 0x00 \<notin> set stmt" "s_preparedStatements sess stmt = Some st" "length pfs < 2 ^ 16"
    "length vs < 2 ^ 16" "\<forall>x. Some x \<in> set vs \<longrightarrow> length x < 2 ^ 31" "length rfs < 2 ^ 16" "good w"
  shows "handleBind sess (enc_bind por stmt pfs vs rfs) w =
    (Ok (), sess\<lparr>s_portals := (s_portals sess)(por \<mapsto> \<lparr>po_Name = por, po_Statement = st, po_ParamFormatCodes = pfs,
                                po_ParamValues = vs, po_ResultFormatCodes = rfs\<rparr>)\<rparr>, emit [fr BMsgBindComplete []] w)"
proof -
  have "read_formats (unat (Uint16 (enc_formats rfs))) (drop 2 (enc_formats rfs)) = (rfs, [])"
    using assms(7) read_formats_enc [of rfs "[]"] by (simp add: enc_formats_def unat_word16)
  moreover have "\<not> length (enc_formats rfs) < 2" by (simp add: enc_formats_def)
  ultimately show ?thesis
    using assms read_values_enc [OF assms(6), of 0 "enc_formats rfs"]
    by (simp add: enc_bind_def bind_header unat_word16 WriteBindComplete_def writeFrame_emit good_def result_of_def)
qed

section \<open>Lemmas on admission, cancellation and startup\<close>

lemma listen_inv_step:
  assumes "listen_step l l'" "sv_inflight (ln_srv l) = length (ln_open l)" "distinct (ln_open l)"
    "sv_sem (ln_srv l) = Some cap" "length (ln_open l) \<le> cap"
  shows "sv_inflight (ln_srv l') = length (ln_open l') \<and> distinct (ln_open l') \<and>
    sv_sem (ln_srv l') = Some cap \<and> length (ln_open l') \<le> cap"
  using assms
  by (induction rule: listen_step.induct) (auto simp: accept_conn_def conn_done_def length_remove1 split: option.splits)

lemma listen_reachable_inv:
  assumes "listen_step\<^sup>*\<^sup>* (listen_start s) l" "sv_sem s = None" "sv_inflight s = 0"
  shows "sv_inflight (ln_srv l) = length (ln_open l) \<and> distinct (ln_open l) \<and>
    sv_sem (ln_srv l) = Some (if MaxInflight s \<le> 0 then 4096 else nat (MaxInflight s)) \<and>
    length (ln_open l) \<le> (if MaxInflight s \<le> 0 then 4096 else nat (MaxInflight s))"
  using assms(1)
proof (induction rule: rtranclp_induct)
  case base
  then show ?case using assms(2,3) by (simp add: listen_start_def initSem_def)
next
  case (step y z)
  then show ?case using listen_inv_step [of y z] by blast
qed

lemma handle_frame_keeps:
  assumes "handle_frame handler c f k = (r, k')"
  shows "set (cancelled (cn_srv k)) \<subseteq> set (cancelled (cn_srv k')) \<and> s_ctx (cn_sess k') = s_ctx (cn_sess k) \<and>
    s_cancelKey (cn_sess k') = s_cancelKey (cn_sess k) \<and> next_ctx (cn_srv k') = next_ctx (cn_srv k) \<and>
    (fr_Type f \<noteq> MsgTerminate \<longrightarrow> cn_srv k' = cn_srv k)"
proof -
  have p: "handleParse s b w = (x, s', w') \<Longrightarrow> s_ctx s' = s_ctx s \<and> s_cancelKey s' = s_cancelKey s" for s b w x s' w'
    by (auto simp: handleParse_def Let_def split: prod.splits if_splits)
  have q: "handleBind s b w = (x, s', w') \<Longrightarrow> s_ctx s' = s_ctx s \<and> s_cancelKey s' = s_cancelKey s" for s b w x s' w'
    by (auto simp: handleBind_def Let_def split: prod.splits if_splits option.splits go.splits)
  show ?thesis
    using assms by (auto simp: handle_frame_def Let_def cancel_root_def unregisterCancelKey_def
       split: if_splits prod.splits go.splits option.splits dest: p q)
qed

lemma ctx_done_mono: "set (cancelled s) \<subseteq> set (cancelled s') \<Longrightarrow> ctx_done s x \<Longrightarrow> ctx_done s' x"
  by (auto simp: ctx_done_def)

lemma runQueryLoop_keeps:
  assumes "runQueryLoop handler c r k = (res, k')"
  shows "set (cancelled (cn_srv k)) \<subseteq> set (cancelled (cn_srv k')) \<and> s_ctx (cn_sess k') = s_ctx (cn_sess k)"
  using assms
proof (induction handler c r k rule: runQueryLoop.induct)
  case (1 handler c r k)
  show ?case
  proof (cases "ReadFrame r")
    case (Pair fr r')
    show ?thesis
    proof (cases fr)
      case (Ok f)
      obtain b k1 where h: "handle_frame handler c f k = (b, k1)" by force
      note keep = handle_frame_keeps [OF h]
      show ?thesis
      proof (cases "b = Ok True")
        case True
        then have "runQueryLoop handler c r' k1 = (res, k')"
          using "1.prems" Pair Ok h by (subst (asm) runQueryLoop.simps) simp
        from "1.IH" [OF Pair [symmetric] Ok h [symmetric] True refl this] keep show ?thesis by auto
      next
        case False
        then have "k' = k1" using "1.prems" Pair Ok h by (subst (asm) runQueryLoop.simps) (auto split: go.splits bool.splits)
        with keep show ?thesis by simp
      qed
    qed (use "1.prems" Pair in \<open>subst (asm) runQueryLoop.simps, simp\<close>)+
  qed
qed

lemma runQueryLoop_registry:
  assumes "\<forall>f \<in> set fs. length (fr_Body f) + 4 \<le> 2 ^ 24"
    and "runQueryLoop handler c (encs fs) k = (Ok (), k')"
  shows "cancelFns (cn_srv k') =
      (case s_cancelKey (cn_sess k) of
         Some ck \<Rightarrow> if \<exists>f \<in> set fs. fr_Type f = MsgTerminate
                    then (cancelFns (cn_srv k))(cancelKey (PID ck) (Secret ck) := None) else cancelFns (cn_srv k)
       | None \<Rightarrow> cancelFns (cn_srv k))"
  using assms
proof (induction fs arbitrary: k)
  case Nil
  then show ?case by (simp add: runQueryLoop.simps ReadFrame_def split: option.splits)
next
  case (Cons f fs)
  obtain r k1 where h: "handle_frame handler c f k = (r, k1)" by force
  note loop = runQueryLoop_Cons [OF _ h, of fs]
  show ?case
  proof (cases "fr_Type f = MsgTerminate")
    case True
    then show ?thesis
      using loop h Cons.prems
      by (auto simp: handle_frame_def Let_def unregisterCancelKey_def cancel_root_def fun_upd_def split: option.splits)
  next
    case False
    have nb: "r \<noteq> Ok False" using h False
      by (auto simp: handle_frame_def Let_def split: if_splits prod.splits go.splits)
    then have "runQueryLoop handler c (encs fs) k1 = (Ok (), k')"
      using loop Cons.prems by (cases r) (auto split: if_splits)
    with Cons.IH [of k1] Cons.prems(1) handle_frame_keeps [OF h] False show ?thesis by (auto split: option.splits)
  qed
qed

lemma serveConn_cancel:
  "serveConn env srv h broken (enc_cancel pid secret @ r) tls out = (Ok (), fireCancel pid secret srv, h, out)"
  by (subst serveConn.simps) (simp add: cancel_roundtrip)

lemma write_statuses_emit:
  "\<not> w_err w \<Longrightarrow> write_statuses ps w =
     (emit (map (\<lambda>(k, v). fr BMsgParameterStatus (enc_cstr k @ enc_cstr v)) ps) w, None)"
  by (induction ps arbitrary: w) (auto simp: WriteParameterStatus_def writeFrame_emit enc_cstr_def)

definition greeting :: "'h env \<Rightarrow> session \<Rightarrow> frame list" where
  "greeting env sess = fr BMsgAuthentication (PutUint32 AuthOK) #
     map (\<lambda>(k, v). fr BMsgParameterStatus (enc_cstr k @ enc_cstr v)) (e_order env (startup_statuses (e_brand env) sess)) @
     [fr BMsgBackendKeyData (PutUint32 (fst (randomBackendKey (e_rand env))) @ PutUint32 (snd (randomBackendKey (e_rand env)))),
      fr BMsgReadyForQuery ''I'']"

lemma completeStartup_good:
  assumes "good w"
  shows "completeStartup env srv sess w =
    (let (pid, secret) = randomBackendKey (e_rand env) in
     (None, registerCancelKey pid secret (next_ctx srv) (srv\<lparr>next_ctx := next_ctx srv + 1\<rparr>),
      sess\<lparr>s_cancelKey := Some \<lparr>PID = pid, Secret = secret\<rparr>, s_ctxCancel := Some (next_ctx srv),
           s_ctx := Some \<lparr>ctx_roots = [next_ctx srv], ctx_timeout = None\<rparr>\<rparr>,
      quietly Flush (emit (greeting env sess) w)))"
  using assms
  by (simp add: completeStartup_def WriteAuthOK_def WriteBackendKeyData_def WriteReadyForQuery_def writeFrame_emit
     write_statuses_emit good_def greeting_def WithCancel_def Background_def quietly_def Flush_def split: prod.splits)

section \<open>Properties\<close>

definition example_server :: server where
  "example_server = \<lparr>TLSConfig = False, MaxInflight = 0, sv_sem = None, sv_inflight = 0, cancelFns = Map.empty,
     cancelled = [], next_ctx = 0\<rparr>"

definition example_conn :: "portal list conn" where
  "example_conn = \<lparr>cn_srv = example_server,
     cn_sess = new_session \<lparr>APIKeyID = 1, CustomerID = 2, CustomerSlug = ''acme'', WarehouseType = ''bigquery''\<rparr> [] [] 0,
     cn_h = [], cn_w = NewWriter False\<rparr>"

definition example_env :: "(string \<Rightarrow> string \<Rightarrow> 'h \<Rightarrow> session_identity go \<times> 'h) option \<Rightarrow> 'h env" where
  "example_env auth = \<lparr>e_brand = None, e_order = rev, e_rand = None, e_now = 0, e_ctx = Background, e_Auth = auth, e_Handler = None\<rparr>"

definition recorder :: "portal list query_handler" where
  "recorder = \<lparr>HandleSimpleQuery = (\<lambda>_ _ _ h w. (Ok (), h, w)), HandleExtendedExecute = (\<lambda>_ _ p h w. (Ok (), p # h, w))\<rparr>"



text \<open>
  C17: a Bind can crash the server. When the statement is known and the body is well formed up to a
  parameter length below -1, \<open>handleBind\<close> panics, and with it the whole query loop, which no caller in the
  package recovers: one malformed message from an authenticated client ends the process.
\<close>

theorem handleBind_negative_length_panics:
  assumes "CHR 0x00 \<notin> set por" "CHR 0x00 \<notin> set stmt" "s_preparedStatements (cn_sess k) stmt = Some st"
    and "length pfs < 2 ^ 16" "length vs + Suc m < 2 ^ 16" "\<forall>x. Some x \<in> set vs \<longrightarrow> length x < 2 ^ 31"
    and "sint l < - 1"
    and "length (enc_cstr por @ enc_cstr stmt @ enc_formats pfs @ PutUint16 (word_of_nat (length vs + Suc m)) @
          concat (map enc_value vs) @ PutUint32 l @ rest) + 4 \<le> 2 ^ 24"
  shows "runQueryLoop handler c
     (enc_frame (fr MsgBind (enc_cstr por @ enc_cstr stmt @ enc_formats pfs @ PutUint16 (word_of_nat (length vs + Suc m)) @
          concat (map enc_value vs) @ PutUint32 l @ rest)) @ pending) k = (Panic, k)"
proof -
  let ?b = "enc_cstr por @ enc_cstr stmt @ enc_formats pfs @ PutUint16 (word_of_nat (length vs + Suc m)) @
          concat (map enc_value vs) @ PutUint32 l @ rest"
  have "unat (word_of_nat (length vs + Suc m) :: 16 word) = length vs + Suc m"
    using assms(5) by (intro unat_word16)
  then have "handleBind (cn_sess k) ?b (cn_w k) = (Panic, cn_sess k, cn_w k)"
    using bind_header [OF assms(1-4)] read_values_panic [OF assms(6,7)] by (simp only: go.case)
  then have "handle_frame handler c (fr MsgBind ?b) k = (Panic, k)" by (simp add: handle_frame_def)
  then show ?thesis
    using ReadFrame_enc_frame [of "fr MsgBind ?b" pending] assms(8) by (subst runQueryLoop.simps) simp
qed

theorem handleBind_negative_length_panics_witness:
  "runQueryLoop (Some recorder) Background
     (enc_frame (fr MsgBind (enc_cstr ''p'' @ enc_cstr ''s'' @ enc_formats [] @ PutUint16 (word_of_nat (length [Some ''x''] + Suc 0)) @
          concat (map enc_value [Some ''x'']) @ PutUint32 (- 2) @ [])) @ [])
     (example_conn\<lparr>cn_sess := (cn_sess example_conn)\<lparr>s_preparedStatements := [''s'' \<mapsto> \<lparr>ps_Name = ''s'', ps_SQL = ''SELECT 1'', ps_ParamOIDs = []\<rparr>]\<rparr>\<rparr>) =
   (Panic, example_conn\<lparr>cn_sess := (cn_sess example_conn)\<lparr>s_preparedStatements := [''s'' \<mapsto> \<lparr>ps_Name = ''s'', ps_SQL = ''SELECT 1'', ps_ParamOIDs = []\<rparr>]\<rparr>\<rparr>)"
  by (rule handleBind_negative_length_panics) (auto simp: enc_cstr_def enc_formats_def)



text \<open>
  The life of a cancel key and of a cancellation in the query loop. When the loop returns, the
  session's key is gone from the registry if the client sent Terminate and still registered, with no one
  left to cancel, if the stream just ended; other sessions' keys are untouched. And a cancellation is
  permanent: once the session's context is done it is still done after any further messages, so every
  later simple query of the connection starts with a cancelled context.
\<close>

theorem cancel_key_lifecycle:
  assumes "\<forall>f \<in> set fs. length (fr_Body f) + 4 \<le> 2 ^ 24"
    and "s_cancelKey (cn_sess k) = Some ck"
    and "runQueryLoop handler c (encs fs) k = (Ok (), k')"
  shows "cancelFns (cn_srv k') (cancelKey (PID ck) (Secret ck)) =
           (if \<exists>f \<in> set fs. fr_Type f = MsgTerminate then None else cancelFns (cn_srv k) (cancelKey (PID ck) (Secret ck))) \<and>
         (\<forall>pid secret. (pid, secret) \<noteq> (PID ck, Secret ck) \<longrightarrow>
            cancelFns (cn_srv k') (cancelKey pid secret) = cancelFns (cn_srv k) (cancelKey pid secret)) \<and>
         (ctx_done (cn_srv k) (mergeCtx c (s_ctx (cn_sess k))) \<longrightarrow> ctx_done (cn_srv k') (mergeCtx c (s_ctx (cn_sess k'))))"
  using runQueryLoop_registry [OF assms(1,3)] runQueryLoop_keeps [OF assms(3)] assms(2)
  by (auto simp: ctx_done_mono)

theorem cancel_key_lifecycle_witness:
  "\<exists>k'. runQueryLoop None Background (encs [fr MsgSync [], fr MsgTerminate []])
      (example_conn\<lparr>cn_sess := (cn_sess example_conn)\<lparr>s_cancelKey := Some \<lparr>PID = 7, Secret = 8\<rparr>\<rparr>,
         cn_srv := registerCancelKey 7 8 0 example_server\<rparr>) = (Ok (), k') \<and>
      cancelFns (cn_srv k') (cancelKey 7 8) = None"
proof -
  let ?k = "example_conn\<lparr>cn_sess := (cn_sess example_conn)\<lparr>s_cancelKey := Some \<lparr>PID = 7, Secret = 8\<rparr>\<rparr>,
         cn_srv := registerCancelKey 7 8 0 example_server\<rparr>"
  let ?fs = "[fr MsgSync [], fr MsgTerminate []]"
  have s: "\<forall>f \<in> set ?fs. length (fr_Body f) + 4 \<le> 2 ^ 24" by simp
  obtain k1 where h: "handle_frame None Background (fr MsgSync []) ?k = (Ok True, k1)" by (simp add: handle_frame_def)
  obtain k2 where h2: "handle_frame None Background (fr MsgTerminate []) k1 = (Ok False, k2)" by (simp add: handle_frame_def Let_def)
  have r: "runQueryLoop None Background (encs ?fs) ?k = (Ok (), k2)"
    using runQueryLoop_Cons [OF _ h, of "[fr MsgTerminate []]"] runQueryLoop_Cons [OF _ h2, of "[]"] by simp
  have k: "s_cancelKey (cn_sess ?k) = Some \<lparr>PID = 7, Secret = 8\<rparr>" by simp
  from cancel_key_lifecycle [OF s k r] r show ?thesis by auto
qed

text \<open>
  C20: admission. Whatever the order of accepted, finished and refused connections and of the shutdown,
  the number of connections being served equals the number of slots taken and never exceeds
  \<^verbatim>\<open>MaxInflight\<close>, or 4096 when that is zero or negative; and a connection is refused only
  when all slots are taken.
\<close>

theorem admission_bounded:
  assumes "listen_step\<^sup>*\<^sup>* (listen_start s) l" and "sv_sem s = None" and "sv_inflight s = 0"
  shows "sv_inflight (ln_srv l) = length (ln_open l) \<and>
     length (ln_open l) \<le> (if MaxInflight s \<le> 0 then 4096 else nat (MaxInflight s)) \<and>
     (c \<in> set (ln_open (accept_conn c l)) \<or>
      length (ln_open l) = (if MaxInflight s \<le> 0 then 4096 else nat (MaxInflight s)))"
  using listen_reachable_inv [OF assms] by (auto simp: accept_conn_def)

theorem admission_bounded_witness:
  "sv_inflight (ln_srv (accept_conn 5 (listen_start (example_server\<lparr>MaxInflight := 1\<rparr>)))) = 1 \<and>
   length (ln_open (accept_conn 5 (listen_start (example_server\<lparr>MaxInflight := 1\<rparr>)))) \<le> 1"
proof -
  let ?s = "example_server\<lparr>MaxInflight := 1\<rparr>"
  have "listen_step (listen_start ?s) (accept_conn 5 (listen_start ?s))"
    by (rule listen_step.accept) (simp_all add: listen_start_def)
  then have r: "listen_step\<^sup>*\<^sup>* (listen_start ?s) (accept_conn 5 (listen_start ?s))" by (rule r_into_rtranclp)
  have "ln_open (accept_conn 5 (listen_start ?s)) = [5]"
    by (simp add: accept_conn_def listen_start_def initSem_def example_server_def)
  with admission_bounded [OF r] show ?thesis by (simp add: example_server_def)
qed

text \<open>
  The greeting. On a working connection \<open>completeStartup\<close> sends AuthenticationOk, the eight parameter
  statuses in the order the runtime happens to iterate, the backend key and one ReadyForQuery, all of it
  flushed; the key it announces is registered for the session's own fresh context and both its halves are
  non-negative as 32-bit integers. The iteration order is a parameter, a permutation.
\<close>

theorem startup_greeting:
  assumes "good w" and "\<forall>xs. mset (e_order env xs) = mset xs"
  shows "\<exists>srv1 sess1 w1 pid secret statuses. completeStartup env srv sess w = (None, srv1, sess1, w1) \<and>
     w_pending w1 = [] \<and>
     w_sent w1 = wire w @ encs (fr BMsgAuthentication (PutUint32 AuthOK) #
         map (\<lambda>(k, v). fr BMsgParameterStatus (enc_cstr k @ enc_cstr v)) statuses @
         [fr BMsgBackendKeyData (PutUint32 pid @ PutUint32 secret), fr BMsgReadyForQuery ''I'']) \<and>
     mset statuses = mset (startup_statuses (e_brand env) sess) \<and>
     s_cancelKey sess1 = Some \<lparr>PID = pid, Secret = secret\<rparr> \<and>
     cancelFns srv1 (cancelKey pid secret) = Some (next_ctx srv) \<and>
     s_ctx sess1 = Some \<lparr>ctx_roots = [next_ctx srv], ctx_timeout = None\<rparr> \<and> next_ctx srv1 = next_ctx srv + 1 \<and>
     pid \<le> 0x7fffffff \<and> secret \<le> 0x7fffffff"
proof -
  obtain pid secret where k: "randomBackendKey (e_rand env) = (pid, secret)" by force
  then have b: "pid \<le> 0x7fffffff \<and> secret \<le> 0x7fffffff"
    by (auto simp: randomBackendKey_def word_and_le1 split: option.splits)
  let ?srv1 = "registerCancelKey pid secret (next_ctx srv) (srv\<lparr>next_ctx := next_ctx srv + 1\<rparr>)"
  let ?sess1 = "sess\<lparr>s_cancelKey := Some \<lparr>PID = pid, Secret = secret\<rparr>, s_ctxCancel := Some (next_ctx srv),
           s_ctx := Some \<lparr>ctx_roots = [next_ctx srv], ctx_timeout = None\<rparr>\<rparr>"
  let ?w1 = "quietly Flush (emit (greeting env sess) w)"
  have "completeStartup env srv sess w = (None, ?srv1, ?sess1, ?w1)"
    by (simp add: completeStartup_good [OF assms(1)] k)
  moreover have "w_pending ?w1 = []" "w_sent ?w1 = wire w @ encs (greeting env sess)"
    using assms(1) by (simp_all add: quietly_def Flush_def good_def wire_def encs_def emit_def)
  moreover have "mset (e_order env (startup_statuses (e_brand env) sess)) = mset (startup_statuses (e_brand env) sess)"
    using assms(2) by blast
  moreover have "greeting env sess = fr BMsgAuthentication (PutUint32 AuthOK) #
         map (\<lambda>(k, v). fr BMsgParameterStatus (enc_cstr k @ enc_cstr v)) (e_order env (startup_statuses (e_brand env) sess)) @
         [fr BMsgBackendKeyData (PutUint32 pid @ PutUint32 secret), fr BMsgReadyForQuery ''I'']"
    by (simp add: greeting_def k)
  ultimately show ?thesis
    using b by (intro exI [of _ ?srv1] exI [of _ ?sess1] exI [of _ ?w1] exI [of _ pid] exI [of _ secret]
        exI [of _ "e_order env (startup_statuses (e_brand env) sess)"]) (simp add: registerCancelKey_def)
qed

theorem startup_greeting_witness:
  "\<exists>srv1 sess1 w1. completeStartup (example_env None) example_server (cn_sess example_conn) (NewWriter False) = (None, srv1, sess1, w1) \<and>
     w_pending w1 = [] \<and> cancelFns srv1 (cancelKey 1 1) = Some 0"
proof -
  have g: "good (NewWriter False)" "\<forall>xs. mset (e_order (example_env None) xs) = mset xs"
    by (simp_all add: NewWriter_def good_def example_env_def)
  have k: "s_cancelKey sess1 = Some \<lparr>PID = 1, Secret = 1\<rparr>"
    if "completeStartup (example_env None) example_server (cn_sess example_conn) (NewWriter False) = (None, srv1, sess1, w1)" for srv1 sess1 w1
    using that by (auto simp: completeStartup_good [OF g(1)] example_env_def randomBackendKey_def)
  from startup_greeting [OF g, of example_server "cn_sess example_conn"] k show ?thesis
    by (fastforce simp: example_server_def)
qed

text \<open>
  C22: nothing is served before authentication. With an authenticator configured, a peer whose password
  message is missing, of the wrong type or refused gets the password request and one FATAL error, and the
  connection ends there: no cancel key is registered and the query handler is not called, whatever else
  the peer has sent.
\<close>

theorem unauthenticated_not_served:
  assumes "e_Auth env = Some auth"
    and "\<forall>f r'. ReadFrame r = (Ok f, r') \<and> fr_Type f = MsgPasswordMsg \<longrightarrow>
           (\<exists>e h'. auth (TrimRight (fr_Body f) [CHR 0x00])
              (if param m ''database'' = [] then param m ''user'' else param m ''database'') h = (Err e, h'))"
  shows "\<exists>h' w code msg. handleSession env srv h False r m = (Ok (), srv, h', w) \<and>
     (h' = h \<or> (\<exists>key db. h' = snd (auth key db h))) \<and>
     w_sent w = encs [fr BMsgAuthentication (PutUint32 AuthCleartextPassword)] @
        w_pending (fst (WriteErrorResponse ''FATAL'' code msg [] (NewWriter False))) \<and> code \<in> {''28000'', ''28P01''}"
proof -
  define db where "db = (if param m ''database'' = [] then param m ''user'' else param m ''database'')"
  have out: "w_sent (quietly Flush (quietly (WriteErrorResponse ''FATAL'' code msg []) w2)) =
      encs [fr BMsgAuthentication (PutUint32 AuthCleartextPassword)] @
        w_pending (fst (WriteErrorResponse ''FATAL'' code msg [] (NewWriter False)))"
    if "w2 = fst (Flush (emit [fr BMsgAuthentication (PutUint32 AuthCleartextPassword)] (NewWriter False)))" for w2 code msg
    using WriteErrorResponse_frame [of "''FATAL''" code msg "[]"]
    by (auto simp: that writeFrame_emit NewWriter_def Flush_def quietly_def emit_def encs_def)
  obtain w2 where w2: "w2 = fst (Flush (emit [fr BMsgAuthentication (PutUint32 AuthCleartextPassword)] (NewWriter False)))"
    and pre: "WriteAuthCleartext (NewWriter False) = (emit [fr BMsgAuthentication (PutUint32 AuthCleartextPassword)] (NewWriter False), None)"
      "Flush (emit [fr BMsgAuthentication (PutUint32 AuthCleartextPassword)] (NewWriter False)) = (w2, None)"
    by (simp add: WriteAuthCleartext_def writeFrame_emit NewWriter_def Flush_def)
  show ?thesis
  proof (cases "\<exists>f r'. ReadFrame r = (Ok f, r') \<and> fr_Type f = MsgPasswordMsg")
    case True
    then obtain f r' e h' where f: "ReadFrame r = (Ok f, r')" "fr_Type f = MsgPasswordMsg"
      "auth (TrimRight (fr_Body f) [CHR 0x00]) db h = (Err e, h')"
      using assms(2) unfolding db_def by blast
    have "handleSession env srv h False r m = (Ok (), srv, h', quietly Flush (quietly
        (WriteErrorResponse ''FATAL'' ''28P01'' ''authentication failed'' []) w2))"
      using f assms(1) pre by (simp add: handleSession_def db_def)
    moreover have "h' = snd (auth (TrimRight (fr_Body f) [CHR 0x00]) db h)" using f by simp
    ultimately show ?thesis using out [OF w2] by blast
  next
    case False
    obtain x r' where r: "ReadFrame r = (x, r')" by force
    have x: "(\<exists>f. x = Ok f \<and> fr_Type f \<noteq> MsgPasswordMsg) \<or> (\<exists>e. x = Err e) \<or> x = Panic"
      using False r by (cases x) auto
    have "handleSession env srv h False r m = (Ok (), srv, h, quietly Flush (quietly
        (WriteErrorResponse ''FATAL'' ''28000'' ''expected password message'' []) w2))"
      using x by (elim disjE exE conjE) (use assms(1) r pre in \<open>simp_all add: handleSession_def\<close>)
    then show ?thesis using out [OF w2] by blast
  qed
qed

theorem unauthenticated_not_served_witness:
  "\<exists>h' w code msg. handleSession (example_env (Some (\<lambda>_ _ h. (Err ErrAuthFailed, h)))) example_server ([] :: nat list) False
       (enc_frame (fr MsgPasswordMsg ''wrong'') @ enc_frame (fr MsgQuery ''SELECT 1''))
       \<lparr>ProtocolVersion = 196608, Parameters = [''user'' \<mapsto> ''acme_bigquery''], CancelKey = None\<rparr> = (Ok (), example_server, h', w) \<and>
     code \<in> {''28000'', ''28P01''}"
  using unauthenticated_not_served [of "example_env (Some (\<lambda>_ _ h. (Err ErrAuthFailed, h)))" "\<lambda>_ _ h. (Err ErrAuthFailed, h)"
    "enc_frame (fr MsgPasswordMsg ''wrong'') @ enc_frame (fr MsgQuery ''SELECT 1'')"
    "\<lparr>ProtocolVersion = 196608, Parameters = [''user'' \<mapsto> ''acme_bigquery''], CancelKey = None\<rparr>" "[] :: nat list" example_server]
  by (fastforce simp: example_env_def)

end
