(* ===== verification/Connectors.thy ===== *)
theory Connectors
  imports Pg_Session
begin

text \<open>
  The warehouse connectors, \<^verbatim>\<open>internal/connectors\<close>: type mapping (types.go), SQLSTATE mapping
  (error_map.go), the Snowflake and BigQuery connectors (snowflake.go, bigquery.go), the stubs (stubs.go)
  and the factory (interface.go). The client libraries are parameters: what a query returns is a list of
  rows with the error that ended it.
\<close>

section \<open>Type mapping\<close>

definition MapBigQueryFieldType :: "string \<Rightarrow> 32 word \<times> 16 word" where
  "MapBigQueryFieldType t =
     (if t \<in> set [''BOOL'', ''BOOLEAN''] then (OIDBool, 1)
      else if t \<in> set [''INT64'', ''INTEGER''] then (OIDInt8, 8)
      else if t \<in> set [''FLOAT64'', ''FLOAT''] then (OIDFloat8, 8)
      else if t \<in> set [''NUMERIC'', ''BIGNUMERIC'', ''DECIMAL''] then (OIDNumeric, - 1)
      else if t = ''DATE'' then (OIDDate, 4)
      else if t = ''TIME'' then (OIDTime, 8)
      else if t \<in> set [''DATETIME'', ''TIMESTAMP''] then (OIDTimestamptz, 8)
      else if t = ''BYTES'' then (OIDBytea, - 1)
      else if t = ''JSON'' then (OIDJSONB, - 1)
      else if t = ''GEOGRAPHY'' then (OIDText, - 1)
      else if t \<in> set [''ARRAY'', ''STRUCT'', ''RECORD''] then (OIDJSONB, - 1)
      else (OIDText, - 1))"

definition MapSnowflakeType :: "string \<Rightarrow> 32 word \<times> 16 word" where
  "MapSnowflakeType t =
     (if t = ''BOOLEAN'' then (OIDBool, 1)
      else if t \<in> set [''FIXED'', ''NUMBER'', ''INT'', ''INTEGER'', ''BIGINT''] then (OIDInt8, 8)
      else if t \<in> set [''REAL'', ''FLOAT'', ''DOUBLE''] then (OIDFloat8, 8)
      else if t = ''DATE'' then (OIDDate, 4)
      else if t = ''TIME'' then (OIDTime, 8)
      else if t \<in> set [''TIMESTAMP_NTZ'', ''TIMESTAMP_LTZ'', ''TIMESTAMP_TZ'', ''DATETIME''] then (OIDTimestamptz, 8)
      else if t \<in> set [''BINARY'', ''VARBINARY''] then (OIDBytea, - 1)
      else if t \<in> set [''VARIANT'', ''OBJECT'', ''ARRAY''] then (OIDJSONB, - 1)
      else (OIDText, - 1))"

section \<open>Error mapping\<close>

text \<open>\<^verbatim>\<open>errors.As\<close> for \<^verbatim>\<open>*googleapi.Error\<close>: status and message of the first one in the chain.\<close>

fun as_googleapi :: "go_error \<Rightarrow> (int \<times> string) option" where
  "as_googleapi (GoogleAPIError code msg) = Some (code, msg)"
| "as_googleapi (ErrorfW _ e) = as_googleapi e"
| "as_googleapi (SQLStateErr _ _ (Some e)) = as_googleapi e"
| "as_googleapi _ = None"

definition mapHTTPStatus :: "int \<Rightarrow> string \<Rightarrow> string \<times> string" where
  "mapHTTPStatus code msg =
     (if code = 400 then (''42601'', msg)
      else if code = 401 \<or> code = 403 then (''42501'', msg)
      else if code = 404 then (''42P01'', msg)
      else if code = 408 then (''57014'', msg)
      else if code = 429 then (''53400'', msg)
      else if code \<ge> 500 \<and> code < 600 then (''08006'', msg)
      else (''XX000'', msg))"

definition MapWarehouseError :: "go_error option \<Rightarrow> string \<times> string" where
  "MapWarehouseError err =
     (case err of
        None \<Rightarrow> (''00000'', [])
      | Some e \<Rightarrow>
          (case as_googleapi e of
             Some (code, m) \<Rightarrow> mapHTTPStatus code m
           | None \<Rightarrow>
               (let msg = ToLower (Error e) in
                if Contains msg ''permission'' \<or> Contains msg ''unauthorized'' \<or> Contains msg ''forbidden''
                then (''42501'', Error e)
                else if Contains msg ''not found'' \<or> Contains msg ''does not exist'' then (''42P01'', Error e)
                else if Contains msg ''syntax'' \<or> Contains msg ''parse error'' then (''42601'', Error e)
                else if Contains msg ''timeout'' \<or> Contains msg ''deadline'' then (''57014'', Error e)
                else if Contains msg ''quota'' \<or> Contains msg ''rate limit'' then (''53400'', Error e)
                else if Contains msg ''connection'' \<or> Contains msg ''network'' then (''08006'', Error e)
                else (''XX000'', Error e))))"

definition WrapWarehouseError :: "go_error \<Rightarrow> go_error" where
  "WrapWarehouseError e = (let (code, msg) = MapWarehouseError (Some e) in SQLStateErr code msg (Some e))"

section \<open>Values and rows\<close>

text \<open>
  A scanned column. Floats are kept as their bits and times as nanoseconds; how Go renders them, base64,
  \<^verbatim>\<open>json.Marshal\<close> and \<^verbatim>\<open>%v\<close> are the functions of a codec. \<open>VJson\<close> is a map or a slice of
  values, \<open>VOther\<close> any other dynamic type.
\<close>

datatype sql_value =
    VNil
  | VString string
  | VBool bool
  | VInt "64 word"
  | VInt32 "32 word"
  | VInt64 "64 word"
  | VUint64 "64 word"
  | VFloat32 "32 word"
  | VFloat64 "64 word"
  | VBytes bytes
  | VTime int
  | VJson nat
  | VOther nat

record codec =
  FormatFloat32 :: "32 word \<Rightarrow> string"
  FormatFloat64 :: "64 word \<Rightarrow> string"
  Base64 :: "bytes \<Rightarrow> string"
  FormatTime :: "int \<Rightarrow> string"
  JSONMarshal :: "sql_value \<Rightarrow> string go"
  Sprint :: "sql_value \<Rightarrow> string"

definition zero_time :: int where
  "zero_time = - 62135596800 * 10 ^ 9"

definition bool_text :: "bool \<Rightarrow> string" where
  "bool_text b = (if b then ''t'' else ''f'')"

fun encodeSFValue :: "codec \<Rightarrow> sql_value \<Rightarrow> bytes option" where
  "encodeSFValue cd VNil = None"
| "encodeSFValue cd (VString x) = Some x"
| "encodeSFValue cd (VBool x) = Some (bool_text x)"
| "encodeSFValue cd (VInt64 x) = Some (Itoa (sint x))"
| "encodeSFValue cd (VFloat64 x) = Some (FormatFloat64 cd x)"
| "encodeSFValue cd (VBytes x) = Some (Base64 cd x)"
| "encodeSFValue cd (VTime x) = Some (FormatTime cd x)"
| "encodeSFValue cd x = Some (Sprint cd x)"

text \<open>What \<^verbatim>\<open>database/sql\<close> delivers for a query: columns, their types, the scanned rows and the final error.\<close>

record sql_rows =
  r_Columns :: "string list go"
  r_ColumnTypes :: "string list go"
  r_Rows :: "sql_value list go list"
  r_Err :: "go_error option"

type_synonym exec_result = "(nat \<times> go_error option) go \<times> writer"

definition zero_field :: pg_field where
  "zero_field = \<lparr>f_Name = [], f_TableOID = 0, f_ColumnAttrNo = 0, f_TypeOID = 0, f_TypeSize = 0, f_TypeModifier = 0, f_Format = 0\<rparr>"

definition mk_field :: "string \<Rightarrow> 32 word \<times> 16 word \<Rightarrow> pg_field" where
  "mk_field name t = \<lparr>f_Name = name, f_TableOID = 0, f_ColumnAttrNo = 0, f_TypeOID = fst t, f_TypeSize = snd t,
     f_TypeModifier = 0, f_Format = 0\<rparr>"

text \<open>The loop that fills the fields: one per column, indexed by the types; more types than columns panics.\<close>

definition fields_of :: "(string \<Rightarrow> 32 word \<times> 16 word) \<Rightarrow> string list \<Rightarrow> string list \<Rightarrow> pg_field list go" where
  "fields_of ty cols types =
     (if length types > length cols then Panic
      else Ok (map2 (\<lambda>c t. mk_field c (ty t)) cols types @ replicate (length cols - length types) zero_field))"

text \<open>
  The loop over the rows: a row that does not scan ends it with the (wrapped) error, a row that does is
  encoded and written. The count is of the rows written.
\<close>

fun stream_rows ::
  "(sql_value \<Rightarrow> bytes option) \<Rightarrow> (go_error \<Rightarrow> go_error) \<Rightarrow> sql_value list go list \<Rightarrow> nat \<Rightarrow> writer \<Rightarrow> exec_result" where
  "stream_rows enc wrap [] n w = (Ok (n, None), w)"
| "stream_rows enc wrap (row # rows) n w =
     (case row of
        Err e \<Rightarrow> (Ok (n, Some (wrap e)), w)
      | Panic \<Rightarrow> (Panic, w)
      | Ok vs \<Rightarrow>
          (case WriteDataRow (map enc vs) w of
             (w1, Some e) \<Rightarrow> (Ok (n, Some e), w1)
           | (w1, None) \<Rightarrow> stream_rows enc wrap rows (n + 1) w1))"

definition bq_commandTag :: "string \<Rightarrow> nat \<Rightarrow> string go" where
  "bq_commandTag sql rows =
     (case Fields (TrimSpace sql) of
        [] \<Rightarrow> Panic
      | first # _ \<Rightarrow>
          (let verb = ToUpper first in
           if verb \<in> set [''SELECT'', ''VALUES'', ''TABLE''] then Ok (''SELECT '' @ Itoa (int rows))
           else if verb = ''INSERT'' then Ok (''INSERT 0 '' @ Itoa (int rows))
           else if verb = ''UPDATE'' \<or> verb = ''DELETE'' then Ok (verb @ '' '' @ Itoa (int rows))
           else Ok verb))"

text \<open>Writing the tag and returning: the last statement of every streaming function.\<close>

definition finish :: "string go \<Rightarrow> nat \<Rightarrow> writer \<Rightarrow> exec_result" where
  "finish tag n w =
     (case tag of
        Ok t \<Rightarrow> (let (w1, e) = WriteCommandComplete t w in (Ok (n, e), w1))
      | Err e \<Rightarrow> (Ok (n, Some e), w)
      | Panic \<Rightarrow> (Panic, w))"

text \<open>
  Streaming the rows of a \<^verbatim>\<open>database/sql\<close> query, shared by the Snowflake connector and the DuckDB
  pool: the code is the same up to the type map, the value encoder, the scan error and the tag.
\<close>

definition stream_result ::
  "(string \<Rightarrow> 32 word \<times> 16 word) \<Rightarrow> (sql_value \<Rightarrow> bytes option) \<Rightarrow> (go_error \<Rightarrow> go_error) \<Rightarrow> (nat \<Rightarrow> string go) \<Rightarrow>
     sql_rows \<Rightarrow> writer \<Rightarrow> exec_result" where
  "stream_result ty enc wrap tag rows w =
     (case r_Columns rows of
        Err e \<Rightarrow> (Ok (0, Some e), w)
      | Panic \<Rightarrow> (Panic, w)
      | Ok cols \<Rightarrow>
          (case r_ColumnTypes rows of
             Err e \<Rightarrow> (Ok (0, Some e), w)
           | Panic \<Rightarrow> (Panic, w)
           | Ok types \<Rightarrow>
               (case fields_of ty cols types of
                  Err e \<Rightarrow> (Ok (0, Some e), w)
                | Panic \<Rightarrow> (Panic, w)
                | Ok flds \<Rightarrow>
                    (case WriteRowDescription flds w of
                       (w1, Some e) \<Rightarrow> (Ok (0, Some e), w1)
                     | (w1, None) \<Rightarrow>
                         (case stream_rows enc wrap (r_Rows rows) 0 w1 of
                            (Panic, w2) \<Rightarrow> (Panic, w2)
                          | (Err e, w2) \<Rightarrow> (Err e, w2)
                          | (Ok (n, Some e), w2) \<Rightarrow> (Ok (n, Some e), w2)
                          | (Ok (n, None), w2) \<Rightarrow>
                              (case r_Err rows of
                                 Some e \<Rightarrow> (Ok (n, Some e), w2)
                               | None \<Rightarrow> finish (tag n) n w2))))))"

section \<open>Snowflake\<close>

record sf_creds =
  sf_Account :: string
  sf_User :: string
  sf_Password :: string
  sf_PrivateKeyPEM :: string
  sf_Role :: string
  sf_Warehouse :: string
  sf_Database :: string
  sf_Schema :: string

record sf_config =
  sfc_creds :: sf_creds
  sfc_key :: "nat option"
  sfc_jwt :: bool

text \<open>The libraries behind the connector: JSON, PEM, x509, the driver.\<close>

record sf_libs =
  sf_Unmarshal :: "bytes \<Rightarrow> sf_creds go"
  pem_Decode :: "bytes \<Rightarrow> bytes option"
  ParsePKCS1PrivateKey :: "bytes \<Rightarrow> nat go"
  ParsePKCS8PrivateKey :: "bytes \<Rightarrow> (bool \<times> nat) go"
  sf_DSN :: "sf_config \<Rightarrow> string go"
  sf_Open :: "string \<Rightarrow> unit go"
  sf_Ping :: "string \<Rightarrow> unit go"
  sf_Query :: "string \<Rightarrow> ctx \<Rightarrow> string \<Rightarrow> sql_rows go"

text \<open>The implementations of the connector interface, with what their structs hold.\<close>

datatype connector =
    BigQuery uuid string
  | Snowflake uuid string
  | Stub uuid string

fun c_ConnectionID :: "connector \<Rightarrow> uuid" where
  "c_ConnectionID (BigQuery i _) = i"
| "c_ConnectionID (Snowflake i _) = i"
| "c_ConnectionID (Stub i _) = i"

fun c_WarehouseType :: "connector \<Rightarrow> string" where
  "c_WarehouseType (BigQuery _ _) = ''bigquery''"
| "c_WarehouseType (Snowflake _ _) = ''snowflake''"
| "c_WarehouseType (Stub _ w) = w"

definition parseRSAPrivateKey :: "sf_libs \<Rightarrow> bytes \<Rightarrow> nat go" where
  "parseRSAPrivateKey L pemBytes =
     (case pem_Decode L pemBytes of
        None \<Rightarrow> Err (Errorf ''no PEM block found'')
      | Some block \<Rightarrow>
          (case ParsePKCS1PrivateKey L block of
             Ok k \<Rightarrow> Ok k
           | Panic \<Rightarrow> Panic
           | Err _ \<Rightarrow>
               (case ParsePKCS8PrivateKey L block of
                  Err e \<Rightarrow> Err e
                | Panic \<Rightarrow> Panic
                | Ok (is_rsa, k) \<Rightarrow> if is_rsa then Ok k else Err (Errorf ''private key is not RSA''))))"

definition wrapf :: "string \<Rightarrow> go_error \<Rightarrow> go_error" where
  "wrapf label e = ErrorfW (label @ '': '' @ Error e) e"

definition map_err :: "(go_error \<Rightarrow> go_error) \<Rightarrow> 'a go \<Rightarrow> 'a go" where
  "map_err f r = (case r of Ok x \<Rightarrow> Ok x | Err e \<Rightarrow> Err (f e) | Panic \<Rightarrow> Panic)"

definition sf_ExecuteStreaming ::
  "sf_libs \<Rightarrow> codec \<Rightarrow> string \<Rightarrow> ctx \<Rightarrow> string \<Rightarrow> bytes option list \<Rightarrow> writer \<Rightarrow> exec_result" where
  "sf_ExecuteStreaming L cd dsn c sqlText params w =
     (case sf_Query L dsn c sqlText of
        Err e \<Rightarrow> (Ok (0, Some (wrapf ''sf query'' e)), w)
      | Panic \<Rightarrow> (Panic, w)
      | Ok rows \<Rightarrow> stream_result (\<lambda>t. MapSnowflakeType (ToUpper t)) (encodeSFValue cd) (wrapf ''sf scan'')
                     (bq_commandTag sqlText) rows w)"

definition NewSnowflake :: "sf_libs \<Rightarrow> connection \<Rightarrow> bytes \<Rightarrow> connector go" where
  "NewSnowflake L conn creds =
     bind_go (map_err (wrapf ''sf creds parse'') (sf_Unmarshal L creds)) (\<lambda>c.
       if sf_Account c = [] \<or> sf_User c = [] then Err (Errorf ''sf creds missing account/user'')
       else
         bind_go (if sf_PrivateKeyPEM c \<noteq> [] then
                    map_err (wrapf ''sf private key'')
                      (bind_go (parseRSAPrivateKey L (sf_PrivateKeyPEM c)) (\<lambda>k.
                         Ok \<lparr>sfc_creds = c, sfc_key = Some k, sfc_jwt = True\<rparr>))
                  else Ok \<lparr>sfc_creds = c, sfc_key = None, sfc_jwt = False\<rparr>) (\<lambda>cfg.
           bind_go (map_err (wrapf ''sf dsn'') (sf_DSN L cfg)) (\<lambda>dsn.
             bind_go (map_err (wrapf ''sf open'') (sf_Open L dsn)) (\<lambda>_.
               bind_go (map_err (wrapf ''sf ping'') (sf_Ping L dsn)) (\<lambda>_.
                 Ok (Snowflake (cn_ID conn) dsn))))))"

section \<open>BigQuery\<close>

record bq_creds =
  bq_ProjectID :: string
  bq_ServiceAccountKey :: bytes

record bq_iter =
  it_Schema :: "(string \<times> string) list"
  it_Rows :: "sql_value list go list"

text \<open>
  The client library: one \<open>Run\<close> per attempt, whether the context ended during the back-off after an
  attempt, and \<open>Read\<close> of the job. An iterator yields its rows and then \<^verbatim>\<open>iterator.Done\<close>; an \<open>Err\<close>
  element is an iteration error.
\<close>

record bq_libs =
  bq_Unmarshal :: "bytes \<Rightarrow> bq_creds go"
  bq_NewClient :: "string \<Rightarrow> bytes option \<Rightarrow> unit go"
  bq_Run :: "string \<Rightarrow> ctx \<Rightarrow> string \<Rightarrow> nat \<Rightarrow> nat go"
  bq_wait_done :: "nat \<Rightarrow> go_error option"
  bq_Read :: "ctx \<Rightarrow> nat \<Rightarrow> bq_iter go"

definition isRetriable :: "go_error \<Rightarrow> bool" where
  "isRetriable e = (case as_googleapi e of Some (code, _) \<Rightarrow> code \<ge> 500 \<and> code < 600 | None \<Rightarrow> False)"

fun encodeBQValue :: "codec \<Rightarrow> sql_value \<Rightarrow> bytes option" where
  "encodeBQValue cd (VString x) = Some x"
| "encodeBQValue cd (VBool x) = Some (bool_text x)"
| "encodeBQValue cd (VInt64 x) = Some (Itoa (sint x))"
| "encodeBQValue cd (VFloat64 x) = Some (FormatFloat64 cd x)"
| "encodeBQValue cd (VBytes x) = Some (Base64 cd x)"
| "encodeBQValue cd (VTime x) = (if x = zero_time then None else Some (FormatTime cd x))"
| "encodeBQValue cd (VJson x) = (case JSONMarshal cd (VJson x) of Ok b \<Rightarrow> Some b | _ \<Rightarrow> None)"
| "encodeBQValue cd x = Some (Sprint cd x)"

definition bqFieldsToPG :: "(string \<times> string) list \<Rightarrow> pg_field list" where
  "bqFieldsToPG schema = map (\<lambda>(name, t). mk_field name (MapBigQueryFieldType t)) schema"

text \<open>The schema is indexed for every value that is not nil: a longer row panics.\<close>

fun encodeBQRow :: "codec \<Rightarrow> sql_value list \<Rightarrow> (string \<times> string) list \<Rightarrow> bytes option list go" where
  "encodeBQRow cd [] schema = Ok []"
| "encodeBQRow cd (v # vs) schema =
     (if v = VNil then bind_go (encodeBQRow cd vs (drop 1 schema)) (\<lambda>out. Ok (None # out))
      else if schema = [] then Panic
      else bind_go (encodeBQRow cd vs (drop 1 schema)) (\<lambda>out. Ok (encodeBQValue cd v # out)))"

text \<open>The retry loop from attempt \<open>k\<close> on: \<open>Inl\<close> is the early return when the context ends while waiting.\<close>

function bq_run :: "bq_libs \<Rightarrow> string \<Rightarrow> ctx \<Rightarrow> string \<Rightarrow> nat \<Rightarrow> go_error option \<Rightarrow> (go_error + nat go)" where
  "bq_run L project c sql k err =
     (if 3 \<le> k then Inr (case err of Some e \<Rightarrow> Err e | None \<Rightarrow> Panic)
      else (case bq_Run L project c sql k of
              Ok job \<Rightarrow> Inr (Ok job)
            | Panic \<Rightarrow> Inr Panic
            | Err e \<Rightarrow>
                if \<not> isRetriable e then Inr (Err e)
                else (case bq_wait_done L k of
                        Some d \<Rightarrow> Inl (WrapWarehouseError d)
                      | None \<Rightarrow> bq_run L project c sql (k + 1) (Some e))))"
  by pat_completeness auto
termination
  by (relation "measure (\<lambda>(_, _, _, _, k, _). 3 - k)") auto

declare bq_run.simps [simp del]

text \<open>
  The loop over the iterator. An error after the header is logged and ends the loop like the end of the
  result does: the caller goes on to the command tag.
\<close>

fun bq_iterate ::
  "codec \<Rightarrow> (string \<times> string) list \<Rightarrow> sql_value list go list \<Rightarrow> bool \<Rightarrow> nat \<Rightarrow> writer \<Rightarrow>
     (nat \<times> bool \<times> go_error option) go \<times> writer" where
  "bq_iterate cd schema [] header n w = (Ok (n, header, None), w)"
| "bq_iterate cd schema (row # rows) header n w =
     (case row of
        Err e \<Rightarrow>
          if \<not> header then (Ok (0, header, Some (WrapWarehouseError (wrapf ''bq iter'' e))), w)
          else (Ok (n, header, None), w)
      | Panic \<Rightarrow> (Panic, w)
      | Ok vs \<Rightarrow>
          (case (if header then (w, None) else WriteRowDescription (bqFieldsToPG schema) w) of
             (w1, Some e) \<Rightarrow> (Ok (n, header, Some e), w1)
           | (w1, None) \<Rightarrow>
               (case encodeBQRow cd vs schema of
                  Panic \<Rightarrow> (Panic, w1)
                | Err e \<Rightarrow> (Ok (n, True, Some e), w1)
                | Ok vals \<Rightarrow>
                    (case WriteDataRow vals w1 of
                       (w2, Some e) \<Rightarrow> (Ok (n, True, Some e), w2)
                     | (w2, None) \<Rightarrow> bq_iterate cd schema rows True (n + 1) w2))))"

definition bq_ExecuteStreaming ::
  "bq_libs \<Rightarrow> codec \<Rightarrow> string \<Rightarrow> ctx \<Rightarrow> string \<Rightarrow> bytes option list \<Rightarrow> writer \<Rightarrow> exec_result" where
  "bq_ExecuteStreaming L cd project c sql params w =
     (case bq_run L project c sql 0 None of
        Inl e \<Rightarrow> (Ok (0, Some e), w)
      | Inr Panic \<Rightarrow> (Panic, w)
      | Inr (Err e) \<Rightarrow> (Ok (0, Some (WrapWarehouseError (wrapf ''bq run'' e))), w)
      | Inr (Ok job) \<Rightarrow>
          (case bq_Read L c job of
             Panic \<Rightarrow> (Panic, w)
           | Err e \<Rightarrow> (Ok (0, Some (WrapWarehouseError (wrapf ''bq read'' e))), w)
           | Ok it \<Rightarrow>
               (case bq_iterate cd (it_Schema it) (it_Rows it) False 0 w of
                  (Panic, w1) \<Rightarrow> (Panic, w1)
                | (Err e, w1) \<Rightarrow> (Err e, w1)
                | (Ok (n, header, Some e), w1) \<Rightarrow> (Ok (n, Some e), w1)
                | (Ok (n, header, None), w1) \<Rightarrow>
                    finish (bq_commandTag sql n) n
                      (if header then w1 else quietly (WriteRowDescription (bqFieldsToPG (it_Schema it))) w1))))"

definition NewBigQuery :: "bq_libs \<Rightarrow> connection \<Rightarrow> bytes \<Rightarrow> connector go" where
  "NewBigQuery L conn creds =
     bind_go (map_err (wrapf ''bq creds parse'') (bq_Unmarshal L creds)) (\<lambda>c.
       if bq_ProjectID c = [] then Err (Errorf ''bq creds missing project_id'')
       else
         bind_go (map_err (wrapf ''bq client'') (bq_NewClient L (bq_ProjectID c)
             (if bq_ServiceAccountKey c \<noteq> [] \<and> bq_ServiceAccountKey c \<noteq> ''null'' then Some (bq_ServiceAccountKey c) else None))) (\<lambda>_.
           Ok (BigQuery (cn_ID conn) (bq_ProjectID c))))"

section \<open>Stubs and the factory\<close>

definition ErrNotImplemented :: go_error where
  "ErrNotImplemented = Errorf ''connector: not yet implemented''"

definition ErrUnsupportedWarehouse :: go_error where
  "ErrUnsupportedWarehouse = Errorf ''unsupported warehouse type''"

definition stub_ExecuteStreaming :: "string \<Rightarrow> ctx \<Rightarrow> string \<Rightarrow> bytes option list \<Rightarrow> writer \<Rightarrow> exec_result" where
  "stub_ExecuteStreaming warehouse c sql params w =
     (Ok (0, Some (WrapWarehouseError (wrapf warehouse ErrNotImplemented))), w)"

definition newStub :: "connection \<Rightarrow> string \<Rightarrow> connector" where
  "newStub conn warehouse = Stub (cn_ID conn) warehouse"

fun c_ExecuteStreaming ::
  "sf_libs \<Rightarrow> bq_libs \<Rightarrow> codec \<Rightarrow> connector \<Rightarrow> ctx \<Rightarrow> string \<Rightarrow> bytes option list \<Rightarrow> writer \<Rightarrow> exec_result" where
  "c_ExecuteStreaming S B cd (BigQuery _ project) = bq_ExecuteStreaming B cd project"
| "c_ExecuteStreaming S B cd (Snowflake _ dsn) = sf_ExecuteStreaming S cd dsn"
| "c_ExecuteStreaming S B cd (Stub _ warehouse) = stub_ExecuteStreaming warehouse"

definition stub_warehouses :: "string list" where
  "stub_warehouses = [''databricks'', ''redshift'', ''clickhouse'', ''motherduck'', ''fabric'', ''pg_source'', ''mysql'',
     ''trino'', ''mongo'', ''dynamo'', ''local_duckdb'']"

definition factory_For ::
  "sf_libs \<Rightarrow> bq_libs \<Rightarrow> aead \<Rightarrow> uuid \<Rightarrow> string \<Rightarrow> db \<Rightarrow> connector go" where
  "factory_For S B enc customerID warehouseType d =
     bind_go (map_err (wrapf ''load connection'') (GetConnectionForCustomer enc customerID warehouseType d)) (\<lambda>(conn, creds).
       if warehouseType = ''bigquery'' then NewBigQuery B conn creds
       else if warehouseType = ''snowflake'' then NewSnowflake S conn creds
       else if warehouseType \<in> set stub_warehouses then Ok (newStub conn warehouseType)
       else Err (ErrorfW (Error ErrUnsupportedWarehouse @ '': '' @ warehouseType) ErrUnsupportedWarehouse))"

section \<open>The contract of a streaming backend\<close>

text \<open>
  Every backend that streams a result to a client only adds frames, none of them a \<^verbatim>\<open>ReadyForQuery\<close>.
\<close>

locale row_streamer =
  fixes exec :: "ctx \<Rightarrow> string \<Rightarrow> bytes option list \<Rightarrow> writer \<Rightarrow> exec_result"
  assumes exec_answers: "good w \<Longrightarrow> exec c sql params w = (r, w') \<Longrightarrow> answers w w'"

lemma answers_writeFrame: "writeFrame t b w = (w', e) \<Longrightarrow> t \<noteq> BMsgReadyForQuery \<Longrightarrow> good w \<Longrightarrow> answers w w' \<and> good w'"
  using answers_emit [of "[fr t b]" w] by (auto simp: writeFrame_emit good_def)

lemma answers_good: "answers w w' \<Longrightarrow> good w \<Longrightarrow> good w'"
  by (auto simp: answers_def writes_def)

lemma answers_chain: "answers w w1 \<Longrightarrow> answers w1 w2 \<Longrightarrow> answers w w2"
  unfolding answers_def using writes_trans by (metis UnE image_Un set_append)

lemma answers_WriteRowDescription: "WriteRowDescription flds w = (w', e) \<Longrightarrow> good w \<Longrightarrow> answers w w'"
  by (auto simp: WriteRowDescription_def answers_refl split: if_splits dest: answers_writeFrame)

lemma answers_WriteDataRow: "WriteDataRow vs w = (w', e) \<Longrightarrow> good w \<Longrightarrow> answers w w'"
  by (auto simp: WriteDataRow_def dest: answers_writeFrame)

lemma answers_finish: "finish tag n w = (r, w') \<Longrightarrow> good w \<Longrightarrow> answers w w'"
  by (auto simp: finish_def WriteCommandComplete_def answers_refl split: go.splits prod.splits dest: answers_writeFrame)

lemma answers_stream_rows: "stream_rows enc wrap rows n w = (r, w') \<Longrightarrow> good w \<Longrightarrow> answers w w'"
proof (induction rows arbitrary: n w)
  case (Cons row rows)
  then show ?case
    by (auto simp: answers_refl split: go.splits prod.splits option.splits dest: answers_WriteDataRow)
       (meson answers_chain answers_good answers_WriteDataRow)
qed (simp add: answers_refl)

lemma answers_stream_result:
  assumes "stream_result ty enc wrap tag rows w = (r, w')" "good w"
  shows "answers w w'"
proof -
  have step: "answers w w2"
    if "WriteRowDescription flds w = (w1, None)" "stream_rows enc wrap rs 0 w1 = (x, w2)" for flds w1 rs x w2
    using that assms(2) by (meson answers_chain answers_good answers_WriteRowDescription answers_stream_rows)
  have last_step: "answers w w'"
    if "WriteRowDescription flds w = (w1, None)" "stream_rows enc wrap rs 0 w1 = (x, w2)" "finish t n w2 = (r, w')" for flds w1 rs x w2 t n
    using step [OF that(1,2)] that(3) assms(2) by (meson answers_chain answers_good answers_finish)
  show ?thesis
    using assms
    by (auto simp: stream_result_def answers_refl split: go.splits prod.splits option.splits
        dest: step last_step answers_WriteRowDescription)
qed

lemma answers_bq_iterate: "bq_iterate cd schema rows header n w = (r, w') \<Longrightarrow> good w \<Longrightarrow> answers w w'"
proof (induction cd schema rows header n w rule: bq_iterate.induct)
  case (2 cd schema row rows header n w)
  show ?case
  proof (cases row)
    case (Ok vs)
    obtain w1 e1 where h: "(if header then (w, None) else WriteRowDescription (bqFieldsToPG schema) w) = (w1, e1)" by force
    have a1: "answers w w1" "good w1"
      using h "2.prems"(2) answers_WriteRowDescription [of "bqFieldsToPG schema" w w1 e1]
      by (auto simp: answers_refl split: if_splits intro: answers_good)
    show ?thesis
    proof (cases e1)
      case (Some e)
      then show ?thesis using "2.prems" Ok h a1 by simp
    next
      case None
      show ?thesis
      proof (cases "encodeBQRow cd vs schema")
        case vals: (Ok vals)
        obtain w2 e2 where d: "WriteDataRow vals w1 = (w2, e2)" by force
        have a2: "answers w w2" "good w2"
          using answers_WriteDataRow [OF d a1(2)] a1 by (auto intro: answers_chain answers_good)
        show ?thesis
        proof (cases e2)
          case None
          with "2.IH" [OF Ok h [symmetric] _ vals d [symmetric]] "2.prems" Ok h \<open>e1 = None\<close> vals d a2
          show ?thesis by (auto intro: answers_chain)
        qed (use "2.prems" Ok h None vals d a2 in simp)
      qed (use "2.prems" Ok h None a1 in auto)
    qed
  qed (use "2.prems" in \<open>auto simp: answers_refl split: if_splits\<close>)
qed (simp add: answers_refl)

interpretation snowflake: row_streamer "sf_ExecuteStreaming L cd dsn" for L cd dsn
  by unfold_locales
    (auto simp: sf_ExecuteStreaming_def answers_refl split: go.splits dest: answers_stream_result)

lemma answers_bq_ExecuteStreaming:
  assumes "good w" "bq_ExecuteStreaming L cd project c sql params w = (r, w')"
  shows "answers w w'"
proof -
  have desc: "answers w1 (quietly (WriteRowDescription flds) w1)" if "good w1" for flds w1
    using answers_WriteRowDescription that by (cases "WriteRowDescription flds w1") (auto simp: quietly_def)
  have last_step: "answers w w'"
    if "bq_iterate cd schema rows False 0 w = (x, w1)"
      "finish t n (if h then w1 else quietly (WriteRowDescription flds) w1) = (r, w')" for schema rows x w1 t n h flds
  proof -
    let ?w2 = "if h then w1 else quietly (WriteRowDescription flds) w1"
    have 1: "answers w w1" by (rule answers_bq_iterate [OF that(1) assms(1)])
    have "answers w1 ?w2" using desc [OF answers_good [OF 1 assms(1)]] by (simp add: answers_refl)
    with 1 have 2: "answers w ?w2" by (rule answers_chain)
    show ?thesis by (rule answers_chain [OF 2 answers_finish [OF that(2) answers_good [OF 2 assms(1)]]])
  qed
  show ?thesis
    using assms
    by (auto simp: bq_ExecuteStreaming_def answers_refl split: sum.splits go.splits prod.splits option.splits
        dest: answers_bq_iterate last_step)
qed

interpretation bigquery: row_streamer "bq_ExecuteStreaming L cd project" for L cd project
  by unfold_locales (rule answers_bq_ExecuteStreaming)

interpretation stub: row_streamer "stub_ExecuteStreaming warehouse" for warehouse
  by unfold_locales (auto simp: stub_ExecuteStreaming_def answers_refl)

interpretation connector: row_streamer "c_ExecuteStreaming S B cd k" for S B cd k
  by (cases k) (simp_all add: bigquery.row_streamer_axioms snowflake.row_streamer_axioms stub.row_streamer_axioms)

lemma factory_For_Ok:
  assumes "factory_For S B enc cid wh d = Ok k"
  shows "\<exists>conn creds. GetConnectionForCustomer enc cid wh d = Ok (conn, creds) \<and> c_ConnectionID k = cn_ID conn \<and> c_WarehouseType k = wh"
proof -
  obtain conn creds where g: "GetConnectionForCustomer enc cid wh d = Ok (conn, creds)"
    using assms by (auto simp: factory_For_def map_err_def bind_go_eq_Ok split: go.splits)
  then have "(wh = ''bigquery'' \<and> NewBigQuery B conn creds = Ok k) \<or> (wh = ''snowflake'' \<and> NewSnowflake S conn creds = Ok k) \<or>
      k = newStub conn wh"
    using assms by (auto simp: factory_For_def map_err_def split: if_splits)
  moreover have "c_ConnectionID k = cn_ID conn \<and> c_WarehouseType k = ''bigquery''" if "NewBigQuery B conn creds = Ok k"
    using that by (auto simp: NewBigQuery_def bind_go_eq_Ok split: if_splits)
  moreover have "c_ConnectionID k = cn_ID conn \<and> c_WarehouseType k = ''snowflake''" if "NewSnowflake S conn creds = Ok k"
    using that by (auto simp: NewSnowflake_def bind_go_eq_Ok split: if_splits)
  ultimately show ?thesis using g by (auto simp: newStub_def)
qed

section \<open>What a streamed result looks like on the wire\<close>

definition data_row :: "bytes option list \<Rightarrow> frame" where
  "data_row vs = fr BMsgDataRow (PutUint16 (word_of_nat (length vs)) @ concat (map enc_value vs))"

definition row_description :: "pg_field list \<Rightarrow> frame" where
  "row_description flds = fr BMsgRowDescription (PutUint16 (word_of_nat (length flds)) @ concat (map (appendFieldDesc []) flds))"

definition command_complete :: "string \<Rightarrow> frame" where
  "command_complete tag = fr BMsgCommandComplete (tag @ [CHR 0x00])"

lemma good_emit [simp]: "good (emit fs w) = good w"
  by (simp add: good_def)

lemma WriteDataRow_good: "good w \<Longrightarrow> WriteDataRow vs w = (emit [data_row vs] w, None)"
  by (simp add: WriteDataRow_emit writeFrame_emit good_def data_row_def)

lemma WriteRowDescription_good:
  "good w \<Longrightarrow> length flds \<le> 1664 \<Longrightarrow> WriteRowDescription flds w = (emit [row_description flds] w, None)"
  by (simp add: WriteRowDescription_emit writeFrame_emit good_def row_description_def)

lemma WriteRowDescription_too_wide:
  "length flds > 1664 \<Longrightarrow> \<exists>msg. WriteRowDescription flds w = (w, Some (Errorf msg))"
  by (simp add: WriteRowDescription_def)

lemma WriteCommandComplete_good: "good w \<Longrightarrow> WriteCommandComplete tag w = (emit [command_complete tag] w, None)"
  by (simp add: WriteCommandComplete_def writeFrame_emit good_def command_complete_def)

lemma stream_rows_success:
  assumes "stream_rows enc wrap rows n w = (Ok (m, None), w')" "good w"
  shows "\<exists>vss. rows = map Ok vss \<and> m = n + length vss \<and> w' = emit (map (\<lambda>vs. data_row (map enc vs)) vss) w"
  using assms
proof (induction rows arbitrary: n w)
  case (Cons row rows)
  then obtain vs where row: "row = Ok vs" and rest: "stream_rows enc wrap rows (n + 1) (emit [data_row (map enc vs)] w) = (Ok (m, None), w')"
    by (auto simp: WriteDataRow_good split: go.splits)
  from Cons.IH [OF rest] Cons.prems(2) obtain vss where
    "rows = map Ok vss" "m = n + 1 + length vss" "w' = emit (map (\<lambda>vs. data_row (map enc vs)) vss) (emit [data_row (map enc vs)] w)" by auto
  with row show ?case by (intro exI [of _ "vs # vss"]) simp
qed auto

lemma stream_result_success:
  assumes "stream_result ty enc wrap tag rows w = (Ok (n, None), w')" "good w"
  shows "\<exists>cols types flds vss t. r_Columns rows = Ok cols \<and> r_ColumnTypes rows = Ok types \<and> fields_of ty cols types = Ok flds \<and>
     length flds \<le> 1664 \<and> r_Rows rows = map Ok vss \<and> r_Err rows = None \<and> n = length vss \<and> tag n = Ok t \<and>
     w' = emit (row_description flds # map (\<lambda>vs. data_row (map enc vs)) vss @ [command_complete t]) w"
proof -
  obtain cols types flds where f: "r_Columns rows = Ok cols" "r_ColumnTypes rows = Ok types" "fields_of ty cols types = Ok flds"
    using assms(1) by (auto simp: stream_result_def split: go.splits)
  have wide: "length flds \<le> 1664"
  proof (rule ccontr)
    assume "\<not> length flds \<le> 1664"
    then show False using assms(1) f WriteRowDescription_too_wide [of flds w] by (auto simp: stream_result_def)
  qed
  note d = WriteRowDescription_good [OF assms(2) wide]
  obtain m w2 where s: "stream_rows enc wrap (r_Rows rows) 0 (emit [row_description flds] w) = (Ok (m, None), w2)" "r_Err rows = None"
      "finish (tag m) m w2 = (Ok (n, None), w')"
    using assms(1) f d by (auto simp: stream_result_def split: go.splits prod.splits option.splits)
  from stream_rows_success [OF s(1)] assms(2) obtain vss where
    v: "r_Rows rows = map Ok vss" "m = length vss" "w2 = emit (map (\<lambda>vs. data_row (map enc vs)) vss) (emit [row_description flds] w)" by auto
  have "good w2" using v assms(2) by simp
  then obtain t where "tag m = Ok t" "n = m" "w' = emit [command_complete t] w2"
    using s(3) by (auto simp: finish_def WriteCommandComplete_good split: go.splits)
  with f wide s v show ?thesis by auto
qed

lemma bq_iterate_rows:
  assumes "good w" "length vals = length vss" "\<forall>i < length vss. encodeBQRow cd (vss ! i) schema = Ok (vals ! i)"
  shows "bq_iterate cd schema (map Ok vss @ rest) True n w =
    bq_iterate cd schema rest True (n + length vss) (emit (map data_row vals) w)"
  using assms
proof (induction vss arbitrary: vals n w)
  case (Cons vs vss)
  then obtain v vals' where v: "vals = v # vals'" by (cases vals) auto
  have "encodeBQRow cd vs schema = Ok v" using Cons.prems(3) v by force
  moreover have "\<forall>i < length vss. encodeBQRow cd (vss ! i) schema = Ok (vals' ! i)" using Cons.prems(3) v by force
  ultimately show ?case using Cons.IH [of "emit [data_row v] w" vals' "n + 1"] Cons.prems v
    by (simp add: WriteDataRow_good)
qed simp

lemma bq_run_Ok_iff:
  assumes "k \<le> 3"
  shows "bq_run L project c sql k err = Inr (Ok job) \<longleftrightarrow>
    (\<exists>j. k \<le> j \<and> j < 3 \<and> bq_Run L project c sql j = Ok job \<and>
      (\<forall>i. k \<le> i \<and> i < j \<longrightarrow> (\<exists>e. bq_Run L project c sql i = Err e \<and> isRetriable e \<and> bq_wait_done L i = None)))"
  using assms
proof (induction "3 - k" arbitrary: k err)
  case 0
  then show ?case by (subst bq_run.simps) (auto split: option.splits)
next
  case (Suc m)
  then have k: "k < 3" by simp
  let ?R = "bq_Run L project c sql"
  let ?good = "\<lambda>i. \<exists>e. ?R i = Err e \<and> isRetriable e \<and> bq_wait_done L i = None"
  have split: "(\<exists>j. k \<le> j \<and> j < 3 \<and> ?R j = Ok job \<and> (\<forall>i. k \<le> i \<and> i < j \<longrightarrow> ?good i)) \<longleftrightarrow>
      ?R k = Ok job \<or> ?good k \<and> (\<exists>j. k + 1 \<le> j \<and> j < 3 \<and> ?R j = Ok job \<and> (\<forall>i. k + 1 \<le> i \<and> i < j \<longrightarrow> ?good i))"
    (is "?l = ?r")
  proof
    assume ?l
    then obtain j where j: "k \<le> j" "j < 3" "?R j = Ok job" "\<forall>i. k \<le> i \<and> i < j \<longrightarrow> ?good i" by blast
    show ?r
    proof (cases "j = k")
      case False
      with j have "?good k" "k + 1 \<le> j" by auto
      with j show ?thesis by (metis Suc_eq_plus1 Suc_leD)
    qed (use j in simp)
  next
    assume ?r
    then show ?l
    proof
      assume "?R k = Ok job" then show ?l using k by auto
    next
      assume "?good k \<and> (\<exists>j. k + 1 \<le> j \<and> j < 3 \<and> ?R j = Ok job \<and> (\<forall>i. k + 1 \<le> i \<and> i < j \<longrightarrow> ?good i))"
      then obtain j where "?good k" "k + 1 \<le> j" "j < 3" "?R j = Ok job" "\<forall>i. k + 1 \<le> i \<and> i < j \<longrightarrow> ?good i" by blast
      moreover from this have "?good i" if "k \<le> i" "i < j" for i
        using that by (cases "i = k") auto
      ultimately show ?l by (intro exI [of _ j]) auto
    qed
  qed
  have IH: "bq_run L project c sql (k + 1) e = Inr (Ok job) \<longleftrightarrow>
     (\<exists>j. k + 1 \<le> j \<and> j < 3 \<and> ?R j = Ok job \<and> (\<forall>i. k + 1 \<le> i \<and> i < j \<longrightarrow> ?good i))" for e
    using Suc.hyps(1) [of "k + 1" e] Suc.hyps(2) k by simp
  show ?case
    unfolding split using k IH
    by (subst bq_run.simps) (cases "?R k"; auto split: option.splits)
qed

section \<open>Properties\<close>

definition example_codec :: codec where
  "example_codec = \<lparr>FormatFloat32 = (\<lambda>_. ''0''), FormatFloat64 = (\<lambda>_. ''0''), Base64 = id, FormatTime = Itoa,
     JSONMarshal = (\<lambda>_. Ok ''{}''), Sprint = (\<lambda>_. ''?'')\<rparr>"

definition example_sf :: sf_libs where
  "example_sf = \<lparr>sf_Unmarshal = (\<lambda>_. Err EOF), pem_Decode = (\<lambda>_. None), ParsePKCS1PrivateKey = (\<lambda>_. Err EOF),
     ParsePKCS8PrivateKey = (\<lambda>_. Err EOF), sf_DSN = (\<lambda>_. Ok ''dsn''), sf_Open = (\<lambda>_. Ok ()), sf_Ping = (\<lambda>_. Ok ()),
     sf_Query = (\<lambda>_ _ _. Ok \<lparr>r_Columns = Ok [''a''], r_ColumnTypes = Ok [''fixed''], r_Rows = [Ok [VInt64 1], Ok [VNil]], r_Err = None\<rparr>)\<rparr>"

definition example_bq :: bq_libs where
  "example_bq = \<lparr>bq_Unmarshal = (\<lambda>_. Err EOF), bq_NewClient = (\<lambda>_ _. Ok ()),
     bq_Run = (\<lambda>_ _ _ k. if k = 0 then Err (GoogleAPIError 503 ''backend error'') else Ok 7), bq_wait_done = (\<lambda>_. None),
     bq_Read = (\<lambda>_ _. Ok \<lparr>it_Schema = [(''a'', ''INT64'')], it_Rows = map Ok [[VInt64 1], [VInt64 2]] @ Err EOF # [Ok [VInt64 3]]\<rparr>)\<rparr>"




text \<open>
  The BigQuery connector reports a truncated result as a success. When the iteration fails after at
  least one row, the error is only logged: the client gets the rows read so far followed by the tag of a
  complete result with their number, and \<open>ExecuteStreaming\<close> returns no error, whatever was still to come.
\<close>

theorem bq_midstream_error_reported_as_success:
  assumes "good w" and "bq_run L project c sql 0 None = Inr (Ok job)"
    and "bq_Read L c job = Ok \<lparr>it_Schema = schema, it_Rows = map Ok vss @ Err e # rest\<rparr>"
    and "vss \<noteq> []" and "length schema \<le> 1664" and "length vals = length vss"
    and "\<forall>i < length vss. encodeBQRow cd (vss ! i) schema = Ok (vals ! i)"
    and "bq_commandTag sql (length vss) = Ok tag"
  shows "bq_ExecuteStreaming L cd project c sql params w =
    (Ok (length vss, None), emit (row_description (bqFieldsToPG schema) # map data_row vals @ [command_complete tag]) w)"
proof -
  obtain vs vss' where v: "vss = vs # vss'" using assms(4) by (cases vss) auto
  obtain x xs where x: "vals = x # xs" using assms(6) v by (cases vals) auto
  have e: "encodeBQRow cd vs schema = Ok x" "\<forall>i < length vss'. encodeBQRow cd (vss' ! i) schema = Ok (xs ! i)" "length xs = length vss'"
    using assms(6,7) v x by force+
  have d: "WriteRowDescription (bqFieldsToPG schema) w = (emit [row_description (bqFieldsToPG schema)] w, None)"
    using assms(1,5) by (intro WriteRowDescription_good) (simp_all add: bqFieldsToPG_def)
  let ?w1 = "emit [row_description (bqFieldsToPG schema), data_row x] w"
  have "bq_iterate cd schema (map Ok vss @ Err e # rest) False 0 w =
      bq_iterate cd schema (map Ok vss' @ Err e # rest) True 1 ?w1"
    using d e(1) assms(1) by (simp add: v WriteDataRow_good)
  also have "\<dots> = (Ok (length vss, True, None), emit (row_description (bqFieldsToPG schema) # map data_row vals) w)"
    using bq_iterate_rows [of ?w1 xs vss' cd schema "Err e # rest" 1] e assms(1) by (simp add: v x)
  finally show ?thesis
    using assms(1,2,3,8) by (simp add: bq_ExecuteStreaming_def finish_def WriteCommandComplete_good)
qed

theorem bq_midstream_error_reported_as_success_witness:
  "bq_ExecuteStreaming example_bq example_codec ''p'' Background ''SELECT a FROM t'' [] (NewWriter False) =
    (Ok (length [[VInt64 1], [VInt64 2]], None),
     emit (row_description (bqFieldsToPG [(''a'', ''INT64'')]) # map data_row [[Some ''1''], [Some ''2'']] @ [command_complete ''SELECT 2'']) (NewWriter False))"
proof (rule bq_midstream_error_reported_as_success)
  show "bq_run example_bq ''p'' Background ''SELECT a FROM t'' 0 None = Inr (Ok 7)" by code_simp
  show "\<forall>i < length [[VInt64 1], [VInt64 2]].
     encodeBQRow example_codec ([[VInt64 1], [VInt64 2]] ! i) [(''a'', ''INT64'')] = Ok ([[Some ''1''], [Some ''2'']] ! i)"
  proof (intro allI impI)
    have a: "encodeBQRow example_codec [VInt64 1] [(''a'', ''INT64'')] = Ok [Some ''1'']"
      "encodeBQRow example_codec [VInt64 2] [(''a'', ''INT64'')] = Ok [Some ''2'']" by code_simp+
    fix i assume "i < length [[VInt64 1], [VInt64 2]]"
    then have "i = 0 \<or> i = 1" by auto
    with a show "encodeBQRow example_codec ([[VInt64 1], [VInt64 2]] ! i) [(''a'', ''INT64'')] = Ok ([[Some ''1''], [Some ''2'']] ! i)"
      by auto
  qed
  show "bq_commandTag ''SELECT a FROM t'' (length [[VInt64 1], [VInt64 2]]) = Ok ''SELECT 2''" by code_simp
qed (simp_all add: example_bq_def NewWriter_def good_def)

text \<open>
  Retries of a BigQuery job. The job is obtained exactly when one of the first three attempts
  succeeds and every attempt before it failed with an HTTP 5xx status and was waited out before the
  context ended; so there is never a fourth attempt, and an error that is not transient is not retried.
\<close>

theorem bq_run_retries:
  "bq_run L project c sql 0 None = Inr (Ok job) \<longleftrightarrow>
    (\<exists>j < 3. bq_Run L project c sql j = Ok job \<and>
      (\<forall>i < j. \<exists>e code msg. bq_Run L project c sql i = Err e \<and> as_googleapi e = Some (code, msg) \<and>
         500 \<le> code \<and> code < 600 \<and> bq_wait_done L i = None))"
proof -
  have r: "isRetriable e \<longleftrightarrow> (\<exists>code msg. as_googleapi e = Some (code, msg) \<and> 500 \<le> code \<and> code < 600)" for e
    by (auto simp: isRetriable_def split: option.splits)
  show ?thesis using bq_run_Ok_iff [of 0 L project c sql None job] by (simp add: r) metis
qed


theorem bq_run_retries_witness:
  "bq_run example_bq ''p'' Background ''SELECT 1'' 0 None = Inr (Ok 7) \<and>
   (\<exists>j < 3. bq_Run example_bq ''p'' Background ''SELECT 1'' j = Ok 7 \<and>
      (\<forall>i < j. \<exists>e code msg. bq_Run example_bq ''p'' Background ''SELECT 1'' i = Err e \<and> as_googleapi e = Some (code, msg) \<and>
         500 \<le> code \<and> code < 600 \<and> bq_wait_done example_bq i = None))"
proof -
  have "bq_run example_bq ''p'' Background ''SELECT 1'' 0 None = Inr (Ok 7)" by code_simp
  then show ?thesis using bq_run_retries [of example_bq "''p''" Background "''SELECT 1''" 7] by blast
qed

end
