(* ===== verification/Worker_Pool.thy ===== *)
theory Worker_Pool
  imports Connectors "HOL-Library.AList"
begin

text \<open>
  The DuckDB worker pool and the UDF registry, \<^verbatim>\<open>internal/workers\<close> (pool.go, encode.go,
  udf_registry.go). A worker is identified by its database handle; the pool records the handles it has
  opened and not closed, so that leaks are visible. DuckDB is a parameter: whether an open, a statement or
  a query succeeds, given the statements executed before. \<^verbatim>\<open>workerFor\<close> and \<^verbatim>\<open>Close\<close> hold the pool's lock
  throughout and are single steps of the model.
\<close>

section \<open>Encoding\<close>

definition mapDuckDBType :: "string \<Rightarrow> 32 word \<times> 16 word" where
  "mapDuckDBType t =
     (if t = ''BOOLEAN'' then (OIDBool, 1)
      else if t \<in> set [''TINYINT'', ''SMALLINT'', ''INTEGER'', ''INT''] then (OIDInt4, 4)
      else if t \<in> set [''BIGINT'', ''HUGEINT'', ''UBIGINT'', ''UINTEGER'', ''USMALLINT'', ''UTINYINT''] then (OIDInt8, 8)
      else if t \<in> set [''FLOAT'', ''REAL''] then (OIDFloat4, 4)
      else if t = ''DOUBLE'' then (OIDFloat8, 8)
      else if t \<in> set [''DECIMAL'', ''NUMERIC''] then (OIDNumeric, - 1)
      else if t \<in> set [''VARCHAR'', ''TEXT'', ''STRING''] then (OIDText, - 1)
      else if t \<in> set [''BLOB'', ''VARBINARY''] then (OIDBytea, - 1)
      else if t = ''DATE'' then (OIDDate, 4)
      else if t = ''TIME'' then (OIDTime, 8)
      else if t \<in> set [''TIMESTAMP'', ''TIMESTAMPTZ'', ''TIMESTAMP WITH TIME ZONE''] then (OIDTimestamptz, 8)
      else if t = ''JSON'' then (OIDJSONB, - 1)
      else if t = ''UUID'' then (OIDUUID, 16)
      else (OIDText, - 1))"

fun encodeDuckDBValue :: "codec \<Rightarrow> sql_value \<Rightarrow> bytes option" where
  "encodeDuckDBValue cd VNil = None"
| "encodeDuckDBValue cd (VString x) = Some x"
| "encodeDuckDBValue cd (VBool x) = Some (bool_text x)"
| "encodeDuckDBValue cd (VInt x) = Some (Itoa (sint x))"
| "encodeDuckDBValue cd (VInt32 x) = Some (Itoa (sint x))"
| "encodeDuckDBValue cd (VInt64 x) = Some (Itoa (sint x))"
| "encodeDuckDBValue cd (VUint64 x) = Some (Itoa (uint x))"
| "encodeDuckDBValue cd (VFloat32 x) = Some (FormatFloat32 cd x)"
| "encodeDuckDBValue cd (VFloat64 x) = Some (FormatFloat64 cd x)"
| "encodeDuckDBValue cd (VBytes x) = Some (Base64 cd x)"
| "encodeDuckDBValue cd (VTime x) = Some (FormatTime cd x)"
| "encodeDuckDBValue cd x = Some (case JSONMarshal cd x of Ok b \<Rightarrow> b | _ \<Rightarrow> Sprint cd x)"

definition pool_commandTag :: "string \<Rightarrow> nat \<Rightarrow> string go" where
  "pool_commandTag sql rows =
     (case Fields (TrimSpace sql) of
        [] \<Rightarrow> Panic
      | first # _ \<Rightarrow>
          (let verb = ToUpper first in
           if verb \<in> set [''SELECT'', ''WITH'', ''TABLE'', ''VALUES''] then Ok (''SELECT '' @ Itoa (int rows)) else Ok verb))"

section \<open>The pool\<close>

record pool_config =
  RedisURL :: string
  IcebergCatalogURL :: string
  S3Endpoint :: string
  AWSAccessKey :: string
  AWSSecretKey :: string
  AWSRegion :: string

type_synonym handle = nat

record worker =
  wk_db :: handle
  wk_subDone :: bool

record pool =
  p_cfg :: pool_config
  p_rdb :: bool
  p_closed :: bool
  p_workers :: "(string \<times> worker) list"
  p_open :: "handle list"
  p_next :: handle
  p_exec :: "(handle \<times> string) list"
  p_subs :: "string list"

text \<open>The database: results may depend on the statements executed so far. \<open>redis_ok\<close> is \<^verbatim>\<open>redis.ParseURL\<close>.\<close>

record duckdb =
  duck_Open :: "handle \<Rightarrow> go_error option"
  duck_Exec :: "(handle \<times> string) list \<Rightarrow> handle \<Rightarrow> string \<Rightarrow> go_error option"
  duck_Query :: "(handle \<times> string) list \<Rightarrow> handle \<Rightarrow> ctx \<Rightarrow> string \<Rightarrow> sql_rows go"
  redis_ok :: "string \<Rightarrow> bool"

definition NewPool :: "duckdb \<Rightarrow> pool_config \<Rightarrow> pool" where
  "NewPool D cfg = \<lparr>p_cfg = cfg, p_rdb = (RedisURL cfg \<noteq> [] \<and> redis_ok D (RedisURL cfg)), p_closed = False,
     p_workers = [], p_open = [], p_next = 0, p_exec = [], p_subs = []\<rparr>"

definition close_handle :: "handle \<Rightarrow> pool \<Rightarrow> pool" where
  "close_handle dbh p = p\<lparr>p_open := remove1 dbh (p_open p)\<rparr>"

definition close_worker :: "string \<times> worker \<Rightarrow> pool \<Rightarrow> pool" where
  "close_worker kw p =
     (close_handle (wk_db (snd kw)) p)\<lparr>p_workers := filter (\<lambda>x. fst x \<noteq> fst kw) (p_workers p),
                                       p_subs := filter (\<lambda>s. s \<noteq> fst kw) (p_subs p)\<rparr>"

definition pool_Close :: "pool \<Rightarrow> pool" where
  "pool_Close p = (fold close_worker (p_workers p) (p\<lparr>p_closed := True\<rparr>))\<lparr>p_rdb := False\<rparr>"

text \<open>A statement run on a handle: its outcome, and the statement recorded.\<close>

definition exec_stmt :: "duckdb \<Rightarrow> handle \<Rightarrow> string \<Rightarrow> pool \<Rightarrow> go_error option \<times> pool" where
  "exec_stmt D dbh s p = (duck_Exec D (p_exec p) dbh s, p\<lparr>p_exec := p_exec p @ [(dbh, s)]\<rparr>)"

definition required_stmts :: "pool_config \<Rightarrow> string list" where
  "required_stmts cfg =
     [''INSTALL httpfs'', ''LOAD httpfs'',
      ''SET s3_endpoint='' @ [CHR 0x27] @ TrimPrefix (TrimPrefix (S3Endpoint cfg) ''http://'') ''https://'' @ [CHR 0x27],
      ''SET s3_access_key_id='' @ [CHR 0x27] @ AWSAccessKey cfg @ [CHR 0x27],
      ''SET s3_secret_access_key='' @ [CHR 0x27] @ AWSSecretKey cfg @ [CHR 0x27],
      ''SET s3_region='' @ [CHR 0x27] @ AWSRegion cfg @ [CHR 0x27],
      ''SET s3_url_style='' @ [CHR 0x27] @ ''path'' @ [CHR 0x27],
      ''SET s3_use_ssl=false'']"

definition optional_stmts :: "string list" where
  "optional_stmts = [''INSTALL iceberg'', ''LOAD iceberg'', ''INSTALL llm FROM community'', ''LOAD llm'']"

fun exec_required :: "duckdb \<Rightarrow> handle \<Rightarrow> string list \<Rightarrow> pool \<Rightarrow> go_error option \<times> pool" where
  "exec_required D dbh [] p = (None, p)"
| "exec_required D dbh (s # ss) p =
     (case exec_stmt D dbh s p of (Some e, p1) \<Rightarrow> (Some (wrapf s e), p1) | (None, p1) \<Rightarrow> exec_required D dbh ss p1)"

definition installExtensions :: "duckdb \<Rightarrow> handle \<Rightarrow> pool \<Rightarrow> go_error option \<times> pool" where
  "installExtensions D dbh p =
     (case exec_required D dbh (required_stmts (p_cfg p)) p of
        (Some e, p1) \<Rightarrow> (Some e, p1)
      | (None, p1) \<Rightarrow> (None, fold (\<lambda>s q. snd (exec_stmt D dbh s q)) optional_stmts p1))"

definition attach_stmt :: "string \<Rightarrow> string" where
  "attach_stmt url = ''ATTACH '' @ [CHR 0x27] @ ReplaceAll url [CHR 0x27] [CHR 0x27, CHR 0x27] @ [CHR 0x27] @ '' AS uv_iceberg (TYPE ICEBERG)''"

definition workerFor :: "duckdb \<Rightarrow> string \<Rightarrow> pool \<Rightarrow> worker go \<times> pool" where
  "workerFor D slug p =
     (if p_closed p then (Err (Errorf ''pool closed''), p)
      else
        (case map_of (p_workers p) slug of
           Some w \<Rightarrow> (Ok w, p)
         | None \<Rightarrow>
             (let dbh = p_next p in
              case duck_Open D dbh of
                Some e \<Rightarrow> (Err (wrapf ''duckdb open'' e), p)
              | None \<Rightarrow>
                  (let p1 = p\<lparr>p_next := dbh + 1, p_open := dbh # p_open p\<rparr> in
                   case installExtensions D dbh p1 of
                     (Some e, p2) \<Rightarrow> (Err (wrapf ''duckdb extensions'' e), close_handle dbh p2)
                   | (None, p2) \<Rightarrow>
                       (let p3 = (if IcebergCatalogURL (p_cfg p2) \<noteq> []
                                  then snd (exec_stmt D dbh (attach_stmt (IcebergCatalogURL (p_cfg p2))) p2) else p2);
                            w = \<lparr>wk_db = dbh, wk_subDone = False\<rparr>
                        in (Ok w, p3\<lparr>p_workers := (slug, w) # p_workers p3,
                                    p_subs := (if p_rdb p3 then slug # p_subs p3 else p_subs p3)\<rparr>))))))"

text \<open>One message of the snapshot subscription of a worker, while the worker is not closed.\<close>

definition snapshot_message :: "duckdb \<Rightarrow> string \<Rightarrow> pool \<Rightarrow> pool" where
  "snapshot_message D slug p =
     (case map_of (p_workers p) slug of
        Some w \<Rightarrow> if slug \<in> set (p_subs p) then snd (exec_stmt D (wk_db w) ''CHECKPOINT'' p) else p
      | None \<Rightarrow> p)"

definition refresh_pattern :: "string \<Rightarrow> string" where
  "refresh_pattern slug = ''iceberg.snapshot.'' @ slug @ ''.*.*.*''"

definition pool_ExecuteStreaming ::
  "duckdb \<Rightarrow> codec \<Rightarrow> ctx \<Rightarrow> string \<Rightarrow> string \<Rightarrow> bytes option list \<Rightarrow> pool \<Rightarrow> writer \<Rightarrow> (nat \<times> go_error option) go \<times> pool \<times> writer" where
  "pool_ExecuteStreaming D cd c customerSlug query params p w =
     (case workerFor D customerSlug p of
        (Err e, p1) \<Rightarrow> (Ok (0, Some e), p1, w)
      | (Panic, p1) \<Rightarrow> (Panic, p1, w)
      | (Ok wk, p1) \<Rightarrow>
          (case duck_Query D (p_exec p1) (wk_db wk) (WithTimeout c 30) query of
             Err e \<Rightarrow> (Ok (0, Some (wrapf ''duckdb query'' e)), p1, w)
           | Panic \<Rightarrow> (Panic, p1, w)
           | Ok rows \<Rightarrow>
               (let (r, w') = stream_result mapDuckDBType (encodeDuckDBValue cd) (\<lambda>e. e) (pool_commandTag query) rows w
                in (r, p1, w'))))"

section \<open>Rows for the workbench\<close>

definition maxDisplayRows :: nat where
  "maxDisplayRows = 1000"

record rows_result =
  rr_cols :: "string list"
  rr_rows :: "string list list"
  rr_rowCount :: nat
  rr_bytesScanned :: nat
  rr_err :: "go_error option"

text \<open>A NULL is the nil slice: no bytes, and the empty string in the record.\<close>

definition cell :: "codec \<Rightarrow> sql_value \<Rightarrow> string" where
  "cell cd v = (case encodeDuckDBValue cd v of None \<Rightarrow> [] | Some b \<Rightarrow> b)"

fun collect_rows :: "codec \<Rightarrow> sql_value list go list \<Rightarrow> rows_result \<Rightarrow> rows_result go" where
  "collect_rows cd [] r = Ok r"
| "collect_rows cd (row # rows) r =
     (case row of
        Err e \<Rightarrow> Ok (r\<lparr>rr_err := Some e\<rparr>)
      | Panic \<Rightarrow> Panic
      | Ok vs \<Rightarrow>
          (let rec = map (cell cd) vs;
               shown = (if rr_rowCount r < maxDisplayRows then rr_rows r @ [rec] else rr_rows r)
           in collect_rows cd rows
                (r\<lparr>rr_bytesScanned := rr_bytesScanned r + sum_list (map length rec), rr_rows := shown,
                   rr_rowCount := rr_rowCount r + 1\<rparr>)))"

definition no_rows :: "go_error \<Rightarrow> rows_result" where
  "no_rows e = \<lparr>rr_cols = [], rr_rows = [], rr_rowCount = 0, rr_bytesScanned = 0, rr_err = Some e\<rparr>"

definition ExecuteRows :: "duckdb \<Rightarrow> codec \<Rightarrow> ctx \<Rightarrow> string \<Rightarrow> string \<Rightarrow> pool \<Rightarrow> rows_result go \<times> pool" where
  "ExecuteRows D cd c customerSlug query p =
     (case workerFor D customerSlug p of
        (Err e, p1) \<Rightarrow> (Ok (no_rows e), p1)
      | (Panic, p1) \<Rightarrow> (Panic, p1)
      | (Ok wk, p1) \<Rightarrow>
          (case duck_Query D (p_exec p1) (wk_db wk) (WithTimeout c 30) query of
             Err e \<Rightarrow> (Ok (no_rows (wrapf ''duckdb query'' e)), p1)
           | Panic \<Rightarrow> (Panic, p1)
           | Ok rs \<Rightarrow>
               (case r_Columns rs of
                  Err e \<Rightarrow> (Ok (no_rows e), p1)
                | Panic \<Rightarrow> (Panic, p1)
                | Ok cols \<Rightarrow>
                    (case collect_rows cd (r_Rows rs) \<lparr>rr_cols = cols, rr_rows = [], rr_rowCount = 0, rr_bytesScanned = 0, rr_err = None\<rparr> of
                       Err e \<Rightarrow> (Err e, p1)
                     | Panic \<Rightarrow> (Panic, p1)
                     | Ok r \<Rightarrow> (Ok (if rr_err r = None then r\<lparr>rr_err := r_Err rs\<rparr> else r), p1)))))"

section \<open>The UDF registry\<close>

record udf_spec =
  u_Name :: string
  u_Kind :: string
  u_Body :: string
  u_CreatedAt :: int

type_synonym udf_registry = "(string \<times> udf_spec list) list"

definition udf_entries :: "udf_registry \<Rightarrow> string \<Rightarrow> udf_spec list" where
  "udf_entries r slug = (case map_of r slug of None \<Rightarrow> [] | Some l \<Rightarrow> l)"

definition udf_Register :: "int \<Rightarrow> string \<Rightarrow> udf_spec \<Rightarrow> udf_registry \<Rightarrow> unit go \<times> udf_registry" where
  "udf_Register now customerSlug spec r =
     (if customerSlug = [] then (Err (Errorf ''customer slug required''), r)
      else if u_Name spec = [] \<or> u_Body spec = [] then (Err (Errorf ''udf name + body required''), r)
      else
        (let spec1 = (if u_Kind spec = [] then spec\<lparr>u_Kind := ''macro''\<rparr> else spec);
             spec2 = (if u_CreatedAt spec1 = zero_time then spec1\<lparr>u_CreatedAt := now\<rparr> else spec1)
         in if \<exists>e \<in> set (udf_entries r customerSlug). u_Name e = u_Name spec2
            then (Err (Errorf ''udf name already registered''), r)
            else (Ok (), AList.update customerSlug (udf_entries r customerSlug @ [spec2]) r)))"

definition udf_List :: "string \<Rightarrow> udf_registry \<Rightarrow> udf_spec list" where
  "udf_List customerSlug r = udf_entries r customerSlug"

definition udf_Delete :: "string \<Rightarrow> udf_registry \<Rightarrow> bool \<times> udf_registry" where
  "udf_Delete name r =
     (\<exists>(slug, specs) \<in> set r. \<exists>s \<in> set specs. u_Name s = name,
      map (\<lambda>(slug, specs). (slug, filter (\<lambda>s. u_Name s \<noteq> name) specs)) r)"

section \<open>The pool's invariant\<close>

text \<open>
  No handle leaks and no worker is shared: the open handles are exactly those of the registered workers,
  one per customer; a closed pool has none.
\<close>

definition pool_ok :: "pool \<Rightarrow> bool" where
  "pool_ok p \<longleftrightarrow> distinct (map fst (p_workers p)) \<and> distinct (p_open p) \<and>
     mset (p_open p) = mset (map (wk_db \<circ> snd) (p_workers p)) \<and> (\<forall>h \<in> set (p_open p). h < p_next p) \<and>
     (p_closed p \<longrightarrow> p_workers p = []) \<and> set (p_subs p) \<subseteq> fst ` set (p_workers p)"

inductive pool_step :: "duckdb \<Rightarrow> pool \<Rightarrow> pool \<Rightarrow> bool" for D :: duckdb where
  worker: "pool_step D p (snd (workerFor D slug p))"
| stream: "pool_step D p (fst (snd (pool_ExecuteStreaming D cd c slug query params p w)))"
| rows: "pool_step D p (snd (ExecuteRows D cd c slug query p))"
| message: "pool_step D p (snapshot_message D slug p)"
| close: "pool_step D p (pool_Close p)"

lemma exec_stmt_sel [simp]:
  "p_workers (snd (exec_stmt D dbh s p)) = p_workers p" "p_open (snd (exec_stmt D dbh s p)) = p_open p"
  "p_next (snd (exec_stmt D dbh s p)) = p_next p" "p_closed (snd (exec_stmt D dbh s p)) = p_closed p"
  "p_subs (snd (exec_stmt D dbh s p)) = p_subs p" "p_cfg (snd (exec_stmt D dbh s p)) = p_cfg p"
  "p_rdb (snd (exec_stmt D dbh s p)) = p_rdb p"
  by (simp_all add: exec_stmt_def)

definition same_pool :: "pool \<Rightarrow> pool \<Rightarrow> bool" where
  "same_pool p q \<longleftrightarrow> q = p\<lparr>p_exec := p_exec q\<rparr>"

lemma same_pool_refl [simp]: "same_pool p p" by (simp add: same_pool_def)

lemma same_pool_trans: "same_pool p q \<Longrightarrow> same_pool q r \<Longrightarrow> same_pool p r"
  unfolding same_pool_def by (metis pool.surjective pool.update_convs(7))

lemma same_pool_exec: "same_pool p (snd (exec_stmt D dbh s p))"
  by (simp add: same_pool_def exec_stmt_def)

lemma same_pool_required: "exec_required D dbh ss p = (e, q) \<Longrightarrow> same_pool p q"
proof (induction ss arbitrary: p)
  case (Cons s ss)
  then show ?case
    using same_pool_exec [of p D dbh s] by (auto split: prod.splits option.splits intro: same_pool_trans)
qed simp

lemma same_pool_fold: "same_pool p (fold (\<lambda>s q. snd (exec_stmt D dbh s q)) ss p)"
  by (induction ss arbitrary: p) (auto intro: same_pool_trans same_pool_exec)

lemma same_pool_install: "installExtensions D dbh p = (e, q) \<Longrightarrow> same_pool p q"
  by (auto simp: installExtensions_def split: prod.splits option.splits
      intro: same_pool_trans same_pool_fold dest: same_pool_required)

lemma same_pool_sel:
  "same_pool p q \<Longrightarrow> p_workers q = p_workers p \<and> p_open q = p_open p \<and> p_next q = p_next p \<and> p_closed q = p_closed p \<and>
    p_subs q = p_subs p \<and> p_cfg q = p_cfg p \<and> p_rdb q = p_rdb p"
  unfolding same_pool_def by (metis (no_types, lifting) pool.ext_inject pool.surjective pool.update_convs(7))

lemma same_pool_ok: "same_pool p q \<Longrightarrow> pool_ok q = pool_ok p"
  using same_pool_sel by (simp add: pool_ok_def)

lemma workerFor_cases:
  assumes "workerFor D slug p = (r, q)"
  obtains (closed) "p_closed p" "r = Err (Errorf ''pool closed'')" "q = p"
  | (cached) w where "\<not> p_closed p" "map_of (p_workers p) slug = Some w" "r = Ok w" "q = p"
  | (failed) e q' where "\<not> p_closed p" "map_of (p_workers p) slug = None" "r = Err e"
      "q = p \<or> q = close_handle (p_next p) q'" "same_pool (p\<lparr>p_next := p_next p + 1, p_open := p_next p # p_open p\<rparr>) q'"
  | (started) q' where "\<not> p_closed p" "map_of (p_workers p) slug = None" "r = Ok \<lparr>wk_db = p_next p, wk_subDone = False\<rparr>"
      "same_pool (p\<lparr>p_next := p_next p + 1, p_open := p_next p # p_open p\<rparr>) q'"
      "q = q'\<lparr>p_workers := (slug, \<lparr>wk_db = p_next p, wk_subDone = False\<rparr>) # p_workers q',
              p_subs := (if p_rdb q' then slug # p_subs q' else p_subs q')\<rparr>"
proof -
  let ?p1 = "p\<lparr>p_next := p_next p + 1, p_open := p_next p # p_open p\<rparr>"
  show ?thesis
  proof (cases "p_closed p")
    case True
    then have "r = Err (Errorf ''pool closed'')" "q = p" using assms by (auto simp: workerFor_def)
    then show ?thesis using closed [OF True] by blast
  next
    case alive: False
    show ?thesis
    proof (cases "map_of (p_workers p) slug")
      case (Some w)
      then have "r = Ok w" "q = p" using assms alive by (auto simp: workerFor_def)
      then show ?thesis using cached [OF alive Some] by blast
    next
      case new: None
      show ?thesis
      proof (cases "duck_Open D (p_next p)")
        case (Some e)
        then have "r = Err (wrapf ''duckdb open'' e)" "q = p" using assms alive new by (auto simp: workerFor_def Let_def)
        then show ?thesis using failed [OF alive new] same_pool_refl by blast
      next
        case opened: None
        obtain e p2 where i: "installExtensions D (p_next p) ?p1 = (e, p2)" by force
        note sp = same_pool_install [OF i]
        show ?thesis
        proof (cases e)
          case None
          define q' where "q' = (if IcebergCatalogURL (p_cfg p2) \<noteq> []
              then snd (exec_stmt D (p_next p) (attach_stmt (IcebergCatalogURL (p_cfg p2))) p2) else p2)"
          have "same_pool ?p1 q'" using sp same_pool_trans [OF sp same_pool_exec] by (simp add: q'_def)
          moreover have "r = Ok \<lparr>wk_db = p_next p, wk_subDone = False\<rparr>"
            "q = q'\<lparr>p_workers := (slug, \<lparr>wk_db = p_next p, wk_subDone = False\<rparr>) # p_workers q',
                  p_subs := (if p_rdb q' then slug # p_subs q' else p_subs q')\<rparr>"
            using assms alive new opened i None by (auto simp: workerFor_def Let_def q'_def)
          ultimately show ?thesis using started [OF alive new] by blast
        next
          case (Some x)
          then have "r = Err (wrapf ''duckdb extensions'' x)" "q = close_handle (p_next p) p2"
            using assms alive new opened i by (auto simp: workerFor_def Let_def)
          then show ?thesis using failed [OF alive new] sp by blast
        qed
      qed
    qed
  qed
qed

lemma workerFor_ok:
  assumes "pool_ok p" "workerFor D slug p = (r, q)"
  shows "pool_ok q"
  using assms(2)
proof (cases rule: workerFor_cases)
  case (failed e q')
  then show ?thesis
    using assms(1) same_pool_sel [OF failed(5)] by (auto simp: pool_ok_def close_handle_def less_Suc_eq)
next
  case (started q')
  have "p_next p \<notin> set (p_open p)" using assms(1) by (auto simp: pool_ok_def)
  moreover have "slug \<notin> fst ` set (p_workers p)" using started(2) by (simp add: map_of_eq_None_iff)
  ultimately show ?thesis
    using assms(1) same_pool_sel [OF started(4)] started by (auto simp: pool_ok_def)
qed (use assms in simp_all)

lemma Close_fold:
  assumes "distinct (map fst ws)" "p_workers q = ws" "mset (p_open q) = mset (map (\<lambda>x. wk_db (snd x)) ws)"
    "set (p_subs q) \<subseteq> fst ` set ws"
  shows "p_workers (fold close_worker ws q) = [] \<and> p_open (fold close_worker ws q) = [] \<and>
    p_subs (fold close_worker ws q) = [] \<and> p_closed (fold close_worker ws q) = p_closed q"
  using assms
proof (induction ws arbitrary: q)
  case (Cons kw ws)
  have "filter (\<lambda>x. fst x \<noteq> fst kw) ws = ws" 
    using Cons.prems(1) by (auto simp: filter_id_conv image_iff)
  then have "p_workers (close_worker kw q) = ws" using Cons.prems(2) by (simp add: close_worker_def)
  moreover have "mset (p_open (close_worker kw q)) = mset (map (\<lambda>x. wk_db (snd x)) ws)"
    using Cons.prems(3) by (simp add: close_worker_def close_handle_def)
  moreover have "set (p_subs (close_worker kw q)) \<subseteq> fst ` set ws" using Cons.prems(4) by (auto simp: close_worker_def)
  moreover have "p_closed (close_worker kw q) = p_closed q" by (simp add: close_worker_def close_handle_def)
  ultimately show ?case using Cons.IH [of "close_worker kw q"] Cons.prems(1) by simp
qed simp

lemma pool_Close_ok:
  assumes "pool_ok p"
  shows "pool_ok (pool_Close p) \<and> p_open (pool_Close p) = [] \<and> p_workers (pool_Close p) = []"
proof -
  have "p_workers (fold close_worker (p_workers p) (p\<lparr>p_closed := True\<rparr>)) = [] \<and>
      p_open (fold close_worker (p_workers p) (p\<lparr>p_closed := True\<rparr>)) = [] \<and> p_subs (fold close_worker (p_workers p) (p\<lparr>p_closed := True\<rparr>)) = []"
    using assms Close_fold [of "p_workers p" "p\<lparr>p_closed := True\<rparr>"] by (simp add: pool_ok_def comp_def)
  then show ?thesis by (simp add: pool_Close_def pool_ok_def)
qed

lemma pool_ExecuteStreaming_pool: "fst (snd (pool_ExecuteStreaming D cd c slug query params p w)) = snd (workerFor D slug p)"
  by (auto simp: pool_ExecuteStreaming_def split: prod.splits go.splits)

lemma ExecuteRows_pool: "snd (ExecuteRows D cd c slug query p) = snd (workerFor D slug p)"
  by (auto simp: ExecuteRows_def split: prod.splits go.splits)

lemma pool_step_ok: "pool_step D p q \<Longrightarrow> pool_ok p \<Longrightarrow> pool_ok q"
proof (induction rule: pool_step.induct)
  case (worker p slug)
  then show ?case using workerFor_ok by (metis prod.collapse)
next
  case (stream p cd c slug query params w)
  then show ?case unfolding pool_ExecuteStreaming_pool using workerFor_ok by (metis prod.collapse)
next
  case (rows p cd c slug query)
  then show ?case unfolding ExecuteRows_pool using workerFor_ok by (metis prod.collapse)
next
  case (message p slug)
  then show ?case using same_pool_ok [OF same_pool_exec] by (auto simp: snapshot_message_def split: option.splits)
next
  case (close p)
  then show ?case by (simp add: pool_Close_ok)
qed

lemma pool_reachable_ok: "(pool_step D)\<^sup>*\<^sup>* (NewPool D cfg) p \<Longrightarrow> pool_ok p"
  by (induction rule: rtranclp_induct) (auto simp: NewPool_def pool_ok_def [of "\<lparr>p_cfg = _, p_rdb = _, p_closed = _, p_workers = _, p_open = _, p_next = _, p_exec = _, p_subs = _\<rparr>"] intro: pool_step_ok)

lemma workerFor_again:
  assumes "workerFor D slug p = (Ok w, q)"
  shows "workerFor D slug q = (Ok w, q) \<and> map_of (p_workers q) slug = Some w \<and> \<not> p_closed q"
  using assms
  by (cases rule: workerFor_cases) (auto simp: workerFor_def dest!: same_pool_sel)

lemma distinct_workers:
  assumes "pool_ok p" "map_of (p_workers p) s1 = Some w1" "map_of (p_workers p) s2 = Some w2" "s1 \<noteq> s2"
  shows "wk_db w1 \<noteq> wk_db w2"
proof
  assume eq: "wk_db w1 = wk_db w2"
  have "distinct (map (wk_db \<circ> snd) (p_workers p))"
    using assms(1) unfolding pool_ok_def by (metis distinct_count_atmost_1 mset_eq_imp_distinct_iff)
  moreover have "(s1, w1) \<in> set (p_workers p)" "(s2, w2) \<in> set (p_workers p)"
    using assms(2,3) by (auto dest: map_of_SomeD)
  ultimately show False using eq assms(4) by (fastforce simp: distinct_map inj_on_def)
qed

lemma collect_rows_ok:
  assumes "collect_rows cd rows r = Ok r'" "rr_err r = None" "rr_rows r = take maxDisplayRows xs" "rr_rowCount r = length xs"
    "rr_bytesScanned r = sum_list (map (\<lambda>rec. sum_list (map length rec)) xs)"
  shows "\<exists>vss. rr_rows r' = take maxDisplayRows (xs @ map (map (cell cd)) vss) \<and> rr_rowCount r' = length xs + length vss \<and>
     rr_bytesScanned r' = sum_list (map (\<lambda>rec. sum_list (map length rec)) (xs @ map (map (cell cd)) vss)) \<and> rr_cols r' = rr_cols r \<and>
     (if rr_err r' = None then rows = map Ok vss else \<exists>e rest. rows = map Ok vss @ Err e # rest \<and> rr_err r' = Some e)"
  using assms
proof (induction rows arbitrary: r xs)
  case Nil
  then show ?case by (intro exI [of _ "[]"]) auto
next
  case (Cons row rows)
  show ?case
  proof (cases row)
    case (Ok vs)
    let ?rec = "map (cell cd) vs"
    let ?r = "r\<lparr>rr_bytesScanned := rr_bytesScanned r + sum_list (map length ?rec),
       rr_rows := (if rr_rowCount r < maxDisplayRows then rr_rows r @ [?rec] else rr_rows r), rr_rowCount := rr_rowCount r + 1\<rparr>"
    have c: "collect_rows cd rows ?r = Ok r'" using Cons.prems(1) Ok by (simp add: Let_def)
    have t: "rr_rows ?r = take maxDisplayRows (xs @ [?rec])"
      using Cons.prems(3,4) by auto
    have "rr_err ?r = None" "rr_rowCount ?r = length (xs @ [?rec])"
      "rr_bytesScanned ?r = sum_list (map (\<lambda>rec. sum_list (map length rec)) (xs @ [?rec]))"
      using Cons.prems by simp_all
    from Cons.IH [OF c this(1) t this(2,3)] obtain vss where
      v: "rr_rows r' = take maxDisplayRows ((xs @ [?rec]) @ map (map (cell cd)) vss)" "rr_rowCount r' = length (xs @ [?rec]) + length vss"
        "rr_bytesScanned r' = sum_list (map (\<lambda>rec. sum_list (map length rec)) ((xs @ [?rec]) @ map (map (cell cd)) vss))"
        "rr_cols r' = rr_cols ?r"
        "if rr_err r' = None then rows = map Ok vss else \<exists>e rest. rows = map Ok vss @ Err e # rest \<and> rr_err r' = Some e" by blast
    then show ?thesis using Ok by (intro exI [of _ "vs # vss"]) (auto split: if_splits)
  next
    case (Err e)
    then show ?thesis using Cons.prems by (intro exI [of _ "[]"]) auto
  qed (use Cons.prems in simp)
qed

definition udf_ok :: "udf_registry \<Rightarrow> bool" where
  "udf_ok r \<longleftrightarrow> distinct (map fst r) \<and> (\<forall>(slug, specs) \<in> set r. distinct (map u_Name specs) \<and> (\<forall>s \<in> set specs. u_Name s \<noteq> [] \<and> u_Body s \<noteq> [] \<and> u_Kind s \<noteq> []))"

lemma udf_entries_ok: "udf_ok r \<Longrightarrow> distinct (map u_Name (udf_entries r slug)) \<and> (\<forall>s \<in> set (udf_entries r slug). u_Name s \<noteq> [] \<and> u_Body s \<noteq> [] \<and> u_Kind s \<noteq> [])"
  by (auto simp: udf_ok_def udf_entries_def split: option.splits dest!: map_of_SomeD)

lemma udf_entries_Delete: "udf_entries (snd (udf_Delete name r)) slug = filter (\<lambda>s. u_Name s \<noteq> name) (udf_entries r slug)"
  by (induction r) (auto simp: udf_entries_def udf_Delete_def)

lemma udf_Delete_ok: "udf_ok r \<Longrightarrow> udf_ok (snd (udf_Delete name r))"
  by (auto simp: udf_ok_def udf_Delete_def comp_def case_prod_unfold distinct_map_filter)

lemma set_AList_update: "(k, v) \<in> set (AList.update a x r) \<Longrightarrow> v = x \<or> (k, v) \<in> set r"
  by (induction r) (auto split: if_splits)

lemma udf_Register_ok:
  assumes "udf_ok r" "udf_Register now slug spec r = (res, r')"
  shows "udf_ok r'"
proof (cases "r' = r")
  case False
  obtain spec2 where s: "r' = AList.update slug (udf_entries r slug @ [spec2]) r" "u_Name spec2 \<noteq> []" "u_Body spec2 \<noteq> []" "u_Kind spec2 \<noteq> []"
      "\<forall>e \<in> set (udf_entries r slug). u_Name e \<noteq> u_Name spec2"
    using assms(2) False by (auto simp: udf_Register_def Let_def split: if_splits)
  have "(k, v) \<in> set r' \<Longrightarrow> v = udf_entries r slug @ [spec2] \<or> (k, v) \<in> set r" for k v
    unfolding s(1) by (rule set_AList_update)
  moreover have "distinct (map fst r')" unfolding s(1) using assms(1) by (simp add: udf_ok_def distinct_update)
  ultimately show ?thesis
    using assms(1) s udf_entries_ok [OF assms(1), of slug] by (fastforce simp: udf_ok_def)
qed (use assms in simp)

section \<open>Properties\<close>

definition example_duck :: duckdb where
  "example_duck = \<lparr>duck_Open = (\<lambda>_. None), duck_Exec = (\<lambda>_ _ _. None),
     duck_Query = (\<lambda>_ _ _ _. Ok \<lparr>r_Columns = Ok [''a''], r_ColumnTypes = Ok [''INTEGER''], r_Rows = [Ok [VInt32 1], Ok [VNil]], r_Err = None\<rparr>),
     redis_ok = (\<lambda>_. True)\<rparr>"

definition example_pool_config :: pool_config where
  "example_pool_config = \<lparr>RedisURL = [], IcebergCatalogURL = ''http://c'', S3Endpoint = ''http://s3'', AWSAccessKey = ''k'',
     AWSSecretKey = ''s'', AWSRegion = ''r''\<rparr>"

text \<open>
  C26: the life of the DuckDB workers. Whatever sequence of queries, snapshot messages and closes a pool
  goes through, and whichever statements fail: the open handles are exactly those of the registered
  workers, so a worker that fails to start leaks nothing; two customers never share a worker; a customer
  keeps the same worker from one call to the next; and a closed pool has no open handle and refuses to
  start one.
\<close>

theorem pool_lifecycle:
  assumes "(pool_step D)\<^sup>*\<^sup>* (NewPool D cfg) p"
  shows "mset (p_open p) = mset (map (wk_db \<circ> snd) (p_workers p)) \<and> distinct (p_open p) \<and>
     (\<forall>s1 s2 w1 w2. s1 \<noteq> s2 \<longrightarrow> map_of (p_workers p) s1 = Some w1 \<longrightarrow> map_of (p_workers p) s2 = Some w2 \<longrightarrow> wk_db w1 \<noteq> wk_db w2) \<and>
     (\<forall>slug w q. workerFor D slug p = (Ok w, q) \<longrightarrow> workerFor D slug q = (Ok w, q)) \<and>
     p_open (pool_Close p) = [] \<and> (\<forall>slug. workerFor D slug (pool_Close p) = (Err (Errorf ''pool closed''), pool_Close p))"
proof -
  have ok: "pool_ok p" using assms by (rule pool_reachable_ok)
  have "p_closed (fold close_worker ws q) = p_closed q" for ws q
    by (induction ws arbitrary: q) (simp_all add: close_worker_def close_handle_def)
  then have "workerFor D slug (pool_Close p) = (Err (Errorf ''pool closed''), pool_Close p)" for slug
    by (simp add: workerFor_def pool_Close_def)
  then show ?thesis
    using ok pool_Close_ok [OF ok] workerFor_again distinct_workers [OF ok] by (auto simp: pool_ok_def)
qed

theorem pool_lifecycle_witness:
  "p_open (pool_Close (snd (workerFor example_duck ''acme'' (NewPool example_duck example_pool_config)))) = [] \<and>
   p_open (snd (workerFor example_duck ''acme'' (NewPool example_duck example_pool_config))) = [0]"
proof -
  have "(pool_step example_duck)\<^sup>*\<^sup>* (NewPool example_duck example_pool_config)
      (snd (workerFor example_duck ''acme'' (NewPool example_duck example_pool_config)))"
    by (intro r_into_rtranclp pool_step.worker)
  from pool_lifecycle [OF this]
  have "p_open (pool_Close (snd (workerFor example_duck ''acme'' (NewPool example_duck example_pool_config)))) = []" by blast
  moreover have "p_open (snd (workerFor example_duck ''acme'' (NewPool example_duck example_pool_config))) = [0]" by code_simp
  ultimately show ?thesis by blast
qed

text \<open>
  The workbench sees the truth about its query. When \<open>ExecuteRows\<close> returns no error, the reported row
  count is the number of all rows of the result, the reported bytes are the sizes of all their encoded
  cells, and the rows shown are the first thousand; with an error while scanning, the figures are those of
  the rows before it.
\<close>

theorem ExecuteRows_counts:
  assumes "workerFor D slug p = (Ok wk, p1)"
    and "duck_Query D (p_exec p1) (wk_db wk) (WithTimeout c 30) query = Ok rs" and "r_Columns rs = Ok cols"
    and "Panic \<notin> set (r_Rows rs)"
  shows "\<exists>r vss. ExecuteRows D cd c slug query p = (Ok r, p1) \<and> rr_cols r = cols \<and>
     rr_rowCount r = length vss \<and> rr_rows r = take 1000 (map (map (cell cd)) vss) \<and>
     rr_bytesScanned r = (\<Sum>vs\<leftarrow>vss. \<Sum>v\<leftarrow>vs. length (cell cd v)) \<and>
     (r_Rows rs = map Ok vss \<and> rr_err r = r_Err rs \<or> (\<exists>e rest. r_Rows rs = map Ok vss @ Err e # rest \<and> rr_err r = Some e))"
proof -
  let ?r0 = "\<lparr>rr_cols = cols, rr_rows = [], rr_rowCount = 0, rr_bytesScanned = 0, rr_err = None\<rparr>"
  have tot: "\<exists>r. collect_rows cd rows r0 = Ok r" if "Panic \<notin> set rows" for rows r0
    using that by (induction rows arbitrary: r0) (auto split: go.splits)
  obtain r1 where r1: "collect_rows cd (r_Rows rs) ?r0 = Ok r1" using tot [OF assms(4)] by blast
  from collect_rows_ok [OF r1, of "[]"] obtain vss where
    v: "rr_rows r1 = take maxDisplayRows (map (map (cell cd)) vss)" "rr_rowCount r1 = length vss"
      "rr_bytesScanned r1 = (\<Sum>rec\<leftarrow>map (map (cell cd)) vss. sum_list (map length rec))" "rr_cols r1 = cols"
      "if rr_err r1 = None then r_Rows rs = map Ok vss else \<exists>e rest. r_Rows rs = map Ok vss @ Err e # rest \<and> rr_err r1 = Some e"
    by auto
  have b: "rr_bytesScanned r1 = (\<Sum>vs\<leftarrow>vss. \<Sum>v\<leftarrow>vs. length (cell cd v))" using v(3) by (simp add: comp_def)
  show ?thesis
    using assms r1 v b by (intro exI [of _ "if rr_err r1 = None then r1\<lparr>rr_err := r_Err rs\<rparr> else r1"] exI [of _ vss])
      (auto simp: ExecuteRows_def maxDisplayRows_def)
qed

theorem ExecuteRows_counts_witness:
  "\<exists>r. fst (ExecuteRows example_duck example_codec Background ''acme'' ''SELECT a FROM t'' (NewPool example_duck example_pool_config)) = Ok r \<and>
     rr_rowCount r = 2 \<and> rr_bytesScanned r = 1"
proof -
  obtain wk p1 where w: "workerFor example_duck ''acme'' (NewPool example_duck example_pool_config) = (Ok wk, p1)"
  proof -
    have "fst (workerFor example_duck ''acme'' (NewPool example_duck example_pool_config)) = Ok \<lparr>wk_db = 0, wk_subDone = False\<rparr>" by code_simp
    then show ?thesis using that by (metis prod.collapse)
  qed
  have q: "duck_Query example_duck (p_exec p1) (wk_db wk) (WithTimeout Background 30) ''SELECT a FROM t'' =
     Ok \<lparr>r_Columns = Ok [''a''], r_ColumnTypes = Ok [''INTEGER''], r_Rows = [Ok [VInt32 1], Ok [VNil]], r_Err = None\<rparr>"
    by (simp add: example_duck_def)
  from ExecuteRows_counts [OF w q, of "[''a'']" example_codec] obtain r where
    r: "ExecuteRows example_duck example_codec Background ''acme'' ''SELECT a FROM t'' (NewPool example_duck example_pool_config) = (Ok r, p1)"
      "rr_rowCount r = 2" "rr_bytesScanned r = length (cell example_codec (VInt32 1)) + length (cell example_codec VNil)"
    by (auto simp: Cons_eq_append_conv)
  moreover have "length (cell example_codec (VInt32 1)) = 1" "length (cell example_codec VNil) = 0" by code_simp+
  ultimately show ?thesis using r by simp
qed

text \<open>
  The UDF registry keeps names unique within a customer and its entries complete. Registering and
  deleting preserve that; a registration that succeeds appends exactly one entry, under the given name and
  body, to that customer's list and leaves the others alone; a deletion removes the name from every
  customer's list, not only the caller's.
\<close>

theorem udf_registry_correct:
  assumes "udf_ok r" and "udf_Register now slug spec r = (res, r')"
  shows "udf_ok r' \<and> udf_ok (snd (udf_Delete name r)) \<and>
     (res = Ok () \<longrightarrow> (\<exists>s. udf_List slug r' = udf_List slug r @ [s] \<and> u_Name s = u_Name spec \<and> u_Body s = u_Body spec)) \<and>
     (\<forall>other. other \<noteq> slug \<longrightarrow> udf_List other r' = udf_List other r) \<and>
     (res \<noteq> Ok () \<longrightarrow> r' = r) \<and>
     (\<forall>other. udf_List other (snd (udf_Delete name r)) = filter (\<lambda>s. u_Name s \<noteq> name) (udf_List other r))"
proof -
  have "res = Ok () \<longrightarrow> (\<exists>s. udf_List slug r' = udf_List slug r @ [s] \<and> u_Name s = u_Name spec \<and> u_Body s = u_Body spec)"
    "\<forall>other. other \<noteq> slug \<longrightarrow> udf_List other r' = udf_List other r" "res \<noteq> Ok () \<longrightarrow> r' = r"
    using assms(2) by (auto simp: udf_Register_def Let_def udf_List_def udf_entries_def update_conv split: if_splits)
  then show ?thesis
    using udf_Register_ok [OF assms] udf_Delete_ok [OF assms(1)] by (simp add: udf_List_def udf_entries_Delete)
qed

theorem udf_registry_correct_witness:
  "udf_ok (snd (udf_Register 9 ''acme'' \<lparr>u_Name = ''f'', u_Kind = [], u_Body = ''x + 1'', u_CreatedAt = zero_time\<rparr> [])) \<and>
   udf_List ''acme'' (snd (udf_Register 9 ''acme'' \<lparr>u_Name = ''f'', u_Kind = [], u_Body = ''x + 1'', u_CreatedAt = zero_time\<rparr> [])) =
     [\<lparr>u_Name = ''f'', u_Kind = ''macro'', u_Body = ''x + 1'', u_CreatedAt = 9\<rparr>]"
proof -
  let ?s = "\<lparr>u_Name = ''f'', u_Kind = [], u_Body = ''x + 1'', u_CreatedAt = zero_time\<rparr>"
  have o: "udf_ok []" by (simp add: udf_ok_def)
  obtain res r' where r: "udf_Register 9 ''acme'' ?s [] = (res, r')" by force
  have "udf_List ''acme'' (snd (udf_Register 9 ''acme'' ?s [])) = [\<lparr>u_Name = ''f'', u_Kind = ''macro'', u_Body = ''x + 1'', u_CreatedAt = 9\<rparr>]"
    by code_simp
  with udf_registry_correct [OF o r] r show ?thesis by simp
qed

end
