(* ===== verification/Pg_Ast.thy ===== *)
theory Pg_Ast
  imports Go_Prelude
begin

text \<open>
  The parse tree of \<^verbatim>\<open>pg_query_go\<close> as the modelled code reads it. The parser is a
  third-party package: \<^verbatim>\<open>pg_query.Parse\<close> and \<^verbatim>\<open>pg_query.Deparse\<close> are parameters of
  every definition that calls them. A generated accessor \<^verbatim>\<open>GetX()\<close> returns nil unless the
  node is an \<^verbatim>\<open>X\<close>, which is a case distinction on the datatype; \<open>Other_node\<close> is every
  node kind the code does not look into, and a nil pointer is \<open>None\<close>.
\<close>

datatype range_var =
  Range_Var (rv_Schemaname: string) (rv_Relname: string) (rv_Alias: "string option")

datatype node =
    Range_var_node range_var
  | Select_node select_stmt
  | Join_node "node option" "node option"
  | Range_subselect_node "string option" "node option"
  | Cte_node string "node option"
  | Res_target_node string "node option"
  | Column_ref_node "node list"
  | A_star_node
  | String_node string
  | A_expr_node "node option" "node option"
  | Func_call_node "node list"
  | Coalesce_node "node list"
  | Bool_expr_node "node list"
  | Case_node "node option" "node list" "node option"
  | Case_when_node "node option" "node option"
  | Type_cast_node "node option"
  | List_node "node list"
  | Sub_link_node "node option"
  | Insert_node range_var "node option"
  | Update_node range_var "node list"
  | Create_table_as_node "range_var option" "node option"
  | View_node "range_var option" "node option"
  | Merge_node "range_var option" "node option"
  | Alter_table_node string "node list"
  | Alter_table_cmd_node bool string
  | Drop_node bool "node list"
  | Other_node
and select_stmt =
  Select_stmt (sel_TargetList: "node list") (sel_FromClause: "node list")
    (sel_WhereClause: "node option") (sel_Ctes: "node list")
    (sel_Larg: "select_stmt option") (sel_Rarg: "select_stmt option")

text \<open>
  In \<open>Alter_table_cmd_node\<close> the flag says that the subtype is
  \<^verbatim>\<open>AT_DropColumn\<close>; in \<open>Drop_node\<close>, that the removed objects are tables; an absent
  WITH clause is an empty list of CTEs.
\<close>

type_synonym parser = "string \<Rightarrow> node option list go"

end
