(* ===== verification/Sql_Router.thy ===== *)
theory Sql_Router
  imports Pg_Ast Control_Store
begin

text \<open>
  The query router, \<^verbatim>\<open>internal/router\<close>: \<open>Classify\<close> (classifier.go), \<open>ExtractTables\<close> with
  its keyword scrape and its parse-tree fallback (table_extractor.go), \<open>IsFresh\<close> (freshness.go) and
  \<open>Decide\<close> (decision.go).

  Times are nanoseconds. \<open>Decide\<close> returns, beside the decision, the list of targets it counted in
  the metric \<^verbatim>\<open>uv_route_decision_total\<close>.
\<close>

section \<open>Classification\<close>

datatype query_class = ClassUnknown | ClassSelect | ClassDDL | ClassDML | ClassUtility | ClassAIGenerate

fun class_String :: "query_class \<Rightarrow> string" where
  "class_String ClassSelect = ''select''"
| "class_String ClassDDL = ''ddl''"
| "class_String ClassDML = ''dml''"
| "class_String ClassUtility = ''utility''"
| "class_String ClassAIGenerate = ''ai_generate''"
| "class_String ClassUnknown = ''unknown''"

lemma length_TrimSpace_le: "length (TrimSpace s) \<le> length s"
proof -
  have "length (dropWhile is_space (rev (dropWhile is_space s))) \<le> length (dropWhile is_space s)"
    using length_dropWhile_le [of is_space "rev (dropWhile is_space s)"] by simp
  also have "\<dots> \<le> length s" by (rule length_dropWhile_le)
  finally show ?thesis by (simp add: TrimSpace_def)
qed

text \<open>The loop that strips leading comments; \<open>None\<close> where the loop returns \<open>ClassUnknown\<close>.\<close>

function strip_comments :: "string \<Rightarrow> string option" where
  "strip_comments s =
     (if HasPrefix s ''--'' then
        (case IndexByte s (CHR 0x0A) of
           Some i \<Rightarrow> strip_comments (TrimSpace (drop (i + 1) s))
         | None \<Rightarrow> None)
      else if HasPrefix s ''/*'' then
        (case Index s ''*/'' of
           Some i \<Rightarrow> strip_comments (TrimSpace (drop (i + 2) s))
         | None \<Rightarrow> None)
      else Some s)"
  by pat_completeness auto
termination
proof (relation "measure length")
  fix s :: string and i
  assume "HasPrefix s ''--''"
  then have "s \<noteq> []" by (auto simp: HasPrefix_def)
  then show "(TrimSpace (drop (i + 1) s), s) \<in> measure length"
    using length_TrimSpace_le [of "drop (i + 1) s"] by (simp add: le_less_trans)
next
  fix s :: string and i
  assume "HasPrefix s ''/*''"
  then have "s \<noteq> []" by (auto simp: HasPrefix_def)
  then show "(TrimSpace (drop (i + 2) s), s) \<in> measure length"
    using length_TrimSpace_le [of "drop (i + 2) s"] by (simp add: le_less_trans)
qed simp

declare strip_comments.simps [simp del]

definition class_of_word :: "string \<Rightarrow> query_class" where
  "class_of_word first =
     (if first \<in> set [''SELECT'', ''WITH'', ''TABLE'', ''VALUES''] then ClassSelect
      else if first \<in> set [''INSERT'', ''UPDATE'', ''DELETE'', ''MERGE'', ''TRUNCATE''] then ClassDML
      else if first \<in> set [''CREATE'', ''DROP'', ''ALTER'', ''GRANT'', ''REVOKE'', ''COMMENT''] then ClassDDL
      else if first \<in> set [''SET'', ''SHOW'', ''BEGIN'', ''COMMIT'', ''ROLLBACK'', ''RESET'', ''DISCARD'',
                           ''DECLARE'', ''FETCH'', ''MOVE'', ''CLOSE'', ''PREPARE'', ''DEALLOCATE'', ''EXPLAIN'']
           then ClassUtility
      else ClassUnknown)"

definition Classify :: "string \<Rightarrow> query_class go" where
  "Classify sql =
     (let s = TrimSpace sql in
      if s = [] then Ok ClassUnknown
      else (case strip_comments s of
              None \<Rightarrow> Ok ClassUnknown
            | Some s' \<Rightarrow>
                (let upper = ToUpper s' in
                 if Contains upper ''AI_GENERATE('' then Ok ClassAIGenerate
                 else (case Fields upper of
                         [] \<Rightarrow> Panic
                       | first # _ \<Rightarrow> Ok (class_of_word first)))))"

section \<open>Table references\<close>

record table_ref =
  Schema :: string
  Table :: string

fun dedupe_from :: "table_ref list \<Rightarrow> table_ref list \<Rightarrow> table_ref list" where
  "dedupe_from seen [] = []"
| "dedupe_from seen (t # ts) = (if t \<in> set seen then dedupe_from seen ts else t # dedupe_from (t # seen) ts)"

definition dedupeTables :: "table_ref list \<Rightarrow> table_ref list" where
  "dedupeTables xs = dedupe_from [] xs"

text \<open>The descent through the parse tree, collecting every \<^verbatim>\<open>RangeVar\<close>.\<close>

fun walkProto :: "node \<Rightarrow> table_ref list"
and walkSelect :: "select_stmt \<Rightarrow> table_ref list" where
  "walkProto (Range_var_node rv) =
     (if rv_Relname rv \<noteq> [] then [\<lparr>Schema = rv_Schemaname rv, Table = rv_Relname rv\<rparr>] else [])"
| "walkProto (Select_node sel) = walkSelect sel"
| "walkProto (Join_node l r) =
     (case l of None \<Rightarrow> [] | Some n \<Rightarrow> walkProto n) @ (case r of None \<Rightarrow> [] | Some n \<Rightarrow> walkProto n)"
| "walkProto (Range_subselect_node _ q) = (case q of None \<Rightarrow> [] | Some n \<Rightarrow> walkProto n)"
| "walkProto (Cte_node _ q) = (case q of None \<Rightarrow> [] | Some n \<Rightarrow> walkProto n)"
| "walkProto _ = []"
| "walkSelect (Select_stmt targets froms whr ctes larg rarg) =
     concat (map walkProto froms) @
     (case whr of None \<Rightarrow> [] | Some n \<Rightarrow> walkProto n) @
     concat (map walkProto ctes) @
     (case larg of None \<Rightarrow> [] | Some s \<Rightarrow> walkSelect s) @
     (case rarg of None \<Rightarrow> [] | Some s \<Rightarrow> walkSelect s)"

definition walk_opt :: "node option \<Rightarrow> table_ref list" where
  "walk_opt n = (case n of None \<Rightarrow> [] | Some x \<Rightarrow> walkProto x)"

definition extractViaAST :: "parser \<Rightarrow> string \<Rightarrow> table_ref list go" where
  "extractViaAST parse sql = bind_go (parse sql) (\<lambda>stmts. Ok (dedupeTables (concat (map walk_opt stmts))))"

fun indexAnyDelim :: "string \<Rightarrow> nat" where
  "indexAnyDelim [] = 0"
| "indexAnyDelim (c # cs) =
     (if c \<in> set [CHR '' '', CHR 0x09, CHR 0x0A, CHR 0x0D, CHR '','', CHR '')'', CHR '';'', CHR ''('']
      then 0 else Suc (indexAnyDelim cs))"

definition maxScrapeIterations :: nat where
  "maxScrapeIterations = 4096"

definition scrape_ident :: "string \<Rightarrow> nat \<Rightarrow> string" where
  "scrape_ident sql pos =
     (let rest = TrimLeft (drop pos sql) [CHR '' '', CHR 0x09, CHR 0x0A, CHR 0x0D, CHR ''('']
      in Trim (take (indexAnyDelim rest) rest) [CHR 0x22, CHR 0x60, CHR 0x27])"

definition ref_of_ident :: "string \<Rightarrow> table_ref" where
  "ref_of_ident ident =
     (case Split ident (CHR ''.'') of
        [a, b] \<Rightarrow> \<lparr>Schema = a, Table = b\<rparr>
      | [_, b, c] \<Rightarrow> \<lparr>Schema = b, Table = c\<rparr>
      | _ \<Rightarrow> \<lparr>Schema = [], Table = ident\<rparr>)"

text \<open>
  The inner loop for one keyword. \<open>Inl\<close> is the early return at the iteration cap. A slice
  \<^verbatim>\<open>upper[idx:]\<close> or \<^verbatim>\<open>sql[pos:]\<close> beyond the end panics.
\<close>

function scrape_kw ::
  "string \<Rightarrow> string \<Rightarrow> string \<Rightarrow> nat \<Rightarrow> nat \<Rightarrow> table_ref list \<Rightarrow> (table_ref list + table_ref list \<times> nat) go" where
  "scrape_kw upper sql kw idx iter out =
     (if maxScrapeIterations \<le> iter then Ok (Inl out)
      else if length upper < idx then Panic
      else (case Index (drop idx upper) kw of
              None \<Rightarrow> Ok (Inr (out, iter + 1))
            | Some i \<Rightarrow>
                (let pos = idx + i + length kw in
                 if length sql < pos then Panic
                 else (let ident = scrape_ident sql pos in
                       if ident = [] then scrape_kw upper sql kw pos (iter + 1) out
                       else scrape_kw upper sql kw (pos + length ident) (iter + 1) (out @ [ref_of_ident ident])))))"
  by pat_completeness auto
termination
  by (relation "measure (\<lambda>(_, _, _, _, iter, _). maxScrapeIterations - iter)") auto

declare scrape_kw.simps [simp del]

fun scrape_all :: "string \<Rightarrow> string \<Rightarrow> string list \<Rightarrow> nat \<Rightarrow> table_ref list \<Rightarrow> table_ref list go" where
  "scrape_all upper sql [] iter out = Ok (dedupeTables out)"
| "scrape_all upper sql (kw # kws) iter out =
     (case scrape_kw upper sql kw 0 iter out of
        Ok (Inl o1) \<Rightarrow> Ok (dedupeTables o1)
      | Ok (Inr (o1, iter1)) \<Rightarrow> scrape_all upper sql kws iter1 o1
      | Err e \<Rightarrow> Err e
      | Panic \<Rightarrow> Panic)"

definition scrape_keywords :: "string list" where
  "scrape_keywords = ['' FROM '', '' JOIN '', '' INTO '', '' UPDATE '', '' TABLE '']"

definition extractViaScrape :: "string \<Rightarrow> table_ref list go" where
  "extractViaScrape sql = scrape_all (ToUpper sql) sql scrape_keywords 0 []"

definition ExtractTables :: "parser \<Rightarrow> string \<Rightarrow> table_ref list go" where
  "ExtractTables parse sql =
     bind_go (extractViaScrape sql) (\<lambda>refs.
       if refs \<noteq> [] then Ok refs
       else (case extractViaAST parse sql of Ok r \<Rightarrow> Ok r | Err _ \<Rightarrow> Ok [] | Panic \<Rightarrow> Panic))"

section \<open>Freshness\<close>

definition FreshnessThreshold :: int where
  "FreshnessThreshold = 5 * 60 * 1000000000"

definition IsFresh :: "int \<Rightarrow> int option \<Rightarrow> bool" where
  "IsFresh now lastSyncAt = (case lastSyncAt of None \<Rightarrow> False | Some t \<Rightarrow> now - t \<le> FreshnessThreshold)"

section \<open>The decision\<close>

datatype target = TargetDuckDB | TargetWarehouse | TargetUnknown

record decision =
  d_Target :: target
  d_Class :: query_class
  d_Tables :: "table_ref list"
  d_Reason :: string

type_synonym sync_lookup = "uuid \<Rightarrow> string \<Rightarrow> string \<Rightarrow> string \<Rightarrow> synced_table go"

text \<open>The loop over the referenced tables: the reason of the first one that rules DuckDB out.\<close>

fun blocking_reason :: "sync_lookup \<Rightarrow> uuid \<Rightarrow> string \<Rightarrow> int \<Rightarrow> table_ref list \<Rightarrow> string option go" where
  "blocking_reason lookup cid wh now [] = Ok None"
| "blocking_reason lookup cid wh now (t # ts) =
     (case lookup cid wh (Schema t) (Table t) of
        Err e \<Rightarrow> Ok (Some (if is_not_found e then ''not synced: '' @ Schema t @ ''.'' @ Table t
                           else ''lookup error: '' @ Error e))
      | Panic \<Rightarrow> Panic
      | Ok st \<Rightarrow>
          if t_State st \<noteq> ''live'' then Ok (Some (''table state='' @ t_State st))
          else if \<not> IsFresh now (t_LastSyncAt st) then Ok (Some (''stale: '' @ Schema t @ ''.'' @ Table t))
          else blocking_reason lookup cid wh now ts)"

definition Decide ::
  "parser \<Rightarrow> sync_lookup \<Rightarrow> int \<Rightarrow> uuid \<Rightarrow> string \<Rightarrow> string \<Rightarrow> (decision \<times> target list) go" where
  "Decide parse lookup now customerID warehouseType sql =
     bind_go (Classify sql) (\<lambda>class.
       if class \<noteq> ClassSelect then
         Ok (\<lparr>d_Target = TargetWarehouse, d_Class = class, d_Tables = [], d_Reason = ''class='' @ class_String class\<rparr>,
             [TargetWarehouse])
       else bind_go (ExtractTables parse sql) (\<lambda>tables.
         if tables = [] then
           Ok (\<lparr>d_Target = TargetWarehouse, d_Class = class, d_Tables = [], d_Reason = ''no tables extracted''\<rparr>, [])
         else bind_go (blocking_reason lookup customerID warehouseType now tables) (\<lambda>blocked.
           (case blocked of
              Some reason \<Rightarrow>
                Ok (\<lparr>d_Target = TargetWarehouse, d_Class = class, d_Tables = tables, d_Reason = reason\<rparr>, [])
            | None \<Rightarrow>
                Ok (\<lparr>d_Target = TargetDuckDB, d_Class = class, d_Tables = tables,
                     d_Reason = ''all tables synced+fresh''\<rparr>, [TargetDuckDB])))))"

section \<open>Lemmas\<close>

lemma bind_go_eq: "bind_go m f = (case m of Ok x \<Rightarrow> f x | Err e \<Rightarrow> Err e | Panic \<Rightarrow> Panic)"
  by (cases m) simp_all

lemma Fields_eq_Nil: "Fields s = [] \<longleftrightarrow> TrimSpace s = []"
proof -
  have "Fields s = [] \<longleftrightarrow> dropWhile is_space s = []"
    by (subst Fields.simps) (simp add: Let_def)
  then show ?thesis by (simp add: TrimSpace_eq_Nil list_all_iff dropWhile_eq_Nil_conv)
qed

lemma is_space_upper: "is_space (upper_char c) \<longleftrightarrow> is_space c"
proof (cases "97 \<le> (of_char c :: nat) \<and> (of_char c :: nat) \<le> 122")
  case True
  then have n: "(of_char (upper_char c) :: nat) = of_char c - 32"
    by (auto simp: upper_char_def Let_def mod_less)
  have "\<not> is_space c" using True by (auto simp: is_space_def)
  moreover have "\<not> is_space (upper_char c)" using True n by (auto simp: is_space_def)
  ultimately show ?thesis by simp
next
  case False
  then show ?thesis by (auto simp: upper_char_def Let_def)
qed

lemma ToUpper_eq_Nil [simp]: "ToUpper s = [] \<longleftrightarrow> s = []"
  by (simp add: ToUpper_def)

lemma TrimSpace_ToUpper_Nil: "TrimSpace (ToUpper s) = [] \<longleftrightarrow> TrimSpace s = []"
  by (simp add: TrimSpace_eq_Nil ToUpper_def list_all_iff is_space_upper)

lemma strip_comments_trimmed:
  "TrimSpace s = s \<Longrightarrow> strip_comments s = Some s' \<Longrightarrow> TrimSpace s' = s'"
proof (induction s rule: strip_comments.induct)
  case (1 s)
  show ?case
    using 1 by (subst (asm) (3) strip_comments.simps) (auto split: if_splits option.splits)
qed

lemma Classify_Panic_iff:
  "Classify sql = Panic \<longleftrightarrow> TrimSpace sql \<noteq> [] \<and> strip_comments (TrimSpace sql) = Some []"
proof (cases "strip_comments (TrimSpace sql)")
  case None
  then show ?thesis by (simp add: Classify_def Let_def)
next
  case (Some s')
  then have t: "TrimSpace s' = s'" using strip_comments_trimmed [of "TrimSpace sql" s'] by simp
  have f: "Fields (ToUpper s') = [] \<longleftrightarrow> s' = []"
    by (simp add: Fields_eq_Nil TrimSpace_ToUpper_Nil t)
  have c: "\<not> Contains (ToUpper []) ''AI_GENERATE(''" by code_simp
  show ?thesis using Some f c
    by (auto simp: Classify_def Let_def split: list.splits if_splits)
qed

lemma Classify_not_Err [simp]: "Classify sql \<noteq> Err e"
  by (auto simp: Classify_def Let_def split: option.splits list.splits)

lemma block_comment_panics:
  assumes "Index (''/*'' @ c @ ''*/'') ''*/'' = Some (length c + 2)"
  shows "Classify (''/*'' @ c @ ''*/'') = Panic"
proof -
  let ?s = "''/*'' @ c @ ''*/''"
  have t: "TrimSpace ?s = ?s" by (simp add: TrimSpace_def is_space_def)
  have "strip_comments ?s = strip_comments (TrimSpace (drop (length c + 4) ?s))"
    using assms by (subst strip_comments.simps) (simp add: HasPrefix_def)
  also have "\<dots> = Some []"
    by (subst strip_comments.simps) (simp add: HasPrefix_def TrimSpace_def)
  finally show ?thesis unfolding Classify_Panic_iff t by simp
qed

lemma indexAnyDelim_le: "indexAnyDelim s \<le> length s"
  by (induction s) auto

lemma length_TrimLeft_le: "length (TrimLeft s cs) \<le> length s"
  by (simp add: TrimLeft_def length_dropWhile_le)
lemma length_TrimRight_le: "length (TrimRight s cs) \<le> length s"
  using length_dropWhile_le [of "\<lambda>c. c \<in> set cs" "rev s"] by (simp add: TrimRight_def)
lemma length_Trim_le: "length (Trim s cs) \<le> length s"
  using length_TrimRight_le [of "TrimLeft s cs" cs] length_TrimLeft_le [of s cs] by (simp add: Trim_def)

lemma length_scrape_ident: "length (scrape_ident sql pos) \<le> length sql - pos"
proof -
  let ?r = "TrimLeft (drop pos sql) [CHR '' '', CHR 0x09, CHR 0x0A, CHR 0x0D, CHR ''('']"
  have "length (scrape_ident sql pos) \<le> length (take (indexAnyDelim ?r) ?r)"
    by (simp only: scrape_ident_def Let_def length_Trim_le)
  also have "\<dots> \<le> length ?r" by simp
  also have "\<dots> \<le> length sql - pos" using length_TrimLeft_le [of "drop pos sql"] by simp
  finally show ?thesis .
qed

lemma scrape_kw_ok:
  assumes "length upper = length sql" and "idx \<le> length sql" and "length out \<le> iter" and "iter \<le> maxScrapeIterations"
  shows "(\<exists>o1. scrape_kw upper sql kw idx iter out = Ok (Inl o1) \<and> length o1 \<le> maxScrapeIterations) \<or>
     (\<exists>o1 it1. scrape_kw upper sql kw idx iter out = Ok (Inr (o1, it1)) \<and> length o1 \<le> it1 \<and> it1 \<le> maxScrapeIterations)"
  using assms
proof (induction upper sql kw idx iter out rule: scrape_kw.induct)
  case (1 upper sql kw idx iter out)
  show ?case
  proof (cases "maxScrapeIterations \<le> iter")
    case True
    then have "scrape_kw upper sql kw idx iter out = Ok (Inl out)"
      by (subst scrape_kw.simps) simp
    with "1.prems" show ?thesis by simp
  next
    case False
    show ?thesis
    proof (cases "Index (drop idx upper) kw")
      case None
      with False "1.prems" show ?thesis by (simp add: scrape_kw.simps [of upper sql kw idx iter out])
    next
      case (Some i)
      define pos where "pos = idx + i + length kw"
      have pos: "pos \<le> length sql"
        using Index_SomeD [OF Some] "1.prems" by (auto simp: pos_def)
      have li: "pos + length (scrape_ident sql pos) \<le> length sql"
        using length_scrape_ident [of sql pos] pos by simp
      show ?thesis
      proof (cases "scrape_ident sql pos = []")
        case True
        then have "scrape_kw upper sql kw idx iter out = scrape_kw upper sql kw pos (iter + 1) out"
          using False Some pos "1.prems" by (simp add: scrape_kw.simps [of upper sql kw idx iter out] Let_def flip: pos_def)
        with "1.IH"(1) [OF False _ Some, of pos "scrape_ident sql pos"] True pos False "1.prems" show ?thesis
          by (simp flip: pos_def)
      next
        case ne: False
        then have "scrape_kw upper sql kw idx iter out = scrape_kw upper sql kw (pos + length (scrape_ident sql pos)) (iter + 1) (out @ [ref_of_ident (scrape_ident sql pos)])"
          using False Some pos "1.prems" by (simp add: scrape_kw.simps [of upper sql kw idx iter out] Let_def flip: pos_def)
        with "1.IH"(2) [OF False _ Some, of pos "scrape_ident sql pos"] ne li pos False "1.prems" show ?thesis
          by (simp flip: pos_def)
      qed
    qed
  qed
qed

lemma dedupe_from_set: "set (dedupe_from seen xs) = set xs - set seen"
  by (induction seen xs rule: dedupe_from.induct) auto
lemma dedupe_from_distinct: "distinct (dedupe_from seen xs)"
  by (induction seen xs rule: dedupe_from.induct) (auto simp: dedupe_from_set)
lemma dedupe_from_length: "length (dedupe_from seen xs) \<le> length xs"
  by (induction seen xs rule: dedupe_from.induct) auto
lemma dedupeTables_props: "set (dedupeTables xs) = set xs" "distinct (dedupeTables xs)" "length (dedupeTables xs) \<le> length xs"
  by (simp_all add: dedupeTables_def dedupe_from_set dedupe_from_distinct dedupe_from_length)

lemma scrape_all_ok:
  assumes "length upper = length sql" "length out \<le> iter" "iter \<le> maxScrapeIterations"
  shows "\<exists>refs. scrape_all upper sql kws iter out = Ok refs \<and> distinct refs \<and> length refs \<le> maxScrapeIterations"
  using assms
proof (induction kws arbitrary: iter out)
  case Nil
  then show ?case using dedupeTables_props [of out] by simp
next
  case (Cons kw kws)
  from scrape_kw_ok [of upper sql 0 out iter kw] Cons.prems consider
    (a) o1 where "scrape_kw upper sql kw 0 iter out = Ok (Inl o1)" "length o1 \<le> maxScrapeIterations"
  | (b) o1 it1 where "scrape_kw upper sql kw 0 iter out = Ok (Inr (o1, it1))" "length o1 \<le> it1" "it1 \<le> maxScrapeIterations"
    by auto
  then show ?case
  proof cases
    case a
    then show ?thesis using dedupeTables_props [of o1] by simp
  next
    case b
    with Cons.IH [of o1 it1] Cons.prems show ?thesis by simp
  qed
qed

lemma extractViaScrape_ok:
  "\<exists>refs. extractViaScrape sql = Ok refs \<and> distinct refs \<and> length refs \<le> 4096"
  using scrape_all_ok [of "ToUpper sql" sql "[]" 0 scrape_keywords]
  by (simp add: extractViaScrape_def maxScrapeIterations_def)


lemma IsFresh_iff: "IsFresh now la \<longleftrightarrow> (\<exists>t. la = Some t \<and> now - t \<le> FreshnessThreshold)"
  by (cases la) (auto simp: IsFresh_def)

lemma blocking_reason_None:
  "blocking_reason lookup cid wh now ts = Ok None \<longleftrightarrow>
    (\<forall>t \<in> set ts. \<exists>st. lookup cid wh (Schema t) (Table t) = Ok st \<and> t_State st = ''live'' \<and> IsFresh now (t_LastSyncAt st))"
  by (induction ts) (auto split: go.splits)

lemma Decide_DuckDB:
  "Decide parse lookup now cid wh sql = Ok (dec, m) \<Longrightarrow> d_Target dec = TargetDuckDB \<longleftrightarrow>
     Classify sql = Ok ClassSelect \<and> ExtractTables parse sql = Ok (d_Tables dec) \<and> d_Tables dec \<noteq> [] \<and>
     blocking_reason lookup cid wh now (d_Tables dec) = Ok None"
  by (cases "Classify sql"; cases "ExtractTables parse sql"; cases "blocking_reason lookup cid wh now (d_Tables dec)")
     (auto simp: Decide_def bind_go_eq split: go.splits option.splits if_splits)

section \<open>The catalog the router relies on\<close>

text \<open>
  \<open>Decide\<close> asks the control store for the sync state of each table. What it needs of the lookup: a row
  it returns carries the names asked for and belongs to a connection of the customer and warehouse asked
  for.
\<close>

locale sync_catalog =
  fixes lookup :: sync_lookup
    and owned :: "uuid \<Rightarrow> string \<Rightarrow> synced_table \<Rightarrow> bool"
  assumes lookup_owned: "lookup cid wh s t = Ok st \<Longrightarrow> owned cid wh st"
    and lookup_names: "lookup cid wh s t = Ok st \<Longrightarrow> t_SchemaName st = s \<and> t_TableName st = t"
    and lookup_no_panic: "lookup cid wh s t \<noteq> Panic"
begin

definition servable :: "uuid \<Rightarrow> string \<Rightarrow> int \<Rightarrow> table_ref \<Rightarrow> bool" where
  "servable cid wh now r \<longleftrightarrow> (\<exists>st. lookup cid wh (Schema r) (Table r) = Ok st \<and> owned cid wh st \<and>
     t_SchemaName st = Schema r \<and> t_TableName st = Table r \<and> t_State st = ''live'' \<and> IsFresh now (t_LastSyncAt st))"

lemma not_blocked_iff_servable:
  "blocking_reason lookup cid wh now ts = Ok None \<longleftrightarrow> (\<forall>r \<in> set ts. servable cid wh now r)"
  using lookup_owned lookup_names by (fastforce simp: blocking_reason_None servable_def)

lemma blocking_reason_total: "\<exists>b. blocking_reason lookup cid wh now ts = Ok b"
  by (induction ts) (auto split: go.splits simp: lookup_no_panic)

lemma decide_duckdb_iff:
  assumes "Decide parse lookup now cid wh sql = Ok (dec, m)"
  shows "d_Target dec = TargetDuckDB \<longleftrightarrow>
     Classify sql = Ok ClassSelect \<and> ExtractTables parse sql = Ok (d_Tables dec) \<and> d_Tables dec \<noteq> [] \<and>
     (\<forall>r \<in> set (d_Tables dec). servable cid wh now r)"
  using Decide_DuckDB [OF assms] by (simp add: not_blocked_iff_servable)

lemma decide_total:
  assumes "Classify sql = Ok c" and "ExtractTables parse sql = Ok ts"
  shows "\<exists>dec m. Decide parse lookup now cid wh sql = Ok (dec, m)"
proof -
  obtain b where "blocking_reason lookup cid wh now ts = Ok b" using blocking_reason_total by blast
  with assms show ?thesis by (cases b) (auto simp: Decide_def)
qed

end

definition owns_table :: "db \<Rightarrow> uuid \<Rightarrow> string \<Rightarrow> synced_table \<Rightarrow> bool" where
  "owns_table d cid wh st \<longleftrightarrow> st \<in> set (synced_tables d) \<and>
     (\<exists>c \<in> set (connections d). cn_ID c = t_ConnectionID st \<and> cn_CustomerID c = cid \<and> cn_WarehouseType c = wh)"

definition store_lookup :: "db \<Rightarrow> sync_lookup" where
  "store_lookup d cid wh s t = LookupSyncedTable cid wh s t d"

interpretation store_catalog: sync_catalog "store_lookup d" "owns_table d" for d
  by unfold_locales
    (auto simp: store_lookup_def LookupSyncedTable_def owns_table_def find_Some_iff split: option.splits dest: nth_mem)

lemma ExtractTables_ok:
  assumes "parse sql \<noteq> Panic"
  shows "\<exists>refs. ExtractTables parse sql = Ok refs \<and> distinct refs"
proof -
  obtain refs where r: "extractViaScrape sql = Ok refs" "distinct refs" using extractViaScrape_ok by blast
  show ?thesis
  proof (cases "refs = []")
    case True
    with r assms show ?thesis
      by (cases "parse sql") (auto simp: ExtractTables_def extractViaAST_def dedupeTables_props)
  qed (use r in \<open>auto simp: ExtractTables_def\<close>)
qed

section \<open>Properties\<close>

text \<open>
  C13: the routing decision on the control store. \<open>Decide\<close> sends a statement to DuckDB exactly when it is
  classified as a SELECT, some table was extracted, and every extracted table has a row in the store
  under that name, of a connection of this customer and this warehouse, that is live and was synced
  within the freshness threshold. So another customer's or another warehouse's synced copy is never used.
\<close>

theorem Decide_serves_own_fresh_tables:
  assumes "Decide parse (store_lookup d) now cid wh sql = Ok (dec, counted)"
  shows "d_Target dec = TargetDuckDB \<longleftrightarrow>
     Classify sql = Ok ClassSelect \<and> ExtractTables parse sql = Ok (d_Tables dec) \<and> d_Tables dec \<noteq> [] \<and>
     (\<forall>r \<in> set (d_Tables dec). \<exists>st. LookupSyncedTable cid wh (Schema r) (Table r) d = Ok st \<and>
        owns_table d cid wh st \<and> t_SchemaName st = Schema r \<and> t_TableName st = Table r \<and>
        t_State st = ''live'' \<and> (\<exists>t. t_LastSyncAt st = Some t \<and> now - t \<le> FreshnessThreshold))"
  using store_catalog.decide_duckdb_iff [OF assms]
  by (simp add: store_catalog.servable_def store_lookup_def IsFresh_iff)

text \<open>
  \<open>Decide\<close> always returns a decision, whatever the store answers, except that it panics on a
  statement that is nothing but closed block comments: the comment loop leaves the empty string and the
  first field of it is indexed. The parser is a parameter; that it does not panic on the statement is the
  hypothesis.
\<close>

theorem Decide_panics_iff_only_block_comments:
  assumes "parse sql \<noteq> Panic"
  shows "if TrimSpace sql \<noteq> [] \<and> strip_comments (TrimSpace sql) = Some []
         then Decide parse (store_lookup d) now cid wh sql = Panic
         else \<exists>dec counted. Decide parse (store_lookup d) now cid wh sql = Ok (dec, counted) \<and> distinct (d_Tables dec)"
proof (cases "Classify sql")
  case (Ok c)
  obtain refs where refs: "ExtractTables parse sql = Ok refs" "distinct refs" using ExtractTables_ok [of parse sql] assms by blast
  obtain dec m where d: "Decide parse (store_lookup d) now cid wh sql = Ok (dec, m)"
    using store_catalog.decide_total [OF Ok refs(1)] by blast
  then have "distinct (d_Tables dec)"
    using Ok refs by (auto simp: Decide_def bind_go_eq split: if_splits option.splits go.splits)
  moreover have "\<not> (TrimSpace sql \<noteq> [] \<and> strip_comments (TrimSpace sql) = Some [])"
    using Ok Classify_Panic_iff [of sql] by (metis go.distinct(3))
  ultimately show ?thesis using d by (simp only: if_False) blast
next
  case Panic
  then show ?thesis unfolding Classify_Panic_iff [symmetric] by (simp add: Decide_def)
qed simp

text \<open>
  The keyword scrape is total and bounded: on every statement its four loop indices stay inside the
  text, it returns at most 4096 references and no reference twice.
\<close>

theorem extractViaScrape_total:
  "\<exists>refs. extractViaScrape sql = Ok refs \<and> distinct refs \<and> length refs \<le> 4096"
  by (rule extractViaScrape_ok)

section \<open>Witnesses\<close>

definition example_store :: db where
  "example_store =
     snd (MarkSyncedTableState 3 ''live'' None None None 10
       (snd (UpsertSyncedTable \<lparr>t_ID = 0, t_ConnectionID = 2, t_SchemaName = ''s'', t_TableName = ''t'', t_SyncMode = ''full'',
               t_WatermarkColumn = None, t_LastSyncAt = None, t_LastSnapshotID = None, t_LastWatermark = None,
               t_IcebergPath = None, t_RowCount = 0, t_State = ''pending'', t_LastError = None\<rparr>
         (snd (CreateConnection 1 ''bigquery'' ''bq'' [] [] ''uv'' None None
           (snd (CreateCustomer ''acme'' ''Acme'' (empty_db 0))))))))"

theorem Decide_serves_own_fresh_tables_witness:
  "(\<exists>dec. Decide (\<lambda>_. Ok []) (store_lookup example_store) 5 1 ''bigquery'' ''SELECT 1 FROM s.t'' = Ok (dec, [TargetDuckDB]) \<and>
      d_Target dec = TargetDuckDB \<and> (\<exists>st. LookupSyncedTable 1 ''bigquery'' ''s'' ''t'' example_store = Ok st \<and>
        owns_table example_store 1 ''bigquery'' st)) \<and>
   (\<exists>dec. Decide (\<lambda>_. Ok []) (store_lookup example_store) 5 7 ''bigquery'' ''SELECT 1 FROM s.t'' = Ok (dec, []) \<and>
      d_Target dec = TargetWarehouse)"
proof -
  have a: "Decide (\<lambda>_. Ok []) (store_lookup example_store) 5 1 ''bigquery'' ''SELECT 1 FROM s.t'' =
     Ok (\<lparr>d_Target = TargetDuckDB, d_Class = ClassSelect, d_Tables = [\<lparr>Schema = ''s'', Table = ''t''\<rparr>],
          d_Reason = ''all tables synced+fresh''\<rparr>, [TargetDuckDB])" by code_simp
  have b: "Decide (\<lambda>_. Ok []) (store_lookup example_store) 5 7 ''bigquery'' ''SELECT 1 FROM s.t'' =
     Ok (\<lparr>d_Target = TargetWarehouse, d_Class = ClassSelect, d_Tables = [\<lparr>Schema = ''s'', Table = ''t''\<rparr>],
          d_Reason = ''not synced: s.t''\<rparr>, [])" by code_simp
  from Decide_serves_own_fresh_tables [OF a] a b show ?thesis by auto
qed

theorem Decide_panics_iff_only_block_comments_witness:
  "Decide (\<lambda>_. Ok []) (store_lookup example_store) 5 1 ''bigquery'' ''/* ping */'' = Panic \<and>
   (\<exists>dec counted. Decide (\<lambda>_. Ok []) (store_lookup example_store) 5 1 ''bigquery'' ''-- ping'' = Ok (dec, counted) \<and>
      distinct (d_Tables dec))"
proof -
  have a: "TrimSpace ''/* ping */'' \<noteq> [] \<and> strip_comments (TrimSpace ''/* ping */'') = Some []" by code_simp
  have b: "\<not> (TrimSpace ''-- ping'' \<noteq> [] \<and> strip_comments (TrimSpace ''-- ping'') = Some [])" by code_simp
  show ?thesis
    using Decide_panics_iff_only_block_comments [of "\<lambda>_. Ok []" "''/* ping */''" example_store 5 1 "''bigquery''"]
      Decide_panics_iff_only_block_comments [of "\<lambda>_. Ok []" "''-- ping''" example_store 5 1 "''bigquery''"] a b
    by (simp only: if_True if_False go.distinct simp_thms)
qed

end
