(* ===== verification/Proxy_Handler.thy ===== *)
theory Proxy_Handler
  imports Worker_Pool Sql_Router
begin

text \<open>
  The query handler of the proxy, \<^verbatim>\<open>internal/proxy/handler.go\<close>, with what it calls: SQL
  normalisation (\<^verbatim>\<open>internal/logger\<close>) and the AI rewriter (\<^verbatim>\<open>internal/ai/rewriter.go\<close>). A query is
  rewritten, routed by \<open>Decide\<close>, run on the DuckDB pool or on the customer's warehouse connector, with the
  warehouse as the fall-back of DuckDB, answered on the wire and recorded in the query log.
\<close>

section \<open>Normalisation\<close>

text \<open>\<^verbatim>\<open>ReplaceAllString\<close> of the pattern of a quoted literal: leftmost matches, one after the other.\<close>

function NormalizeSQL :: "string \<Rightarrow> string" where
  "NormalizeSQL [] = []"
| "NormalizeSQL (c # cs) =
     (if c = CHR 0x27 \<and> CHR 0x27 \<in> set cs
      then CHR ''?'' # NormalizeSQL (tl (dropWhile (\<lambda>x. x \<noteq> CHR 0x27) cs))
      else c # NormalizeSQL cs)"
  by pat_completeness auto
termination
  by (relation "measure length") (auto simp: less_Suc_eq_le intro: le_trans [OF diff_le_self length_dropWhile_le])

section \<open>The AI rewriter\<close>

definition is_word_char :: "char \<Rightarrow> bool" where
  "is_word_char c \<longleftrightarrow> (let n = of_char c :: nat in 48 \<le> n \<and> n \<le> 57 \<or> 65 \<le> n \<and> n \<le> 90 \<or> 97 \<le> n \<and> n \<le> 122 \<or> n = 95)"

definition re_space :: "char \<Rightarrow> bool" where
  "re_space c \<longleftrightarrow> c \<in> {CHR '' '', CHR 0x09, CHR 0x0A, CHR 0x0C, CHR 0x0D}"

text \<open>A match of the call pattern at the start of the text: what follows the opening parenthesis.\<close>

definition match_ai :: "string \<Rightarrow> string option" where
  "match_ai s =
     (if ToLower (take 11 s) = ''ai_generate'' then
        (case dropWhile re_space (drop 11 s) of
           c # rest \<Rightarrow> if c = CHR ''('' then Some rest else None
         | [] \<Rightarrow> None)
      else None)"

lemma match_ai_shorter: "match_ai s = Some rest \<Longrightarrow> length rest < length s"
proof -
  assume "match_ai s = Some rest"
  then have d: "dropWhile re_space (drop 11 s) = CHR ''('' # rest"
    by (auto simp: match_ai_def split: if_splits list.splits)
  have "length (dropWhile re_space (drop 11 s)) \<le> length s"
    using length_dropWhile_le [of re_space "drop 11 s"] by simp
  with d show ?thesis by simp
qed

function replace_ai :: "bool \<Rightarrow> string \<Rightarrow> string" where
  "replace_ai prev_word [] = []"
| "replace_ai prev_word (c # cs) =
     (case (if prev_word then None else match_ai (c # cs)) of
        Some rest \<Rightarrow> ''llm_complete('' @ replace_ai False rest
      | None \<Rightarrow> c # replace_ai (is_word_char c) cs)"
  by pat_completeness auto
termination
  by (relation "measure (\<lambda>(_, s). length s)") (auto split: if_splits dest: match_ai_shorter)

definition ContainsAIGenerate :: "string \<Rightarrow> bool" where
  "ContainsAIGenerate sql = Contains (ToLower sql) ''ai_generate(''"

record rewriter =
  AICallsPerCustomer :: int
  rw_provider :: bool
  rw_callCount :: "string \<Rightarrow> int"

definition Rewrite :: "string \<Rightarrow> string \<times> bool" where
  "Rewrite sql = (if \<not> ContainsAIGenerate sql then (sql, False) else (replace_ai False sql, True))"

definition takeBudget :: "string \<Rightarrow> rewriter \<Rightarrow> bool \<times> rewriter" where
  "takeBudget slug r =
     (if AICallsPerCustomer r \<le> 0 then (True, r)
      else if rw_callCount r slug \<ge> AICallsPerCustomer r then (False, r)
      else (True, r\<lparr>rw_callCount := (rw_callCount r)(slug := rw_callCount r slug + 1)\<rparr>))"

definition CompleteOne :: "(string \<Rightarrow> string \<Rightarrow> string go) \<Rightarrow> string \<Rightarrow> string \<Rightarrow> string \<Rightarrow> rewriter \<Rightarrow> string go \<times> rewriter" where
  "CompleteOne provider model prompt customerSlug r =
     (if \<not> rw_provider r then (Err (Errorf ''no external provider configured''), r)
      else (case takeBudget customerSlug r of
              (False, r1) \<Rightarrow> (Err (Errorf ''ai: per-customer call budget exceeded''), r1)
            | (True, r1) \<Rightarrow> (provider model prompt, r1)))"

section \<open>The handler\<close>

text \<open>What surrounds the handler: the parser, the libraries, the clock and the hash function.\<close>

record proxy_env =
  pe_parse :: parser
  pe_sf :: sf_libs
  pe_bq :: bq_libs
  pe_codec :: codec
  pe_enc :: aead
  pe_duck :: duckdb
  pe_sha1_hex :: "string \<Rightarrow> string"
  pe_now :: int
  pe_elapsed :: int

record proxy =
  px_db :: db
  px_pool :: "pool option"
  px_rewriter :: "rewriter option"
  px_conns :: "string \<rightharpoonup> connector"
  px_lineageCh :: "(uuid \<times> string) list"

definition lineage_capacity :: nat where
  "lineage_capacity = 256"

definition captureLineage :: "uuid \<Rightarrow> string \<Rightarrow> proxy \<Rightarrow> proxy" where
  "captureLineage customerID sql h =
     (if length (px_lineageCh h) < lineage_capacity
      then h\<lparr>px_lineageCh := px_lineageCh h @ [(customerID, sql)]\<rparr> else h)"

definition sqlHash :: "proxy_env \<Rightarrow> string \<Rightarrow> string" where
  "sqlHash E sql = pe_sha1_hex E (TrimSpace sql)"

definition connectorFor :: "proxy_env \<Rightarrow> session_identity \<Rightarrow> proxy \<Rightarrow> connector go \<times> proxy" where
  "connectorFor E ident h =
     (let key = CustomerSlug ident @ '':'' @ WarehouseType ident in
      case px_conns h key of
        Some c \<Rightarrow> (Ok c, h)
      | None \<Rightarrow>
          (case factory_For (pe_sf E) (pe_bq E) (pe_enc E) (CustomerID ident) (WarehouseType ident) (px_db h) of
             Ok c \<Rightarrow> (Ok c, h\<lparr>px_conns := (px_conns h)(key \<mapsto> c)\<rparr>)
           | Err e \<Rightarrow> (Err e, h)
           | Panic \<Rightarrow> (Panic, h)))"

definition activeConnectionID :: "proxy_env \<Rightarrow> session_identity \<Rightarrow> proxy \<Rightarrow> uuid option \<times> proxy" where
  "activeConnectionID E ident h =
     (case connectorFor E ident h of
        (Ok c, h1) \<Rightarrow> (Some (c_ConnectionID c), h1)
      | (_, h1) \<Rightarrow> (None, h1))"

definition runOnWarehouse ::
  "proxy_env \<Rightarrow> ctx \<Rightarrow> session_identity \<Rightarrow> string \<Rightarrow> bytes option list \<Rightarrow> proxy \<Rightarrow> writer \<Rightarrow> (nat \<times> go_error option) go \<times> proxy \<times> writer" where
  "runOnWarehouse E c ident sql params h w =
     (case connectorFor E ident h of
        (Err e, h1) \<Rightarrow> (Ok (0, Some e), h1, w)
      | (Panic, h1) \<Rightarrow> (Panic, h1, w)
      | (Ok k, h1) \<Rightarrow>
          (let (r, w') = c_ExecuteStreaming (pe_sf E) (pe_bq E) (pe_codec E) k c sql params w in (r, h1, w')))"

definition runOnDuckDB ::
  "proxy_env \<Rightarrow> ctx \<Rightarrow> session_identity \<Rightarrow> string \<Rightarrow> bytes option list \<Rightarrow> proxy \<Rightarrow> writer \<Rightarrow> (nat \<times> go_error option) go \<times> proxy \<times> writer" where
  "runOnDuckDB E c ident sql params h w =
     (case px_pool h of
        None \<Rightarrow> (Ok (0, Some (Errorf ''duckdb pool not initialized'')), h, w)
      | Some p \<Rightarrow>
          (let (r, p', w') = pool_ExecuteStreaming (pe_duck E) (pe_codec E) c (CustomerSlug ident) sql params p w
           in (r, h\<lparr>px_pool := Some p'\<rparr>, w')))"

text \<open>The switch over the target: rows or error, the route used, the fall-back reason.\<close>

definition run_route ::
  "proxy_env \<Rightarrow> ctx \<Rightarrow> session_identity \<Rightarrow> target \<Rightarrow> string \<Rightarrow> bytes option list \<Rightarrow> proxy \<Rightarrow> writer \<Rightarrow>
     (nat \<times> go_error option) go \<times> string \<times> string option \<times> proxy \<times> writer" where
  "run_route E c ident tgt sql params h w =
     (case tgt of
        TargetDuckDB \<Rightarrow>
          (case runOnDuckDB E c ident sql params h w of
             (Ok (n, None), h1, w1) \<Rightarrow> (Ok (n, None), ''duckdb'', None, h1, w1)
           | (Ok (n, Some e), h1, w1) \<Rightarrow>
               (let (r, h2, w2) = runOnWarehouse E c ident sql params h1 w1 in (r, ''fallback'', Some (Error e), h2, w2))
           | (Err e, h1, w1) \<Rightarrow> (Err e, ''duckdb'', None, h1, w1)
           | (Panic, h1, w1) \<Rightarrow> (Panic, ''duckdb'', None, h1, w1))
      | _ \<Rightarrow> (let (r, h1, w1) = runOnWarehouse E c ident sql params h w in (r, ''warehouse'', None, h1, w1)))"

definition respondError ::
  "proxy_env \<Rightarrow> session_identity \<Rightarrow> string \<Rightarrow> string \<Rightarrow> go_error \<Rightarrow> proxy \<Rightarrow> writer \<Rightarrow> unit go \<times> proxy \<times> writer" where
  "respondError E ident hash normalized e h w =
     (Ok (),
      h\<lparr>px_db := snd (InsertQueryLog \<lparr>q_CustomerID = CustomerID ident, q_ConnectionID = None, q_APIKeyID = Some (APIKeyID ident),
          q_UserID = None, q_DashboardID = None, q_QueryHash = hash, q_NormalizedSQL = normalized, q_RouteDecision = ''error'',
          q_FallbackReason = None, q_DurationMS = pe_elapsed E, q_RowsReturned = 0, q_BytesScanned = None,
          q_EstimatedCostUSD = None, q_ErrorCode = Some ''XX000''\<rparr> (px_db h))\<rparr>,
      report ''XX000'' e w)"

definition execute ::
  "proxy_env \<Rightarrow> ctx \<Rightarrow> session \<Rightarrow> string \<Rightarrow> bytes option list \<Rightarrow> proxy \<Rightarrow> writer \<Rightarrow> unit go \<times> proxy \<times> writer" where
  "execute E c sess sql params h w =
     (let ident = s_Identity sess in
      if CustomerID ident = 0 then (Err (Errorf ''no session identity''), h, w)
      else
        (let hash = sqlHash E sql;
             normalized = NormalizeSQL sql;
             sql1 = (case px_rewriter h of None \<Rightarrow> sql | Some _ \<Rightarrow> (let (s, did) = Rewrite sql in if did then s else sql))
         in case Decide (pe_parse E) (store_lookup (px_db h)) (pe_now E) (CustomerID ident) (WarehouseType ident) sql1 of
              Panic \<Rightarrow> (Panic, h, w)
            | Err e \<Rightarrow> (Err e, h, w)
            | Ok (dec, _) \<Rightarrow>
                (case run_route E c ident (d_Target dec) sql1 params h w of
                   (Panic, _, _, h1, w1) \<Rightarrow> (Panic, h1, w1)
                 | (Err e, _, _, h1, w1) \<Rightarrow> (Err e, h1, w1)
                 | (Ok (_, Some e), _, _, h1, w1) \<Rightarrow> respondError E ident hash normalized e h1 w1
                 | (Ok (n, None), route, fallback, h1, w1) \<Rightarrow>
                     (let (connID, h2) = activeConnectionID E ident h1;
                          h3 = h2\<lparr>px_db := snd (InsertQueryLog \<lparr>q_CustomerID = CustomerID ident, q_ConnectionID = connID,
                                 q_APIKeyID = Some (APIKeyID ident), q_UserID = None, q_DashboardID = None, q_QueryHash = hash,
                                 q_NormalizedSQL = normalized, q_RouteDecision = route, q_FallbackReason = fallback,
                                 q_DurationMS = pe_elapsed E, q_RowsReturned = int n, q_BytesScanned = None,
                                 q_EstimatedCostUSD = None, q_ErrorCode = None\<rparr> (px_db h2))\<rparr>
                      in (Ok (), captureLineage (CustomerID ident) sql h3, w1)))))"

definition proxy_handler :: "proxy_env \<Rightarrow> proxy query_handler" where
  "proxy_handler E =
     \<lparr>HandleSimpleQuery = (\<lambda>c sess sql h w. execute E c sess sql [] h w),
      HandleExtendedExecute = (\<lambda>c sess p h w. execute E c sess (ps_SQL (po_Statement p)) (po_ParamValues p) h w)\<rparr>"

section \<open>The handler keeps its contract\<close>

lemma answers_runOnWarehouse:
  "good w \<Longrightarrow> runOnWarehouse E c ident sql params h w = (r, h', w') \<Longrightarrow> answers w w'"
  by (auto simp: runOnWarehouse_def answers_refl split: prod.splits go.splits dest: connector.exec_answers)

lemma answers_runOnDuckDB:
  "good w \<Longrightarrow> runOnDuckDB E c ident sql params h w = (r, h', w') \<Longrightarrow> answers w w'"
  by (auto simp: runOnDuckDB_def pool_ExecuteStreaming_def answers_refl split: prod.splits go.splits option.splits
      dest: answers_stream_result)

lemma answers_run_route:
  assumes "good w" "run_route E c ident tgt sql params h w = (r, route, fb, h', w')"
  shows "answers w w'"
proof (cases tgt)
  case TargetDuckDB
  obtain x h1 w1 where d: "runOnDuckDB E c ident sql params h w = (x, h1, w1)" by (metis prod_cases3)
  note a = answers_runOnDuckDB [OF assms(1) d]
  note b = answers_chain [OF a answers_runOnWarehouse [OF answers_good [OF a assms(1)]]]
  show ?thesis
    using assms(2) TargetDuckDB d a by (auto simp: run_route_def split: go.splits prod.splits option.splits dest: b)
qed (use assms in \<open>auto simp: run_route_def split: prod.splits dest: answers_runOnWarehouse\<close>)

lemma answers_execute:
  assumes "good w" "execute E c sess sql params h w = (r, h', w')"
  shows "answers w w'"
proof -
  have *: "answers w (report code e w1) \<and> answers w w1"
    if "run_route E c ident tgt s params h w = (x, route, fb, h1, w1)" for ident tgt s x route fb h1 w1 code e
    using answers_run_route [OF assms(1) that] answers_report by blast
  show ?thesis
    using assms(2)
    by (auto simp: execute_def Let_def answers_refl respondError_def split: if_splits go.splits prod.splits option.splits dest: *)
qed

interpretation proxy: query_backend "Some (proxy_handler E)" for E
  by unfold_locales (auto simp: proxy_handler_def dest: answers_execute)

section \<open>Lemmas\<close>

lemma NormalizeSQL_quote:
  "CHR 0x27 \<notin> set lit \<Longrightarrow> NormalizeSQL (CHR 0x27 # lit @ CHR 0x27 # rest) = CHR ''?'' # NormalizeSQL rest"
  by (simp add: dropWhile_append3 dropWhile_append)

lemma NormalizeSQL_plain: "CHR 0x27 \<notin> set a \<Longrightarrow> NormalizeSQL (a @ s) = a @ NormalizeSQL s"
  by (induction a) auto

lemma NormalizeSQL_quotes: "count_list (NormalizeSQL s) (CHR 0x27) \<le> 1"
proof (induction s rule: NormalizeSQL.induct)
  case (2 c cs)
  show ?case
  proof (cases "c = CHR 0x27 \<and> CHR 0x27 \<notin> set cs")
    case True
    then have "NormalizeSQL cs = cs" using NormalizeSQL_plain [of cs "[]"] by simp
    then show ?thesis using True by (simp add: count_list_0_iff)
  qed (use 2 in auto)
qed simp

text \<open>A statement written as unquoted parts with literals between them.\<close>

fun with_literals :: "string \<Rightarrow> (string \<times> string) list \<Rightarrow> string" where
  "with_literals a [] = a"
| "with_literals a ((lit, b) # ps) = a @ [CHR 0x27] @ lit @ [CHR 0x27] @ with_literals b ps"

lemma NormalizeSQL_with_literals:
  assumes "CHR 0x27 \<notin> set a" "\<forall>(lit, b) \<in> set ps. CHR 0x27 \<notin> set lit \<and> CHR 0x27 \<notin> set b"
  shows "NormalizeSQL (with_literals a ps) = a @ concat (map (\<lambda>(lit, b). CHR ''?'' # b) ps)"
  using assms
proof (induction ps arbitrary: a)
  case Nil
  then show ?case using NormalizeSQL_plain [of a "[]"] by simp
next
  case (Cons p ps)
  obtain lit b where p: "p = (lit, b)" by force
  then have "NormalizeSQL (with_literals a (p # ps)) = a @ NormalizeSQL (CHR 0x27 # lit @ CHR 0x27 # with_literals b ps)"
    using Cons.prems by (simp add: NormalizeSQL_plain del: NormalizeSQL.simps)
  also have "\<dots> = a @ CHR ''?'' # NormalizeSQL (with_literals b ps)"
    using Cons.prems p by (simp add: NormalizeSQL_quote del: NormalizeSQL.simps)
  finally show ?case using Cons p by simp
qed

lemma connectorFor_keeps:
  "connectorFor E ident h = (r, h') \<Longrightarrow> px_db h' = px_db h \<and> px_lineageCh h' = px_lineageCh h"
  by (auto simp: connectorFor_def Let_def split: option.splits go.splits)

lemma runOnWarehouse_keeps:
  "runOnWarehouse E c ident sql params h w = (r, h', w') \<Longrightarrow> px_db h' = px_db h \<and> px_lineageCh h' = px_lineageCh h"
  by (auto simp: runOnWarehouse_def split: prod.splits go.splits dest: connectorFor_keeps)

lemma runOnDuckDB_keeps:
  "runOnDuckDB E c ident sql params h w = (r, h', w') \<Longrightarrow> px_db h' = px_db h \<and> px_lineageCh h' = px_lineageCh h"
  by (auto simp: runOnDuckDB_def split: prod.splits option.splits)

lemma run_route_keeps:
  assumes "run_route E c ident tgt sql params h w = (r, route, fb, h', w')"
  shows "px_db h' = px_db h \<and> px_lineageCh h' = px_lineageCh h \<and> route \<in> {''duckdb'', ''fallback'', ''warehouse''} \<and>
    (route = ''fallback'' \<longleftrightarrow> fb \<noteq> None)"
  using assms
  by (auto simp: run_route_def split: target.splits prod.splits go.splits option.splits
      dest!: runOnWarehouse_keeps runOnDuckDB_keeps)

lemma activeConnectionID_keeps:
  "px_db (snd (activeConnectionID E ident h)) = px_db h \<and> px_lineageCh (snd (activeConnectionID E ident h)) = px_lineageCh h"
  by (auto simp: activeConnectionID_def split: prod.splits go.splits dest: connectorFor_keeps)

definition logged :: "proxy_env \<Rightarrow> session_identity \<Rightarrow> string \<Rightarrow> query_log_entry \<Rightarrow> bool" where
  "logged E ident sql e \<longleftrightarrow> q_CustomerID e = CustomerID ident \<and> q_APIKeyID e = Some (APIKeyID ident) \<and>
     q_QueryHash e = sqlHash E sql \<and> q_NormalizedSQL e = NormalizeSQL sql"

lemma execute_Ok:
  assumes "execute E c sess sql params h w = (Ok (), h', w')" "db_fail (px_db h) = None"
  shows "\<exists>e. query_log (px_db h') = query_log (px_db h) @ [e] \<and> logged E (s_Identity sess) sql e \<and>
     (q_ErrorCode e = None \<and> q_RouteDecision e \<in> {''duckdb'', ''fallback'', ''warehouse''} \<and>
        (q_RouteDecision e = ''fallback'' \<longleftrightarrow> q_FallbackReason e \<noteq> None) \<and>
        px_lineageCh h' = (if length (px_lineageCh h) < 256 then px_lineageCh h @ [(CustomerID (s_Identity sess), sql)] else px_lineageCh h) \<or>
      q_ErrorCode e = Some ''XX000'' \<and> q_RouteDecision e = ''error'' \<and> px_lineageCh h' = px_lineageCh h)"
proof -
  let ?id = "s_Identity sess"
  let ?sql = "case px_rewriter h of None \<Rightarrow> sql | Some _ \<Rightarrow> (let (s, did) = Rewrite sql in if did then s else sql)"
  have nz: "CustomerID ?id \<noteq> 0" using assms(1) by (auto simp: execute_def Let_def split: if_splits)
  obtain dec m where d: "Decide (pe_parse E) (store_lookup (px_db h)) (pe_now E) (CustomerID ?id) (WarehouseType ?id) ?sql = Ok (dec, m)"
    using assms(1) nz by (auto simp: execute_def Let_def split: go.splits)
  obtain r route fb h1 w1 where rr: "run_route E c ?id (d_Target dec) ?sql params h w = (r, route, fb, h1, w1)"
    by (metis prod_cases5)
  note k = run_route_keeps [OF rr]
  obtain n eo where r: "r = Ok (n, eo)" using assms(1) nz d rr by (cases r) (auto simp: execute_def Let_def)
  show ?thesis
  proof (cases eo)
    case (Some e)
    then have "(Ok (), h', w') = respondError E ?id (sqlHash E sql) (NormalizeSQL sql) e h1 w1"
      using assms(1) nz d rr r by (simp add: execute_def Let_def)
    then show ?thesis using assms(2) k by (simp add: respondError_def InsertQueryLog_def logged_def)
  next
    case None
    obtain cid h2 where a: "activeConnectionID E ?id h1 = (cid, h2)" by force
    then have k2: "px_db h2 = px_db h1" "px_lineageCh h2 = px_lineageCh h1" using activeConnectionID_keeps [of E ?id h1] by auto
    show ?thesis
      using assms nz d rr r None a k k2
      by (auto simp: execute_def Let_def InsertQueryLog_def logged_def captureLineage_def lineage_capacity_def)
  qed
qed

lemma exec_params:
  "c_ExecuteStreaming S B cd k c sql params w = c_ExecuteStreaming S B cd k c sql [] w"
  by (cases k) (simp_all add: bq_ExecuteStreaming_def sf_ExecuteStreaming_def stub_ExecuteStreaming_def)

lemma execute_params: "execute E c sess sql params h w = execute E c sess sql [] h w"
proof -
  have "runOnWarehouse E c ident s params h w = runOnWarehouse E c ident s [] h w" for ident s h w
    unfolding runOnWarehouse_def exec_params [of _ _ _ _ _ _ params] by simp
  moreover have "runOnDuckDB E c ident s params h w = runOnDuckDB E c ident s [] h w" for ident s h w
    by (cases "px_pool h") (simp_all add: runOnDuckDB_def pool_ExecuteStreaming_def)
  ultimately have "run_route E c ident tgt s params h w = run_route E c ident tgt s [] h w" for ident tgt s h w
    unfolding run_route_def by (simp only:)
  then show ?thesis unfolding execute_def by (simp only:)
qed


lemma stream_rows_prefix:
  "good w \<Longrightarrow> stream_rows enc wrap (map Ok vss @ Err e # rest) n w =
     (Ok (n + length vss, Some (wrap e)), emit (map (\<lambda>vs. data_row (map enc vs)) vss) w)"
  by (induction vss arbitrary: n w) (simp_all add: WriteDataRow_good)

section \<open>Properties\<close>

definition example_aead :: aead where
  "example_aead = \<lparr>NonceSize = 0, Seal = (\<lambda>_ p. p), Open = (\<lambda>_ c. Ok c)\<rparr>"

definition example_proxy_env :: proxy_env where
  "example_proxy_env = \<lparr>pe_parse = (\<lambda>_. Ok []), pe_sf = example_sf, pe_bq = example_bq, pe_codec = example_codec, pe_enc = example_aead,
     pe_duck = example_duck, pe_sha1_hex = id, pe_now = 5, pe_elapsed = 1\<rparr>"

definition example_proxy :: proxy where
  "example_proxy = \<lparr>px_db = example_store, px_pool = Some (NewPool example_duck example_pool_config), px_rewriter = None,
     px_conns = [''acme:bigquery'' \<mapsto> Stub 2 ''databricks''], px_lineageCh = []\<rparr>"

definition example_session :: session where
  "example_session = new_session \<lparr>APIKeyID = 9, CustomerID = 1, CustomerSlug = ''acme'', WarehouseType = ''bigquery''\<rparr> [] [] 0"





text \<open>
  The query log and the debug log never see the literals. However many quoted literals a statement
  has between unquoted parts, its normalised form is the unquoted parts with a question mark for each
  literal, whatever the literals are.
\<close>

theorem NormalizeSQL_hides_literals:
  assumes "CHR 0x27 \<notin> set a" and "\<forall>(lit, b) \<in> set ps. CHR 0x27 \<notin> set lit \<and> CHR 0x27 \<notin> set b"
  shows "NormalizeSQL (with_literals a ps) = a @ concat (map (\<lambda>(lit, b). CHR ''?'' # b) ps)"
  using assms by (rule NormalizeSQL_with_literals)

theorem NormalizeSQL_hides_literals_witness:
  "NormalizeSQL (with_literals ''SELECT * FROM t WHERE a = '' [(''alice'', '' AND b = ''), (''secret'', [])]) =
     ''SELECT * FROM t WHERE a = ? AND b = ?''"
  using NormalizeSQL_hides_literals [of "''SELECT * FROM t WHERE a = ''" "[(''alice'', '' AND b = ''), (''secret'', [])]"]
  by simp

text \<open>
  Bound parameters are dropped. Executing a portal is the simple query on its SQL text, whatever
  values were bound: the values reach the connectors and the pool and none of them uses them.
\<close>

theorem bind_parameters_ignored:
  "HandleExtendedExecute (proxy_handler E) c sess p h w =
     HandleSimpleQuery (proxy_handler E) c sess (ps_SQL (po_Statement p)) h w"
  by (simp add: proxy_handler_def execute_params [of _ _ _ _ "po_ParamValues p"])

text \<open>
  A fall-back after a partial answer sends two results. When DuckDB fails on a row after the row
  description and some rows have been written, these frames stay in the output and the warehouse's
  complete answer is appended to them: one query is answered with two row descriptions.
\<close>

theorem fallback_keeps_partial_result:
  assumes "good w" and "px_pool h = Some p" and "workerFor (pe_duck E) (CustomerSlug ident) p = (Ok wk, p1)"
    and "duck_Query (pe_duck E) (p_exec p1) (wk_db wk) (WithTimeout c 30) sql = Ok rows"
    and "r_Columns rows = Ok cols" and "r_ColumnTypes rows = Ok types" and "fields_of mapDuckDBType cols types = Ok flds"
    and "length flds \<le> 1664" and "r_Rows rows = map Ok vss @ Err e # rest"
    and "runOnWarehouse E c ident sql params (h\<lparr>px_pool := Some p1\<rparr>)
           (emit (row_description flds # map (\<lambda>vs. data_row (map (encodeDuckDBValue (pe_codec E)) vs)) vss) w) =
         (Ok (n, None), h2, emit out (emit (row_description flds # map (\<lambda>vs. data_row (map (encodeDuckDBValue (pe_codec E)) vs)) vss) w))"
  shows "run_route E c ident TargetDuckDB sql params h w =
    (Ok (n, None), ''fallback'', Some (Error e), h2,
     emit (row_description flds # map (\<lambda>vs. data_row (map (encodeDuckDBValue (pe_codec E)) vs)) vss @ out) w)"
proof -
  have "stream_result mapDuckDBType (encodeDuckDBValue (pe_codec E)) (\<lambda>e. e) (pool_commandTag sql) rows w =
      (Ok (length vss, Some e), emit (row_description flds # map (\<lambda>vs. data_row (map (encodeDuckDBValue (pe_codec E)) vs)) vss) w)"
    using assms(1,5-9) by (simp add: stream_result_def WriteRowDescription_good stream_rows_prefix)
  then have "runOnDuckDB E c ident sql params h w = (Ok (length vss, Some e), h\<lparr>px_pool := Some p1\<rparr>,
      emit (row_description flds # map (\<lambda>vs. data_row (map (encodeDuckDBValue (pe_codec E)) vs)) vss) w)"
    using assms(2-4) by (simp add: runOnDuckDB_def pool_ExecuteStreaming_def)
  then show ?thesis using assms(10) by (simp add: run_route_def)
qed

definition flaky_duck :: duckdb where
  "flaky_duck = example_duck\<lparr>duck_Query := (\<lambda>_ _ _ _. Ok \<lparr>r_Columns = Ok [''a''], r_ColumnTypes = Ok [''INTEGER''],
     r_Rows = map Ok [[VInt32 1]] @ Err UnexpectedEOF # [], r_Err = None\<rparr>)\<rparr>"

definition fallback_proxy :: proxy where
  "fallback_proxy = example_proxy\<lparr>px_conns := [''acme:snowflake'' \<mapsto> Snowflake 2 []],
     px_pool := Some (snd (workerFor flaky_duck ''acme'' (NewPool flaky_duck example_pool_config)))\<rparr>"

lemma fallback_exec:
  assumes "good w"
  shows "sf_ExecuteStreaming example_sf example_codec [] Background ''SELECT a FROM t'' [] w =
    (Ok (2, None), emit [row_description [mk_field ''a'' (OIDInt8, 8)], data_row [Some ''1''], data_row [None], command_complete ''SELECT 2''] w)"
proof -
  have "fields_of (\<lambda>t. MapSnowflakeType (ToUpper t)) [''a''] [''fixed''] = Ok [mk_field ''a'' (OIDInt8, 8)]"
    "map (encodeSFValue example_codec) [VInt64 1] = [Some ''1'']" "bq_commandTag ''SELECT a FROM t'' 2 = Ok ''SELECT 2''" by code_simp+
  then show ?thesis
    using assms
    by (simp add: sf_ExecuteStreaming_def example_sf_def stream_result_def WriteRowDescription_good WriteDataRow_good
        finish_def WriteCommandComplete_good numeral_2_eq_2)
qed

theorem fallback_keeps_partial_result_witness:
  "\<exists>h2. run_route (example_proxy_env\<lparr>pe_duck := flaky_duck\<rparr>) Background
      \<lparr>APIKeyID = 9, CustomerID = 1, CustomerSlug = ''acme'', WarehouseType = ''snowflake''\<rparr> TargetDuckDB ''SELECT a FROM t'' []
      fallback_proxy (NewWriter False) =
    (Ok (2, None), ''fallback'', Some (Error UnexpectedEOF), h2,
     emit (row_description [mk_field ''a'' (OIDInt4, 4)] # map (\<lambda>vs. data_row (map (encodeDuckDBValue example_codec) vs)) [[VInt32 1]] @
       [row_description [mk_field ''a'' (OIDInt8, 8)], data_row [Some ''1''], data_row [None], command_complete ''SELECT 2'']) (NewWriter False))"
proof -
  let ?E = "example_proxy_env\<lparr>pe_duck := flaky_duck\<rparr>"
  let ?id = "\<lparr>APIKeyID = 9, CustomerID = 1, CustomerSlug = ''acme'', WarehouseType = ''snowflake''\<rparr>"
  have g: "good (NewWriter False)" by (simp add: NewWriter_def good_def)
  have p: "px_pool fallback_proxy = Some (snd (workerFor flaky_duck ''acme'' (NewPool flaky_duck example_pool_config)))"
    by (simp add: fallback_proxy_def)
  have "fst (workerFor flaky_duck ''acme'' (NewPool flaky_duck example_pool_config)) = Ok \<lparr>wk_db = 0, wk_subDone = False\<rparr>" by code_simp
  then obtain p1 where w: "workerFor flaky_duck ''acme'' (NewPool flaky_duck example_pool_config) = (Ok \<lparr>wk_db = 0, wk_subDone = False\<rparr>, p1)"
    by (metis prod.collapse)
  have wk: "workerFor (pe_duck ?E) (CustomerSlug ?id) p1 = (Ok \<lparr>wk_db = 0, wk_subDone = False\<rparr>, p1)"
    using workerFor_again [OF w] by simp
  have q: "duck_Query (pe_duck ?E) (p_exec p1) (wk_db \<lparr>wk_db = 0, wk_subDone = False\<rparr>) (WithTimeout Background 30) ''SELECT a FROM t'' =
     Ok \<lparr>r_Columns = Ok [''a''], r_ColumnTypes = Ok [''INTEGER''], r_Rows = map Ok [[VInt32 1]] @ Err UnexpectedEOF # [], r_Err = None\<rparr>"
    by (simp add: flaky_duck_def)
  have f: "fields_of mapDuckDBType [''a''] [''INTEGER''] = Ok [mk_field ''a'' (OIDInt4, 4)]" by code_simp
  let ?w1 = "emit (row_description [mk_field ''a'' (OIDInt4, 4)] # map (\<lambda>vs. data_row (map (encodeDuckDBValue (pe_codec ?E)) vs)) [[VInt32 1]]) (NewWriter False)"
  have r: "runOnWarehouse ?E Background ?id ''SELECT a FROM t'' [] (fallback_proxy\<lparr>px_pool := Some p1\<rparr>) ?w1 =
     (Ok (2, None), fallback_proxy\<lparr>px_pool := Some p1\<rparr>,
      emit [row_description [mk_field ''a'' (OIDInt8, 8)], data_row [Some ''1''], data_row [None], command_complete ''SELECT 2''] ?w1)"
    using fallback_exec [of ?w1] g by (simp add: runOnWarehouse_def connectorFor_def fallback_proxy_def example_proxy_env_def)
  show ?thesis
    using fallback_keeps_partial_result [OF g _ wk q _ _ f _ _ r, of UnexpectedEOF "[]"] p w
    by (simp add: example_proxy_env_def)
qed

end
