(* ===== verification/Lineage.thy ===== *)
theory Lineage
  imports Sql_Router
begin

text \<open>
  Lineage extraction, \<^verbatim>\<open>internal/lineage\<close>: table edges (lineage.go), column edges by name
  resolution through subqueries and CTEs (columns.go), the writer of the edge table (lineage.go) and the
  recording of one executed query (runtime.go). Parsing, deparsing and SHA-256 are parameters. Where the
  code iterates over a Go map the model takes the order of insertion; the edges are used as a set.
\<close>

section \<open>Edges\<close>

record edge =
  UpstreamFQN :: string
  DownstreamFQN :: string
  EdgeType :: string
  Origin :: string
  Confidence :: string
  EdgeHash :: string

section \<open>Column references\<close>

definition maxColDepth :: nat where
  "maxColDepth = 64"

definition confExact :: string where "confExact = ''exact''"
definition confAmbiguous :: string where "confAmbiguous = ''ambiguous''"

record col_ref =
  cr_fqn :: string
  cr_conf :: string

definition lower :: "string \<Rightarrow> string" where
  "lower s = ToLower (TrimSpace s)"

text \<open>The dotted parts of a column reference, up to a star if there is one.\<close>

fun fieldNames :: "node list \<Rightarrow> string list \<times> bool" where
  "fieldNames [] = ([], False)"
| "fieldNames (A_star_node # ns) = ([], True)"
| "fieldNames (String_node s # ns) = (let (ps, star) = fieldNames ns in (s # ps, star))"
| "fieldNames (_ # ns) = fieldNames ns"

text \<open>Every column reference in an expression, as its list of fields.\<close>

fun columnRefsIn :: "nat \<Rightarrow> node \<Rightarrow> node list list"
and refs_opt :: "nat \<Rightarrow> node option \<Rightarrow> node list list"
and refs_list :: "nat \<Rightarrow> node list \<Rightarrow> node list list"
and refs_whens :: "nat \<Rightarrow> node list \<Rightarrow> node list list"
and refs_targets :: "nat \<Rightarrow> node list \<Rightarrow> node list list" where
  "columnRefsIn depth n =
     (if depth > maxColDepth then []
      else case n of
        Column_ref_node fs \<Rightarrow> [fs]
      | A_expr_node l r \<Rightarrow> refs_opt (depth + 1) l @ refs_opt (depth + 1) r
      | Func_call_node args \<Rightarrow> refs_list (depth + 1) args
      | Coalesce_node args \<Rightarrow> refs_list (depth + 1) args
      | Bool_expr_node args \<Rightarrow> refs_list (depth + 1) args
      | Case_node arg whens def \<Rightarrow> refs_opt (depth + 1) arg @ refs_opt (depth + 1) def @ refs_whens (depth + 1) whens
      | Type_cast_node arg \<Rightarrow> refs_opt (depth + 1) arg
      | List_node items \<Rightarrow> refs_list (depth + 1) items
      | Sub_link_node (Some (Select_node (Select_stmt targets _ _ _ _ _))) \<Rightarrow> refs_targets (depth + 1) targets
      | _ \<Rightarrow> [])"
| "refs_opt depth None = []"
| "refs_opt depth (Some n) = columnRefsIn depth n"
| "refs_list depth [] = []"
| "refs_list depth (n # ns) = columnRefsIn depth n @ refs_list depth ns"
| "refs_whens depth [] = []"
| "refs_whens depth (Case_when_node e r # ns) = refs_opt depth e @ refs_opt depth r @ refs_whens depth ns"
| "refs_whens depth (_ # ns) = refs_whens depth ns"
| "refs_targets depth [] = []"
| "refs_targets depth (Res_target_node _ v # ns) = refs_opt depth v @ refs_targets depth ns"
| "refs_targets depth (_ # ns) = refs_targets depth ns"

declare columnRefsIn.simps [simp del]

text \<open>The name of an output column: the alias, or the last part of a plain column.\<close>

definition targetName :: "string \<Rightarrow> node option \<Rightarrow> string option" where
  "targetName name val =
     (if name \<noteq> [] then Some name
      else (case val of
              Some (Column_ref_node fs) \<Rightarrow>
                (let (parts, star) = fieldNames fs in if \<not> star \<and> parts \<noteq> [] then Some (last parts) else None)
            | _ \<Rightarrow> None))"

section \<open>Scopes and projections\<close>

type_synonym proj_map = "(string \<times> col_ref list) list"

record scope =
  sc_tables :: "(string \<times> string) list"
  sc_derived :: "(string \<times> proj_map) list"
  sc_bases :: "string list"

definition cols_of :: "proj_map \<Rightarrow> string \<Rightarrow> col_ref list" where
  "cols_of p k = (case map_of p k of None \<Rightarrow> [] | Some rs \<Rightarrow> rs)"

fun put :: "'k \<Rightarrow> 'v \<Rightarrow> ('k \<times> 'v) list \<Rightarrow> ('k \<times> 'v) list" where
  "put k v [] = [(k, v)]"
| "put k v ((k', v') # xs) = (if k' = k then (k, v) # xs else (k', v') # put k v xs)"

definition proj_append :: "string \<Rightarrow> col_ref list \<Rightarrow> proj_map \<Rightarrow> proj_map" where
  "proj_append k refs p = put k (cols_of p k @ refs) p"

definition merge_arms :: "proj_map \<Rightarrow> proj_map \<Rightarrow> proj_map" where
  "merge_arms left right = foldl (\<lambda>acc (k, v). proj_append k v acc) left right"

definition resolveColumn :: "scope \<Rightarrow> node list \<Rightarrow> col_ref list" where
  "resolveColumn sc fs =
     (let (parts, star) = fieldNames fs in
      if star \<or> parts = [] then []
      else
        (let col = last parts in
         if 2 \<le> length parts then
           (let qual = lower (parts ! (length parts - 2)) in
            case map_of (sc_tables sc) qual of
              Some f \<Rightarrow> [\<lparr>cr_fqn = f @ ''.'' @ col, cr_conf = confExact\<rparr>]
            | None \<Rightarrow>
                (case map_of (sc_derived sc) qual of
                   Some dp \<Rightarrow> cols_of dp (lower col)
                 | None \<Rightarrow> []))
         else if length (sc_bases sc) = 1 \<and> sc_derived sc = [] then
           [\<lparr>cr_fqn = hd (sc_bases sc) @ ''.'' @ col, cr_conf = confExact\<rparr>]
         else if sc_bases sc = [] \<and> length (sc_derived sc) = 1 then cols_of (snd (hd (sc_derived sc))) (lower col)
         else
           map (\<lambda>b. \<lparr>cr_fqn = b @ ''.'' @ col, cr_conf = confAmbiguous\<rparr>) (sc_bases sc) @
           concat (map (\<lambda>(_, dp). map (\<lambda>r. \<lparr>cr_fqn = cr_fqn r, cr_conf = confAmbiguous\<rparr>) (cols_of dp (lower col))) (sc_derived sc))))"

text \<open>The loop over the target list.\<close>

fun project_targets :: "scope \<Rightarrow> node list \<Rightarrow> proj_map \<Rightarrow> proj_map" where
  "project_targets sc [] proj = proj"
| "project_targets sc (Res_target_node name val # ts) proj =
     (case targetName name val of
        None \<Rightarrow> project_targets sc ts proj
      | Some n \<Rightarrow>
          project_targets sc ts
            (proj_append (lower n) (concat (map (resolveColumn sc) (refs_opt 0 val))) proj))"
| "project_targets sc (_ # ts) proj = project_targets sc ts proj"

definition add_table :: "(string \<times> proj_map) list \<Rightarrow> range_var \<Rightarrow> scope \<Rightarrow> scope" where
  "add_table ctes rv sc =
     (let alias = (case rv_Alias rv of Some a \<Rightarrow> if a \<noteq> [] then a else rv_Relname rv | None \<Rightarrow> rv_Relname rv) in
      case (map_of ctes (lower (rv_Relname rv)), rv_Schemaname rv = []) of
        (Some cproj, True) \<Rightarrow> sc\<lparr>sc_derived := put (lower alias) cproj (sc_derived sc)\<rparr>
      | _ \<Rightarrow>
          (let f = (if rv_Schemaname rv \<noteq> [] then rv_Schemaname rv @ ''.'' @ rv_Relname rv else rv_Relname rv)
           in sc\<lparr>sc_tables := put (lower alias) f (sc_tables sc), sc_bases := sc_bases sc @ [f]\<rparr>))"

definition empty_scope :: scope where
  "empty_scope = \<lparr>sc_tables = [], sc_derived = [], sc_bases = []\<rparr>"

text \<open>The accessors of the generated code.\<close>

definition GetSelectStmt :: "node option \<Rightarrow> select_stmt option" where
  "GetSelectStmt n = (case n of Some (Select_node s) \<Rightarrow> Some s | _ \<Rightarrow> None)"

definition GetCommonTableExpr :: "node \<Rightarrow> (string \<times> node option) option" where
  "GetCommonTableExpr n = (case n of Cte_node name q \<Rightarrow> Some (name, q) | _ \<Rightarrow> None)"

definition GetRangeVar :: "node \<Rightarrow> range_var option" where
  "GetRangeVar n = (case n of Range_var_node rv \<Rightarrow> Some rv | _ \<Rightarrow> None)"

definition GetRangeSubselect :: "node \<Rightarrow> (string option \<times> node option) option" where
  "GetRangeSubselect n = (case n of Range_subselect_node a q \<Rightarrow> Some (a, q) | _ \<Rightarrow> None)"

definition GetJoinExpr :: "node \<Rightarrow> (node option \<times> node option) option" where
  "GetJoinExpr n = (case n of Join_node l r \<Rightarrow> Some (l, r) | _ \<Rightarrow> None)"

lemma Get_size:
  "GetSelectStmt n = Some s \<Longrightarrow> size s < size_option size n"
  "GetCommonTableExpr m = Some (name, q) \<Longrightarrow> size_option size q < size m"
  "GetRangeSubselect m = Some (a, q) \<Longrightarrow> size_option size q < size m"
  "GetJoinExpr m = Some (l, r) \<Longrightarrow> size_option size l < size m \<and> size_option size r < size m"
  by (auto simp: GetSelectStmt_def GetCommonTableExpr_def GetRangeSubselect_def GetJoinExpr_def
      split: option.splits node.splits)

lemma GetSelectStmt_size_less:
  "size_option size b < size n \<Longrightarrow> 2 * size_option size (GetSelectStmt b) < Suc (Suc (2 * size n))"
  by (auto simp: GetSelectStmt_def split: option.splits node.splits)

lemma select_size:
  "size_option size (sel_Larg s) < size s" "size_option size (sel_Rarg s) < size s"
  "size_list size (sel_Ctes s) < size s" "size_list size (sel_FromClause s) < size s"
  by (cases s, simp)+

function projection :: "(string \<times> proj_map) list \<Rightarrow> nat \<Rightarrow> select_stmt option \<Rightarrow> proj_map"
and bind_ctes :: "(string \<times> proj_map) list \<Rightarrow> nat \<Rightarrow> node list \<Rightarrow> (string \<times> proj_map) list"
and add_froms :: "(string \<times> proj_map) list \<Rightarrow> nat \<Rightarrow> node list \<Rightarrow> scope \<Rightarrow> scope"
and addFrom :: "(string \<times> proj_map) list \<Rightarrow> nat \<Rightarrow> node option \<Rightarrow> scope \<Rightarrow> scope" where
  "projection ctes depth sel =
     (case sel of
        None \<Rightarrow> []
      | Some s \<Rightarrow>
          if depth > maxColDepth then []
          else if sel_Larg s \<noteq> None \<or> sel_Rarg s \<noteq> None then
            merge_arms (projection ctes (depth + 1) (sel_Larg s)) (projection ctes (depth + 1) (sel_Rarg s))
          else project_targets (add_froms (bind_ctes ctes depth (sel_Ctes s)) depth (sel_FromClause s) empty_scope)
                 (sel_TargetList s) [])"
| "bind_ctes ctes depth [] = ctes"
| "bind_ctes ctes depth (n # ns) =
     (case GetCommonTableExpr n of
        None \<Rightarrow> bind_ctes ctes depth ns
      | Some (name, q) \<Rightarrow>
          (case GetSelectStmt q of
             None \<Rightarrow> bind_ctes ctes depth ns
           | Some cq \<Rightarrow> bind_ctes (put (lower name) (projection ctes (depth + 1) (Some cq)) ctes) depth ns))"
| "add_froms ctes depth [] sc = sc"
| "add_froms ctes depth (n # ns) sc = add_froms ctes depth ns (addFrom ctes depth (Some n) sc)"
| "addFrom ctes depth None sc = sc"
| "addFrom ctes depth (Some n) sc =
     (case GetRangeVar n of
        Some rv \<Rightarrow> add_table ctes rv sc
      | None \<Rightarrow>
          (case GetRangeSubselect n of
             Some (al, q) \<Rightarrow>
               (case (al, GetSelectStmt q) of
                  (Some a, Some sub) \<Rightarrow>
                    if a \<noteq> [] then sc\<lparr>sc_derived := put (lower a) (projection ctes (depth + 1) (Some sub)) (sc_derived sc)\<rparr> else sc
                | _ \<Rightarrow> sc)
           | None \<Rightarrow>
               (case GetJoinExpr n of
                  Some (l, r) \<Rightarrow> addFrom ctes depth r (addFrom ctes depth l sc)
                | None \<Rightarrow> sc)))"
  by pat_completeness auto

termination
  by (relation "measure (\<lambda>x. case x of
        Inl (Inl (_, _, s)) \<Rightarrow> 2 * size_option size s
      | Inl (Inr (_, _, ns)) \<Rightarrow> 2 * size_list size ns + 1
      | Inr (Inl (_, _, ns, _)) \<Rightarrow> 2 * size_list size ns + 1
      | Inr (Inr (_, _, n, _)) \<Rightarrow> 2 * size_option size n)")
     (auto simp: select_size less_SucI dest!: Get_size Get_size(1) [OF sym]
      intro: GetSelectStmt_size_less split: option.splits)

declare projection.simps [simp del]

definition resolveColumns :: "node option \<Rightarrow> string \<Rightarrow> string \<Rightarrow> edge list" where
  "resolveColumns query downstream hash =
     (case GetSelectStmt query of
        None \<Rightarrow> []
      | Some sel \<Rightarrow>
          concat (map (\<lambda>(outCol, refs).
            map (\<lambda>r. \<lparr>UpstreamFQN = cr_fqn r, DownstreamFQN = downstream @ ''.'' @ outCol, EdgeType = ''column'',
                       Origin = [], Confidence = cr_conf r, EdgeHash = hash\<rparr>)
              (filter (\<lambda>r. cr_fqn r \<noteq> []) refs))
            (projection [] 0 (Some sel))))"

section \<open>Extraction\<close>

definition fqn :: "string \<Rightarrow> string \<Rightarrow> string" where
  "fqn schema table =
     (let schema = TrimSpace schema; table = TrimSpace table in
      if schema = [] then table else schema @ ''.'' @ table)"

definition normalizeDialect :: "string \<Rightarrow> string" where
  "normalizeDialect sql =
     (if CHR 0x60 \<notin> set sql then sql else ReplaceAll sql [CHR 0x60] [CHR 0x22])"

text \<open>
  \<open>deparse\<close> is \<^verbatim>\<open>pg_query.Deparse\<close> on a one-statement result, \<open>sha256_hex8\<close> the hex
  form of the first eight bytes of SHA-256.
\<close>

record sql_tools =
  st_parse :: parser
  st_deparse :: "node \<Rightarrow> string option"
  st_sha256_hex8 :: "string \<Rightarrow> string"

definition stringifyNode :: "sql_tools \<Rightarrow> node option \<Rightarrow> string" where
  "stringifyNode T n =
     (case n of None \<Rightarrow> [] | Some x \<Rightarrow> (case st_deparse T x of Some s \<Rightarrow> s | None \<Rightarrow> []))"

definition QueryHash :: "sql_tools \<Rightarrow> string \<Rightarrow> string" where
  "QueryHash T sql = st_sha256_hex8 T (ToLower (TrimSpace sql))"

definition table_edges :: "string \<Rightarrow> string \<Rightarrow> table_ref list \<Rightarrow> edge list" where
  "table_edges downstream hash tables =
     map (\<lambda>t. \<lparr>UpstreamFQN = fqn (Schema t) (Table t), DownstreamFQN = downstream, EdgeType = ''table'',
               Origin = [], Confidence = [], EdgeHash = hash\<rparr>) tables"

definition edgesFromSelect :: "sql_tools \<Rightarrow> node option \<Rightarrow> string \<Rightarrow> string \<Rightarrow> edge list go" where
  "edgesFromSelect T n downstream hash =
     bind_go (ExtractTables (st_parse T) (stringifyNode T n)) (\<lambda>tables.
       Ok (table_edges downstream hash tables @ resolveColumns n downstream hash))"

fun edges_of_froms :: "sql_tools \<Rightarrow> node list \<Rightarrow> string \<Rightarrow> string \<Rightarrow> edge list go" where
  "edges_of_froms T [] downstream hash = Ok []"
| "edges_of_froms T (n # ns) downstream hash =
     bind_go (ExtractTables (st_parse T) (stringifyNode T (Some n))) (\<lambda>tables.
     bind_go (edges_of_froms T ns downstream hash) (\<lambda>rest.
       Ok (table_edges downstream hash tables @ rest)))"

definition rel_fqn :: "range_var \<Rightarrow> string" where
  "rel_fqn rv = fqn (rv_Schemaname rv) (rv_Relname rv)"

definition edgesFromStmt :: "sql_tools \<Rightarrow> node option \<Rightarrow> string \<Rightarrow> edge list go" where
  "edgesFromStmt T n hash =
     (case n of
        Some (Insert_node rel sel) \<Rightarrow> edgesFromSelect T sel (rel_fqn rel) hash
      | Some (Update_node rel froms) \<Rightarrow> edges_of_froms T froms (rel_fqn rel) hash
      | Some (Create_table_as_node (Some rel) query) \<Rightarrow> edgesFromSelect T query (rel_fqn rel) hash
      | Some (View_node (Some rel) query) \<Rightarrow> edgesFromSelect T query (rel_fqn rel) hash
      | Some (Merge_node (Some rel) source) \<Rightarrow>
          bind_go (ExtractTables (st_parse T) (stringifyNode T source)) (\<lambda>tables. Ok (table_edges (rel_fqn rel) hash tables))
      | _ \<Rightarrow> Ok [])"

fun dedupe_edges_from :: "edge list \<Rightarrow> edge list \<Rightarrow> edge list" where
  "dedupe_edges_from seen [] = []"
| "dedupe_edges_from seen (e # es) =
     (if UpstreamFQN e = [] \<or> DownstreamFQN e = [] then dedupe_edges_from seen es
      else if e \<in> set seen then dedupe_edges_from seen es
      else e # dedupe_edges_from (e # seen) es)"

definition dedupeEdges :: "edge list \<Rightarrow> edge list" where
  "dedupeEdges es = dedupe_edges_from [] es"

definition default_edge :: "edge \<Rightarrow> edge" where
  "default_edge e =
     e\<lparr>Origin := (if Origin e = [] then ''runtime'' else Origin e),
       Confidence := (if Confidence e = [] then confExact else Confidence e)\<rparr>"

fun edges_of_stmts :: "sql_tools \<Rightarrow> node option list \<Rightarrow> string \<Rightarrow> edge list go" where
  "edges_of_stmts T [] hash = Ok []"
| "edges_of_stmts T (n # ns) hash =
     bind_go (edgesFromStmt T n hash) (\<lambda>es.
     bind_go (edges_of_stmts T ns hash) (\<lambda>rest. Ok (es @ rest)))"

definition Extract :: "sql_tools \<Rightarrow> string \<Rightarrow> edge list go" where
  "Extract T sql =
     (case st_parse T (normalizeDialect sql) of
        Err _ \<Rightarrow> Ok []
      | Panic \<Rightarrow> Panic
      | Ok stmts \<Rightarrow>
          bind_go (edges_of_stmts T stmts (QueryHash T sql)) (\<lambda>es. Ok (map default_edge (dedupeEdges es))))"

section \<open>The edge table\<close>

text \<open>
  \<^verbatim>\<open>lineage_edge\<close> with the columns and CHECK constraints of
  \<^verbatim>\<open>migrations/0003\<close> and \<^verbatim>\<open>0020\<close>. The outcome of the i-th statement of a call is a
  parameter: \<open>Some e\<close> is a driver error, which covers a lost connection and an unknown customer.
\<close>

record lineage_row =
  le_customer :: uuid
  le_upstream :: string
  le_downstream :: string
  le_type :: string
  le_origin :: string
  le_confidence :: string
  le_hash :: string
  le_last_seen :: int
  le_count :: int

type_synonym edge_key = "uuid \<times> string \<times> string \<times> string \<times> string"

definition row_key :: "lineage_row \<Rightarrow> edge_key" where
  "row_key r = (le_customer r, le_upstream r, le_downstream r, le_type r, le_origin r)"

definition row_check :: "lineage_row \<Rightarrow> bool" where
  "row_check r \<longleftrightarrow>
     le_type r \<in> {''table'', ''column''} \<and> le_origin r \<in> {''runtime'', ''source_code''} \<and>
     le_confidence r \<in> {''exact'', ''ambiguous'', ''table_only''}"

definition upsert_row :: "lineage_row \<Rightarrow> lineage_row list \<Rightarrow> lineage_row list" where
  "upsert_row n rs =
     (if row_key n \<in> row_key ` set rs
      then map (\<lambda>r. if row_key r = row_key n
                     then r\<lparr>le_last_seen := le_last_seen n, le_confidence := le_confidence n, le_count := le_count r + 1\<rparr>
                     else r) rs
      else rs @ [n])"

definition edge_row :: "uuid \<Rightarrow> int \<Rightarrow> edge \<Rightarrow> lineage_row" where
  "edge_row customerID now e =
     (let e = default_edge e in
      \<lparr>le_customer = customerID, le_upstream = UpstreamFQN e, le_downstream = DownstreamFQN e, le_type = EdgeType e,
       le_origin = Origin e, le_confidence = Confidence e, le_hash = EdgeHash e, le_last_seen = now, le_count = 1\<rparr>)"

fun write_from :: "(nat \<Rightarrow> go_error option) \<Rightarrow> nat \<Rightarrow> int \<Rightarrow> uuid \<Rightarrow> edge list \<Rightarrow> lineage_row list \<Rightarrow> unit go \<times> lineage_row list" where
  "write_from exec i now customerID [] rs = (Ok (), rs)"
| "write_from exec i now customerID (e # es) rs =
     (case exec i of
        Some er \<Rightarrow> (Err er, rs)
      | None \<Rightarrow>
          if row_check (edge_row customerID now e)
          then write_from exec (i + 1) now customerID es (upsert_row (edge_row customerID now e) rs)
          else (Err constraint_violation, rs))"

definition Write :: "(nat \<Rightarrow> go_error option) \<Rightarrow> int \<Rightarrow> uuid \<Rightarrow> edge list \<Rightarrow> lineage_row list \<Rightarrow> unit go \<times> lineage_row list" where
  "Write exec now customerID es rs = write_from exec 0 now customerID es rs"

definition row_edge :: "lineage_row \<Rightarrow> edge" where
  "row_edge r =
     \<lparr>UpstreamFQN = le_upstream r, DownstreamFQN = le_downstream r, EdgeType = le_type r, Origin = le_origin r,
      Confidence = le_confidence r, EdgeHash = le_hash r\<rparr>"

definition Upstream :: "go_error option \<Rightarrow> uuid \<Rightarrow> string \<Rightarrow> lineage_row list \<Rightarrow> edge list go" where
  "Upstream fail customerID name rs =
     (case fail of Some e \<Rightarrow> Err e
      | None \<Rightarrow> Ok (map row_edge (filter (\<lambda>r. le_customer r = customerID \<and> le_downstream r = name) rs)))"

definition Downstream :: "go_error option \<Rightarrow> uuid \<Rightarrow> string \<Rightarrow> lineage_row list \<Rightarrow> edge list go" where
  "Downstream fail customerID name rs =
     (case fail of Some e \<Rightarrow> Err e
      | None \<Rightarrow> Ok (map row_edge (filter (\<lambda>r. le_customer r = customerID \<and> le_upstream r = name) rs)))"

section \<open>Recording one query\<close>

definition maxRuntimeSQLBytes :: nat where
  "maxRuntimeSQLBytes = 256 * 1024"

definition RecordQuery ::
  "sql_tools \<Rightarrow> (nat \<Rightarrow> go_error option) \<Rightarrow> int \<Rightarrow> uuid \<Rightarrow> string \<Rightarrow> lineage_row list \<Rightarrow> bool go \<times> lineage_row list" where
  "RecordQuery T exec now customerID sql rs =
     (if length sql > maxRuntimeSQLBytes then (Ok True, rs)
      else (case Extract T sql of
              Err e \<Rightarrow> (Err e, rs)
            | Panic \<Rightarrow> (Panic, rs)
            | Ok es \<Rightarrow>
                if es = [] then (Ok False, rs)
                else (case Write exec now customerID es rs of
                        (Ok _, rs') \<Rightarrow> (Ok False, rs')
                      | (Err e, rs') \<Rightarrow> (Err e, rs')
                      | (Panic, rs') \<Rightarrow> (Panic, rs'))))"

section \<open>Column lineage names tables of the statement\<close>

definition table_name :: "table_ref \<Rightarrow> string" where
  "table_name t = (if Schema t \<noteq> [] then Schema t @ ''.'' @ Table t else Table t)"

text \<open>\<open>tabs ts\<close>: the relations with one of the references \<open>ts\<close>, or without a name.\<close>

definition tabs :: "table_ref set \<Rightarrow> string set" where
  "tabs ts = table_name ` (ts \<union> {t. Table t = []})"

definition ref_ok :: "table_ref set \<Rightarrow> col_ref \<Rightarrow> bool" where
  "ref_ok ts r \<longleftrightarrow> cr_conf r \<in> {confExact, confAmbiguous} \<and> (\<exists>b\<in>tabs ts. \<exists>c. cr_fqn r = b @ ''.'' @ c)"

definition proj_ok :: "table_ref set \<Rightarrow> proj_map \<Rightarrow> bool" where
  "proj_ok ts p \<longleftrightarrow> (\<forall>k refs r. (k, refs) \<in> set p \<longrightarrow> r \<in> set refs \<longrightarrow> ref_ok ts r)"

definition ctes_ok :: "table_ref set \<Rightarrow> (string \<times> proj_map) list \<Rightarrow> bool" where
  "ctes_ok ts cs \<longleftrightarrow> (\<forall>k p. (k, p) \<in> set cs \<longrightarrow> proj_ok ts p)"

definition scope_ok :: "table_ref set \<Rightarrow> scope \<Rightarrow> bool" where
  "scope_ok ts sc \<longleftrightarrow> snd ` set (sc_tables sc) \<subseteq> tabs ts \<and> set (sc_bases sc) \<subseteq> tabs ts \<and> ctes_ok ts (sc_derived sc)"

lemma in_put: "(k', v') \<in> set (put k v xs) \<Longrightarrow> (k', v') = (k, v) \<or> (k', v') \<in> set xs"
  by (induction k v xs rule: put.induct) (auto split: if_splits)

lemma map_of_put: "map_of (put k v xs) = (map_of xs)(k \<mapsto> v)"
  by (induction k v xs rule: put.induct) (auto simp: fun_eq_iff)

lemma ctes_ok_put: "ctes_ok ts cs \<Longrightarrow> proj_ok ts p \<Longrightarrow> ctes_ok ts (put k p cs)"
  by (auto simp: ctes_ok_def dest!: in_put)

lemma cols_of_ok: "proj_ok ts p \<Longrightarrow> r \<in> set (cols_of p k) \<Longrightarrow> ref_ok ts r"
  by (cases "map_of p k") (auto simp: proj_ok_def cols_of_def dest: map_of_SomeD)

lemma proj_append_ok:
  "proj_ok ts p \<Longrightarrow> \<forall>r\<in>set refs. ref_ok ts r \<Longrightarrow> proj_ok ts (proj_append k refs p)"
  unfolding proj_append_def proj_ok_def [of _ "put k _ p"]
  by (auto dest!: in_put simp: cols_of_ok) (auto simp: proj_ok_def)

lemma merge_arms_ok: "proj_ok ts l \<Longrightarrow> proj_ok ts r \<Longrightarrow> proj_ok ts (merge_arms l r)"
proof (induction r arbitrary: l)
  case (Cons kv r)
  obtain k v where "kv = (k, v)" by (cases kv)
  with Cons.prems have "proj_ok ts (proj_append k v l)" "proj_ok ts r"
    by (intro proj_append_ok, simp, simp add: proj_ok_def, simp add: proj_ok_def)
  from Cons.IH [OF this] \<open>kv = (k, v)\<close> show ?case by (simp add: merge_arms_def)
qed (simp add: merge_arms_def)

lemma resolveColumn_ok:
  assumes "scope_ok ts sc" and "r \<in> set (resolveColumn sc fs)"
  shows "ref_ok ts r"
proof -
  have t: "f \<in> tabs ts" if "map_of (sc_tables sc) q = Some f" for q f
    using assms(1) map_of_SomeD [OF that] unfolding scope_ok_def by force
  have d: "proj_ok ts dp" if "(q, dp) \<in> set (sc_derived sc)" for q dp
    using assms(1) that by (auto simp: scope_ok_def ctes_ok_def)
  have b: "ref_ok ts \<lparr>cr_fqn = x @ CHR ''.'' # c, cr_conf = k\<rparr>"
    if "x \<in> tabs ts" "k \<in> {confExact, confAmbiguous}" for x c k
    using that by (auto simp: ref_ok_def)
  have b': "x \<in> tabs ts" if "x \<in> set (sc_bases sc)" for x
    using assms(1) that by (auto simp: scope_ok_def)
  have amb: "ref_ok ts \<lparr>cr_fqn = cr_fqn x, cr_conf = confAmbiguous\<rparr>" if "ref_ok ts x" for x
    using that by (auto simp: ref_ok_def)
  have h: "sc_bases sc \<noteq> [] \<Longrightarrow> hd (sc_bases sc) \<in> tabs ts" using b' by simp
  have h2: "sc_derived sc \<noteq> [] \<Longrightarrow> proj_ok ts (snd (hd (sc_derived sc)))"
    using d [of "fst (hd (sc_derived sc))" "snd (hd (sc_derived sc))"] by simp
  obtain parts star where pf: "fieldNames fs = (parts, star)" by fastforce
  show ?thesis
  proof (cases "2 \<le> length parts")
    case True
    let ?q = "lower (parts ! (length parts - 2))"
    show ?thesis
      using assms(2) pf True t [of ?q] b d [OF map_of_SomeD, of ?q] cols_of_ok
      by (cases "map_of (sc_tables sc) ?q"; cases "map_of (sc_derived sc) ?q")
         (auto simp: resolveColumn_def Let_def split: if_splits)
  next
    case False
    then show ?thesis using assms(2) pf b b' h h2
      by (auto simp: resolveColumn_def Let_def length_Suc_conv split: if_splits dest: d cols_of_ok intro!: b amb)
  qed
qed

lemma target_ok:
  "scope_ok ts sc \<Longrightarrow> proj_ok ts p \<Longrightarrow> proj_ok ts (proj_append k (concat (map (resolveColumn sc) xs)) p)"
  by (auto intro!: proj_append_ok dest: resolveColumn_ok)

lemma project_targets_ok: "scope_ok ts sc \<Longrightarrow> proj_ok ts p \<Longrightarrow> proj_ok ts (project_targets sc tgts p)"
  by (induction sc tgts p rule: project_targets.induct) (auto simp: target_ok split: option.splits)

lemma add_table_ok:
  assumes "ctes_ok ts ctes" "scope_ok ts sc" "set (walkProto (Range_var_node rv)) \<subseteq> ts"
  shows "scope_ok ts (add_table ctes rv sc)"
proof -
  let ?f = "if rv_Schemaname rv \<noteq> [] then rv_Schemaname rv @ ''.'' @ rv_Relname rv else rv_Relname rv"
  have "\<lparr>Schema = rv_Schemaname rv, Table = rv_Relname rv\<rparr> \<in> ts \<union> {t. Table t = []}"
    using assms(3) by (cases "rv_Relname rv = []") auto
  then have "table_name \<lparr>Schema = rv_Schemaname rv, Table = rv_Relname rv\<rparr> \<in> tabs ts"
    unfolding tabs_def by (rule imageI)
  then have f: "?f \<in> tabs ts" by (cases "rv_Schemaname rv = []") (simp_all add: table_name_def)
  have c: "map_of ctes k = Some p \<Longrightarrow> proj_ok ts p" for k p
    using assms(1) by (auto simp: ctes_ok_def dest: map_of_SomeD)
  have t: "snd ` set (put k ?f (sc_tables sc)) \<subseteq> tabs ts" for k
    using assms(2) f by (auto simp: scope_ok_def dest!: in_put)
  show ?thesis
  proof (cases "rv_Schemaname rv = [] \<and> map_of ctes (lower (rv_Relname rv)) \<noteq> None")
    case True
    then obtain p where "map_of ctes (lower (rv_Relname rv)) = Some p" "rv_Schemaname rv = []" by blast
    with c [of _ p] assms(2) show ?thesis by (simp add: add_table_def scope_ok_def Let_def ctes_ok_put)
  next
    case False
    then have "add_table ctes rv sc = sc\<lparr>sc_tables := put k ?f (sc_tables sc), sc_bases := sc_bases sc @ [?f]\<rparr>"
      if "k = lower (case rv_Alias rv of Some a \<Rightarrow> if a \<noteq> [] then a else rv_Relname rv | None \<Rightarrow> rv_Relname rv)" for k
      using that by (auto simp: add_table_def Let_def split: option.splits)
    then show ?thesis using assms(2) f t by (simp add: scope_ok_def)
  qed
qed

lemma GetSelectStmt_Some [simp]: "GetSelectStmt (Some (Select_node s)) = Some s"
  by (simp add: GetSelectStmt_def)

lemma Get_eqs:
  "GetRangeVar n = Some rv \<longleftrightarrow> n = Range_var_node rv"
  "GetRangeSubselect n = Some (a, q) \<longleftrightarrow> n = Range_subselect_node a q"
  "GetJoinExpr n = Some (l, r) \<longleftrightarrow> n = Join_node l r"
  "GetCommonTableExpr n = Some (name, q) \<longleftrightarrow> n = Cte_node name q"
  "GetSelectStmt m = Some s \<longleftrightarrow> m = Some (Select_node s)"
  by (auto simp: GetRangeVar_def GetRangeSubselect_def GetJoinExpr_def GetCommonTableExpr_def GetSelectStmt_def
      split: node.splits option.splits)

lemma walkSelect_parts:
  "set (walkSelect s) \<subseteq> ts \<Longrightarrow>
     set (concat (map walkProto (sel_FromClause s))) \<subseteq> ts \<and> set (walk_opt (sel_WhereClause s)) \<subseteq> ts \<and>
     set (concat (map walkProto (sel_Ctes s))) \<subseteq> ts \<and>
     (\<forall>l. sel_Larg s = Some l \<longrightarrow> set (walkSelect l) \<subseteq> ts) \<and> (\<forall>r. sel_Rarg s = Some r \<longrightarrow> set (walkSelect r) \<subseteq> ts)"
  by (cases s) (auto simp: walk_opt_def split: option.splits)

lemma projection_ok_all:
  "(\<forall>ts. ctes_ok ts ctes \<longrightarrow> (\<forall>s. sel = Some s \<longrightarrow> set (walkSelect s) \<subseteq> ts) \<longrightarrow> proj_ok ts (projection ctes depth sel))"
  "(\<forall>ts. ctes_ok ts ctes \<longrightarrow> set (concat (map walkProto ns)) \<subseteq> ts \<longrightarrow> ctes_ok ts (bind_ctes ctes depth ns))"
  "(\<forall>ts. ctes_ok ts ctes \<longrightarrow> scope_ok ts sc \<longrightarrow> set (concat (map walkProto ns)) \<subseteq> ts \<longrightarrow> scope_ok ts (add_froms ctes depth ns sc))"
  "(\<forall>ts. ctes_ok ts ctes \<longrightarrow> scope_ok ts sc \<longrightarrow> (\<forall>n. no = Some n \<longrightarrow> set (walkProto n) \<subseteq> ts) \<longrightarrow> scope_ok ts (addFrom ctes depth no sc))"
proof (induction ctes depth sel and ctes depth ns and ctes depth ns sc and ctes depth no sc
       rule: projection_bind_ctes_add_froms_addFrom.induct)
  case (1 ctes depth sel)
  have e: "proj_ok ts []" "scope_ok ts empty_scope" for ts
    by (simp_all add: proj_ok_def scope_ok_def empty_scope_def ctes_ok_def)
  show ?case
  proof (intro allI impI)
    fix ts
    assume c: "ctes_ok ts ctes" and w: "\<forall>s. sel = Some s \<longrightarrow> set (walkSelect s) \<subseteq> ts"
    show "proj_ok ts (projection ctes depth sel)"
    proof (cases sel)
      case None
      then show ?thesis by (simp add: projection.simps e)
    next
      case (Some s)
      with w have ws: "set (walkSelect s) \<subseteq> ts" by simp
      note p = projection.simps [of ctes depth sel, unfolded Some option.case]
      show ?thesis
      proof (cases "depth > maxColDepth")
        case True
        then show ?thesis unfolding Some p by (simp only: if_True e)
      next
        case False
        note ih = 1 [OF Some False, rule_format]
        show ?thesis
        proof (cases "sel_Larg s \<noteq> None \<or> sel_Rarg s \<noteq> None")
          case True
          have "proj_ok ts (projection ctes (depth + 1) (sel_Larg s))" "proj_ok ts (projection ctes (depth + 1) (sel_Rarg s))"
            using ih(1,2) [OF True c] walkSelect_parts [OF ws] by blast+
          then show ?thesis unfolding Some p by (simp only: False True if_False if_True merge_arms_ok)
        next
          case n: False
          have "ctes_ok ts (bind_ctes ctes depth (sel_Ctes s))"
            using ih(3) [OF n c] walkSelect_parts [OF ws] by blast
          from ih(4) [OF n this e(2)] walkSelect_parts [OF ws]
          have "scope_ok ts (add_froms (bind_ctes ctes depth (sel_Ctes s)) depth (sel_FromClause s) empty_scope)"
            by blast
          then show ?thesis unfolding Some p by (simp only: False n if_False project_targets_ok e)
        qed
      qed
    qed
  qed
next
  case (2 ctes depth)
  then show ?case by simp
next
  case (3 ctes depth n ns)
  then show ?case by (auto simp: Get_eqs ctes_ok_put split: option.splits)
next
  case (4 ctes depth sc)
  then show ?case by simp
next
  case (5 ctes depth n ns sc)
  then show ?case by simp
next
  case (6 ctes depth sc)
  then show ?case by simp
next
  case (7 ctes depth n sc)
  have sub: "scope_ok ts (sc\<lparr>sc_derived := put k p (sc_derived sc)\<rparr>)" if "scope_ok ts sc" "proj_ok ts p" for ts k p
    using that by (simp add: scope_ok_def ctes_ok_put)
  show ?case
  proof (cases n)
    case (Range_var_node rv)
    then show ?thesis by (simp add: GetRangeVar_def add_table_ok)
  next
    case (Range_subselect_node al q)
    then have g: "GetRangeVar n = None" "GetRangeSubselect n = Some (al, q)" by (simp_all add: GetRangeVar_def GetRangeSubselect_def)
    show ?thesis
      using 7(3) [OF g] Range_subselect_node sub
      by (cases al; cases "GetSelectStmt q") (auto simp: GetRangeVar_def GetRangeSubselect_def Get_eqs)
  next
    case (Join_node l r)
    then have g: "GetRangeVar n = None" "GetRangeSubselect n = None" "GetJoinExpr n = Some (l, r)"
      by (simp_all add: GetRangeVar_def GetRangeSubselect_def GetJoinExpr_def)
    show ?thesis
      using 7(1,2) [OF g refl] Join_node by (auto simp: GetRangeVar_def GetRangeSubselect_def GetJoinExpr_def split: option.splits)
  qed (simp_all add: GetRangeVar_def GetRangeSubselect_def GetJoinExpr_def)
qed

lemma resolveColumns_ok:
  assumes "e \<in> set (resolveColumns q d h)"
  shows "\<exists>s r k. q = Some (Select_node s) \<and> ref_ok (set (walkSelect s)) r \<and> UpstreamFQN e = cr_fqn r \<and> cr_fqn r \<noteq> [] \<and>
    DownstreamFQN e = d @ ''.'' @ k \<and> EdgeType e = ''column'' \<and> Origin e = [] \<and> Confidence e = cr_conf r \<and> EdgeHash e = h"
proof (cases "GetSelectStmt q")
  case (Some s)
  have "proj_ok (set (walkSelect s)) (projection [] 0 (Some s))"
    using projection_ok_all(1) [of "[]" "Some s" 0] by (simp add: ctes_ok_def)
  with assms Some show ?thesis
    by (auto simp: resolveColumns_def Get_eqs proj_ok_def) blast
qed (use assms in \<open>simp add: resolveColumns_def\<close>)

section \<open>The edges of a statement\<close>

text \<open>What the extraction produces before the defaults are filled in.\<close>

definition raw_edge :: "edge \<Rightarrow> bool" where
  "raw_edge e \<longleftrightarrow> Origin e = [] \<and>
     (EdgeType e = ''table'' \<and> Confidence e = [] \<or> EdgeType e = ''column'' \<and> Confidence e \<in> {confExact, confAmbiguous})"

definition edges_ok :: "edge list go \<Rightarrow> bool" where
  "edges_ok r \<longleftrightarrow> (\<exists>es. r = Ok es \<and> (\<forall>e\<in>set es. raw_edge e))"

lemma table_edges_raw: "e \<in> set (table_edges d h ts) \<Longrightarrow> raw_edge e"
  by (auto simp: table_edges_def raw_edge_def)

lemma resolveColumns_raw: "e \<in> set (resolveColumns q d h) \<Longrightarrow> raw_edge e"
  by (auto dest!: resolveColumns_ok simp: raw_edge_def ref_ok_def)

definition parser_returns :: "sql_tools \<Rightarrow> bool" where
  "parser_returns T \<longleftrightarrow> (\<forall>s. st_parse T s \<noteq> Panic)"

lemma edges_ok_bind:
  "parser_returns T \<Longrightarrow> (\<And>ts. edges_ok (f ts)) \<Longrightarrow> edges_ok (bind_go (ExtractTables (st_parse T) s) f)"
  using ExtractTables_ok [of "st_parse T" s] by (auto simp: parser_returns_def)

lemma edges_ok_append:
  "edges_ok r \<Longrightarrow> \<forall>e\<in>set es. raw_edge e \<Longrightarrow> edges_ok (bind_go r (\<lambda>rest. Ok (es @ rest)))"
  by (auto simp: edges_ok_def)

lemma edgesFromSelect_ok: "parser_returns T \<Longrightarrow> edges_ok (edgesFromSelect T n d h)"
  unfolding edgesFromSelect_def
  by (rule edges_ok_bind) (auto simp: edges_ok_def table_edges_raw resolveColumns_raw)

lemma edges_of_froms_ok: "parser_returns T \<Longrightarrow> edges_ok (edges_of_froms T ns d h)"
  by (induction ns) (auto simp: edges_ok_def [of "Ok []"] intro!: edges_ok_bind edges_ok_append table_edges_raw)

lemma edgesFromStmt_ok: "parser_returns T \<Longrightarrow> edges_ok (edgesFromStmt T n h)"
  unfolding edgesFromStmt_def
  by (auto simp: edges_ok_def [of "Ok _"] edgesFromSelect_ok edges_of_froms_ok intro!: edges_ok_bind
      intro: table_edges_raw split: option.split node.split)

lemma edges_of_stmts_ok: "parser_returns T \<Longrightarrow> edges_ok (edges_of_stmts T ns h)"
proof (induction ns)
  case (Cons n ns)
  then obtain es where "edgesFromStmt T n h = Ok es" "\<forall>e\<in>set es. raw_edge e"
    using edgesFromStmt_ok [of T n h] by (auto simp: edges_ok_def)
  with Cons edges_ok_append show ?case by simp
qed (simp add: edges_ok_def)

lemma dedupe_edges_from_props:
  "distinct (dedupe_edges_from seen es)"
  "set (dedupe_edges_from seen es) = {e \<in> set es. UpstreamFQN e \<noteq> [] \<and> DownstreamFQN e \<noteq> []} - set seen"
  by (induction seen es rule: dedupe_edges_from.induct) auto

lemma inj_default_edge: "inj_on default_edge {e. raw_edge e}"
proof (rule inj_on_inverseI)
  fix e :: edge
  assume "e \<in> {e. raw_edge e}"
  then show "(\<lambda>e. e\<lparr>Origin := [], Confidence := (if EdgeType e = ''table'' then [] else Confidence e)\<rparr>) (default_edge e) = e"
    by (cases e) (auto simp: raw_edge_def default_edge_def confExact_def confAmbiguous_def)
qed

lemma Extract_ok:
  assumes "parser_returns T"
  obtains es where "Extract T sql = Ok (map default_edge es)" "distinct es"
    "\<forall>e\<in>set es. raw_edge e \<and> UpstreamFQN e \<noteq> [] \<and> DownstreamFQN e \<noteq> []"
proof (cases "st_parse T (normalizeDialect sql)")
  case (Ok stmts)
  obtain es where "edges_of_stmts T stmts (QueryHash T sql) = Ok es" "\<forall>e\<in>set es. raw_edge e"
    using edges_of_stmts_ok [OF assms] unfolding edges_ok_def by blast
  then show ?thesis
    using Ok by (intro that [of "dedupeEdges es"]) (auto simp: Extract_def dedupeEdges_def dedupe_edges_from_props)
next
  case (Err e)
  then show ?thesis by (intro that [of "[]"]) (auto simp: Extract_def)
next
  case Panic
  then show ?thesis using assms by (simp add: parser_returns_def)
qed

lemma raw_edge_check: "raw_edge e \<Longrightarrow> row_check (edge_row cid now e)"
  by (auto simp: raw_edge_def row_check_def edge_row_def default_edge_def confExact_def confAmbiguous_def Let_def)

lemma default_edge_idem: "default_edge (default_edge e) = default_edge e"
  by (simp add: default_edge_def confExact_def)

lemma default_edge_ends [simp]:
  "UpstreamFQN (default_edge e) = UpstreamFQN e" "DownstreamFQN (default_edge e) = DownstreamFQN e"
  by (simp_all add: default_edge_def)

lemma edge_row_default: "edge_row cid now (default_edge e) = edge_row cid now e"
  by (simp add: edge_row_def default_edge_idem)

section \<open>Upserts\<close>

text \<open>The edge table as a map from keys to the number of times an edge was seen.\<close>

definition edge_counts :: "lineage_row list \<Rightarrow> edge_key \<rightharpoonup> int" where
  "edge_counts rs = map_of (map (\<lambda>r. (row_key r, le_count r)) rs)"

definition unique_keys :: "lineage_row list \<Rightarrow> bool" where
  "unique_keys rs \<longleftrightarrow> distinct (map row_key rs)"

definition bump :: "int \<Rightarrow> int option \<Rightarrow> int option" where
  "bump n c = (if n = 0 then c else Some (n + (case c of None \<Rightarrow> 0 | Some x \<Rightarrow> x)))"

lemma row_key_update [simp]:
  "row_key (r\<lparr>le_last_seen := x, le_confidence := y, le_count := z\<rparr>) = row_key r"
  by (simp add: row_key_def)

lemma edge_counts_None: "edge_counts rs k = None \<longleftrightarrow> k \<notin> row_key ` set rs"
  by (auto simp: edge_counts_def map_of_eq_None_iff image_image)

lemma edge_counts_map:
  "edge_counts (map (\<lambda>r. if row_key r = k0 then r\<lparr>le_last_seen := x, le_confidence := y, le_count := le_count r + 1\<rparr> else r) rs) k
    = (if k = k0 then map_option (\<lambda>c. c + 1) (edge_counts rs k) else edge_counts rs k)"
  by (induction rs) (auto simp: edge_counts_def)

lemma edge_counts_upsert:
  assumes "le_count n = 1"
  shows "edge_counts (upsert_row n rs) k = bump (of_bool (k = row_key n)) (edge_counts rs k)"
proof (cases "row_key n \<in> row_key ` set rs")
  case True
  then show ?thesis using edge_counts_None [of rs k]
    by (auto simp: upsert_row_def edge_counts_map bump_def split: option.splits)
next
  case False
  then have n: "edge_counts rs (row_key n) = None" by (simp add: edge_counts_None)
  have "edge_counts (rs @ [n]) k = (case edge_counts rs k of None \<Rightarrow> if k = row_key n then Some 1 else None | Some c \<Rightarrow> Some c)"
    using assms by (auto simp: edge_counts_def map_add_def map_of_append split: option.splits)
  then show ?thesis using False n by (auto simp: upsert_row_def bump_def split: option.splits)
qed

lemma unique_upsert: "unique_keys rs \<Longrightarrow> unique_keys (upsert_row n rs)"
  by (auto simp: unique_keys_def upsert_row_def comp_def if_distrib cong: if_cong)

lemma others_upsert:
  assumes "le_customer n = cid"
  shows "filter (\<lambda>r. le_customer r \<noteq> cid) (upsert_row n rs) = filter (\<lambda>r. le_customer r \<noteq> cid) rs"
proof -
  let ?f = "\<lambda>r. if row_key r = row_key n
                 then r\<lparr>le_last_seen := le_last_seen n, le_confidence := le_confidence n, le_count := le_count r + 1\<rparr> else r"
  have "filter (\<lambda>r. le_customer r \<noteq> cid) (map ?f rs) = filter (\<lambda>r. le_customer r \<noteq> cid) rs"
    using assms by (induction rs) (auto simp: row_key_def)
  then show ?thesis using assms by (simp add: upsert_row_def)
qed

definition edge_key_of :: "uuid \<Rightarrow> edge \<Rightarrow> edge_key" where
  "edge_key_of cid e = row_key (edge_row cid 0 e)"

lemma row_key_edge_row [simp]: "row_key (edge_row cid now e) = edge_key_of cid e" "le_customer (edge_row cid now e) = cid"
    "le_count (edge_row cid now e) = 1"
  by (simp_all add: edge_key_of_def row_key_def edge_row_def Let_def)

definition occurrences :: "uuid \<Rightarrow> edge_key \<Rightarrow> edge list \<Rightarrow> int" where
  "occurrences cid k es = int (length (filter (\<lambda>e. edge_key_of cid e = k) es))"

lemma bump_bump: "0 \<le> m \<Longrightarrow> 0 \<le> n \<Longrightarrow> bump m (bump n c) = bump (n + m) c"
  by (auto simp: bump_def split: option.splits)

lemma write_from_spec:
  assumes "write_from exec i now cid es rs = (res, rs')"
  shows "\<exists>j\<le>length es. (res = Ok () \<longleftrightarrow> j = length es) \<and> res \<noteq> Panic \<and>
    (unique_keys rs \<longrightarrow> unique_keys rs') \<and>
    filter (\<lambda>r. le_customer r \<noteq> cid) rs' = filter (\<lambda>r. le_customer r \<noteq> cid) rs \<and>
    (\<forall>k. edge_counts rs' k = bump (occurrences cid k (take j es)) (edge_counts rs k))"
  using assms
proof (induction exec i now cid es rs rule: write_from.induct)
  case (1 exec i now cid rs)
  then show ?case by (auto simp: occurrences_def bump_def)
next
  case (2 exec i now cid e es rs)
  show ?case
  proof (cases "exec i = None \<and> row_check (edge_row cid now e)")
    case True
    let ?rs = "upsert_row (edge_row cid now e) rs"
    from True 2 obtain j where j: "j \<le> length es" "res = Ok () \<longleftrightarrow> j = length es" "res \<noteq> Panic"
      "unique_keys ?rs \<longrightarrow> unique_keys rs'"
      "filter (\<lambda>r. le_customer r \<noteq> cid) rs' = filter (\<lambda>r. le_customer r \<noteq> cid) ?rs"
      "\<forall>k. edge_counts rs' k = bump (occurrences cid k (take j es)) (edge_counts ?rs k)"
      by auto
    have "edge_counts rs' k = bump (occurrences cid k (take (Suc j) (e # es))) (edge_counts rs k)" for k
      using j(6) [rule_format, of k] by (cases "edge_key_of cid e = k") (simp_all add: edge_counts_upsert bump_bump occurrences_def)
    with j unique_upsert others_upsert show ?thesis by (intro exI [of _ "Suc j"]) auto
  next
    case False
    with 2(2) have "res \<noteq> Ok () \<and> res \<noteq> Panic \<and> rs' = rs" by (auto split: option.splits if_splits)
    then show ?thesis by (intro exI [of _ 0]) (auto simp: occurrences_def bump_def)
  qed
qed

lemma write_from_ok:
  "\<forall>i. exec i = None \<Longrightarrow> \<forall>e\<in>set es. row_check (edge_row cid now e) \<Longrightarrow> fst (write_from exec i now cid es rs) = Ok ()"
  by (induction exec i now cid es rs rule: write_from.induct) auto

lemma Extract_write_ok:
  assumes "parser_returns T" and "Extract T sql = Ok es"
  shows "fst (Write (\<lambda>_. None) now cid es rs) = Ok ()"
proof -
  obtain es0 where "Extract T sql = Ok (map default_edge es0)" "distinct es0"
      "\<forall>e\<in>set es0. raw_edge e \<and> UpstreamFQN e \<noteq> [] \<and> DownstreamFQN e \<noteq> []"
    using Extract_ok [OF assms(1)] .
  then show ?thesis
    using assms(2) unfolding Write_def by (intro write_from_ok) (auto simp: edge_row_default raw_edge_check)
qed

section \<open>Properties\<close>

text \<open>A statement \<^verbatim>\<open>INSERT INTO d.t SELECT o.a, b AS s FROM s.o\<close> for the examples.\<close>

definition example_select :: select_stmt where
  "example_select =
     Select_stmt [Res_target_node [] (Some (Column_ref_node [String_node ''o'', String_node ''a''])),
                  Res_target_node ''s'' (Some (Column_ref_node [String_node ''b'']))]
       [Range_var_node (Range_Var ''s'' ''o'' None)] None [] None None"

definition example_tools :: sql_tools where
  "example_tools =
     \<lparr>st_parse = (\<lambda>s. if s = ''insert'' then Ok [Some (Insert_node (Range_Var ''d'' ''t'' None) (Some (Select_node example_select)))]
                     else Err (Errorf ''syntax error'')),
      st_deparse = (\<lambda>n. case n of Select_node _ \<Rightarrow> Some ''SELECT * FROM s.o'' | _ \<Rightarrow> None),
      st_sha256_hex8 = (\<lambda>s. ''00'')\<rparr>"

text \<open>
  C34. Column lineage is sound: every column edge into a target comes from the body's SELECT, names a
  column of that target, and its upstream side is a column of a relation that the SELECT names in a FROM
  clause, at any depth of subqueries, CTEs and set operations (the references that the router's tree
  walk finds), with one of the two binding confidences.
\<close>

theorem column_lineage_sound:
  assumes "e \<in> set (resolveColumns q downstream hash)"
  shows "\<exists>s t c k. q = Some (Select_node s) \<and> EdgeType e = ''column'' \<and>
    (t \<in> set (walkSelect s) \<or> Table t = []) \<and> UpstreamFQN e = table_name t @ ''.'' @ c \<and>
    DownstreamFQN e = downstream @ ''.'' @ k \<and> Confidence e \<in> {confExact, confAmbiguous}"
  using resolveColumns_ok [OF assms] by (auto simp: ref_ok_def tabs_def) blast+

lemma example_columns:
  "map (\<lambda>e. (UpstreamFQN e, DownstreamFQN e)) (resolveColumns (Some (Select_node example_select)) ''d.t'' ''h'')
    = [(''s.o.a'', ''d.t.a''), (''s.o.b'', ''d.t.s'')]"
  by code_simp

theorem column_lineage_sound_witness:
  "let es = resolveColumns (Some (Select_node example_select)) ''d.t'' ''h'' in
   length es = 2 \<and>
   (\<exists>s t c k. Some (Select_node example_select) = Some (Select_node s) \<and> EdgeType (hd es) = ''column'' \<and>
    (t \<in> set (walkSelect s) \<or> Table t = []) \<and> UpstreamFQN (hd es) = table_name t @ ''.'' @ c \<and>
    DownstreamFQN (hd es) = ''d.t'' @ ''.'' @ k \<and> Confidence (hd es) \<in> {confExact, confAmbiguous})"
proof -
  let ?es = "resolveColumns (Some (Select_node example_select)) ''d.t'' ''h''"
  have "length ?es = 2" using arg_cong [OF example_columns, of length] by simp
  moreover from this have "hd ?es \<in> set ?es" by (intro hd_in_set) auto
  ultimately show ?thesis unfolding Let_def using column_lineage_sound [of "hd ?es"] by (intro conjI)
qed

text \<open>
  A recursive CTE: the self-reference in the recursive arm is not yet bound, so it is taken for a base
  table and becomes an upstream column, although the comment in \<^verbatim>\<open>buildScope\<close> says that it
  resolves to nothing.
\<close>

lemma recursive_cte_phantom_table:
  "map UpstreamFQN (resolveColumns (Some (Select_node (Select_stmt
      [Res_target_node [] (Some (Column_ref_node [String_node ''a'']))] [Range_var_node (Range_Var [] ''t'' None)] None
      [Cte_node ''t'' (Some (Select_node (Select_stmt [] [] None []
        (Some (Select_stmt [Res_target_node [] (Some (Column_ref_node [String_node ''a'']))] [Range_var_node (Range_Var [] ''x'' None)] None [] None None))
        (Some (Select_stmt [Res_target_node [] (Some (Column_ref_node [String_node ''a'']))] [Range_var_node (Range_Var [] ''t'' None)] None [] None None)))))]
      None None))) ''d'' ''h'') = [''x.a'', ''t.a'']"
  by code_simp

text \<open>
  C35. The edges of a statement fit the edge table: when the parser returns, extraction returns a list
  without duplicates, of edges with both ends named, each satisfying the CHECK constraints of
  \<^verbatim>\<open>lineage_edge\<close>; so writing them fails only when the database does.
\<close>

theorem Extract_edges_storable:
  assumes "parser_returns T"
  shows "\<exists>es. Extract T sql = Ok es \<and> distinct es \<and>
    (\<forall>e\<in>set es. UpstreamFQN e \<noteq> [] \<and> DownstreamFQN e \<noteq> [] \<and> row_check (edge_row cid now e)) \<and>
    fst (Write (\<lambda>_. None) now cid es rs) = Ok ()"
proof -
  obtain es where es: "Extract T sql = Ok (map default_edge es)" "distinct es"
      "\<forall>e\<in>set es. raw_edge e \<and> UpstreamFQN e \<noteq> [] \<and> DownstreamFQN e \<noteq> []"
    using Extract_ok [OF assms] .
  then have "inj_on default_edge (set es)" by (intro inj_on_subset [OF inj_default_edge]) auto
  with es(2) have "distinct (map default_edge es)" by (simp add: distinct_map)
  moreover have "fst (Write (\<lambda>_. None) now cid (map default_edge es) rs) = Ok ()"
    by (rule Extract_write_ok [OF assms es(1)])
  ultimately show ?thesis
    using es(1,3) by (intro exI [of _ "map default_edge es"]) (auto simp: edge_row_default raw_edge_check)
qed

lemma example_tools_return: "parser_returns example_tools"
  by (simp add: parser_returns_def example_tools_def)

theorem Extract_edges_storable_witness:
  "\<exists>es. Extract example_tools ''insert'' = Ok es \<and> length es = 3 \<and> distinct es \<and> fst (Write (\<lambda>_. None) 7 1 es []) = Ok ()"
proof -
  have "(case Extract example_tools ''insert'' of Ok es \<Rightarrow> length es | _ \<Rightarrow> 0) = 3" by code_simp
  with Extract_edges_storable [OF example_tools_return, of "''insert''" 1 7 "[]"] show ?thesis by auto
qed

text \<open>
  C36. Writing edges is a counted upsert: the keys of the edge table stay unique, no row of another
  customer changes, and the edges written before the first failing statement, all of them on success,
  each raise the counter of their key by their number of occurrences, a missing key starting at zero.
\<close>

theorem Write_counts:
  assumes "Write exec now cid es rs = (res, rs')" and "unique_keys rs"
  shows "\<exists>j\<le>length es. (res = Ok () \<longleftrightarrow> j = length es) \<and> res \<noteq> Panic \<and> unique_keys rs' \<and>
    filter (\<lambda>r. le_customer r \<noteq> cid) rs' = filter (\<lambda>r. le_customer r \<noteq> cid) rs \<and>
    (\<forall>k. edge_counts rs' k = bump (occurrences cid k (take j es)) (edge_counts rs k))"
  using write_from_spec [OF assms(1) [unfolded Write_def]] assms(2) by blast

definition example_edge :: edge where
  "example_edge = \<lparr>UpstreamFQN = ''s.o'', DownstreamFQN = ''d.t'', EdgeType = ''table'', Origin = [], Confidence = [], EdgeHash = ''00''\<rparr>"

theorem Write_counts_witness:
  "let rs = snd (Write (\<lambda>i. if i < 2 then None else Some EOF) 7 1 [example_edge, example_edge, example_edge] []) in
   unique_keys rs \<and> edge_counts rs (edge_key_of 1 example_edge) = Some 2"
proof -
  let ?W = "Write (\<lambda>i. if i < 2 then None else Some EOF) 7 1 [example_edge, example_edge, example_edge] []"
  have "fst ?W = Err EOF \<and> edge_counts (snd ?W) (edge_key_of 1 example_edge) = Some 2" by code_simp
  moreover have "unique_keys (snd ?W)"
    using Write_counts [of _ 7 1 "[example_edge, example_edge, example_edge]" "[]" "fst ?W" "snd ?W"]
    by (auto simp: unique_keys_def [of "[]"])
  ultimately show ?thesis by (simp add: Let_def)
qed

end
