(* ===== verification/Lineage_Graph.thy ===== *)
theory Lineage_Graph
  imports Lineage
begin

text \<open>
  The multi-hop lineage graph, \<^verbatim>\<open>internal/lineage/graph.go\<close>. A recursive CTE is evaluated the
  way Postgres does it: a working table starts with the anchor rows and is replaced by the rows the
  recursive term derives from it until it is empty; every row that was in the working table is in the
  result. The loop is a partial function, so that it returns is a theorem.
\<close>

section \<open>The recursive CTE\<close>

partial_function (option) with_recursive :: "('r list \<Rightarrow> 'r list) \<Rightarrow> 'r list \<Rightarrow> 'r list option" where
  [code]: "with_recursive step working =
     (if working = [] then Some []
      else Option.bind (with_recursive step (step working)) (\<lambda>rest. Some (working @ rest)))"

record walk_row =
  w_edge :: lineage_row
  w_depth :: int
  w_path :: "string list"

text \<open>SQL's LIKE without escapes: the percent sign and the underscore are wildcards.\<close>

fun like :: "string \<Rightarrow> string \<Rightarrow> bool" where
  "like s [] \<longleftrightarrow> s = []"
| "like s (p # ps) \<longleftrightarrow>
     (if p = CHR 0x25 then list_ex (\<lambda>i. like (drop i s) ps) [0..<Suc (length s)]
      else (case s of [] \<Rightarrow> False | c # cs \<Rightarrow> (p = CHR 0x5F \<or> c = p) \<and> like cs ps))"

text \<open>The FROM and WHERE of both terms; \<open>near\<close> is the end of an edge the walk arrives at, \<open>far\<close> the other.\<close>

definition walk_anchor ::
  "(lineage_row \<Rightarrow> string) \<Rightarrow> (lineage_row \<Rightarrow> string) \<Rightarrow> uuid \<Rightarrow> string \<Rightarrow> string \<Rightarrow> string \<Rightarrow> lineage_row list \<Rightarrow> walk_row list" where
  "walk_anchor near far cid start kind anchorLike rs =
     map (\<lambda>e. \<lparr>w_edge = e, w_depth = 1, w_path = [near e, far e]\<rparr>)
       (filter (\<lambda>e. le_customer e = cid \<and> le_type e = kind \<and>
                     (near e = start \<or> (anchorLike \<noteq> [] \<and> like (near e) anchorLike))) rs)"

definition walk_step ::
  "(lineage_row \<Rightarrow> string) \<Rightarrow> (lineage_row \<Rightarrow> string) \<Rightarrow> uuid \<Rightarrow> int \<Rightarrow> string \<Rightarrow> lineage_row list \<Rightarrow> walk_row list \<Rightarrow> walk_row list" where
  "walk_step near far cid depth kind rs working =
     [\<lparr>w_edge = e, w_depth = w_depth w + 1, w_path = w_path w @ [far e]\<rparr>.
        e \<leftarrow> rs, w \<leftarrow> working,
        near e = far (w_edge w) \<and> le_customer e = cid \<and> le_type e = kind \<and> w_depth w < depth \<and> far e \<notin> set (w_path w)]"

definition walk_sql ::
  "(lineage_row \<Rightarrow> string) \<Rightarrow> (lineage_row \<Rightarrow> string) \<Rightarrow> uuid \<Rightarrow> string \<Rightarrow> int \<Rightarrow> string \<Rightarrow> string \<Rightarrow> lineage_row list \<Rightarrow>
    walk_row list option" where
  "walk_sql near far cid start depth kind anchorLike rs =
     with_recursive (walk_step near far cid depth kind rs) (walk_anchor near far cid start kind anchorLike rs)"

definition downstreamWalkSQL :: "uuid \<Rightarrow> string \<Rightarrow> int \<Rightarrow> string \<Rightarrow> string \<Rightarrow> lineage_row list \<Rightarrow> walk_row list option" where
  "downstreamWalkSQL = walk_sql le_upstream le_downstream"

definition upstreamWalkSQL :: "uuid \<Rightarrow> string \<Rightarrow> int \<Rightarrow> string \<Rightarrow> string \<Rightarrow> lineage_row list \<Rightarrow> walk_row list option" where
  "upstreamWalkSQL = walk_sql le_downstream le_upstream"

section \<open>The graph\<close>

definition DefaultGraphDepth :: int where "DefaultGraphDepth = 5"
definition MaxGraphDepth :: int where "MaxGraphDepth = 10"

record graph_node =
  gn_ID :: string
  gn_FQN :: string
  gn_Kind :: string
  gn_Depth :: int
  gn_IsRoot :: bool

record graph_edge =
  ge_Source :: string
  ge_Target :: string
  ge_EdgeType :: string
  ge_Origin :: string
  ge_Confidence :: string

record graph_result =
  gr_Root :: string
  gr_Direction :: string
  gr_Granularity :: string
  gr_Depth :: int
  gr_Truncated :: bool
  gr_Nodes :: "graph_node list"
  gr_Edges :: "graph_edge list"

definition recordNodeDepth :: "(string \<times> int) list \<Rightarrow> string \<Rightarrow> int \<Rightarrow> (string \<times> int) list" where
  "recordNodeDepth m name d =
     (case map_of m name of
        None \<Rightarrow> put name d m
      | Some cur \<Rightarrow> if d < cur then put name d m else m)"

text \<open>A row of the outer SELECT DISTINCT.\<close>

definition out_row :: "walk_row \<Rightarrow> graph_edge \<times> int" where
  "out_row w =
     (\<lparr>ge_Source = le_upstream (w_edge w), ge_Target = le_downstream (w_edge w), ge_EdgeType = le_type (w_edge w),
       ge_Origin = le_origin (w_edge w), ge_Confidence = le_confidence (w_edge w)\<rparr>, w_depth w)"

text \<open>The state that the closure \<^verbatim>\<open>run\<close> shares with its caller.\<close>

record graph_state =
  gs_edges :: "graph_edge list"
  gs_seen :: "string list"
  gs_truncated :: bool
  gs_nodeDepth :: "(string \<times> int) list"

definition scan_row :: "int \<Rightarrow> graph_edge \<times> int \<Rightarrow> graph_state \<Rightarrow> graph_state" where
  "scan_row depth row st =
     (let (e, d) = row;
          key = ge_Source e @ [CHR 0x00] @ ge_Target e @ [CHR 0x00] @ ge_Origin e;
          st1 = (if depth \<le> d then st\<lparr>gs_truncated := True\<rparr> else st);
          st2 = (if key \<in> set (gs_seen st1) then st1
                 else st1\<lparr>gs_seen := key # gs_seen st1, gs_edges := gs_edges st1 @ [e]\<rparr>)
      in st2\<lparr>gs_nodeDepth := recordNodeDepth (recordNodeDepth (gs_nodeDepth st2) (ge_Source e) d) (ge_Target e) d\<rparr>)"

text \<open>\<open>None\<close> is a query that does not return; \<open>fail\<close> is the driver's error.\<close>

definition run_walk :: "go_error option \<Rightarrow> int \<Rightarrow> walk_row list option \<Rightarrow> graph_state \<Rightarrow> graph_state go option" where
  "run_walk fail depth rows st =
     (case fail of
        Some e \<Rightarrow> Some (Err e)
      | None \<Rightarrow> map_option (\<lambda>ws. Ok (fold (scan_row depth) (remdups (map out_row ws)) st)) rows)"

definition wrap_walk :: "string \<Rightarrow> graph_state go option \<Rightarrow> graph_state go option" where
  "wrap_walk what = map_option (\<lambda>r. case r of Err e \<Rightarrow> Err (ErrorfW (what @ '' walk: '' @ Error e) e) | _ \<Rightarrow> r)"

definition clamp_depth :: "int \<Rightarrow> int" where
  "clamp_depth depth = (let d = (if depth \<le> 0 then DefaultGraphDepth else depth) in if d > MaxGraphDepth then MaxGraphDepth else d)"

definition norm_granularity :: "string \<Rightarrow> string" where
  "norm_granularity g = (if g \<noteq> ''column'' then ''table'' else g)"

definition norm_direction :: "string \<Rightarrow> string" where
  "norm_direction d = (if d \<in> {''upstream'', ''downstream'', ''both''} then d else ''both'')"

definition Graph ::
  "go_error option \<Rightarrow> go_error option \<Rightarrow> uuid \<Rightarrow> string \<Rightarrow> string \<Rightarrow> string \<Rightarrow> int \<Rightarrow> lineage_row list \<Rightarrow> graph_result go option" where
  "Graph fail_down fail_up customerID name direction granularity depth rs =
     (let depth = clamp_depth depth;
          granularity = norm_granularity granularity;
          direction = norm_direction direction;
          anchorLike = (if granularity = ''column'' then name @ ''.%'' else []);
          st0 = \<lparr>gs_edges = [], gs_seen = [], gs_truncated = False, gs_nodeDepth = (if anchorLike = [] then [(name, 0)] else [])\<rparr>;
          down = (\<lambda>st. if direction \<in> {''downstream'', ''both''}
                  then wrap_walk ''downstream'' (run_walk fail_down depth (downstreamWalkSQL customerID name depth granularity anchorLike rs) st)
                  else Some (Ok st));
          up = (\<lambda>st. if direction \<in> {''upstream'', ''both''}
                then wrap_walk ''upstream'' (run_walk fail_up depth (upstreamWalkSQL customerID name depth granularity anchorLike rs) st)
                else Some (Ok st))
      in Option.bind (down st0) (\<lambda>r1.
           case r1 of
             Err e \<Rightarrow> Some (Err e)
           | Panic \<Rightarrow> Some Panic
           | Ok st1 \<Rightarrow> map_option (\<lambda>r2.
               case r2 of
                 Err e \<Rightarrow> Err e
               | Panic \<Rightarrow> Panic
               | Ok st2 \<Rightarrow> Ok
                   \<lparr>gr_Root = name, gr_Direction = direction, gr_Granularity = granularity, gr_Depth = depth,
                    gr_Truncated = gs_truncated st2,
                    gr_Nodes = map (\<lambda>(i, d). \<lparr>gn_ID = i, gn_FQN = i, gn_Kind = granularity, gn_Depth = d, gn_IsRoot = (i = name)\<rparr>)
                                 (gs_nodeDepth st2),
                    gr_Edges = gs_edges st2\<rparr>) (up st1)))"

section \<open>The walk visits nodes in order of distance\<close>

definition links :: "(lineage_row \<Rightarrow> string) \<Rightarrow> (lineage_row \<Rightarrow> string) \<Rightarrow> uuid \<Rightarrow> string \<Rightarrow> lineage_row list \<Rightarrow> (string \<times> string) set" where
  "links near far cid kind rs = {(near e, far e) | e. e \<in> set rs \<and> le_customer e = cid \<and> le_type e = kind}"

lemma with_recursive_levels:
  assumes "step [] = []" and "(step ^^ n) W = []"
  shows "with_recursive step W = Some (concat (map (\<lambda>k. (step ^^ k) W) [0..<n]))"
  using assms(2)
proof (induction n arbitrary: W)
  case 0
  then show ?case by (simp add: with_recursive.simps)
next
  case (Suc n)
  have nil: "(step ^^ k) [] = []" for k by (induction k) (simp_all add: assms(1))
  from Suc.prems have "(step ^^ n) (step W) = []" by (simp add: funpow_swap1)
  then have "with_recursive step (step W) = Some (concat (map (\<lambda>k. (step ^^ k) (step W)) [0..<n]))" by (rule Suc.IH)
  moreover have "concat (map (\<lambda>k. (step ^^ k) W) [0..<Suc n]) = W @ concat (map (\<lambda>k. (step ^^ k) (step W)) [0..<n])"
    by (simp only: upt_conv_Cons zero_less_Suc map_Suc_upt [symmetric] list.map concat.simps funpow.simps id_apply map_map comp_def funpow_swap1)
  ultimately show ?case by (subst with_recursive.simps) (simp add: nil assms(1))
qed

text \<open>
  One direction of the walk: which end of an edge is near and which is far. The two ends are the edge's
  upstream and downstream names.
\<close>

locale walk_direction =
  fixes near far :: "lineage_row \<Rightarrow> string"
  assumes ends: "{near e, far e} = {le_upstream e, le_downstream e}"
begin

lemma walk_step_iff:
  "w' \<in> set (walk_step near far cid depth kind rs W) \<longleftrightarrow>
    (\<exists>e\<in>set rs. \<exists>w\<in>set W. near e = far (w_edge w) \<and> le_customer e = cid \<and> le_type e = kind \<and> w_depth w < depth \<and>
       far e \<notin> set (w_path w) \<and> w' = \<lparr>w_edge = e, w_depth = w_depth w + 1, w_path = w_path w @ [far e]\<rparr>)"
  by (auto simp: walk_step_def)

lemma walk_anchor_iff:
  "w \<in> set (walk_anchor near far cid start kind pat rs) \<longleftrightarrow>
    (\<exists>e\<in>set rs. le_customer e = cid \<and> le_type e = kind \<and> (near e = start \<or> pat \<noteq> [] \<and> like (near e) pat) \<and>
       w = \<lparr>w_edge = e, w_depth = 1, w_path = [near e, far e]\<rparr>)"
  by (auto simp: walk_anchor_def)

definition level :: "uuid \<Rightarrow> string \<Rightarrow> int \<Rightarrow> string \<Rightarrow> string \<Rightarrow> lineage_row list \<Rightarrow> nat \<Rightarrow> walk_row list" where
  "level cid start depth kind pat rs k = (walk_step near far cid depth kind rs ^^ k) (walk_anchor near far cid start kind pat rs)"

definition starts :: "string \<Rightarrow> string \<Rightarrow> string set" where
  "starts start pat = {x. x = start \<or> pat \<noteq> [] \<and> like x pat}"

lemma level_sound:
  assumes "w \<in> set (level cid start depth kind pat rs k)"
  shows "w_depth w = int k + 1 \<and> w_edge w \<in> set rs \<and> le_customer (w_edge w) = cid \<and> le_type (w_edge w) = kind \<and>
    (0 < k \<longrightarrow> int k < depth) \<and>
    near (w_edge w) \<in> (links near far cid kind rs ^^ k) `` starts start pat \<and>
    far (w_edge w) \<in> (links near far cid kind rs ^^ Suc k) `` starts start pat \<and>
    set (w_path w) \<subseteq> (\<Union>j\<le>Suc k. (links near far cid kind rs ^^ j) `` starts start pat)"
  using assms
proof (induction k arbitrary: w)
  case 0
  then obtain e where e: "e \<in> set rs" "le_customer e = cid" "le_type e = kind" "near e \<in> starts start pat"
      "w = \<lparr>w_edge = e, w_depth = 1, w_path = [near e, far e]\<rparr>"
    by (auto simp: level_def walk_anchor_iff starts_def)
  then have "(near e, far e) \<in> links near far cid kind rs" by (auto simp: links_def)
  with e have "far e \<in> (links near far cid kind rs ^^ Suc 0) `` starts start pat" by auto
  moreover have "near e \<in> (links near far cid kind rs ^^ 0) `` starts start pat" using e by auto
  ultimately show ?case using e by (auto simp del: relpow.simps)
next
  case (Suc k)
  then obtain e v where e: "e \<in> set rs" "le_customer e = cid" "le_type e = kind" "near e = far (w_edge v)"
      "w_depth v < depth" "w = \<lparr>w_edge = e, w_depth = w_depth v + 1, w_path = w_path v @ [far e]\<rparr>"
      and v: "v \<in> set (level cid start depth kind pat rs k)"
    by (auto simp: level_def walk_step_iff)
  have "(near e, far e) \<in> links near far cid kind rs" using e(1-3) by (auto simp: links_def)
  with Suc.IH [OF v] e(4) have "far e \<in> (links near far cid kind rs ^^ Suc (Suc k)) `` starts start pat" by auto
  with Suc.IH [OF v] e show ?case by (auto simp del: relpow.simps simp: atMost_Suc)
qed

lemma level_complete:
  assumes "x \<in> (links near far cid kind rs ^^ Suc k) `` starts start pat"
    and "\<And>j. j \<le> k \<Longrightarrow> x \<notin> (links near far cid kind rs ^^ j) `` starts start pat"
    and "int k < depth"
  shows "\<exists>w\<in>set (level cid start depth kind pat rs k). far (w_edge w) = x"
  using assms
proof (induction k arbitrary: x)
  case 0
  then obtain s where "s \<in> starts start pat" "(s, x) \<in> links near far cid kind rs" by auto
  then obtain e where "e \<in> set rs" "le_customer e = cid" "le_type e = kind" "near e = s" "far e = x" "s \<in> starts start pat"
    by (auto simp: links_def)
  then show ?case by (intro bexI [of _ "\<lparr>w_edge = e, w_depth = 1, w_path = [near e, far e]\<rparr>"])
    (auto simp: level_def walk_anchor_iff starts_def)
next
  case (Suc k)
  let ?R = "links near far cid kind rs"
  from Suc.prems(1) obtain y where y: "y \<in> (?R ^^ Suc k) `` starts start pat" "(y, x) \<in> ?R" by auto
  have "y \<notin> (?R ^^ j) `` starts start pat" if "j \<le> k" for j
  proof
    assume "y \<in> (?R ^^ j) `` starts start pat"
    with y(2) have "x \<in> (?R ^^ Suc j) `` starts start pat" by auto
    with Suc.prems(2) [of "Suc j"] that show False by simp
  qed
  with Suc.IH [OF y(1)] Suc.prems(3) obtain w where w: "w \<in> set (level cid start depth kind pat rs k)" "far (w_edge w) = y" by auto
  have p: "set (w_path w) \<subseteq> (\<Union>j\<le>Suc k. (?R ^^ j) `` starts start pat)" using level_sound [OF w(1)] by blast
  have "x \<notin> set (w_path w)"
  proof
    assume "x \<in> set (w_path w)"
    with p obtain j where "j \<le> Suc k" "x \<in> (?R ^^ j) `` starts start pat" by blast
    with Suc.prems(2) show False by blast
  qed
  moreover obtain e where "e \<in> set rs" "le_customer e = cid" "le_type e = kind" "near e = y" "far e = x"
    using y(2) by (auto simp: links_def)
  moreover have "w_depth w < depth" using level_sound [OF w(1)] Suc.prems(3) by simp
  ultimately have "\<lparr>w_edge = e, w_depth = w_depth w + 1, w_path = w_path w @ [far e]\<rparr> \<in> set (walk_step near far cid depth kind rs (level cid start depth kind pat rs k))"
    unfolding walk_step_iff by (intro bexI [of _ e] bexI [of _ w] conjI refl) (simp_all add: w)
  then have "\<lparr>w_edge = e, w_depth = w_depth w + 1, w_path = w_path w @ [far e]\<rparr> \<in> set (level cid start depth kind pat rs (Suc k))"
    by (simp add: level_def)
  with \<open>far e = x\<close> show ?case by (intro bexI) auto
qed

lemma walk_returns:
  assumes "1 \<le> depth"
  shows "walk_sql near far cid start depth kind pat rs = Some (concat (map (level cid start depth kind pat rs) [0..<nat depth]))"
proof -
  have "level cid start depth kind pat rs (nat depth) = []"
    using level_sound [of _ cid start depth kind pat rs "nat depth"] assms by (cases "level cid start depth kind pat rs (nat depth)") auto
  then show ?thesis
    using with_recursive_levels [of "walk_step near far cid depth kind rs" "nat depth"]
    by (simp add: walk_sql_def level_def [abs_def] walk_step_def [of _ _ _ _ _ _ "[]"])
qed

end

interpretation downstream: walk_direction le_upstream le_downstream
  by unfold_locales simp

interpretation upstream: walk_direction le_downstream le_upstream
  by unfold_locales auto

section \<open>Node depths are shortest distances\<close>

text \<open>\<open>depths m A\<close>: the table \<open>m\<close> holds, for every name, the least element of its set in \<open>A\<close>.\<close>

definition depths :: "(string \<times> int) list \<Rightarrow> (string \<Rightarrow> int set) \<Rightarrow> bool" where
  "depths m A \<longleftrightarrow> distinct (map fst m) \<and>
     (\<forall>x. (map_of m x = None \<longleftrightarrow> A x = {}) \<and> (\<forall>n. map_of m x = Some n \<longrightarrow> n \<in> A x \<and> (\<forall>a\<in>A x. n \<le> a)))"

lemma keys_put: "fst ` set (put k v xs) = insert k (fst ` set xs)"
  by (induction k v xs rule: put.induct) auto

lemma distinct_put: "distinct (map fst xs) \<Longrightarrow> distinct (map fst (put k v xs))"
  by (induction k v xs rule: put.induct) (auto simp: keys_put)

lemma depths_record:
  assumes "depths m A"
  shows "depths (recordNodeDepth m x d) (A(x := insert d (A x)))"
proof -
  let ?m = "recordNodeDepth m x d"
  have "distinct (map fst ?m)"
    using assms by (auto simp: depths_def recordNodeDepth_def distinct_put split: option.split)
  moreover have "map_of ?m y = map_of m y" if "y \<noteq> x" for y
    using that by (auto simp: recordNodeDepth_def map_of_put split: option.split)
  moreover have "map_of ?m x = Some (case map_of m x of None \<Rightarrow> d | Some c \<Rightarrow> min d c)"
    by (auto simp: recordNodeDepth_def map_of_put split: option.split)
  moreover have "(case map_of m x of None \<Rightarrow> d | Some c \<Rightarrow> min d c) \<in> insert d (A x) \<and>
      (\<forall>a\<in>insert d (A x). (case map_of m x of None \<Rightarrow> d | Some c \<Rightarrow> min d c) \<le> a)"
    using assms by (cases "map_of m x") (auto simp: depths_def min_def intro: order_trans dest!: spec [of _ x])
  ultimately show ?thesis
    using assms unfolding depths_def by (metis (no_types, lifting) fun_upd_other fun_upd_same insert_not_empty option.distinct(1) option.inject)
qed

definition hits :: "(graph_edge \<times> int) list \<Rightarrow> string \<Rightarrow> int set" where
  "hits rows x = {d. \<exists>e. (e, d) \<in> set rows \<and> x \<in> {ge_Source e, ge_Target e}}"

lemma scan_nodes:
  "depths (gs_nodeDepth st) A \<Longrightarrow> depths (gs_nodeDepth (fold (scan_row depth) rows st)) (\<lambda>x. A x \<union> hits rows x)"
proof (induction rows arbitrary: st A)
  case (Cons row rows)
  obtain e d where row: "row = (e, d)" by (cases row)
  let ?A = "A(ge_Source e := insert d (A (ge_Source e)))"
  have "gs_nodeDepth (scan_row depth row st) = recordNodeDepth (recordNodeDepth (gs_nodeDepth st) (ge_Source e) d) (ge_Target e) d"
    by (simp add: row scan_row_def Let_def)
  with depths_record [OF depths_record [OF Cons.prems]]
  have "depths (gs_nodeDepth (scan_row depth row st)) (?A(ge_Target e := insert d (?A (ge_Target e))))" by simp
  from Cons.IH [OF this]
  have "depths (gs_nodeDepth (fold (scan_row depth) (row # rows) st))
          (\<lambda>x. (?A(ge_Target e := insert d (?A (ge_Target e)))) x \<union> hits rows x)" by simp
  moreover have "(\<lambda>x. (?A(ge_Target e := insert d (?A (ge_Target e)))) x \<union> hits rows x) = (\<lambda>x. A x \<union> hits (row # rows) x)"
    by (auto simp: fun_eq_iff hits_def row)
  ultimately show ?case by simp
qed (simp add: hits_def)

lemma scan_edges: "set (gs_edges (fold (scan_row depth) rows st)) \<subseteq> set (gs_edges st) \<union> fst ` set rows"
proof (induction rows arbitrary: st)
  case (Cons row rows)
  have "set (gs_edges (scan_row depth row st)) \<subseteq> insert (fst row) (set (gs_edges st))"
    by (auto simp: scan_row_def Let_def split: prod.splits)
  with Cons.IH [of "scan_row depth row st"] show ?case by auto
qed simp

text \<open>Two sets of numbers with the same least element.\<close>

definition same_least :: "int set \<Rightarrow> int set \<Rightarrow> bool" where
  "same_least A B \<longleftrightarrow> (\<forall>a\<in>A. \<exists>b\<in>B. b \<le> a) \<and> (\<forall>b\<in>B. \<exists>a\<in>A. a \<le> b)"

lemma depths_same_least:
  assumes "depths m A" and "\<And>x. same_least (A x) (B x)"
  shows "depths m B"
  unfolding depths_def
proof (intro conjI allI impI)
  show "distinct (map fst m)" using assms(1) by (simp add: depths_def)
next
  fix x
  have "map_of m x = None \<longleftrightarrow> A x = {}" using assms(1) by (simp add: depths_def)
  then show "(map_of m x = None) = (B x = {})" using assms(2) [of x] by (auto simp: same_least_def)
next
  fix x n
  assume "map_of m x = Some n"
  with assms(1) have n: "n \<in> A x" "\<And>a. a \<in> A x \<Longrightarrow> n \<le> a" by (auto simp: depths_def)
  with assms(2) [of x] obtain b where b: "b \<in> B x" "b \<le> n" by (auto simp: same_least_def)
  have low: "n \<le> c" if c: "c \<in> B x" for c
  proof -
    obtain a where "a \<in> A x" "a \<le> c" using assms(2) [of x] c unfolding same_least_def by blast
    with n(2) [of a] show ?thesis by simp
  qed
  then show "\<forall>c\<in>B x. n \<le> c" by blast
  from low [OF b(1)] b show "n \<in> B x" by simp
qed

definition hop_counts :: "(string \<times> string) set \<Rightarrow> string \<Rightarrow> int \<Rightarrow> string \<Rightarrow> int set" where
  "hop_counts R start depth x = {int k | k. int k \<le> depth \<and> (start, x) \<in> R ^^ k}"

context walk_direction
begin

lemma walk_hits:
  assumes "1 \<le> depth" and "walk_sql near far cid start depth kind [] rs = Some ws"
  shows "same_least ({d. d = 0 \<and> x = start} \<union> hits (remdups (map out_row ws)) x) (hop_counts (links near far cid kind rs) start depth x)"
proof -
  let ?R = "links near far cid kind rs"
  have S: "starts start [] = {start}" by (simp add: starts_def)
  have ws: "ws = concat (map (level cid start depth kind [] rs) [0..<nat depth])"
    using walk_returns [OF assms(1)] assms(2) by simp
  have up: "\<exists>b\<in>hop_counts ?R start depth x. b \<le> d" if "d \<in> hits (remdups (map out_row ws)) x" for d
  proof -
    from that obtain w where w: "w \<in> set ws" "d = w_depth w" "x \<in> {le_upstream (w_edge w), le_downstream (w_edge w)}"
      by (auto simp: hits_def out_row_def)
    then obtain k where k: "k < nat depth" "w \<in> set (level cid start depth kind [] rs k)" by (auto simp: ws)
    note l = level_sound [OF k(2), unfolded S]
    from w(3) have "x = near (w_edge w) \<or> x = far (w_edge w)" using ends [of "w_edge w"] by auto
    then show ?thesis
    proof
      assume "x = near (w_edge w)"
      with l k(1) w(2) show ?thesis by (intro bexI [of _ "int k"]) (auto simp: hop_counts_def)
    next
      assume "x = far (w_edge w)"
      with l have "(start, x) \<in> ?R ^^ Suc k" by blast
      with l k(1) w(2) show ?thesis
        by (intro bexI [of _ "int (Suc k)"]) (auto simp: hop_counts_def simp del: relpow.simps intro!: exI [of _ "Suc k"])
    qed
  qed
  have down: "\<exists>a\<in>{d. d = 0 \<and> x = start} \<union> hits (remdups (map out_row ws)) x. a \<le> b" if b: "b \<in> hop_counts ?R start depth x" for b
  proof -
    from b obtain k0 where k0: "b = int k0" "int k0 \<le> depth" "(start, x) \<in> ?R ^^ k0" by (auto simp: hop_counts_def)
    define k where "k = (LEAST k. (start, x) \<in> ?R ^^ k)"
    have k: "(start, x) \<in> ?R ^^ k" "k \<le> k0" "\<And>j. j < k \<Longrightarrow> (start, x) \<notin> ?R ^^ j"
      unfolding k_def using k0(3) by (auto intro: LeastI Least_le dest: not_less_Least)
    show ?thesis
    proof (cases k)
      case 0
      with k(1) k0 show ?thesis by (intro bexI [of _ 0]) auto
    next
      case (Suc j)
      have "\<exists>w\<in>set (level cid start depth kind [] rs j). far (w_edge w) = x"
        using k k0 Suc by (intro level_complete) (auto simp: S simp del: relpow.simps)
      then obtain w where w: "w \<in> set (level cid start depth kind [] rs j)" "far (w_edge w) = x" by blast
      have "w \<in> set ws" using w(1) k(2) k0(2) Suc by (auto simp: ws intro!: bexI [of _ j])
      then have "w_depth w \<in> hits (remdups (map out_row ws)) x"
        using w(2) ends [of "w_edge w"] by (force simp: hits_def out_row_def)
      with level_sound [OF w(1)] k(2) k0 Suc show ?thesis by (intro bexI [of _ "w_depth w"]) auto
    qed
  qed
  have z: "0 \<in> hop_counts ?R start depth start" using assms(1) by (auto simp: hop_counts_def intro!: exI [of _ 0])
  show ?thesis unfolding same_least_def using up down z by auto
qed

lemma walk_rows:
  assumes "1 \<le> depth" and "walk_sql near far cid start depth kind pat rs = Some ws" and "w \<in> set ws"
  shows "w_edge w \<in> set rs \<and> le_customer (w_edge w) = cid \<and> le_type (w_edge w) = kind"
  using walk_returns [OF assms(1)] assms(2,3) by (auto dest: level_sound)

end

section \<open>Properties\<close>

lemma clamp_depth_bounds: "1 \<le> clamp_depth d" "clamp_depth d \<le> 10"
  by (auto simp: clamp_depth_def Let_def DefaultGraphDepth_def MaxGraphDepth_def)

lemma walks_return:
  "1 \<le> depth \<Longrightarrow> \<exists>ws. downstreamWalkSQL cid start depth kind pat rs = Some ws"
  "1 \<le> depth \<Longrightarrow> \<exists>ws. upstreamWalkSQL cid start depth kind pat rs = Some ws"
  by (simp_all add: downstreamWalkSQL_def upstreamWalkSQL_def downstream.walk_returns upstream.walk_returns)

lemma run_walk_returns:
  "rows = Some ws \<Longrightarrow> \<exists>r. wrap_walk what (run_walk fail depth rows st) = Some r \<and> r \<noteq> Panic \<and> ((\<exists>s. r = Ok s) \<longleftrightarrow> fail = None)"
  by (cases fail) (auto simp: wrap_walk_def run_walk_def)

text \<open>
  C37. The graph query terminates: whatever edges are stored, cycles included, and whatever depth is
  asked for, both recursive walks come to an end; the answer is an error exactly when the database
  reports one for a walk that the direction asks for, and its depth is between 1 and 10.
\<close>

theorem Graph_returns:
  "\<exists>r. Graph fail_down fail_up cid start direction granularity depth rs = Some r \<and> r \<noteq> Panic \<and>
     ((\<exists>g. r = Ok g \<and> 1 \<le> gr_Depth g \<and> gr_Depth g \<le> 10) \<longleftrightarrow>
       (norm_direction direction \<noteq> ''upstream'' \<longrightarrow> fail_down = None) \<and>
       (norm_direction direction \<noteq> ''downstream'' \<longrightarrow> fail_up = None))"
proof -
  let ?d = "clamp_depth depth" and ?g = "norm_granularity granularity"
  let ?pat = "if ?g = ''column'' then start @ ''.%'' else []"
  obtain ws1 ws2 where ws: "downstreamWalkSQL cid start ?d ?g ?pat rs = Some ws1" "upstreamWalkSQL cid start ?d ?g ?pat rs = Some ws2"
    using walks_return [OF clamp_depth_bounds(1)] by metis
  have dir: "norm_direction direction \<in> {''upstream'', ''downstream'', ''both''}" by (auto simp: norm_direction_def)
  show ?thesis
    using dir clamp_depth_bounds [of depth]
    by (cases fail_down; cases fail_up) (auto simp: Graph_def Let_def ws run_walk_def wrap_walk_def)
qed

text \<open>Two tables that feed each other, and a third one.\<close>

definition example_link :: "string \<Rightarrow> string \<Rightarrow> lineage_row" where
  "example_link u d = edge_row 1 7 \<lparr>UpstreamFQN = u, DownstreamFQN = d, EdgeType = ''table'', Origin = [], Confidence = [], EdgeHash = ''00''\<rparr>"

definition example_links :: "lineage_row list" where
  "example_links = [example_link ''a'' ''b'', example_link ''b'' ''a'', example_link ''b'' ''c'', example_link ''a'' ''c'']"

theorem Graph_returns_witness:
  "\<exists>g. Graph None None 1 ''a'' ''downstream'' ''table'' 100 example_links = Some (Ok g) \<and> 1 \<le> gr_Depth g \<and> gr_Depth g \<le> 10"
  using Graph_returns [of None None 1 "''a''" "''downstream''" "''table''" 100 example_links] by auto

text \<open>The relations that a direction walks along, and reachability in a given number of hops.\<close>

definition walk_links :: "string \<Rightarrow> uuid \<Rightarrow> lineage_row list \<Rightarrow> (string \<times> string) set set" where
  "walk_links direction cid rs =
     {links le_upstream le_downstream cid ''table'' rs | d. d = norm_direction direction \<and> d \<noteq> ''upstream''} \<union>
     {links le_downstream le_upstream cid ''table'' rs | d. d = norm_direction direction \<and> d \<noteq> ''downstream''}"

definition reaches :: "string \<Rightarrow> uuid \<Rightarrow> lineage_row list \<Rightarrow> nat \<Rightarrow> string \<Rightarrow> string \<Rightarrow> bool" where
  "reaches direction cid rs k start x \<longleftrightarrow> (\<exists>R\<in>walk_links direction cid rs. (start, x) \<in> R ^^ k)"

lemma same_least_parts:
  assumes "P \<or> Q" and "P \<Longrightarrow> same_least (Z \<union> A) B" and "Q \<Longrightarrow> same_least (Z \<union> A') B'"
  shows "same_least (Z \<union> (if P then A else {}) \<union> (if Q then A' else {})) ((if P then B else {}) \<union> (if Q then B' else {}))"
  using assms unfolding same_least_def by (cases P; cases Q) (simp_all, blast)

lemma direction_cases: "norm_direction d \<noteq> ''upstream'' \<or> norm_direction d \<noteq> ''downstream''"
  by auto

text \<open>The state at the end of a table-level graph query without errors.\<close>

definition table_state :: "uuid \<Rightarrow> string \<Rightarrow> string \<Rightarrow> int \<Rightarrow> walk_row list \<Rightarrow> walk_row list \<Rightarrow> graph_state" where
  "table_state cid start direction depth ws1 ws2 =
     (if norm_direction direction \<noteq> ''downstream'' then fold (scan_row depth) (remdups (map out_row ws2)) else id)
       ((if norm_direction direction \<noteq> ''upstream'' then fold (scan_row depth) (remdups (map out_row ws1)) else id)
         \<lparr>gs_edges = [], gs_seen = [], gs_truncated = False, gs_nodeDepth = [(start, 0)]\<rparr>)"

lemma Graph_table:
  assumes "granularity \<noteq> ''column''"
    and "downstreamWalkSQL cid start (clamp_depth depth) ''table'' [] rs = Some ws1"
    and "upstreamWalkSQL cid start (clamp_depth depth) ''table'' [] rs = Some ws2"
  shows "\<exists>g. Graph None None cid start direction granularity depth rs = Some (Ok g) \<and>
    map (\<lambda>n. (gn_FQN n, gn_Depth n)) (gr_Nodes g) = gs_nodeDepth (table_state cid start direction (clamp_depth depth) ws1 ws2) \<and>
    gr_Edges g = gs_edges (table_state cid start direction (clamp_depth depth) ws1 ws2)"
proof -
  have "norm_granularity granularity = ''table''" using assms(1) by (simp add: norm_granularity_def)
  moreover have "norm_direction direction \<in> {''downstream'', ''upstream'', ''both''}" by (auto simp: norm_direction_def)
  moreover have "map (\<lambda>n. (gn_FQN n, gn_Depth n)) (map (\<lambda>(i, d). \<lparr>gn_ID = i, gn_FQN = i, gn_Kind = k, gn_Depth = d, gn_IsRoot = (i = start)\<rparr>) m) = m" for k m
    by (simp add: comp_def case_prod_unfold)
  ultimately show ?thesis
    using assms(2,3) by (auto simp: Graph_def Let_def run_walk_def wrap_walk_def table_state_def)
qed

lemma table_state_edges:
  "set (gs_edges (table_state cid start direction depth ws1 ws2)) \<subseteq> fst ` out_row ` (set ws1 \<union> set ws2)"
proof -
  define st0 where "st0 = \<lparr>gs_edges = [], gs_seen = [], gs_truncated = False, gs_nodeDepth = [(start, 0)]\<rparr>"
  define st1 where "st1 = (if norm_direction direction \<noteq> ''upstream'' then fold (scan_row depth) (remdups (map out_row ws1)) else id) st0"
  have "set (gs_edges st1) \<subseteq> fst ` out_row ` set ws1"
    using scan_edges [of depth "remdups (map out_row ws1)" st0] by (simp add: st1_def st0_def)
  with scan_edges [of depth "remdups (map out_row ws2)" st1] show ?thesis
    unfolding table_state_def st0_def [symmetric] st1_def [symmetric] by (simp add: image_Un) blast
qed

lemma table_state_nodes:
  "depths (gs_nodeDepth (table_state cid start direction depth ws1 ws2))
     (\<lambda>x. {d. d = 0 \<and> x = start} \<union> (if norm_direction direction \<noteq> ''upstream'' then hits (remdups (map out_row ws1)) x else {}) \<union>
          (if norm_direction direction \<noteq> ''downstream'' then hits (remdups (map out_row ws2)) x else {}))"
proof -
  have z: "depths [(start, 0)] (\<lambda>x. {d. d = 0 \<and> x = start})" by (auto simp: depths_def)
  show ?thesis unfolding table_state_def
    using scan_nodes [of "\<lparr>gs_edges = [], gs_seen = [], gs_truncated = False, gs_nodeDepth = [(start, 0)]\<rparr>"] z
    by (auto intro: scan_nodes)
qed

lemma depths_mem: "depths m A \<Longrightarrow> (x, n) \<in> set m \<longleftrightarrow> n \<in> A x \<and> (\<forall>a\<in>A x. n \<le> a)"
  unfolding depths_def by (metis antisym map_of_eq_Some_iff not_None_eq empty_iff)

lemma least_hops:
  assumes "\<And>n. n \<in> B \<longleftrightarrow> (\<exists>k. n = int k \<and> n \<le> d \<and> P k)"
  shows "n \<in> B \<and> (\<forall>a\<in>B. n \<le> a) \<longleftrightarrow> (\<exists>k. n = int k \<and> n \<le> d \<and> P k \<and> (\<forall>j<k. \<not> P j))"
proof
  assume n: "n \<in> B \<and> (\<forall>a\<in>B. n \<le> a)"
  then obtain k where k: "n = int k" "n \<le> d" "P k" using assms by blast
  have "\<not> P j" if "j < k" for j
  proof
    assume "P j"
    with k that have "int j \<in> B" unfolding assms by auto
    with n k that show False by auto
  qed
  with k show "\<exists>k. n = int k \<and> n \<le> d \<and> P k \<and> (\<forall>j<k. \<not> P j)" by blast
next
  assume "\<exists>k. n = int k \<and> n \<le> d \<and> P k \<and> (\<forall>j<k. \<not> P j)"
  then show "n \<in> B \<and> (\<forall>a\<in>B. n \<le> a)" unfolding Ball_def assms by (auto simp: not_less [symmetric])
qed

text \<open>
  C38. A table-level lineage graph is the neighbourhood of its root: a name is a node with depth n
  exactly when n is the least number of hops from the root along the customer's table edges in one of
  the directions asked for, and n is within the depth bound. Every edge shown is a stored table edge of
  that customer.
\<close>

theorem Graph_nodes_shortest_distance:
  assumes "granularity \<noteq> ''column''"
  shows "\<exists>g. Graph None None cid start direction granularity depth rs = Some (Ok g) \<and>
    (\<forall>x n. (\<exists>v\<in>set (gr_Nodes g). gn_FQN v = x \<and> gn_Depth v = n) \<longleftrightarrow>
      (\<exists>k. n = int k \<and> n \<le> clamp_depth depth \<and> reaches direction cid rs k start x \<and>
           (\<forall>j<k. \<not> reaches direction cid rs j start x))) \<and>
    (\<forall>e\<in>set (gr_Edges g). \<exists>r\<in>set rs. le_customer r = cid \<and> le_type r = ''table'' \<and>
       ge_Source e = le_upstream r \<and> ge_Target e = le_downstream r \<and> ge_Origin e = le_origin r)"
proof -
  let ?d = "clamp_depth depth"
  note d1 = clamp_depth_bounds(1) [of depth]
  obtain ws1 ws2 where ws: "downstreamWalkSQL cid start ?d ''table'' [] rs = Some ws1" "upstreamWalkSQL cid start ?d ''table'' [] rs = Some ws2"
    using walks_return [OF d1] by metis
  obtain g where g: "Graph None None cid start direction granularity depth rs = Some (Ok g)"
      "map (\<lambda>n. (gn_FQN n, gn_Depth n)) (gr_Nodes g) = gs_nodeDepth (table_state cid start direction ?d ws1 ws2)"
      "gr_Edges g = gs_edges (table_state cid start direction ?d ws1 ws2)"
    using Graph_table [OF assms ws] by blast
  note w1 = ws(1) [unfolded downstreamWalkSQL_def] and w2 = ws(2) [unfolded upstreamWalkSQL_def]
  let ?R1 = "links le_upstream le_downstream cid ''table'' rs" and ?R2 = "links le_downstream le_upstream cid ''table'' rs"
  let ?P = "norm_direction direction \<noteq> ''upstream''" and ?Q = "norm_direction direction \<noteq> ''downstream''"
  let ?B = "\<lambda>x. (if ?P then hop_counts ?R1 start ?d x else {}) \<union> (if ?Q then hop_counts ?R2 start ?d x else {})"
  have dep: "depths (gs_nodeDepth (table_state cid start direction ?d ws1 ws2)) ?B"
    by (rule depths_same_least [OF table_state_nodes])
       (rule same_least_parts [OF direction_cases downstream.walk_hits [OF d1 w1] upstream.walk_hits [OF d1 w2]])
  have B: "n \<in> ?B x \<longleftrightarrow> (\<exists>k. n = int k \<and> n \<le> ?d \<and> reaches direction cid rs k start x)" for n x
    by (auto simp: reaches_def walk_links_def hop_counts_def)
  have node: "(\<exists>v\<in>set (gr_Nodes g). gn_FQN v = x \<and> gn_Depth v = n) \<longleftrightarrow> (x, n) \<in> set (gs_nodeDepth (table_state cid start direction ?d ws1 ws2))" for x n
    unfolding g(2) [symmetric] by auto
  have "(x, n) \<in> set (gs_nodeDepth (table_state cid start direction ?d ws1 ws2)) \<longleftrightarrow>
      (\<exists>k. n = int k \<and> n \<le> ?d \<and> reaches direction cid rs k start x \<and> (\<forall>j<k. \<not> reaches direction cid rs j start x))" for x n
    unfolding depths_mem [OF dep] by (rule least_hops [OF B])
  moreover have "\<exists>r\<in>set rs. le_customer r = cid \<and> le_type r = ''table'' \<and>
       ge_Source e = le_upstream r \<and> ge_Target e = le_downstream r \<and> ge_Origin e = le_origin r" if "e \<in> set (gr_Edges g)" for e
  proof -
    from that obtain w where "w \<in> set ws1 \<union> set ws2" "e = fst (out_row w)" using table_state_edges unfolding g(3) by blast
    with downstream.walk_rows [OF d1 w1, of w] upstream.walk_rows [OF d1 w2, of w] show ?thesis
      by (intro bexI [of _ "w_edge w"]) (auto simp: out_row_def)
  qed
  ultimately show ?thesis using g(1) node by blast
qed

theorem Graph_nodes_shortest_distance_witness:
  "\<exists>g. Graph None None 1 ''a'' ''downstream'' ''table'' 100 example_links = Some (Ok g) \<and>
     (\<exists>v\<in>set (gr_Nodes g). gn_FQN v = ''c'' \<and> gn_Depth v = 1)"
proof -
  let ?R = "links le_upstream le_downstream 1 ''table'' example_links"
  have e: "example_link ''a'' ''c'' \<in> set example_links" "le_customer (example_link ''a'' ''c'') = 1"
    "le_type (example_link ''a'' ''c'') = ''table''" "le_upstream (example_link ''a'' ''c'') = ''a''" "le_downstream (example_link ''a'' ''c'') = ''c''"
    by (simp_all add: example_links_def example_link_def edge_row_def default_edge_def)
  then have "(''a'', ''c'') \<in> ?R" unfolding links_def by force
  then have "reaches ''downstream'' 1 example_links 1 ''a'' ''c''" "\<not> reaches ''downstream'' 1 example_links 0 ''a'' ''c''"
    by (auto simp: reaches_def walk_links_def norm_direction_def)
  then have "\<exists>k. (1::int) = int k \<and> 1 \<le> clamp_depth 100 \<and> reaches ''downstream'' 1 example_links k ''a'' ''c'' \<and>
      (\<forall>j<k. \<not> reaches ''downstream'' 1 example_links j ''a'' ''c'')"
    by (intro exI [of _ 1]) (auto simp: clamp_depth_bounds)
  then show ?thesis
    using Graph_nodes_shortest_distance [of "''table''" 1 "''a''" "''downstream''" 100 example_links] by auto
qed

text \<open>
  The pattern that expands a table to its columns is a LIKE pattern made from the name itself, in which
  an underscore matches any character.
\<close>

lemma anchor_pattern_overmatches: "like ''s.axb.c'' (''s.a_b'' @ ''.%'')"
  by code_simp

end
