(* ===== verification/Lineage_Capture.thy ===== *)
theory Lineage_Capture
  imports Proxy_Handler Lineage_Graph
begin

text \<open>
  The capture of lineage behind the proxy: the producer \<^verbatim>\<open>captureLineage\<close> (in
  \<^verbatim>\<open>Proxy_Handler\<close>) and the consumer goroutine \<^verbatim>\<open>lineageConsumer\<close> of
  \<^verbatim>\<open>internal/proxy/handler.go\<close>, as interleaved events on the handler's queue and the edge table.
  The database answers of one job are a parameter of its event; a job whose context expires is one whose
  statements fail.
\<close>

section \<open>The consumer\<close>

text \<open>One round of the consumer's loop on a received job; its errors are only logged.\<close>

definition consume_job ::
  "sql_tools \<Rightarrow> (nat \<Rightarrow> go_error option) \<Rightarrow> int \<Rightarrow> uuid \<times> string \<Rightarrow> lineage_row list \<Rightarrow> lineage_row list" where
  "consume_job T exec now job rs = snd (RecordQuery T exec now (fst job) (snd job) rs)"

datatype capture_event =
    Capture uuid string
  | Consume int "nat \<Rightarrow> go_error option"

text \<open>With an empty queue the consumer blocks.\<close>

fun capture_step :: "sql_tools \<Rightarrow> capture_event \<Rightarrow> proxy \<times> lineage_row list \<Rightarrow> proxy \<times> lineage_row list" where
  "capture_step T (Capture cid sql) (h, rs) = (captureLineage cid sql h, rs)"
| "capture_step T (Consume now exec) (h, rs) =
     (case px_lineageCh h of
        [] \<Rightarrow> (h, rs)
      | job # jobs \<Rightarrow> (h\<lparr>px_lineageCh := jobs\<rparr>, consume_job T exec now job rs))"

fun is_consume :: "capture_event \<Rightarrow> bool" where
  "is_consume (Consume now exec) \<longleftrightarrow> True"
| "is_consume (Capture cid sql) \<longleftrightarrow> False"

text \<open>Events during which the database answers every statement.\<close>

fun healthy :: "capture_event \<Rightarrow> bool" where
  "healthy (Consume now exec) \<longleftrightarrow> exec = (\<lambda>_. None)"
| "healthy (Capture cid sql) \<longleftrightarrow> True"

section \<open>Edges stay, and are recorded\<close>

lemma Write_keeps: "dom (edge_counts rs) \<subseteq> dom (edge_counts (snd (Write exec now cid es rs)))"
proof -
  obtain res rs' where w: "write_from exec 0 now cid es rs = (res, rs')" by fastforce
  from write_from_spec [OF w] obtain j where "\<forall>k. edge_counts rs' k = bump (occurrences cid k (take j es)) (edge_counts rs k)" by blast
  with w show ?thesis by (auto simp: Write_def bump_def)
qed

lemma RecordQuery_keeps: "dom (edge_counts rs) \<subseteq> dom (edge_counts (snd (RecordQuery T exec now cid sql rs)))"
proof (cases "Extract T sql")
  case (Ok es)
  with Write_keeps [of rs exec now cid es] show ?thesis
    by (cases "Write exec now cid es rs"; cases "fst (Write exec now cid es rs)") (auto simp: RecordQuery_def)
qed (auto simp: RecordQuery_def)

lemma capture_step_keeps: "dom (edge_counts (snd s)) \<subseteq> dom (edge_counts (snd (capture_step T ev s)))"
proof (cases ev)
  case (Consume now exec)
  obtain h rs where "s = (h, rs)" by fastforce
  with Consume show ?thesis
    by (cases "px_lineageCh h") (simp_all add: consume_job_def RecordQuery_keeps)
qed (cases s, simp)

lemma capture_run_keeps: "dom (edge_counts (snd s)) \<subseteq> dom (edge_counts (snd (fold (capture_step T) evs s)))"
proof (induction evs arbitrary: s)
  case (Cons ev evs)
  from capture_step_keeps [of s T ev] Cons.IH [of "capture_step T ev s"] show ?case by (simp add: subset_trans)
qed simp

lemma consume_records:
  assumes "parser_returns T" "length sql \<le> maxRuntimeSQLBytes" "Extract T sql = Ok es" "e \<in> set es"
  shows "edge_counts (consume_job T (\<lambda>_. None) now (cid, sql) rs) (edge_key_of cid e) \<noteq> None"
proof -
  have ok: "fst (Write (\<lambda>_. None) now cid es rs) = Ok ()"
    by (rule Extract_write_ok [OF assms(1,3)])
  then obtain rs' where w: "write_from (\<lambda>_. None) 0 now cid es rs = (Ok (), rs')" by (metis Write_def prod.collapse)
  have "filter (\<lambda>e'. edge_key_of cid e' = edge_key_of cid e) es \<noteq> []" using assms(4) by (auto simp: filter_empty_conv)
  moreover from write_from_spec [OF w]
  have "edge_counts rs' k = bump (occurrences cid k es) (edge_counts rs k)" for k by (metis take_all_iff order_refl)
  ultimately have "edge_counts rs' (edge_key_of cid e) \<noteq> None" by (simp add: bump_def occurrences_def)
  then show ?thesis using assms w by (auto simp: consume_job_def RecordQuery_def Write_def)
qed

lemma queue_bounded:
  "length (px_lineageCh (fst s)) \<le> lineage_capacity \<Longrightarrow> length (px_lineageCh (fst (fold (capture_step T) evs s))) \<le> lineage_capacity"
proof (induction evs arbitrary: s)
  case (Cons ev evs)
  have "length (px_lineageCh (fst (capture_step T ev s))) \<le> lineage_capacity"
    using Cons.prems by (cases ev; cases s) (auto simp: captureLineage_def split: list.split)
  with Cons.IH show ?case by simp
qed simp

section \<open>Properties\<close>



end
