(* ===== verification/Access_Control.thy ===== *)
theory Access_Control
  imports Go_Prelude
begin

text \<open>
  Column masking and field policies, \<^verbatim>\<open>internal/security\<close> (masking.go, enforce.go), and the permission
  matrix of \<^verbatim>\<open>internal/rbac/rbac.go\<close>. The one regular expression of the package is a search function
  here: it prefers the longest run of white space after SELECT and then the shortest projection.
\<close>

section \<open>Masking\<close>

record masking_rule =
  mr_Schema :: string
  mr_Table :: string
  mr_Column :: string
  mr_Role :: string
  mr_Strategy :: string

text \<open>The class \<^verbatim>\<open>\s\<close> of the regular expression.\<close>

definition re_space :: "char \<Rightarrow> bool" where
  "re_space c \<longleftrightarrow> c \<in> {CHR '' '', CHR 0x09, CHR 0x0A, CHR 0x0C, CHR 0x0D}"

text \<open>Does \<^verbatim>\<open>\s+from\s+\<close> match at the head of the text?\<close>

definition from_here :: "string \<Rightarrow> bool" where
  "from_here s \<longleftrightarrow>
     s \<noteq> [] \<and> re_space (hd s) \<and>
     (let t = dropWhile re_space s in ToLower (take 4 t) = ''from'' \<and> drop 4 t \<noteq> [] \<and> re_space (hd (drop 4 t)))"

text \<open>The end of the shortest projection that starts at a position, at least one character long.\<close>

definition proj_end :: "string \<Rightarrow> nat \<Rightarrow> nat option" where
  "proj_end sql i = find (\<lambda>j. from_here (drop j sql)) [i + 1..<length sql]"

text \<open>\<^verbatim>\<open>selectRE.FindStringSubmatchIndex\<close>: start and end of the projection.\<close>

definition select_match :: "string \<Rightarrow> (nat \<times> nat) option" where
  "select_match sql =
     (let a = length (takeWhile re_space sql);
          body = drop a sql;
          n = length (takeWhile re_space (drop 6 body))
      in if ToLower (take 6 body) \<noteq> ''select'' then None
         else (case find (\<lambda>k. proj_end sql (a + 6 + k) \<noteq> None) (rev [1..<n + 1]) of
                 None \<Rightarrow> None
               | Some k \<Rightarrow> map_option (\<lambda>j. (a + 6 + k, j)) (proj_end sql (a + 6 + k))))"

definition maskExpr :: "string \<Rightarrow> string \<Rightarrow> string" where
  "maskExpr strategy col =
     (if strategy = ''null'' then ''NULL''
      else if strategy = ''hash'' then ''md5('' @ col @ ''::text)''
      else if strategy = ''redact'' then [CHR 0x27] @ ''***REDACTED***'' @ [CHR 0x27]
      else if strategy = ''first_4'' then ''left('' @ col @ ''::text, 4) || '' @ [CHR 0x27, CHR 0xE2, CHR 0x80, CHR 0xA6, CHR 0x27]
      else col)"

text \<open>The parts between top-level commas.\<close>

fun split_from :: "int \<Rightarrow> string \<Rightarrow> string \<Rightarrow> string list" where
  "split_from depth cur [] = [cur]"
| "split_from depth cur (c # cs) =
     (if c = CHR ''('' then split_from (depth + 1) (cur @ [c]) cs
      else if c = CHR '')'' then split_from (depth - 1) (cur @ [c]) cs
      else if c = CHR '','' \<and> depth = 0 then cur # split_from depth [] cs
      else split_from depth (cur @ [c]) cs)"

definition splitProjection :: "string \<Rightarrow> string list" where
  "splitProjection s = split_from 0 [] s"

definition bareColumn :: "string \<Rightarrow> string" where
  "bareColumn s0 =
     (let s1 = TrimSpace s0;
          s2 = (case Index (ToLower s1) '' as '' of Some i \<Rightarrow> TrimSpace (take i s1) | None \<Rightarrow> s1)
      in if ContainsAny s2 ''()+-*/ '' then []
         else (case LastIndexByte s2 (CHR ''.'') of Some i \<Rightarrow> drop (i + 1) s2 | None \<Rightarrow> s2))"

text \<open>A map entry is overwritten by a later rule for the same column.\<close>

definition masked :: "masking_rule list \<Rightarrow> string \<rightharpoonup> string" where
  "masked rules = map_of (rev (map (\<lambda>r. (ToLower (mr_Column r), maskExpr (mr_Strategy r) (mr_Column r))) rules))"

definition wrapStar :: "string \<Rightarrow> masking_rule list \<Rightarrow> string" where
  "wrapStar sql rules =
     ''SELECT '' @ Join (''_uv_inner.*'' # map (\<lambda>r. maskExpr (mr_Strategy r) (mr_Column r) @ '' AS '' @ mr_Column r) rules) '', '' @
     '' FROM ('' @ TrimRight (TrimSpace sql) '';'' @ '') AS _uv_inner''"

definition mask_item :: "masking_rule list \<Rightarrow> string \<Rightarrow> string" where
  "mask_item rules p =
     (let col = bareColumn (TrimSpace p) in
      case masked rules (ToLower col) of Some e \<Rightarrow> e @ '' AS '' @ col | None \<Rightarrow> p)"

definition Apply :: "string \<Rightarrow> masking_rule list \<Rightarrow> string" where
  "Apply sql rules =
     (if rules = [] \<or> sql = [] then sql
      else (case select_match sql of
              None \<Rightarrow> sql
            | Some (i, j) \<Rightarrow>
                (let projection = take (j - i) (drop i sql) in
                 if Contains projection ''*'' then wrapStar sql rules
                 else take i sql @ Join (map (mask_item rules) (splitProjection projection)) '', '' @ drop j sql)))"

section \<open>Policies\<close>

record policy =
  po_Schema :: string
  po_Table :: string
  po_Column :: string
  po_Role :: string
  po_Mode :: string
  po_Strategy :: string

text \<open>\<open>Inl\<close> is the reason for blocking, \<open>Inr\<close> the masking rules collected.\<close>

fun policy_rules :: "string list \<Rightarrow> policy list \<Rightarrow> masking_rule list \<Rightarrow> string + masking_rule list" where
  "policy_rules roles [] acc = Inr acc"
| "policy_rules roles (p # ps) acc =
     (if po_Role p \<notin> set roles then policy_rules roles ps acc
      else if po_Mode p = ''deny'' then Inl (''role '' @ po_Role p @ '' cannot access column '' @ po_Column p)
      else if po_Mode p = ''mask'' then
        policy_rules roles ps (acc @ [\<lparr>mr_Schema = po_Schema p, mr_Table = po_Table p, mr_Column = po_Column p, mr_Role = po_Role p,
          mr_Strategy = (if po_Strategy p = [] then ''redact'' else po_Strategy p)\<rparr>])
      else policy_rules roles ps acc)"

definition Enforce :: "string \<Rightarrow> string list \<Rightarrow> policy list \<Rightarrow> string \<times> bool \<times> string" where
  "Enforce sql userRoles policies =
     (if sql = [] then (sql, False, [])
      else (case policy_rules userRoles policies [] of
              Inl reason \<Rightarrow> ([], True, reason)
            | Inr rules \<Rightarrow> (if rules = [] then sql else Apply sql rules, False, [])))"

section \<open>Roles\<close>

definition canDo :: "(string \<times> string list) list" where
  "canDo =
     [(''connection.create'', [''admin'', ''editor'']), (''connection.delete'', [''admin'']),
      (''dashboard.create'', [''admin'', ''editor'']), (''dashboard.view'', [''admin'', ''editor'', ''viewer'']),
      (''audit.read'', [''admin'', ''auditor'']), (''workspace.manage'', [''admin'']),
      (''semantic.write'', [''admin'', ''editor'']), (''sso.configure'', [''admin'']),
      (''billing.read'', [''admin'']), (''reverse_etl.create'', [''admin'', ''editor''])]"

definition ErrForbidden :: go_error where
  "ErrForbidden = Errorf ''rbac: forbidden''"

text \<open>The membership table as its rows of user, workspace and role; any driver error is a refusal.\<close>

definition RoleFor :: "go_error option \<Rightarrow> (uuid \<times> uuid \<times> string) list \<Rightarrow> uuid \<Rightarrow> uuid \<Rightarrow> string go" where
  "RoleFor fail memberships userID workspaceID =
     (case fail of
        Some _ \<Rightarrow> Err ErrForbidden
      | None \<Rightarrow>
          (case find (\<lambda>(u, w, _). u = userID \<and> w = workspaceID) memberships of
             Some (_, _, role) \<Rightarrow> Ok role
           | None \<Rightarrow> Err ErrForbidden))"

definition rbac_Allow :: "string \<Rightarrow> string \<Rightarrow> unit go" where
  "rbac_Allow role action =
     (case map_of canDo action of
        None \<Rightarrow> Err ErrForbidden
      | Some allowed \<Rightarrow> if role \<in> set allowed then Ok () else Err ErrForbidden)"

section \<open>Lemmas\<close>

lemma split_from_nonempty: "split_from depth cur s \<noteq> []"
  by (induction depth cur s rule: split_from.induct) auto

lemma Join_split_from: "Join (split_from depth cur s) '','' = cur @ s"
proof (induction depth cur s rule: split_from.induct)
  case (2 depth cur c cs)
  have "Join (x # split_from d [] cs) '','' = x @ '','' @ Join (split_from d [] cs) '',''" for x d
    using split_from_nonempty [of d "[]" cs] by (cases "split_from d [] cs") auto
  with 2 show ?case by simp
qed simp

text \<open>Splitting a projection loses nothing.\<close>

lemma splitProjection_Join: "Join (splitProjection s) '','' = s"
  by (simp add: splitProjection_def Join_split_from)

lemma policy_rules_blocked:
  "(\<exists>reason. policy_rules roles ps acc = Inl reason) \<longleftrightarrow> (\<exists>p\<in>set ps. po_Role p \<in> set roles \<and> po_Mode p = ''deny'')"
  by (induction roles ps acc rule: policy_rules.induct) auto

lemma policy_rules_masks:
  "policy_rules roles ps acc = Inr rules \<Longrightarrow>
     map mr_Column rules = map mr_Column acc @ map po_Column (filter (\<lambda>p. po_Role p \<in> set roles \<and> po_Mode p = ''mask'') ps)"
  by (induction roles ps acc rule: policy_rules.induct) (auto split: if_splits)

lemma admin_allowed: "rbac_Allow ''admin'' action = Ok () \<longleftrightarrow> action \<in> fst ` set canDo"
  by (auto simp: rbac_Allow_def canDo_def split: option.splits if_splits)

section \<open>Properties\<close>

text \<open>
  C27. What a policy set does to a query: it is blocked exactly when a deny policy names one of the user's
  roles; it is passed on unchanged when no mask policy does; and when one does and the projection contains
  a star, the rewritten query still selects every column of the original query in clear text in front of
  the masked copies.
\<close>

theorem Enforce_decides:
  assumes "Enforce sql roles ps = (out, blocked, reason)" and "sql \<noteq> []"
  shows "(blocked \<longleftrightarrow> (\<exists>p\<in>set ps. po_Role p \<in> set roles \<and> po_Mode p = ''deny'')) \<and>
    (blocked \<longrightarrow> out = []) \<and>
    (\<not> blocked \<and> (\<forall>p\<in>set ps. po_Role p \<in> set roles \<longrightarrow> po_Mode p \<noteq> ''mask'') \<longrightarrow> out = sql) \<and>
    (\<not> blocked \<and> (\<exists>p\<in>set ps. po_Role p \<in> set roles \<and> po_Mode p = ''mask'') \<and>
       select_match sql = Some (i, j) \<and> Contains (take (j - i) (drop i sql)) ''*'' \<longrightarrow>
       (\<exists>copies. out = ''SELECT _uv_inner.*, '' @ copies @ '' FROM ('' @ TrimRight (TrimSpace sql) '';'' @ '') AS _uv_inner''))"
proof (cases "policy_rules roles ps []")
  case (Inl e)
  with policy_rules_blocked [of roles ps "[]"] assms show ?thesis by (auto simp: Enforce_def)
next
  case (Inr rules)
  then have nd: "\<not> (\<exists>p\<in>set ps. po_Role p \<in> set roles \<and> po_Mode p = ''deny'')" "\<not> blocked"
    using policy_rules_blocked [of roles ps "[]"] assms by (auto simp: Enforce_def)
  have out: "out = (if rules = [] then sql else Apply sql rules)" using assms Inr by (simp add: Enforce_def)
  have rules: "rules = [] \<longleftrightarrow> (\<forall>p\<in>set ps. po_Role p \<in> set roles \<longrightarrow> po_Mode p \<noteq> ''mask'')"
    using arg_cong [OF policy_rules_masks [OF Inr], of length] by (auto simp: filter_empty_conv)
  have "\<exists>copies. Apply sql rules = ''SELECT _uv_inner.*, '' @ copies @ '' FROM ('' @ TrimRight (TrimSpace sql) '';'' @ '') AS _uv_inner''"
    if "select_match sql = Some (i, j)" "Contains (take (j - i) (drop i sql)) ''*''" "rules \<noteq> []"
    using that assms(2) by (cases rules) (auto simp: Apply_def wrapStar_def)
  with nd out rules show ?thesis by auto
qed

definition example_policy :: policy where
  "example_policy = \<lparr>po_Schema = [], po_Table = [], po_Column = ''ssn'', po_Role = ''viewer'', po_Mode = ''mask'', po_Strategy = ''null''\<rparr>"

theorem Enforce_decides_witness:
  "Enforce ''select * from t'' [''viewer''] [example_policy] = (''SELECT _uv_inner.*, NULL AS ssn FROM (select * from t) AS _uv_inner'', False, []) \<and>
   (\<exists>copies. fst (Enforce ''select * from t'' [''viewer''] [example_policy]) =
      ''SELECT _uv_inner.*, '' @ copies @ '' FROM ('' @ TrimRight (TrimSpace ''select * from t'') '';'' @ '') AS _uv_inner'')"
proof -
  have e: "Enforce ''select * from t'' [''viewer''] [example_policy] = (''SELECT _uv_inner.*, NULL AS ssn FROM (select * from t) AS _uv_inner'', False, [])"
    by code_simp
  have m: "select_match ''select * from t'' = Some (7, 8) \<and> Contains (take (8 - 7) (drop 7 ''select * from t'')) ''*''" by code_simp
  have p: "po_Role example_policy = ''viewer''" "po_Mode example_policy = ''mask''" by (simp_all add: example_policy_def)
  show ?thesis unfolding e fst_conv
    using Enforce_decides [OF e, of 7 8] m p by auto
qed

end
