(* ===== verification/Api_Gateway.thy ===== *)
theory Api_Gateway
  imports Pg_Auth
begin

text \<open>
  The gateway of the control API, \<^verbatim>\<open>internal/api\<close>: the middleware chain of
  \<^verbatim>\<open>server.go\<close> (CORS, the rate limiter of ratelimit.go, the token check of auth.go), the token
  handlers of login.go, the role check of phase4_handlers.go and the production checks of
  \<^verbatim>\<open>config.Load\<close>.

  A request is a record of what the code reads; headers and query values are functions that give the
  empty string where nothing was sent. The request identifier, client-address and recovery middlewares of
  chi are outside the model, and so is the 5xx log. The JWT library, UUID parsing and hex decoding are
  parameters. The limiter's \<^verbatim>\<open>float64\<close> numbers are exact reals here.
\<close>

section \<open>Requests and responses\<close>

record http_request =
  rq_Method :: string
  rq_Path :: string
  rq_Header :: "string \<Rightarrow> string"
  rq_Query :: "string \<Rightarrow> string"
  rq_Body :: bytes
  rq_RemoteAddr :: string
  rq_UserID :: uuid

datatype payload =
    ErrorBody string
  | StatusBody string
  | TokenBody string int "uuid option"
  | CustomersBody "customer list"
  | CustomerBody customer
  | ConnectionsBody "connection list"
  | ConnectionBody connection
  | KeysBody "api_key list"
  | NewKeyBody string api_key
  | TablesBody "synced_table list"
  | IDBody uuid
  | TestBody bool string
  | OtherBody string
  | NoBody

record response =
  rs_Status :: nat
  rs_Payload :: payload

definition writeJSON :: "nat \<Rightarrow> payload \<Rightarrow> response" where
  "writeJSON status v = \<lparr>rs_Status = status, rs_Payload = v\<rparr>"

definition writeErr :: "nat \<Rightarrow> go_error \<Rightarrow> response" where
  "writeErr status e = writeJSON status (ErrorBody (Error e))"

type_synonym 's handler = "http_request \<Rightarrow> 's \<Rightarrow> response \<times> 's"

section \<open>Configuration\<close>

record api_config =
  cfg_Prod :: bool
  cfg_APIRequireAuth :: bool
  cfg_JWTSecret :: string
  cfg_EncryptionKey :: bytes
  cfg_APIRateLimitRPS :: int

definition isAllZero :: "bytes \<Rightarrow> bool" where
  "isAllZero b \<longleftrightarrow> list_all (\<lambda>x. x = CHR 0x00) b"

text \<open>The checks of \<^verbatim>\<open>Load\<close> on the values read from the environment.\<close>

definition Load_checks :: "(string \<Rightarrow> bytes go) \<Rightarrow> string \<Rightarrow> api_config \<Rightarrow> api_config go" where
  "Load_checks hex_decode keyHex c =
     (let c1 = (if cfg_Prod c then c\<lparr>cfg_APIRequireAuth := True\<rparr> else c) in
      if cfg_Prod c \<and> cfg_JWTSecret c = ''dev-jwt-secret-change-me''
      then Err (Errorf ''JWT_SECRET is the dev default; refusing to boot with UV_PROD=true'')
      else (case hex_decode keyHex of
              Err e \<Rightarrow> Err (ErrorfW (''ENCRYPTION_KEY must be hex: '' @ Error e) e)
            | Panic \<Rightarrow> Panic
            | Ok key \<Rightarrow>
                if length key \<noteq> 32
                then Err (Errorf (''ENCRYPTION_KEY must decode to 32 bytes (got '' @ Itoa (int (length key)) @ '')''))
                else if isAllZero key \<and> cfg_Prod c
                then Err (Errorf ''ENCRYPTION_KEY is the all-zero default; refusing to boot with UV_PROD=true'')
                else Ok (c1\<lparr>cfg_EncryptionKey := key\<rparr>)))"

section \<open>Rate limiter\<close>

record token_bucket =
  tb_tokens :: real
  tb_last :: int
  tb_capacity :: real
  tb_rps :: real

definition Seconds :: "int \<Rightarrow> real" where
  "Seconds d = real_of_int d / 1000000000"

definition take_token :: "int \<Rightarrow> token_bucket \<Rightarrow> bool \<times> token_bucket" where
  "take_token now b =
     (let t = min (tb_capacity b) (tb_tokens b + Seconds (now - tb_last b) * tb_rps b) in
      if 1 \<le> t then (True, b\<lparr>tb_tokens := t - 1, tb_last := now\<rparr>)
      else (False, b\<lparr>tb_tokens := t, tb_last := now\<rparr>))"

record limiter =
  lm_buckets :: "string \<rightharpoonup> token_bucket"
  lm_rps :: real
  lm_capacity :: real

definition NewLimiter :: "int \<Rightarrow> limiter" where
  "NewLimiter rps =
     (let r = (if rps \<le> 0 then 100 else rps) in
      \<lparr>lm_buckets = Map.empty, lm_rps = real_of_int r, lm_capacity = real_of_int r * 2\<rparr>)"

definition limiter_Allow :: "int \<Rightarrow> string \<Rightarrow> limiter \<Rightarrow> bool \<times> limiter" where
  "limiter_Allow now key l =
     (let b = (case lm_buckets l key of
                 Some b \<Rightarrow> b
               | None \<Rightarrow> \<lparr>tb_tokens = lm_capacity l, tb_last = now, tb_capacity = lm_capacity l, tb_rps = lm_rps l\<rparr>);
          (ok, b') = take_token now b
      in (ok, l\<lparr>lm_buckets := (lm_buckets l)(key \<mapsto> b')\<rparr>))"

definition limiter_key :: "http_request \<Rightarrow> string" where
  "limiter_key r = (let key = rq_Header r ''X-API-Key'' in if key = [] then rq_RemoteAddr r else key)"

section \<open>Tokens\<close>

text \<open>
  \<^verbatim>\<open>jwt.Parse\<close> with its key callback gives the subject claim, if it is a string, and the
  validity flag; \<open>jwt_Sign\<close> is \<^verbatim>\<open>SignedString\<close> of an HS256 token with subject, expiry and
  issue time.
\<close>

record jwt_lib =
  jwt_Parse :: "(string \<Rightarrow> bytes go) \<Rightarrow> string \<Rightarrow> (string option \<times> bool) go"
  jwt_Sign :: "bytes \<Rightarrow> string \<Rightarrow> int \<Rightarrow> int \<Rightarrow> string go"

record api_env =
  ae_cfg :: api_config
  ae_jwt :: jwt_lib
  ae_uuid_Parse :: "string \<Rightarrow> uuid go"
  ae_uuid_String :: "uuid \<Rightarrow> string"
  ae_sha256 :: "bytes \<Rightarrow> bytes"

definition jwt_key :: "api_env \<Rightarrow> string \<Rightarrow> bytes go" where
  "jwt_key E alg = (if alg \<noteq> ''HS256'' then Err (Errorf ''unexpected signing method'') else Ok (cfg_JWTSecret (ae_cfg E)))"

definition parseToken :: "api_env \<Rightarrow> string \<Rightarrow> uuid go" where
  "parseToken E raw =
     (case jwt_Parse (ae_jwt E) (jwt_key E) raw of
        Err e \<Rightarrow> Err e
      | Panic \<Rightarrow> Panic
      | Ok (sub, valid) \<Rightarrow>
          if \<not> valid then Err (Errorf ''invalid token'')
          else (case ae_uuid_Parse E (case sub of Some s \<Rightarrow> s | None \<Rightarrow> []) of
                  Err e \<Rightarrow> Err (ErrorfW (''bad sub: '' @ Error e) e)
                | Panic \<Rightarrow> Panic
                | Ok uid \<Rightarrow> Ok uid))"

definition IssueDashboardToken :: "api_env \<Rightarrow> int \<Rightarrow> uuid \<Rightarrow> int \<Rightarrow> string go" where
  "IssueDashboardToken E now userID ttl =
     jwt_Sign (ae_jwt E) (cfg_JWTSecret (ae_cfg E)) (ae_uuid_String E userID) (now + ttl) now"

definition day_seconds :: int where
  "day_seconds = 24 * 60 * 60"

definition login :: "api_env \<Rightarrow> int \<Rightarrow> string go \<Rightarrow> db \<Rightarrow> response" where
  "login E now body d =
     (case body of
        Ok apiKey \<Rightarrow>
          if apiKey = [] then writeErr 400 (Errorf ''api_key required'')
          else (case CustomerIDByAPIKeyHash (HashAPIKey (ae_sha256 E) apiKey) d of
                  Ok customerID \<Rightarrow>
                    (case IssueDashboardToken E now customerID day_seconds of
                       Ok tok \<Rightarrow> writeJSON 200 (TokenBody tok day_seconds (Some customerID))
                     | Err e \<Rightarrow> writeErr 500 e
                     | Panic \<Rightarrow> writeJSON 500 NoBody)
                | _ \<Rightarrow> writeErr 401 (Errorf ''invalid credentials''))
      | _ \<Rightarrow> writeErr 400 (Errorf ''api_key required''))"

definition refresh :: "api_env \<Rightarrow> int \<Rightarrow> http_request \<Rightarrow> response" where
  "refresh E now r =
     (if rq_UserID r = 0 then writeErr 401 (Errorf ''missing identity'')
      else (case IssueDashboardToken E now (rq_UserID r) day_seconds of
              Ok tok \<Rightarrow> writeJSON 200 (TokenBody tok day_seconds None)
            | Err e \<Rightarrow> writeErr 500 e
            | Panic \<Rightarrow> writeJSON 500 NoBody))"

section \<open>Middleware\<close>

text \<open>A panic is caught by chi's recoverer, which answers 500.\<close>

definition authMiddleware :: "api_env \<Rightarrow> 's handler \<Rightarrow> 's handler" where
  "authMiddleware E next r s =
     (if rq_Method r = ''OPTIONS'' \<or> rq_Path r = ''/healthz'' then next r s
      else if HasPrefix (rq_Path r) ''/api/v1/public/'' then next r s
      else if rq_Path r = ''/api/v1/github/setup'' then next r s
      else if HasPrefix (rq_Path r) ''/api/v1/i18n/'' then next r s
      else if \<not> cfg_Prod (ae_cfg E) \<and> rq_Header r ''X-UV-Dev-Bypass'' = ''1'' then next r s
      else (let hdr = rq_Header r ''Authorization'' in
            if \<not> HasPrefix hdr ''Bearer '' then
              (if cfg_APIRequireAuth (ae_cfg E) then (writeErr 401 (Errorf ''missing bearer token''), s) else next r s)
            else (case parseToken E (TrimPrefix hdr ''Bearer '') of
                    Err e \<Rightarrow> (writeErr 401 e, s)
                  | Panic \<Rightarrow> (writeJSON 500 NoBody, s)
                  | Ok uid \<Rightarrow> next (r\<lparr>rq_UserID := uid\<rparr>) s)))"

record 's api_state =
  as_limiter :: limiter
  as_app :: 's

definition limiter_Middleware :: "int \<Rightarrow> 's handler \<Rightarrow> 's api_state handler" where
  "limiter_Middleware now next r s =
     (let (ok, l') = limiter_Allow now (limiter_key r) (as_limiter s) in
      if \<not> ok then (writeJSON 429 (ErrorBody ''rate limit exceeded''), s\<lparr>as_limiter := l'\<rparr>)
      else (let (resp, a) = next r (as_app s) in (resp, \<lparr>as_limiter = l', as_app = a\<rparr>)))"

definition cors :: "'s handler \<Rightarrow> 's handler" where
  "cors next r s = (if rq_Method r = ''OPTIONS'' then (writeJSON 204 NoBody, s) else next r s)"

text \<open>The chain of \<^verbatim>\<open>Routes\<close> in front of a router.\<close>

definition serve :: "api_env \<Rightarrow> int \<Rightarrow> 's handler \<Rightarrow> 's api_state handler" where
  "serve E now routes = cors (limiter_Middleware now (authMiddleware E routes))"

section \<open>Callers\<close>

definition requireRole :: "http_request \<Rightarrow> string list \<Rightarrow> unit go" where
  "requireRole r allowed =
     (let role = (if rq_Header r ''X-UV-Role'' = [] then ''viewer'' else rq_Header r ''X-UV-Role'') in
      if list_ex (\<lambda>a. role = a) allowed then Ok ()
      else Err (Errorf (''forbidden: role '' @ Quote role @ '' lacks permission'')))"

definition activeCustomer :: "http_request \<Rightarrow> db \<Rightarrow> uuid go" where
  "activeCustomer r d =
     (if rq_UserID r \<noteq> 0 then Ok (rq_UserID r)
      else (case ListCustomers d of
              Ok (c # _) \<Rightarrow> Ok (c_ID c)
            | _ \<Rightarrow> Err (Errorf ''no active customer'')))"

section \<open>The limiter's budget\<close>

definition bucket_ok :: "limiter \<Rightarrow> bool" where
  "bucket_ok l \<longleftrightarrow> 0 \<le> lm_rps l \<and> 0 \<le> lm_capacity l \<and>
     (\<forall>k b. lm_buckets l k = Some b \<longrightarrow> tb_rps b = lm_rps l \<and> tb_capacity b = lm_capacity l \<and> 0 \<le> tb_tokens b)"

text \<open>A run of the limiter: requests as pairs of a key and a time; the answers given to one key.\<close>

fun grants :: "limiter \<Rightarrow> string \<Rightarrow> (string \<times> int) list \<Rightarrow> nat" where
  "grants l k [] = 0"
| "grants l k ((key, now) # reqs) =
     (let (ok, l') = limiter_Allow now key l in (if ok \<and> key = k then 1 else 0) + grants l' k reqs)"

lemma Seconds_mono: "a \<le> b \<Longrightarrow> Seconds a \<le> Seconds b"
  by (simp add: Seconds_def divide_right_mono)

lemma Seconds_split: "Seconds (c - a) = Seconds (b - a) + Seconds (c - b)"
  by (simp add: Seconds_def field_simps)

lemma take_token_props:
  assumes "take_token now b = (ok, b')" and "0 \<le> tb_tokens b" "0 \<le> tb_capacity b" "0 \<le> tb_rps b" "tb_last b \<le> now"
  shows "tb_rps b' = tb_rps b \<and> tb_capacity b' = tb_capacity b \<and> tb_last b' = now \<and> 0 \<le> tb_tokens b' \<and>
    of_bool ok + tb_tokens b' \<le> tb_tokens b + Seconds (now - tb_last b) * tb_rps b \<and> of_bool ok + tb_tokens b' \<le> tb_capacity b"
proof -
  have "0 \<le> Seconds (now - tb_last b) * tb_rps b" using assms(4,5) by (simp add: Seconds_def)
  with assms show ?thesis by (auto simp: take_token_def Let_def min_def split: if_splits)
qed

lemma limiter_Allow_props:
  assumes "limiter_Allow now key l = (ok, l')" and "bucket_ok l"
    and "\<forall>b. lm_buckets l key = Some b \<longrightarrow> tb_last b \<le> now"
  shows "bucket_ok l' \<and> lm_rps l' = lm_rps l \<and> lm_capacity l' = lm_capacity l \<and>
    (\<forall>k. k \<noteq> key \<longrightarrow> lm_buckets l' k = lm_buckets l k) \<and>
    (\<exists>b'. lm_buckets l' key = Some b' \<and> tb_last b' = now \<and> of_bool ok + tb_tokens b' \<le> lm_capacity l \<and>
       of_bool ok + tb_tokens b' \<le> (case lm_buckets l key of None \<Rightarrow> lm_capacity l
                                     | Some b \<Rightarrow> tb_tokens b + Seconds (now - tb_last b) * lm_rps l))"
proof -
  let ?b = "case lm_buckets l key of Some b \<Rightarrow> b
    | None \<Rightarrow> \<lparr>tb_tokens = lm_capacity l, tb_last = now, tb_capacity = lm_capacity l, tb_rps = lm_rps l\<rparr>"
  obtain b' where t: "take_token now ?b = (ok, b')" "l' = l\<lparr>lm_buckets := (lm_buckets l)(key \<mapsto> b')\<rparr>"
    using assms(1) by (auto simp: limiter_Allow_def Let_def split: prod.splits)
  have b: "tb_rps ?b = lm_rps l" "tb_capacity ?b = lm_capacity l" "0 \<le> tb_tokens ?b" "tb_last ?b \<le> now"
    using assms(2,3) by (auto simp: bucket_ok_def split: option.splits)
  from take_token_props [OF t(1) b(3) _ _ b(4)] b assms(2)
  have p: "tb_rps b' = lm_rps l" "tb_capacity b' = lm_capacity l" "tb_last b' = now" "0 \<le> tb_tokens b'"
    "of_bool ok + tb_tokens b' \<le> tb_tokens ?b + Seconds (now - tb_last ?b) * lm_rps l" "of_bool ok + tb_tokens b' \<le> lm_capacity l" by (auto simp: bucket_ok_def)
  then show ?thesis using t(2) assms(2)
    by (cases "lm_buckets l key") (auto simp: bucket_ok_def Seconds_def)
qed

text \<open>No bucket was used later than a given time.\<close>

definition stamps :: "limiter \<Rightarrow> int \<Rightarrow> bool" where
  "stamps l t \<longleftrightarrow> (\<forall>k b. lm_buckets l k = Some b \<longrightarrow> tb_last b \<le> t)"

lemma stamps_mono: "stamps l t \<Longrightarrow> t \<le> t' \<Longrightarrow> stamps l t'"
  by (force simp: stamps_def)

lemma limiter_Allow_keeps:
  assumes "limiter_Allow now key l = (ok, l')" and "bucket_ok l" and "stamps l now"
  shows "bucket_ok l' \<and> stamps l' now \<and> lm_rps l' = lm_rps l \<and> lm_capacity l' = lm_capacity l"
proof -
  have "\<forall>b. lm_buckets l key = Some b \<longrightarrow> tb_last b \<le> now" using assms(3) by (simp add: stamps_def)
  note p = limiter_Allow_props [OF assms(1,2) this]
  have "tb_last b \<le> now" if b: "lm_buckets l' k = Some b" for k b
  proof (cases "k = key")
    case False
    with p b have "lm_buckets l k = Some b" by auto
    with assms(3) show ?thesis by (simp add: stamps_def)
  qed (use b p in auto)
  with p show ?thesis by (simp add: stamps_def)
qed

text \<open>What a key can still be granted until a given time.\<close>

definition credit :: "limiter \<Rightarrow> string \<Rightarrow> int \<Rightarrow> int \<Rightarrow> real" where
  "credit l k since until =
     (case lm_buckets l k of
        None \<Rightarrow> lm_capacity l + Seconds (until - since) * lm_rps l
      | Some b \<Rightarrow> tb_tokens b + Seconds (until - tb_last b) * lm_rps l)"

lemma window_mono: "0 \<le> rps \<Longrightarrow> since \<le> now \<Longrightarrow> Seconds (until - now) * rps \<le> Seconds (until - since) * rps"
  by (intro mult_right_mono Seconds_mono) auto

lemma credit_step:
  assumes "limiter_Allow now key l = (ok, l')" and "bucket_ok l" and "stamps l now" and "since \<le> now"
  shows "of_bool (ok \<and> key = k) + credit l' k now until \<le> credit l k since until"
proof -
  have "\<forall>b. lm_buckets l key = Some b \<longrightarrow> tb_last b \<le> now" using assms(3) by (simp add: stamps_def)
  note p = limiter_Allow_props [OF assms(1,2) this]
  then obtain b' where b': "lm_buckets l' key = Some b'" "tb_last b' = now"
    "of_bool ok + tb_tokens b' \<le> (case lm_buckets l key of None \<Rightarrow> lm_capacity l
        | Some b \<Rightarrow> tb_tokens b + Seconds (now - tb_last b) * lm_rps l)" by blast
  have m: "Seconds (until - now) * lm_rps l \<le> Seconds (until - since) * lm_rps l"
    using assms(2,4) by (intro window_mono) (auto simp: bucket_ok_def)
  have s: "Seconds (until - now) * lm_rps l + Seconds (now - x) * lm_rps l = Seconds (until - x) * lm_rps l" for x
    by (simp add: Seconds_split [of until x now] algebra_simps)
  show ?thesis
  proof (cases "key = k")
    case True
    show ?thesis
    proof (cases "lm_buckets l key")
      case None
      with b' p True m show ?thesis by (auto simp: credit_def)
    next
      case (Some b)
      with b' p True s [of "tb_last b"] show ?thesis by (auto simp: credit_def)
    qed
  next
    case False
    with p m show ?thesis by (auto simp: credit_def split: option.split)
  qed
qed

lemma grants_credit:
  assumes "bucket_ok l" and "stamps l since"
    and "sorted (map snd reqs)" "\<forall>q\<in>set reqs. since \<le> snd q \<and> snd q \<le> until" "since \<le> until"
  shows "real (grants l k reqs) \<le> credit l k since until"
  using assms
proof (induction reqs arbitrary: l since)
  case Nil
  have "0 \<le> Seconds (until - tb_last b)" if "lm_buckets l k = Some b" for b
    using Nil.prems(2,5) that by (auto simp: Seconds_def stamps_def intro: order_trans)
  then show ?case using Nil.prems(1,5) by (auto simp: credit_def bucket_ok_def Seconds_def split: option.split)
next
  case (Cons req reqs)
  obtain key now where req: "req = (key, now)" by (cases req)
  obtain ok l' where a: "limiter_Allow now key l = (ok, l')" by fastforce
  have t: "since \<le> now" "now \<le> until" using Cons.prems(4) req by auto
  have st: "stamps l now" using stamps_mono [OF Cons.prems(2) t(1)] .
  note p = limiter_Allow_keeps [OF a Cons.prems(1) st]
  have "real (grants l' k reqs) \<le> credit l' k now until"
    using Cons.prems(3,4) req p t by (intro Cons.IH) auto
  moreover have "real (grants l k (req # reqs)) = of_bool (ok \<and> key = k) + real (grants l' k reqs)" by (simp add: req a)
  ultimately show ?case using credit_step [OF a Cons.prems(1) st t(1), of k until] by linarith
qed

text \<open>Within a window the bucket's fill at its start does not matter beyond the capacity.\<close>

lemma grants_window:
  assumes "bucket_ok l" and "stamps l since"
    and "sorted (map snd reqs)" "\<forall>q\<in>set reqs. since \<le> snd q \<and> snd q \<le> until" "since \<le> until"
  shows "real (grants l k reqs) \<le> lm_capacity l + Seconds (until - since) * lm_rps l"
  using assms
proof (induction reqs arbitrary: l since)
  case Nil
  then show ?case by (auto simp: bucket_ok_def Seconds_def)
next
  case (Cons req reqs)
  obtain key now where req: "req = (key, now)" by (cases req)
  obtain ok l' where a: "limiter_Allow now key l = (ok, l')" by fastforce
  have t: "since \<le> now" "now \<le> until" using Cons.prems(4) req by auto
  have st: "stamps l now" using stamps_mono [OF Cons.prems(2) t(1)] .
  note p = limiter_Allow_keeps [OF a Cons.prems(1) st]
  have rest: "sorted (map snd reqs)" "\<forall>q\<in>set reqs. now \<le> snd q \<and> snd q \<le> until" using Cons.prems(3,4) req by auto
  have m: "Seconds (until - now) * lm_rps l \<le> Seconds (until - since) * lm_rps l"
    using Cons.prems(1) t by (intro window_mono) (auto simp: bucket_ok_def)
  have g: "real (grants l k (req # reqs)) = of_bool (ok \<and> key = k) + real (grants l' k reqs)" by (simp add: req a)
  show ?case
  proof (cases "key = k")
    case True
    have "\<forall>b. lm_buckets l key = Some b \<longrightarrow> tb_last b \<le> now" using st by (simp add: stamps_def)
    from limiter_Allow_props [OF a Cons.prems(1) this] True obtain b'
      where "lm_buckets l' k = Some b'" "tb_last b' = now" "of_bool ok + tb_tokens b' \<le> lm_capacity l" by blast
    then have "of_bool ok + credit l' k now until \<le> lm_capacity l + Seconds (until - now) * lm_rps l" using p by (simp add: credit_def)
    moreover have "real (grants l' k reqs) \<le> credit l' k now until" using p rest t by (intro grants_credit) auto
    ultimately show ?thesis using g m True by (simp; linarith)
  next
    case False
    have "real (grants l' k reqs) \<le> lm_capacity l' + Seconds (until - now) * lm_rps l'" using p rest t by (intro Cons.IH) auto
    then show ?thesis using g m False p by (simp; linarith)
  qed
qed

text \<open>The limiter after a history of requests.\<close>

definition limiter_run :: "(string \<times> int) list \<Rightarrow> limiter \<Rightarrow> limiter" where
  "limiter_run hist l = fold (\<lambda>(key, now) l. snd (limiter_Allow now key l)) hist l"

lemma limiter_run_keeps:
  assumes "bucket_ok l" and "stamps l since" and "sorted (map snd hist)" and "\<forall>q\<in>set hist. since \<le> snd q \<and> snd q \<le> until" and "since \<le> until"
  shows "bucket_ok (limiter_run hist l) \<and> stamps (limiter_run hist l) until \<and>
    lm_rps (limiter_run hist l) = lm_rps l \<and> lm_capacity (limiter_run hist l) = lm_capacity l"
  using assms
proof (induction hist arbitrary: l since)
  case Nil
  then show ?case by (simp add: limiter_run_def stamps_mono)
next
  case (Cons req hist)
  obtain key now where req: "req = (key, now)" by (cases req)
  obtain ok l' where a: "limiter_Allow now key l = (ok, l')" by fastforce
  have t: "since \<le> now" "now \<le> until" using Cons.prems(4) req by auto
  note p = limiter_Allow_keeps [OF a Cons.prems(1) stamps_mono [OF Cons.prems(2) t(1)]]
  have "limiter_run (req # hist) l = limiter_run hist l'" by (simp add: limiter_run_def req a)
  with Cons.IH [of l' now] p Cons.prems(3,4) req t show ?case by auto
qed

section \<open>Properties\<close>

text \<open>
  C25. The rate limiter bounds bursts: after any history of requests by any keys, the requests of one key
  that are let through within a later time window, however they interleave with those of other keys, are
  at most two seconds' worth of the configured rate plus the rate times the length of the window; the
  rate is 100 per second when it is not configured.
\<close>

theorem limiter_bound:
  assumes "sorted (map snd (hist @ reqs))" and "\<forall>q\<in>set hist. snd q \<le> since"
    and "\<forall>q\<in>set reqs. since \<le> snd q \<and> snd q \<le> until" and "since \<le> until"
    and "R = (if rps \<le> 0 then 100 else real_of_int rps)"
  shows "real (grants (limiter_run hist (NewLimiter rps)) k reqs) \<le> 2 * R + R * Seconds (until - since)"
proof -
  have l: "lm_buckets (NewLimiter rps) = Map.empty" "lm_rps (NewLimiter rps) = R" "lm_capacity (NewLimiter rps) = R * 2"
    using assms(5) by (auto simp: NewLimiter_def Let_def)
  have ok: "bucket_ok (NewLimiter rps)" using l assms(5) by (auto simp: bucket_ok_def)
  define t0 where "t0 = Min (insert since (snd ` set hist))"
  have "t0 \<le> since" "\<forall>q\<in>set hist. t0 \<le> snd q \<and> snd q \<le> since" unfolding t0_def using assms(2) by auto
  moreover have "stamps (NewLimiter rps) t0" by (simp add: stamps_def l)
  ultimately have h: "bucket_ok (limiter_run hist (NewLimiter rps)) \<and> stamps (limiter_run hist (NewLimiter rps)) since \<and>
    lm_rps (limiter_run hist (NewLimiter rps)) = R \<and> lm_capacity (limiter_run hist (NewLimiter rps)) = R * 2"
    using limiter_run_keeps [OF ok, of t0 hist since] assms(1) l by (simp add: sorted_append)
  with grants_window [of "limiter_run hist (NewLimiter rps)" since reqs until k] assms(1,3,4)
  show ?thesis by (simp add: sorted_append algebra_simps)
qed

theorem limiter_bound_witness:
  "real (grants (limiter_run [(''k'', 0)] (NewLimiter 1)) ''k'' [(''k'', 10000000000), (''k'', 10000000000), (''x'', 10000000000), (''k'', 10000000000)])
     \<le> 2 * 1 + 1 * Seconds (10000000000 - 10000000000)"
  using limiter_bound [of "[(''k'', 0)]" "[(''k'', 10000000000), (''k'', 10000000000), (''x'', 10000000000), (''k'', 10000000000)]"
      10000000000 10000000000 1 1 "''k''"] by simp

text \<open>The key is whatever the caller sends: a new key always finds a full bucket.\<close>

lemma fresh_key_granted: "lm_buckets l key = None \<Longrightarrow> 1 \<le> lm_capacity l \<Longrightarrow> fst (limiter_Allow now key l)"
  by (simp add: limiter_Allow_def take_token_def Seconds_def)

text \<open>The paths that the token check lets through.\<close>

definition open_path :: "string \<Rightarrow> bool" where
  "open_path p \<longleftrightarrow> p = ''/healthz'' \<or> HasPrefix p ''/api/v1/public/'' \<or> p = ''/api/v1/github/setup'' \<or> HasPrefix p ''/api/v1/i18n/''"

lemma Load_checks_prod:
  "Load_checks hex_decode keyHex c = Ok c' \<Longrightarrow> cfg_Prod c \<Longrightarrow>
     cfg_Prod c' \<and> cfg_APIRequireAuth c' \<and> cfg_JWTSecret c' \<noteq> ''dev-jwt-secret-change-me'' \<and> \<not> isAllZero (cfg_EncryptionKey c')"
  by (auto simp: Load_checks_def Let_def split: if_splits go.splits)


definition example_config :: api_config where
  "example_config = \<lparr>cfg_Prod = True, cfg_APIRequireAuth = False, cfg_JWTSecret = ''s3cret'', cfg_EncryptionKey = [], cfg_APIRateLimitRPS = 100\<rparr>"

text \<open>A token library for the examples: a token is the subject behind a fixed prefix.\<close>

definition example_jwt :: jwt_lib where
  "example_jwt = \<lparr>jwt_Parse = (\<lambda>key raw. bind_go (key ''HS256'') (\<lambda>_.
       if HasPrefix raw ''tok.'' then Ok (Some (TrimPrefix raw ''tok.''), True) else Err (Errorf ''malformed token''))),
     jwt_Sign = (\<lambda>key sub exp iat. Ok (''tok.'' @ sub))\<rparr>"

definition example_api_env :: api_env where
  "example_api_env = \<lparr>ae_cfg = example_config\<lparr>cfg_APIRequireAuth := True, cfg_EncryptionKey := replicate 32 (CHR ''k'')\<rparr>,
     ae_jwt = example_jwt, ae_uuid_Parse = (\<lambda>s. if s = [] then Err (Errorf ''invalid UUID'') else Ok (length s)),
     ae_uuid_String = (\<lambda>u. replicate u (CHR ''u'')), ae_sha256 = id\<rparr>"

definition login_request :: http_request where
  "login_request = \<lparr>rq_Method = ''POST'', rq_Path = ''/api/v1/auth/login'', rq_Header = (\<lambda>_. []), rq_Query = (\<lambda>_. []),
     rq_Body = [], rq_RemoteAddr = ''10.0.0.1:9'', rq_UserID = 0\<rparr>"


end
