(* ===== verification/Api_Server.thy ===== *)
theory Api_Server
  imports Api_Gateway
begin

text \<open>
  The handlers of the control API for customers, connections, API keys and synced tables,
  \<^verbatim>\<open>internal/api/server.go\<close>, over the control store. JSON decoding of the request bodies is a
  parameter, one decoder for each body type; \<open>rest\<close> stands for the routes that are not modelled here.
\<close>

section \<open>Paging\<close>

fun digits_val :: "nat \<Rightarrow> string \<Rightarrow> nat option" where
  "digits_val acc [] = Some acc"
| "digits_val acc (c # cs) =
     (let n = of_char c :: nat in if 48 \<le> n \<and> n \<le> 57 then digits_val (acc * 10 + (n - 48)) cs else None)"

text \<open>\<^verbatim>\<open>strconv.Atoi\<close>; \<open>None\<close> is a syntax or range error.\<close>

definition Atoi :: "string \<Rightarrow> int option" where
  "Atoi s =
     (let neg = (s \<noteq> [] \<and> hd s = CHR ''-'');
          body = (if s \<noteq> [] \<and> hd s \<in> {CHR ''-'', CHR ''+''} then tl s else s)
      in if body = [] then None
         else (case digits_val 0 body of
                 None \<Rightarrow> None
               | Some n \<Rightarrow>
                   (let v = (if neg then - int n else int n) in if - (2 ^ 63) \<le> v \<and> v < 2 ^ 63 then Some v else None)))"

definition pageParams :: "http_request \<Rightarrow> int \<times> int" where
  "pageParams r =
     (let limit = (case Atoi (rq_Query r ''limit'') of Some n \<Rightarrow> if 0 < n then n else 50 | None \<Rightarrow> 50);
          offset = (case Atoi (rq_Query r ''offset'') of Some n \<Rightarrow> if 0 \<le> n then n else 0 | None \<Rightarrow> 0)
      in (if 200 < limit then 200 else limit, offset))"

definition applyPage :: "'a list \<Rightarrow> int \<Rightarrow> int \<Rightarrow> 'a list" where
  "applyPage rows limit offset =
     (if int (length rows) \<le> offset then []
      else (let end' = (if int (length rows) < offset + limit then int (length rows) else offset + limit)
            in take (nat (end' - offset)) (drop (nat offset) rows)))"

section \<open>Handlers\<close>

record connection_body =
  cb_WarehouseType :: string
  cb_Name :: string
  cb_Credentials :: bytes
  cb_StorageMode :: string
  cb_S3Bucket :: "string option"
  cb_S3Prefix :: "string option"

record table_body =
  bt_SchemaName :: string
  bt_TableName :: string
  bt_SyncMode :: string
  bt_WatermarkColumn :: "string option"

text \<open>\<open>jd_key\<close> gives the description found in the body, whose decoding error is ignored.\<close>

record json_decoders =
  jd_login :: "bytes \<Rightarrow> string go"
  jd_customer :: "bytes \<Rightarrow> (string \<times> string) go"
  jd_connection :: "bytes \<Rightarrow> connection_body go"
  jd_key :: "bytes \<Rightarrow> string option"
  jd_table :: "bytes \<Rightarrow> table_body go"

text \<open>What a request draws from the outside: the clock and the random source.\<close>

record draw =
  dr_unix :: int
  dr_key :: "bytes go"
  dr_nonce :: "bytes go"

definition parseUUID :: "api_env \<Rightarrow> string \<Rightarrow> string \<Rightarrow> uuid go" where
  "parseUUID E name s =
     (case ae_uuid_Parse E s of
        Ok u \<Rightarrow> Ok u
      | Err e \<Rightarrow> Err (ErrorfW (''invalid '' @ name @ '': '' @ Error e) e)
      | Panic \<Rightarrow> Panic)"

definition fail_or :: "nat \<Rightarrow> 'a go \<Rightarrow> ('a \<Rightarrow> response) \<Rightarrow> response" where
  "fail_or status r f = (case r of Ok x \<Rightarrow> f x | Err e \<Rightarrow> writeErr status e | Panic \<Rightarrow> writeJSON 500 NoBody)"

definition with_id :: "api_env \<Rightarrow> string \<Rightarrow> db \<Rightarrow> (uuid \<Rightarrow> response \<times> db) \<Rightarrow> response \<times> db" where
  "with_id E s d f =
     (case parseUUID E ''id'' s of Ok u \<Rightarrow> f u | Err e \<Rightarrow> (writeErr 400 e, d) | Panic \<Rightarrow> (writeJSON 500 NoBody, d))"

definition health :: response where
  "health = writeJSON 200 (StatusBody ''ok'')"

definition listCustomers :: "db \<Rightarrow> response" where
  "listCustomers d = fail_or 500 (ListCustomers d) (\<lambda>cs. writeJSON 200 (CustomersBody cs))"

definition createCustomer :: "(string \<times> string) go \<Rightarrow> db \<Rightarrow> response \<times> db" where
  [handler_defs]: "createCustomer body d =
     (case body of
        Err e \<Rightarrow> (writeErr 400 e, d)
      | Panic \<Rightarrow> (writeJSON 500 NoBody, d)
      | Ok (slug, displayName) \<Rightarrow>
          if slug = [] \<or> displayName = [] then (writeErr 400 (Errorf ''slug + display_name required''), d)
          else (let (r, d') = CreateCustomer slug displayName d
                in (fail_or 500 r (\<lambda>c. writeJSON 201 (CustomerBody c)), d')))"

definition listConnections :: "api_env \<Rightarrow> http_request \<Rightarrow> string \<Rightarrow> db \<Rightarrow> response \<times> db" where
  [handler_defs]: "listConnections E r s d = with_id E s d (\<lambda>u.
     (fail_or 500 (ListConnections u d) (\<lambda>cs.
        let (limit, offset) = pageParams r in writeJSON 200 (ConnectionsBody (applyPage cs limit offset))), d))"

definition createConnection ::
  "api_env \<Rightarrow> aead \<Rightarrow> bytes go \<Rightarrow> connection_body go \<Rightarrow> string \<Rightarrow> db \<Rightarrow> response \<times> db" where
  [handler_defs]: "createConnection E enc rnd body s d = with_id E s d (\<lambda>u.
     case body of
       Err e \<Rightarrow> (writeErr 400 e, d)
     | Panic \<Rightarrow> (writeJSON 500 NoBody, d)
     | Ok b \<Rightarrow>
         (let mode = (if cb_StorageMode b = [] then ''managed'' else cb_StorageMode b) in
          if cb_WarehouseType b = [] \<or> cb_Name b = [] \<or> cb_Credentials b = []
          then (writeErr 400 (Errorf ''warehouse_type, name, credentials required''), d)
          else (case Encrypt enc rnd (cb_Credentials b) of
                  Err e \<Rightarrow> (writeErr 500 e, d)
                | Panic \<Rightarrow> (writeJSON 500 NoBody, d)
                | Ok (ct, nonce) \<Rightarrow>
                    (let (r, d') = CreateConnection u (cb_WarehouseType b) (cb_Name b) ct nonce mode (cb_S3Bucket b) (cb_S3Prefix b) d
                     in (fail_or 500 r (\<lambda>c. writeJSON 201 (ConnectionBody c)), d')))))"

definition listAPIKeys :: "api_env \<Rightarrow> http_request \<Rightarrow> string \<Rightarrow> db \<Rightarrow> response \<times> db" where
  [handler_defs]: "listAPIKeys E r s d = with_id E s d (\<lambda>u.
     (fail_or 500 (ListAPIKeys u d) (\<lambda>ks.
        let (limit, offset) = pageParams r in writeJSON 200 (KeysBody (applyPage ks limit offset))), d))"

definition hexEncode :: "bytes \<Rightarrow> string" where
  "hexEncode b = concat (map (\<lambda>c. let n = of_char c :: nat in [hex_digit (n div 16), hex_digit (n mod 16)]) b)"

definition generateAPIKey :: "bytes go \<Rightarrow> (string \<times> string) go" where
  "generateAPIKey rnd = bind_go rnd (\<lambda>buf. let full = ''uvk_'' @ hexEncode buf in Ok (full, take (min 12 (length full)) full))"

definition createAPIKey :: "api_env \<Rightarrow> bytes go \<Rightarrow> string option \<Rightarrow> string \<Rightarrow> db \<Rightarrow> response \<times> db" where
  [handler_defs]: "createAPIKey E rnd description s d = with_id E s d (\<lambda>u.
     case generateAPIKey rnd of
       Err e \<Rightarrow> (writeErr 500 e, d)
     | Panic \<Rightarrow> (writeJSON 500 NoBody, d)
     | Ok (apiKey, pre) \<Rightarrow>
         (let (r, d') = CreateAPIKey (ae_sha256 E) u apiKey pre description d
          in (fail_or 500 r (\<lambda>k. writeJSON 201 (NewKeyBody apiKey k)), d')))"

definition revokeAPIKey :: "api_env \<Rightarrow> string \<Rightarrow> db \<Rightarrow> response \<times> db" where
  [handler_defs]: "revokeAPIKey E s d = with_id E s d (\<lambda>u.
     let (r, d') = RevokeAPIKey u d in (fail_or 500 r (\<lambda>_. writeJSON 204 NoBody), d'))"

definition listSyncedTables :: "api_env \<Rightarrow> http_request \<Rightarrow> string \<Rightarrow> db \<Rightarrow> response \<times> db" where
  [handler_defs]: "listSyncedTables E r s d = with_id E s d (\<lambda>u.
     (fail_or 500 (ListSyncedTables u d) (\<lambda>ts.
        let (limit, offset) = pageParams r in writeJSON 200 (TablesBody (applyPage ts limit offset))), d))"

definition createSyncedTable :: "api_env \<Rightarrow> table_body go \<Rightarrow> string \<Rightarrow> db \<Rightarrow> response \<times> db" where
  [handler_defs]: "createSyncedTable E body s d = with_id E s d (\<lambda>u.
     case body of
       Err e \<Rightarrow> (writeErr 400 e, d)
     | Panic \<Rightarrow> (writeJSON 500 NoBody, d)
     | Ok b \<Rightarrow>
         (let t = \<lparr>t_ID = 0, t_ConnectionID = u, t_SchemaName = bt_SchemaName b, t_TableName = bt_TableName b,
                   t_SyncMode = bt_SyncMode b, t_WatermarkColumn = bt_WatermarkColumn b, t_LastSyncAt = None,
                   t_LastSnapshotID = None, t_LastWatermark = None, t_IcebergPath = None, t_RowCount = 0,
                   t_State = ''pending'', t_LastError = None\<rparr>;
              (r, d') = UpsertSyncedTable t d
          in (fail_or 500 r (\<lambda>tid. writeJSON 201 (IDBody tid)), d')))"

definition testConnection :: "api_env \<Rightarrow> aead \<Rightarrow> string \<Rightarrow> db \<Rightarrow> response \<times> db" where
  [handler_defs]: "testConnection E enc s d = with_id E s d (\<lambda>u.
     (case db_fail d of
        Some e \<Rightarrow> writeErr 404 e
      | None \<Rightarrow>
          (case find (\<lambda>c. cn_ID c = u) (connections d) of
             None \<Rightarrow> writeErr 404 (Errorf ''no rows in result set'')
           | Some c \<Rightarrow>
               (case Decrypt enc (cn_Ciphertext c) (cn_Nonce c) of
                  Err e \<Rightarrow> writeErr 500 (ErrorfW (''decrypt: '' @ Error e) e)
                | Panic \<Rightarrow> writeJSON 500 NoBody
                | Ok _ \<Rightarrow> writeJSON 200 (TestBody True (cn_WarehouseType c)))), d))"

section \<open>Routes\<close>

text \<open>
  The matching of chi on the segments of the path. A segment for a parameter is not empty.
\<close>

definition api_path :: "string list \<Rightarrow> string list" where
  "api_path segs = [] # ''api'' # ''v1'' # segs"

definition routes :: "api_env \<Rightarrow> json_decoders \<Rightarrow> aead \<Rightarrow> draw \<Rightarrow> db handler \<Rightarrow> db handler" where
  "routes E J enc w rest r d =
     (let m = rq_Method r; segs = Split (rq_Path r) (CHR ''/''); p = segs ! 4 in
      if m = ''GET'' \<and> segs \<in> {[[], ''healthz''], [[], ''livez''], [[], ''readyz'']} then (health, d)
      else if m = ''POST'' \<and> segs = api_path [''auth'', ''login''] then (login E (dr_unix w) (jd_login J (rq_Body r)) d, d)
      else if m = ''POST'' \<and> segs = api_path [''auth'', ''refresh''] then (refresh E (dr_unix w) r, d)
      else if m = ''GET'' \<and> segs = api_path [''customers''] then (listCustomers d, d)
      else if m = ''POST'' \<and> segs = api_path [''customers''] then createCustomer (jd_customer J (rq_Body r)) d
      else if m = ''GET'' \<and> segs = api_path [''customers'', p, ''connections''] \<and> p \<noteq> [] then listConnections E r p d
      else if m = ''POST'' \<and> segs = api_path [''customers'', p, ''connections''] \<and> p \<noteq> []
        then createConnection E enc (dr_nonce w) (jd_connection J (rq_Body r)) p d
      else if m = ''GET'' \<and> segs = api_path [''customers'', p, ''api-keys''] \<and> p \<noteq> [] then listAPIKeys E r p d
      else if m = ''POST'' \<and> segs = api_path [''customers'', p, ''api-keys''] \<and> p \<noteq> []
        then createAPIKey E (dr_key w) (jd_key J (rq_Body r)) p d
      else if m = ''DELETE'' \<and> segs = api_path [''api-keys'', p] \<and> p \<noteq> [] then revokeAPIKey E p d
      else if m = ''GET'' \<and> segs = api_path [''connections'', p, ''synced-tables''] \<and> p \<noteq> [] then listSyncedTables E r p d
      else if m = ''POST'' \<and> segs = api_path [''connections'', p, ''synced-tables''] \<and> p \<noteq> []
        then createSyncedTable E (jd_table J (rq_Body r)) p d
      else if m = ''GET'' \<and> segs = api_path [''connections'', p, ''test''] \<and> p \<noteq> [] then testConnection E enc p d
      else rest r d)"

section \<open>Lemmas\<close>

text \<open>Paging: consecutive pages are disjoint and cover the list.\<close>

lemma pages_cover:
  assumes "0 < limit"
  shows "concat (map (\<lambda>i. applyPage rows limit (int i * limit)) [0..<n]) = take (nat limit * n) rows"
proof (induction n)
  case (Suc n)
  obtain l where l: "limit = int l" "0 < l" using assms pos_int_cases by blast
  then have "applyPage rows limit (int n * limit) = take l (drop (n * l) rows)"
    by (auto simp: applyPage_def Let_def nat_diff_distrib algebra_simps simp flip: of_nat_mult of_nat_add)
  moreover have "take (l * n) rows @ take l (drop (l * n) rows) = take (l * n + l) rows" by (simp add: take_add)
  ultimately show ?case using Suc l by (simp add: algebra_simps)
qed simp

lemma pageParams_bounds:
  "pageParams r = (limit, offset) \<Longrightarrow> 1 \<le> limit \<and> limit \<le> 200 \<and> 0 \<le> offset"
  by (auto simp: pageParams_def Let_def split: option.splits if_splits)

text \<open>Every handler leaves the store as it is or takes one of the store's steps.\<close>

definition api_step :: "(bytes \<Rightarrow> bytes) \<Rightarrow> db \<Rightarrow> db \<Rightarrow> bool" where
  "api_step sha256 d d' \<longleftrightarrow> d' = d \<or> db_step sha256 d d'"

lemma api_step_refl [simp, store_steps]: "api_step sha256 d d"
  by (simp add: api_step_def)

lemma api_step_db [simp, store_steps]:
  "api_step sha256 d (snd (CreateCustomer slug name d))"
  "api_step sha256 d (snd (CreateAPIKey sha256 cid key pre desc d))"
  "api_step sha256 d (snd (RevokeAPIKey i d))"
  "api_step sha256 d (snd (CreateConnection cid wh name ct nonce mode b p d))"
  "api_step sha256 d (snd (UpsertSyncedTable t d))"
  by (simp_all add: api_step_def db_step.intros)

lemma api_step_with_id:
  "(\<And>u. api_step sha256 d (snd (f u))) \<Longrightarrow> api_step sha256 d (snd (with_id E s d f))"
  by (simp add: with_id_def split: go.split)

lemma handlers_step [store_steps]:
  "api_step sha256 d (snd (createCustomer body d))"
  "api_step sha256 d (snd (createConnection E enc rnd cbody s d))"
  "api_step (ae_sha256 E) d (snd (createAPIKey E rnd desc s d))"
  "api_step sha256 d (snd (revokeAPIKey E s d))"
  "api_step sha256 d (snd (createSyncedTable E tbody s d))"
  unfolding handler_defs
  by ((intro api_step_with_id)?, simp add: Let_def case_prod_unfold split: go.split)+

lemma readers_step [store_steps]:
  "api_step sha256 d (snd (listConnections E r s d))" "api_step sha256 d (snd (listAPIKeys E r s d))"
  "api_step sha256 d (snd (listSyncedTables E r s d))" "api_step sha256 d (snd (testConnection E enc s d))"
  unfolding handler_defs
  by (intro api_step_with_id, simp)+

lemma api_step_if:
  "api_step sha256 d (snd a) \<Longrightarrow> api_step sha256 d (snd b) \<Longrightarrow> api_step sha256 d (snd (if c then a else b))"
  by simp

lemma routes_step:
  assumes "\<And>r d. api_step (ae_sha256 E) d (snd (rest r d))"
  shows "api_step (ae_sha256 E) d (snd (routes E J enc w rest r d))"
  unfolding routes_def Let_def
  by (intro api_step_if assms) (simp_all only: snd_conv store_steps)

section \<open>Properties\<close>

lemma path_segments:
  assumes "CHR ''/'' \<notin> set s"
  shows "Split (''/api/v1/customers/'' @ s @ ''/api-keys'') (CHR ''/'') = api_path [''customers'', s, ''api-keys'']"
proof -
  have "\<forall>p\<in>set [[], ''api'', ''v1'', ''customers'', s, ''api-keys'']. CHR ''/'' \<notin> set p" using assms by simp
  from Split_Join [OF _ this] show ?thesis by (simp add: api_path_def)
qed

lemma routes_createAPIKey:
  assumes "rq_Method r = ''POST''" "rq_Path r = ''/api/v1/customers/'' @ s @ ''/api-keys''" "CHR ''/'' \<notin> set s" "s \<noteq> []"
  shows "routes E J enc w rest r d = createAPIKey E (dr_key w) (jd_key J (rq_Body r)) s d"
  unfolding routes_def assms(1,2) path_segments [OF assms(3)] using assms(4) by (simp add: api_path_def)

text \<open>
  C40. The API does not compare the customer in the path with the customer of the token: with any valid
  token, a POST to the API-key path of another customer creates a key of that customer, and the returned
  key then authenticates a PostgreSQL connection as that customer.
\<close>

theorem cross_tenant_api_key:
  assumes "HasPrefix (rq_Header r ''Authorization'') ''Bearer ''"
    and "parseToken E (TrimPrefix (rq_Header r ''Authorization'') ''Bearer '') = Ok uid"
    and "rq_Method r = ''POST''" and "rq_Path r = ''/api/v1/customers/'' @ s @ ''/api-keys''" and "CHR ''/'' \<notin> set s" and "s \<noteq> []"
    and "ae_uuid_Parse E s = Ok victim" and "victim \<noteq> uid"
    and "store_up d" and "c \<in> set (customers d)" and "c_ID c = victim" and "c_Slug c \<noteq> []"
    and "dr_key w = Ok buf" and "ae_sha256 E (''uvk_'' @ hexEncode buf) \<notin> k_KeyHash ` set (api_keys d)"
    and "limiter_Allow now (limiter_key r) l = (True, l')"
  shows "\<exists>key k d'. serve E now (routes E J enc w rest) r \<lparr>as_limiter = l, as_app = d\<rparr>
      = (writeJSON 201 (NewKeyBody key k), \<lparr>as_limiter = l', as_app = d'\<rparr>) \<and>
    fst (Authenticate (LookupAPIKey (ae_sha256 E)) key (c_Slug c @ ''_bigquery'') d')
      = Ok \<lparr>APIKeyID = k_ID k, CustomerID = victim, CustomerSlug = c_Slug c, WarehouseType = ''bigquery''\<rparr>"
proof -
  let ?key = "''uvk_'' @ hexEncode buf" and ?sha = "ae_sha256 E"
  have up: "db_ok d" "db_fail d = None" using assms(9) by (auto simp: store_up_def)
  have cust: "victim \<in> c_ID ` set (customers d)" using assms(10,11) by auto
  obtain k d' where ck: "CreateAPIKey ?sha victim ?key (take (min 12 (length ?key)) ?key) (jd_key J (rq_Body r)) d = (Ok k, d')"
    and k: "k_KeyHash k = ?sha ?key" "k_CustomerID k = victim" "k_RevokedAt k = None"
    and d': "api_keys d' = api_keys d @ [k]" "customers d' = customers d" "db_fail d' = None"
    using cust assms(14) up by (simp add: CreateAPIKey_def HashAPIKey_def Let_def)
  have "store_up d'" using db_ok_CreateAPIKey [OF up(1), of ?sha] ck d'(3) by (metis snd_conv store_up_def)
  moreover have "key_owner ?sha d' ?key (k_ID k) victim (c_Slug c)"
    unfolding key_owner_def using k d' assms(10,11)
    by (intro exI [of _ k] exI [of _ c]) (auto simp: live_key_rows_iff HashAPIKey_def)
  ultimately have auth: "fst (Authenticate (LookupAPIKey ?sha) ?key (c_Slug c @ ''_bigquery'') d')
      = Ok \<lparr>APIKeyID = k_ID k, CustomerID = victim, CustomerSlug = c_Slug c, WarehouseType = ''bigquery''\<rparr>"
    using store_keys.authenticate_accepts [of d' ?sha ?key "k_ID k" victim "c_Slug c" "''bigquery''"] assms(12)
    by (simp add: warehouse_names_def)
  have rt: "routes E J enc w rest (r\<lparr>rq_UserID := u\<rparr>) d = (writeJSON 201 (NewKeyBody ?key k), d')"
      "routes E J enc w rest r d = (writeJSON 201 (NewKeyBody ?key k), d')" for u
    using assms(3-7,13) ck
    by (simp_all add: routes_createAPIKey createAPIKey_def with_id_def parseUUID_def generateAPIKey_def Let_def fail_or_def)
  have "authMiddleware E (routes E J enc w rest) r d = (writeJSON 201 (NewKeyBody ?key k), d')"
    using assms(1,2) rt by (simp add: authMiddleware_def Let_def)
  then have "serve E now (routes E J enc w rest) r \<lparr>as_limiter = l, as_app = d\<rparr>
      = (writeJSON 201 (NewKeyBody ?key k), \<lparr>as_limiter = l', as_app = d'\<rparr>)"
    using assms(3,15) by (simp add: serve_def cors_def limiter_Middleware_def)
  with auth show ?thesis by blast
qed

definition takeover_request :: http_request where
  "takeover_request = login_request\<lparr>rq_Path := ''/api/v1/customers/uu/api-keys'',
     rq_Header := (\<lambda>h. if h = ''Authorization'' then ''Bearer tok.u'' else [])\<rparr>"

definition example_decoders :: json_decoders where
  "example_decoders = \<lparr>jd_login = (\<lambda>b. Ok b), jd_customer = (\<lambda>b. Ok (b, b)), jd_connection = (\<lambda>_. Err EOF), jd_key = (\<lambda>_. None),
     jd_table = (\<lambda>_. Err EOF)\<rparr>"

definition two_customers :: db where
  "two_customers = snd (CreateCustomer ''beta'' ''Beta'' (snd (CreateCustomer ''acme'' ''Acme'' (empty_db 0))))"

theorem cross_tenant_api_key_witness:
  "\<exists>key k d' l'. serve example_api_env 0 (routes example_api_env example_decoders \<lparr>NonceSize = 0, Seal = (\<lambda>_ p. p), Open = (\<lambda>_ c. Ok c)\<rparr>
        \<lparr>dr_unix = 0, dr_key = Ok ''x'', dr_nonce = Ok []\<rparr> (\<lambda>r d. (writeJSON 404 NoBody, d))) takeover_request
        \<lparr>as_limiter = NewLimiter 100, as_app = two_customers\<rparr> = (writeJSON 201 (NewKeyBody key k), \<lparr>as_limiter = l', as_app = d'\<rparr>) \<and>
     fst (Authenticate (LookupAPIKey id) key (''beta_bigquery'') d')
      = Ok \<lparr>APIKeyID = k_ID k, CustomerID = 2, CustomerSlug = ''beta'', WarehouseType = ''bigquery''\<rparr>"
proof -
  let ?E = example_api_env and ?r = takeover_request and ?d = two_customers
  let ?c = "\<lparr>c_ID = 2, c_Slug = ''beta'', c_DisplayName = ''Beta'', c_CreatedAt = 0\<rparr>"
  let ?w = "\<lparr>dr_unix = 0, dr_key = Ok ''x'', dr_nonce = Ok []\<rparr>" and ?enc = "\<lparr>NonceSize = 0, Seal = (\<lambda>_ p. p), Open = (\<lambda>_ c. Ok c)\<rparr>"
  have r: "HasPrefix (rq_Header ?r ''Authorization'') ''Bearer ''"
    "parseToken ?E (TrimPrefix (rq_Header ?r ''Authorization'') ''Bearer '') = Ok 1"
    "rq_Method ?r = ''POST''" "rq_Path ?r = ''/api/v1/customers/'' @ ''uu'' @ ''/api-keys''" "CHR ''/'' \<notin> set ''uu''" "''uu'' \<noteq> []"
    "ae_uuid_Parse ?E ''uu'' = Ok 2" "(2::nat) \<noteq> 1"
    by (simp_all add: takeover_request_def login_request_def HasPrefix_def TrimPrefix_def parseToken_def example_api_env_def
        example_jwt_def jwt_key_def example_config_def)
  have "db_reachable id ?d" unfolding two_customers_def
    by (rule db_reachable.step [OF db_reachable.step [OF db_reachable.init db_step.create_customer] db_step.create_customer])
  then have ok: "db_ok ?d" by (rule db_reachable_ok)
  have f: "db_fail ?d = None" "customers ?d = [\<lparr>c_ID = 1, c_Slug = ''acme'', c_DisplayName = ''Acme'', c_CreatedAt = 0\<rparr>, ?c]" "api_keys ?d = []"
    by (simp_all add: two_customers_def CreateCustomer_def empty_db_def Let_def)
  have d: "store_up ?d" "?c \<in> set (customers ?d)" "c_ID ?c = 2" "c_Slug ?c \<noteq> []"
    using ok f by (simp_all add: store_up_def)
  have k: "dr_key ?w = Ok ''x''" "ae_sha256 ?E (''uvk_'' @ hexEncode ''x'') \<notin> k_KeyHash ` set (api_keys ?d)"
    using f by simp_all
  obtain l' where l: "limiter_Allow 0 (limiter_key ?r) (NewLimiter 100) = (True, l')"
    using fresh_key_granted [of "NewLimiter 100" "limiter_key ?r" 0]
    by (cases "limiter_Allow 0 (limiter_key ?r) (NewLimiter 100)") (simp add: NewLimiter_def)
  have "ae_sha256 ?E = id" by (simp add: example_api_env_def)
  with cross_tenant_api_key [OF r d k l, of example_decoders ?enc "\<lambda>r d. (writeJSON 404 NoBody, d)"] show ?thesis by auto
qed

end
