(* ===== verification/Query_Diff.thy ===== *)
theory Query_Diff
  imports Api_Server
begin

text \<open>
  The comparison of two logged queries, \<^verbatim>\<open>internal/api/query_diff.go\<close>. The query log keeps its rows in the
  order of insertion, which is the order of \<^verbatim>\<open>started_at\<close>, so the newest row is the last one.
\<close>

section \<open>The differ\<close>

definition newline :: char where
  "newline = CHR 0x0A"

text \<open>\<open>None\<close> stands for Go's result -1.\<close>

fun indexOfFrom :: "string list \<Rightarrow> string \<Rightarrow> nat \<Rightarrow> nat option" where
  "indexOfFrom [] target start = None"
| "indexOfFrom (l # ls) target start =
     (if start = 0 then (if l = target then Some 0 else map_option Suc (indexOfFrom ls target 0))
      else map_option Suc (indexOfFrom ls target (start - 1)))"

lemma indexOfFrom_Some:
  "indexOfFrom ls target start = Some i \<Longrightarrow> start \<le> i \<and> i < length ls \<and> ls ! i = target"
  by (induction ls target start arbitrary: i rule: indexOfFrom.induct) (auto split: if_splits)

text \<open>The loop on the lines that remain on both sides; the result is the list of output lines.\<close>

function diff_lines :: "string list \<Rightarrow> string list \<Rightarrow> string list" where
  "diff_lines la lb =
     (if la = [] \<or> lb = [] then map (\<lambda>l. CHR ''-'' # l) la @ map (\<lambda>l. CHR ''+'' # l) lb
      else if hd la = hd lb then (CHR '' '' # hd la) # diff_lines (tl la) (tl lb)
      else (case indexOfFrom lb (hd la) 1 of
              Some idx \<Rightarrow> map (\<lambda>l. CHR ''+'' # l) (take idx lb) @ diff_lines la (drop idx lb)
            | None \<Rightarrow> (CHR ''-'' # hd la) # diff_lines (tl la) lb))"
  by pat_completeness auto
termination
  by (relation "measure (\<lambda>(la, lb). length la + length lb)") (auto simp: neq_Nil_conv dest!: indexOfFrom_Some)

declare diff_lines.simps [simp del]

definition unifiedDiff :: "string \<Rightarrow> string \<Rightarrow> string" where
  "unifiedDiff a b = concat (map (\<lambda>l. l @ [newline]) (diff_lines (Split a newline) (Split b newline)))"

section \<open>The handler\<close>

definition fetchQueryByHash :: "uuid \<Rightarrow> string \<Rightarrow> db \<Rightarrow> query_log_entry go" where
  "fetchQueryByHash customerID hash d =
     (case db_fail d of
        Some e \<Rightarrow> Err e
      | None \<Rightarrow>
          (case find (\<lambda>q. q_CustomerID q = customerID \<and> q_QueryHash q = hash) (rev (query_log d)) of
             Some q \<Rightarrow> Ok q
           | None \<Rightarrow> Err ErrNotFound))"

record diff_response =
  df_A :: query_log_entry
  df_B :: query_log_entry
  df_Diff :: string

text \<open>\<open>Inl\<close> is an error response.\<close>

definition diff_error :: "string \<Rightarrow> go_error \<Rightarrow> response" where
  "diff_error which e = writeErr (if e = ErrNotFound then 404 else 500) (ErrorfW (which @ '': '' @ Error e) e)"

definition queryHistoryDiff :: "api_env \<Rightarrow> http_request \<Rightarrow> db \<Rightarrow> response + diff_response" where
  "queryHistoryDiff E r d =
     (let cidStr = rq_Query r ''customer_id''; hashA = rq_Query r ''hash_a''; hashB = rq_Query r ''hash_b'' in
      if cidStr = [] \<or> hashA = [] \<or> hashB = [] then Inl (writeErr 400 (Errorf ''customer_id, hash_a, hash_b required''))
      else (case ae_uuid_Parse E cidStr of
              Err e \<Rightarrow> Inl (writeErr 400 (ErrorfW (''invalid customer_id: '' @ Error e) e))
            | Panic \<Rightarrow> Inl (writeJSON 500 NoBody)
            | Ok cid \<Rightarrow>
                (case fetchQueryByHash cid hashA d of
                   Err e \<Rightarrow> Inl (diff_error ''hash_a'' e)
                 | Panic \<Rightarrow> Inl (writeJSON 500 NoBody)
                 | Ok a \<Rightarrow>
                     (case fetchQueryByHash cid hashB d of
                        Err e \<Rightarrow> Inl (diff_error ''hash_b'' e)
                      | Panic \<Rightarrow> Inl (writeJSON 500 NoBody)
                      | Ok b \<Rightarrow> Inr \<lparr>df_A = a, df_B = b, df_Diff = unifiedDiff (q_NormalizedSQL a) (q_NormalizedSQL b)\<rparr>))))"

section \<open>Lemmas\<close>

text \<open>The lines of one side of a diff: those with one of two marks, without the mark.\<close>

definition side :: "char \<Rightarrow> string list \<Rightarrow> string list" where
  "side mark ls = map tl (filter (\<lambda>l. l \<noteq> [] \<and> hd l \<in> {CHR '' '', mark}) ls)"

lemma side_simps [simp]:
  "side mark [] = []"
  "side mark ((c # l) # ls) = (if c \<in> {CHR '' '', mark} then l # side mark ls else side mark ls)"
  "side mark (xs @ ys) = side mark xs @ side mark ys"
  "side mark (map (\<lambda>l. c # l) xs) = (if c \<in> {CHR '' '', mark} then xs else [])"
  by (auto simp: side_def filter_map comp_def)

lemma diff_lines_sides:
  "side (CHR ''-'') (diff_lines la lb) = la \<and> side (CHR ''+'') (diff_lines la lb) = lb"
proof (induction la lb rule: diff_lines.induct)
  case (1 la lb)
  show ?case
  proof (cases "la = [] \<or> lb = []")
    case True
    then show ?thesis by (auto simp: diff_lines.simps [of la lb])
  next
    case ne: False
    then have ab: "la = hd la # tl la" "lb = hd lb # tl lb" by auto
    show ?thesis
    proof (cases "hd la = hd lb")
      case True
      with 1(1) ne ab show ?thesis by (subst (1 2) diff_lines.simps) simp
    next
      case d: False
      show ?thesis
      proof (cases "indexOfFrom lb (hd la) 1")
        case None
        with 1 ne d ab show ?thesis by (subst (1 2) diff_lines.simps) simp
      next
        case (Some idx)
        with indexOfFrom_Some [OF this] 1 ne d show ?thesis by (subst (1 2) diff_lines.simps) simp
      qed
    qed
  qed
qed

lemma diff_lines_chars: "l \<in> set (diff_lines la lb) \<Longrightarrow> \<exists>x\<in>set la \<union> set lb. \<exists>c\<in>{CHR '' '', CHR ''-'', CHR ''+''}. l = c # x"
proof (induction la lb rule: diff_lines.induct)
  case (1 la lb)
  show ?case
  proof (cases "la = [] \<or> lb = []")
    case True
    with 1(4) show ?thesis by (auto simp: diff_lines.simps [of la lb])
  next
    case ne: False
    have sub: "hd la \<in> set la" "set (tl la) \<subseteq> set la" "set (tl lb) \<subseteq> set lb" "set (drop i lb) \<subseteq> set lb" "set (take i lb) \<subseteq> set lb" for i
      using ne by (auto dest: list.set_sel(2) in_set_dropD in_set_takeD)
    show ?thesis
    proof (cases "hd la = hd lb")
      case True
      with 1(1,4) ne sub show ?thesis by (subst (asm) (1) diff_lines.simps) auto
    next
      case d: False
      show ?thesis
      proof (cases "indexOfFrom lb (hd la) 1")
        case None
        with 1 ne d sub show ?thesis by (subst (asm) (2) diff_lines.simps) auto
      next
        case (Some idx)
        have "l \<in> set (map (\<lambda>l. CHR ''+'' # l) (take idx lb)) \<union> set (diff_lines la (drop idx lb))"
          using 1(4) ne d Some by (simp add: diff_lines.simps [of la lb])
        with 1(2) [OF ne d] 1(3) [OF ne d] Some show ?thesis by (auto dest: in_set_takeD in_set_dropD)
      qed
    qed
  qed
qed

lemma Split_lines:
  "\<forall>l\<in>set ls. sep \<notin> set l \<Longrightarrow> Split (concat (map (\<lambda>l. l @ [sep]) ls)) sep = ls @ [[]]"
  by (induction ls) (auto simp: Split_append_sep)

section \<open>Properties\<close>

text \<open>
  C2. A diff can be read back: the output is the lines of the diff, each ended by a newline; the lines marked
  with a blank or a minus, without the mark, are the first text, and those marked with a blank or a plus
  are the second.
\<close>

theorem unifiedDiff_reconstructs:
  "let ls = butlast (Split (unifiedDiff a b) newline) in
   Join (side (CHR ''-'') ls) [newline] = a \<and> Join (side (CHR ''+'') ls) [newline] = b"
proof -
  let ?d = "diff_lines (Split a newline) (Split b newline)"
  have "newline \<notin> set l" if "l \<in> set ?d" for l
    using diff_lines_chars [OF that] Split_no_sep [of _ a newline] Split_no_sep [of _ b newline] by (auto simp: newline_def)
  then have "butlast (Split (unifiedDiff a b) newline) = ?d" by (simp add: unifiedDiff_def Split_lines)
  then show ?thesis using diff_lines_sides [of "Split a newline" "Split b newline"] by (simp add: Join_Split)
qed

end
