(* ===== verification/Governance.thy ===== *)
theory Governance
  imports Api_Server
begin

text \<open>
  Query approvals and access reviews, \<^verbatim>\<open>internal/api/query_approvals.go\<close> and
  \<^verbatim>\<open>access_reviews.go\<close>, over the tables of \<^verbatim>\<open>migrations/0012\<close> and \<^verbatim>\<open>0016\<close>. Each
  SQL statement is atomic. Recording a review decision is two statements, a read and an insert, and other
  requests can run between them; the step relation has them as two steps.
\<close>

section \<open>State\<close>

record approval =
  qa_ID :: uuid
  qa_CustomerID :: uuid
  qa_Requester :: string
  qa_SQL :: string
  qa_PIIColumns :: "string list"
  qa_Status :: string
  qa_Approver :: "string option"
  qa_DecidedAt :: "int option"
  qa_RequestedAt :: int

record review =
  rv_ID :: uuid
  rv_CustomerID :: uuid
  rv_Period :: string
  rv_Status :: string
  rv_OpenedAt :: int
  rv_ClosedAt :: "int option"

record review_decision =
  rd_ID :: uuid
  rd_ReviewID :: uuid
  rd_UserID :: uuid
  rd_Role :: string
  rd_Action :: string
  rd_Reviewer :: string
  rd_DecidedAt :: int

record gov =
  gv_db :: db
  gv_approvals :: "approval list"
  gv_reviews :: "review list"
  gv_decisions :: "review_decision list"
  gv_next :: uuid

datatype gov_body =
    GError go_error
  | GSubmitted uuid string int
  | GApprovals "approval list"
  | GStatus string
  | GReview review
  | GReviews "review list"
  | GDecision review_decision
  | GClosed uuid string

type_synonym gov_reply = "nat \<times> gov_body"

abbreviation gov_now :: "gov \<Rightarrow> int" where
  "gov_now g \<equiv> db_now (gv_db g)"

abbreviation gov_fail :: "gov \<Rightarrow> go_error option" where
  "gov_fail g \<equiv> db_fail (gv_db g)"

definition known_customer :: "uuid \<Rightarrow> gov \<Rightarrow> bool" where
  "known_customer cid g \<longleftrightarrow> cid \<in> c_ID ` set (customers (gv_db g))"

section \<open>Query approvals\<close>

record submit_body =
  sb_Requester :: string
  sb_SQL :: string
  sb_PIIColumns :: "string list"

definition submitQueryApproval :: "http_request \<Rightarrow> submit_body go \<Rightarrow> gov \<Rightarrow> gov_reply \<times> gov" where
  "submitQueryApproval r body g =
     (case activeCustomer r (gv_db g) of
        Ok cid \<Rightarrow>
          (case body of
             Ok b \<Rightarrow>
               if sb_Requester b = [] \<or> sb_SQL b = [] then ((400, GError (Errorf ''requester + sql required'')), g)
               else (case gov_fail g of
                       Some e \<Rightarrow> ((500, GError e), g)
                     | None \<Rightarrow>
                         if \<not> known_customer cid g then ((500, GError constraint_violation), g)
                         else ((201, GSubmitted (gv_next g) ''pending'' (gov_now g)),
                               g\<lparr>gv_approvals := gv_approvals g @
                                   [\<lparr>qa_ID = gv_next g, qa_CustomerID = cid, qa_Requester = sb_Requester b, qa_SQL = sb_SQL b,
                                     qa_PIIColumns = sb_PIIColumns b, qa_Status = ''pending'', qa_Approver = None,
                                     qa_DecidedAt = None, qa_RequestedAt = gov_now g\<rparr>],
                                 gv_next := gv_next g + 1\<rparr>))
           | Err e \<Rightarrow> ((400, GError e), g)
           | Panic \<Rightarrow> ((500, GError (Errorf [])), g))
      | Err e \<Rightarrow> ((400, GError e), g)
      | Panic \<Rightarrow> ((500, GError (Errorf [])), g))"

definition listQueryApprovals :: "http_request \<Rightarrow> gov \<Rightarrow> gov_reply" where
  "listQueryApprovals r g =
     (case activeCustomer r (gv_db g) of
        Ok cid \<Rightarrow>
          (case gov_fail g of
             Some e \<Rightarrow> (500, GError e)
           | None \<Rightarrow>
               (let status = rq_Query r ''status'';
                    rows = filter (\<lambda>a. qa_CustomerID a = cid \<and> (status = [] \<or> qa_Status a = status)) (gv_approvals g)
                in (200, GApprovals (take 200 (sort_key (\<lambda>a. - qa_RequestedAt a) rows)))))
      | Err e \<Rightarrow> (400, GError e)
      | Panic \<Rightarrow> (500, GError (Errorf [])))"

record decide_body =
  dc_Decision :: string
  dc_Approver :: string

definition new_status :: "string \<Rightarrow> string option" where
  "new_status decision =
     (if decision = ''approve'' then Some ''approved'' else if decision = ''deny'' then Some ''denied'' else None)"

definition decideQueryApproval :: "api_env \<Rightarrow> string \<Rightarrow> decide_body go \<Rightarrow> gov \<Rightarrow> gov_reply \<times> gov" where
  "decideQueryApproval E s body g =
     (case parseUUID E ''id'' s of
        Ok i \<Rightarrow>
          (case body of
             Ok b \<Rightarrow>
               (case new_status (dc_Decision b) of
                  None \<Rightarrow> ((400, GError (Errorf ''decision must be approve|deny'')), g)
                | Some st \<Rightarrow>
                    if dc_Approver b = [] then ((400, GError (Errorf ''approver required'')), g)
                    else (case gov_fail g of
                            Some e \<Rightarrow> ((if e = ErrNotFound then 404 else 500, GError e), g)
                          | None \<Rightarrow>
                              (let hit = (\<lambda>a. qa_ID a = i \<and> qa_Status a = ''pending'') in
                               if \<not> list_ex hit (gv_approvals g) then ((409, GError (Errorf ''approval not pending or not found'')), g)
                               else ((200, GStatus st),
                                     g\<lparr>gv_approvals := map (\<lambda>a. if hit a
                                         then a\<lparr>qa_Status := st, qa_Approver := Some (dc_Approver b), qa_DecidedAt := Some (gov_now g)\<rparr>
                                         else a) (gv_approvals g)\<rparr>))))
           | Err e \<Rightarrow> ((400, GError e), g)
           | Panic \<Rightarrow> ((500, GError (Errorf [])), g))
      | Err e \<Rightarrow> ((400, GError e), g)
      | Panic \<Rightarrow> ((500, GError (Errorf [])), g))"

section \<open>Access reviews\<close>

abbreviation review_roles :: "string list" where
  "review_roles \<equiv> [''admin'', ''superadmin'']"

definition openAccessReview :: "http_request \<Rightarrow> (uuid \<times> string) go \<Rightarrow> gov \<Rightarrow> gov_reply \<times> gov" where
  "openAccessReview r body g =
     (case requireRole r review_roles of
        Ok _ \<Rightarrow>
          (case body of
             Ok (cid, period) \<Rightarrow>
               if cid = 0 \<or> period = [] then ((400, GError (Errorf ''customer_id + period required'')), g)
               else (case gov_fail g of
                       Some e \<Rightarrow> ((500, GError e), g)
                     | None \<Rightarrow>
                         if \<not> known_customer cid g \<or> (\<exists>v\<in>set (gv_reviews g). rv_CustomerID v = cid \<and> rv_Period v = period)
                         then ((500, GError constraint_violation), g)
                         else (let v = \<lparr>rv_ID = gv_next g, rv_CustomerID = cid, rv_Period = period, rv_Status = ''open'',
                                        rv_OpenedAt = gov_now g, rv_ClosedAt = None\<rparr>
                               in ((201, GReview v), g\<lparr>gv_reviews := gv_reviews g @ [v], gv_next := gv_next g + 1\<rparr>)))
           | Err e \<Rightarrow> ((400, GError e), g)
           | Panic \<Rightarrow> ((500, GError (Errorf [])), g))
      | Err e \<Rightarrow> ((403, GError e), g)
      | Panic \<Rightarrow> ((500, GError (Errorf [])), g))"

definition listAccessReviews :: "api_env \<Rightarrow> string \<Rightarrow> gov \<Rightarrow> gov_reply" where
  "listAccessReviews E s g =
     (case parseUUID E ''id'' s of
        Ok cid \<Rightarrow>
          (case gov_fail g of
             Some e \<Rightarrow> (500, GError e)
           | None \<Rightarrow> (200, GReviews (sort_key (\<lambda>v. - rv_OpenedAt v) (filter (\<lambda>v. rv_CustomerID v = cid) (gv_reviews g)))))
      | Err e \<Rightarrow> (400, GError e)
      | Panic \<Rightarrow> (500, GError (Errorf [])))"

record decision_body =
  db_UserID :: uuid
  db_Role :: string
  db_Action :: string
  db_Reviewer :: string

text \<open>The handler up to its first statement, the read of the review's status: \<open>Inr\<close> goes on to the insert.\<close>

definition decision_check ::
  "api_env \<Rightarrow> http_request \<Rightarrow> string \<Rightarrow> decision_body go \<Rightarrow> gov \<Rightarrow> gov_reply + (uuid \<times> decision_body)" where
  "decision_check E r s body g =
     (case requireRole r review_roles of
        Err e \<Rightarrow> Inl (403, GError e)
      | Panic \<Rightarrow> Inl (500, GError (Errorf []))
      | Ok _ \<Rightarrow>
          (case parseUUID E ''id'' s of
             Err e \<Rightarrow> Inl (400, GError e)
           | Panic \<Rightarrow> Inl (500, GError (Errorf []))
           | Ok i \<Rightarrow>
               (case body of
                  Err e \<Rightarrow> Inl (400, GError e)
                | Panic \<Rightarrow> Inl (500, GError (Errorf []))
                | Ok b \<Rightarrow>
                    if db_UserID b = 0 \<or> db_Role b = [] \<or> db_Reviewer b = []
                    then Inl (400, GError (Errorf ''user_id, role, reviewer required''))
                    else if db_Action b \<noteq> ''keep'' \<and> db_Action b \<noteq> ''revoke''
                    then Inl (400, GError (Errorf ''action must be keep or revoke''))
                    else (case gov_fail g of
                            Some e \<Rightarrow> Inl (404, GError e)
                          | None \<Rightarrow>
                              (case find (\<lambda>v. rv_ID v = i) (gv_reviews g) of
                                 None \<Rightarrow> Inl (404, GError ErrNotFound)
                               | Some v \<Rightarrow>
                                   if rv_Status v \<noteq> ''open''
                                   then Inl (409, GError (Errorf (''review is '' @ rv_Status v @ '', cannot record decision'')))
                                   else Inr (i, b))))))"

text \<open>The second statement.\<close>

definition decision_insert :: "uuid \<times> decision_body \<Rightarrow> gov \<Rightarrow> gov_reply \<times> gov" where
  "decision_insert ib g =
     (let (i, b) = ib in
      case gov_fail g of
        Some e \<Rightarrow> ((500, GError e), g)
      | None \<Rightarrow>
          if i \<notin> rv_ID ` set (gv_reviews g) then ((500, GError constraint_violation), g)
          else (let x = \<lparr>rd_ID = gv_next g, rd_ReviewID = i, rd_UserID = db_UserID b, rd_Role = db_Role b, rd_Action = db_Action b,
                         rd_Reviewer = db_Reviewer b, rd_DecidedAt = gov_now g\<rparr>
                in ((201, GDecision x), g\<lparr>gv_decisions := gv_decisions g @ [x], gv_next := gv_next g + 1\<rparr>)))"

text \<open>The whole handler when nothing runs in between.\<close>

definition recordAccessReviewDecision ::
  "api_env \<Rightarrow> http_request \<Rightarrow> string \<Rightarrow> decision_body go \<Rightarrow> gov \<Rightarrow> gov_reply \<times> gov" where
  "recordAccessReviewDecision E r s body g =
     (case decision_check E r s body g of Inl reply \<Rightarrow> (reply, g) | Inr ib \<Rightarrow> decision_insert ib g)"

definition closeAccessReview :: "api_env \<Rightarrow> http_request \<Rightarrow> string \<Rightarrow> gov \<Rightarrow> gov_reply \<times> gov" where
  "closeAccessReview E r s g =
     (case requireRole r review_roles of
        Err e \<Rightarrow> ((403, GError e), g)
      | Panic \<Rightarrow> ((500, GError (Errorf [])), g)
      | Ok _ \<Rightarrow>
          (case parseUUID E ''id'' s of
             Err e \<Rightarrow> ((400, GError e), g)
           | Panic \<Rightarrow> ((500, GError (Errorf [])), g)
           | Ok i \<Rightarrow>
               (case gov_fail g of
                  Some e \<Rightarrow> ((500, GError e), g)
                | None \<Rightarrow>
                    (let hit = (\<lambda>v. rv_ID v = i \<and> rv_Status v = ''open'') in
                     if \<not> list_ex hit (gv_reviews g) then ((409, GError (Errorf ''review not found or already closed'')), g)
                     else ((200, GClosed i ''completed''),
                           g\<lparr>gv_reviews := map (\<lambda>v. if hit v then v\<lparr>rv_Status := ''completed'', rv_ClosedAt := Some (gov_now g)\<rparr> else v)
                               (gv_reviews g)\<rparr>)))))"

section \<open>Steps\<close>

text \<open>
  A state with the decisions whose check has passed and whose insert is still to come. The other handlers
  change state by one statement each.
\<close>

inductive gov_step :: "api_env \<Rightarrow> gov \<times> (uuid \<times> decision_body) list \<Rightarrow> gov \<times> (uuid \<times> decision_body) list \<Rightarrow> bool" for E where
  submit: "gov_step E (g, ps) (snd (submitQueryApproval r sbody g), ps)"
| decide: "gov_step E (g, ps) (snd (decideQueryApproval E s dbody g), ps)"
| openr: "gov_step E (g, ps) (snd (openAccessReview r obody g), ps)"
| check: "decision_check E r s body g = Inr ib \<Longrightarrow> gov_step E (g, ps) (g, ib # ps)"
| insert: "ib \<in> set ps \<Longrightarrow> gov_step E (g, ps) (snd (decision_insert ib g), remove1 ib ps)"
| close: "gov_step E (g, ps) (snd (closeAccessReview E r s g), ps)"
| tick: "db_now (gv_db g) \<le> n \<Longrightarrow> gov_step E (g, ps) (g\<lparr>gv_db := (gv_db g)\<lparr>db_now := n\<rparr>\<rparr>, ps)"

definition gov_init :: "db \<Rightarrow> gov" where
  "gov_init d = \<lparr>gv_db = d, gv_approvals = [], gv_reviews = [], gv_decisions = [], gv_next = 1\<rparr>"

inductive_cases gov_stepE: "gov_step E s s'"

section \<open>The life of a row\<close>

definition approval_ok :: "approval \<Rightarrow> bool" where
  "approval_ok a \<longleftrightarrow>
     qa_Status a = ''pending'' \<and> qa_Approver a = None \<and> qa_DecidedAt a = None \<or>
     qa_Status a \<in> {''approved'', ''denied''} \<and> (\<exists>who t. who \<noteq> [] \<and> qa_Approver a = Some who \<and> qa_DecidedAt a = Some t)"

definition review_ok :: "review \<Rightarrow> bool" where
  "review_ok v \<longleftrightarrow> rv_Status v = ''open'' \<and> rv_ClosedAt v = None \<or> rv_Status v = ''completed'' \<and> rv_ClosedAt v \<noteq> None"

definition gov_ok :: "gov \<Rightarrow> bool" where
  "gov_ok g \<longleftrightarrow> (\<forall>a\<in>set (gv_approvals g). approval_ok a \<and> qa_ID a < gv_next g) \<and> (\<forall>v\<in>set (gv_reviews g). review_ok v \<and> rv_ID v < gv_next g) \<and>
     distinct (map qa_ID (gv_approvals g)) \<and> distinct (map rv_ID (gv_reviews g)) \<and>
     distinct (map (\<lambda>v. (rv_CustomerID v, rv_Period v)) (gv_reviews g))"

text \<open>What may happen to a row: a pending approval can be decided, an open review closed, nothing else.\<close>

definition approval_next :: "approval \<Rightarrow> approval \<Rightarrow> bool" where
  "approval_next a a' \<longleftrightarrow> a' = a \<or> qa_Status a = ''pending'' \<and>
     (\<exists>st who t. a' = a\<lparr>qa_Status := st, qa_Approver := who, qa_DecidedAt := t\<rparr>)"

definition review_next :: "review \<Rightarrow> review \<Rightarrow> bool" where
  "review_next v v' \<longleftrightarrow> v' = v \<or> rv_Status v = ''open'' \<and> (\<exists>st t. v' = v\<lparr>rv_Status := st, rv_ClosedAt := t\<rparr>)"

definition gov_grows :: "gov \<Rightarrow> gov \<Rightarrow> bool" where
  "gov_grows g g' \<longleftrightarrow>
     (\<exists>more. list_all2 approval_next (gv_approvals g) (take (length (gv_approvals g)) (gv_approvals g')) \<and>
        list_all2 review_next (gv_reviews g) (take (length (gv_reviews g)) (gv_reviews g')) \<and>
        gv_decisions g' = gv_decisions g @ more)"

lemma approval_next_refl [simp]: "approval_next a a" and review_next_refl [simp]: "review_next v v"
  by (simp_all add: approval_next_def review_next_def)

lemma gov_grows_same [simp]: "gov_grows g g"
  by (auto simp: gov_grows_def list_all2_refl)

lemma submit_ok:
  "gov_ok g \<Longrightarrow> gov_ok (snd (submitQueryApproval r body g)) \<and> gov_grows g (snd (submitQueryApproval r body g))"
  by (auto simp: submitQueryApproval_def gov_ok_def gov_grows_def list_all2_refl approval_ok_def less_SucI split: go.split option.split)

lemma open_ok:
  "gov_ok g \<Longrightarrow> gov_ok (snd (openAccessReview r body g)) \<and> gov_grows g (snd (openAccessReview r body g))"
  by (auto simp: openAccessReview_def gov_ok_def gov_grows_def list_all2_refl review_ok_def Let_def less_SucI split: go.split option.split)

lemma insert_ok: "gov_ok g \<Longrightarrow> gov_ok (snd (decision_insert ib g)) \<and> gov_grows g (snd (decision_insert ib g))"
  by (auto simp: decision_insert_def gov_ok_def gov_grows_def list_all2_refl Let_def less_SucI split: prod.split option.split)

lemma update_approvals_ok:
  assumes "gov_ok g" and "\<And>a. approval_ok a \<Longrightarrow> approval_ok (f a) \<and> approval_next a (f a) \<and> qa_ID (f a) = qa_ID a"
  shows "gov_ok (g\<lparr>gv_approvals := map f (gv_approvals g)\<rparr>) \<and> gov_grows g (g\<lparr>gv_approvals := map f (gv_approvals g)\<rparr>)"
proof -
  have "map (qa_ID \<circ> f) (gv_approvals g) = map qa_ID (gv_approvals g)" using assms by (auto simp: gov_ok_def)
  then have "distinct (map (qa_ID \<circ> f) (gv_approvals g))" using assms(1) by (simp only: gov_ok_def)
  with assms show ?thesis by (auto simp: gov_ok_def gov_grows_def list_all2_conv_all_nth)
qed

lemma update_reviews_ok:
  assumes "gov_ok g"
    and "\<And>v. review_ok v \<Longrightarrow> review_ok (f v) \<and> review_next v (f v) \<and> rv_ID (f v) = rv_ID v \<and> rv_CustomerID (f v) = rv_CustomerID v \<and> rv_Period (f v) = rv_Period v"
  shows "gov_ok (g\<lparr>gv_reviews := map f (gv_reviews g)\<rparr>) \<and> gov_grows g (g\<lparr>gv_reviews := map f (gv_reviews g)\<rparr>)"
proof -
  have "map (rv_ID \<circ> f) (gv_reviews g) = map rv_ID (gv_reviews g)"
    "map ((\<lambda>v. (rv_CustomerID v, rv_Period v)) \<circ> f) (gv_reviews g) = map (\<lambda>v. (rv_CustomerID v, rv_Period v)) (gv_reviews g)"
    using assms by (auto simp: gov_ok_def)
  then have "distinct (map (rv_ID \<circ> f) (gv_reviews g))" "distinct (map ((\<lambda>v. (rv_CustomerID v, rv_Period v)) \<circ> f) (gv_reviews g))"
    using assms(1) by (simp_all only: gov_ok_def)
  with assms show ?thesis by (auto simp: gov_ok_def gov_grows_def list_all2_conv_all_nth)
qed

lemma decide_ok:
  assumes "gov_ok g"
  shows "gov_ok (snd (decideQueryApproval E s body g)) \<and> gov_grows g (snd (decideQueryApproval E s body g))"
proof -
  have upd: "approval_ok (if qa_ID a = i \<and> qa_Status a = ''pending'' then a\<lparr>qa_Status := st, qa_Approver := Some who, qa_DecidedAt := Some t\<rparr> else a) \<and>
      approval_next a (if qa_ID a = i \<and> qa_Status a = ''pending'' then a\<lparr>qa_Status := st, qa_Approver := Some who, qa_DecidedAt := Some t\<rparr> else a) \<and>
      qa_ID (if qa_ID a = i \<and> qa_Status a = ''pending'' then a\<lparr>qa_Status := st, qa_Approver := Some who, qa_DecidedAt := Some t\<rparr> else a) = qa_ID a"
    if "approval_ok a" "st \<in> {''approved'', ''denied''}" "who \<noteq> []" for a i st who t
    using that by (auto simp: approval_ok_def approval_next_def)
  have st: "new_status x = Some st \<Longrightarrow> st \<in> {''approved'', ''denied''}" for x st by (auto simp: new_status_def split: if_splits)
  show ?thesis
    using assms upd st update_approvals_ok [OF assms]
    by (auto simp: decideQueryApproval_def Let_def split: go.split option.split)
qed

lemma close_ok:
  assumes "gov_ok g"
  shows "gov_ok (snd (closeAccessReview E r s g)) \<and> gov_grows g (snd (closeAccessReview E r s g))"
proof -
  have upd: "review_ok (if rv_ID v = i \<and> rv_Status v = ''open'' then v\<lparr>rv_Status := ''completed'', rv_ClosedAt := Some t\<rparr> else v) \<and>
      review_next v (if rv_ID v = i \<and> rv_Status v = ''open'' then v\<lparr>rv_Status := ''completed'', rv_ClosedAt := Some t\<rparr> else v)"
    if "review_ok v" for v i t
    using that by (auto simp: review_ok_def review_next_def)
  show ?thesis
    using assms upd update_reviews_ok [OF assms]
    by (auto simp: closeAccessReview_def Let_def split: go.split option.split)
qed

lemma gov_step_ok:
  assumes "gov_step E s s'" and "gov_ok (fst s)"
  shows "gov_ok (fst s') \<and> gov_grows (fst s) (fst s')"
  using assms
proof (induction rule: gov_step.induct)
  case (tick g n ps)
  then show ?case by (auto simp: gov_ok_def gov_grows_def list_all2_refl)
qed (simp_all add: submit_ok decide_ok open_ok insert_ok close_ok)

lemma approval_next_trans: "approval_next a b \<Longrightarrow> approval_next b c \<Longrightarrow> approval_next a c"
  by (cases a) (auto simp: approval_next_def)

lemma review_next_trans: "review_next a b \<Longrightarrow> review_next b c \<Longrightarrow> review_next a c"
  by (cases a) (auto simp: review_next_def)

lemma list_all2_take_trans:
  assumes "\<And>a b c. P a b \<Longrightarrow> P b c \<Longrightarrow> P a c"
    and "list_all2 P xs (take (length xs) ys)" and "list_all2 P ys (take (length ys) zs)"
  shows "list_all2 P xs (take (length xs) zs)"
proof -
  have n: "length xs \<le> length ys" "length ys \<le> length zs" using assms(2,3) by (auto dest!: list_all2_lengthD)
  show ?thesis
    unfolding list_all2_conv_all_nth
  proof (intro conjI allI impI)
    fix i
    assume i: "i < length xs"
    then have "P (xs ! i) (ys ! i)" "P (ys ! i) (zs ! i)"
      using assms(2,3) n by (auto simp: list_all2_conv_all_nth)
    with assms(1) i show "P (xs ! i) (take (length xs) zs ! i)" by simp
  qed (use n in simp)
qed

lemma gov_grows_trans:
  assumes "gov_grows a b" and "gov_grows b c"
  shows "gov_grows a c"
proof -
  obtain m1 m2 where m: "gv_decisions b = gv_decisions a @ m1" "gv_decisions c = gv_decisions b @ m2"
    using assms by (auto simp: gov_grows_def)
  have "list_all2 approval_next (gv_approvals a) (take (length (gv_approvals a)) (gv_approvals c))"
    by (rule list_all2_take_trans [of approval_next _ "gv_approvals b"], erule (1) approval_next_trans) (use assms in \<open>simp_all add: gov_grows_def\<close>)
  moreover have "list_all2 review_next (gv_reviews a) (take (length (gv_reviews a)) (gv_reviews c))"
    by (rule list_all2_take_trans [of review_next _ "gv_reviews b"], erule (1) review_next_trans) (use assms in \<open>simp_all add: gov_grows_def\<close>)
  ultimately show ?thesis using m by (simp add: gov_grows_def)
qed

lemma gov_steps_ok:
  assumes "(gov_step E)\<^sup>*\<^sup>* s s'" and "gov_ok (fst s)"
  shows "gov_ok (fst s') \<and> gov_grows (fst s) (fst s')"
  using assms by (induction rule: rtranclp_induct) (auto dest: gov_step_ok intro: gov_grows_trans)

section \<open>Properties\<close>

text \<open>
  C5. The life of approvals and reviews, under every interleaving of the handlers: identifiers stay unique and
  a customer has one review per period; a pending approval has no approver and a decided one names its
  approver and time; and from any reachable state on, a decided approval and a completed review never
  change again, a pending approval changes only by being decided, and recorded decisions are never
  removed.
\<close>

theorem governance_lifecycle:
  assumes "(gov_step E)\<^sup>*\<^sup>* (gov_init d, []) (g, ps)" and "(gov_step E)\<^sup>*\<^sup>* (g, ps) (g', ps')"
  shows "gov_ok g \<and> gov_ok g' \<and>
    (\<forall>i<length (gv_approvals g). i < length (gv_approvals g') \<and> approval_next (gv_approvals g ! i) (gv_approvals g' ! i)) \<and>
    (\<forall>i<length (gv_reviews g). i < length (gv_reviews g') \<and> review_next (gv_reviews g ! i) (gv_reviews g' ! i)) \<and>
    (\<exists>more. gv_decisions g' = gv_decisions g @ more)"
proof -
  have "gov_ok (gov_init d)" by (simp add: gov_ok_def gov_init_def)
  with gov_steps_ok [OF assms(1)] gov_steps_ok [OF assms(2)] have "gov_ok g" "gov_ok g'" and grows: "gov_grows g g'" by auto
  moreover from grows have "length (gv_approvals g) \<le> length (gv_approvals g')" "length (gv_reviews g) \<le> length (gv_reviews g')"
    by (auto simp: gov_grows_def dest!: list_all2_lengthD)
  ultimately show ?thesis by (auto simp: gov_grows_def list_all2_conv_all_nth)
qed

definition example_submitted :: gov where
  "example_submitted = snd (submitQueryApproval (login_request\<lparr>rq_UserID := 1\<rparr>)
     (Ok \<lparr>sb_Requester = ''ann'', sb_SQL = ''SELECT ssn FROM p'', sb_PIIColumns = [''ssn'']\<rparr>) (gov_init two_customers))"

definition example_decided :: gov where
  "example_decided = snd (decideQueryApproval example_api_env ''u'' (Ok \<lparr>dc_Decision = ''approve'', dc_Approver = ''bob''\<rparr>) example_submitted)"

theorem governance_lifecycle_witness:
  "map qa_Status (gv_approvals example_submitted) = [''pending''] \<and> map qa_Status (gv_approvals example_decided) = [''approved''] \<and>
   gov_ok example_decided \<and> approval_next (gv_approvals example_submitted ! 0) (gv_approvals example_decided ! 0)"
proof -
  have s1: "(gov_step example_api_env)\<^sup>*\<^sup>* (gov_init two_customers, []) (example_submitted, [])"
    unfolding example_submitted_def by (rule r_into_rtranclp, rule gov_step.submit)
  have s2: "(gov_step example_api_env)\<^sup>*\<^sup>* (example_submitted, []) (example_decided, [])"
    unfolding example_decided_def by (rule r_into_rtranclp, rule gov_step.decide)
  have v: "map qa_Status (gv_approvals example_submitted) = [''pending''] \<and> map qa_Status (gv_approvals example_decided) = [''approved'']"
    by code_simp
  then have "length (gv_approvals example_submitted) = 1" by (cases "gv_approvals example_submitted") auto
  with v governance_lifecycle [OF s1 s2] show ?thesis by simp
qed

section \<open>A decision after the end of a review\<close>

text \<open>Run without interruption, the handler refuses a decision on a review that is not open.\<close>

lemma record_refuses_closed:
  assumes "ae_uuid_Parse E s = Ok i" and "find (\<lambda>v. rv_ID v = i) (gv_reviews g) = Some v" and "rv_Status v \<noteq> ''open''"
  shows "gv_decisions (snd (recordAccessReviewDecision E r s body g)) = gv_decisions g"
  using assms
  by (auto simp: recordAccessReviewDecision_def decision_check_def parseUUID_def split: go.split option.split sum.split)

text \<open>With a close between its two statements it records the decision: the check-then-insert is not atomic.\<close>

definition admin_request :: http_request where
  "admin_request = login_request\<lparr>rq_Header := (\<lambda>h. if h = ''X-UV-Role'' then ''admin'' else [])\<rparr>"

definition race_opened :: gov where
  "race_opened = snd (openAccessReview admin_request (Ok (1, ''2026-Q2'')) (gov_init two_customers))"

definition race_body :: decision_body where
  "race_body = \<lparr>db_UserID = 9, db_Role = ''editor'', db_Action = ''keep'', db_Reviewer = ''ann''\<rparr>"

definition race_closed :: gov where
  "race_closed = snd (closeAccessReview example_api_env admin_request ''u'' race_opened)"

definition race_end :: gov where
  "race_end = snd (decision_insert (1, race_body) (race_closed\<lparr>gv_db := (gv_db race_closed)\<lparr>db_now := 5\<rparr>\<rparr>))"

lemma late_decision_reachable:
  "(gov_step example_api_env)\<^sup>*\<^sup>* (gov_init two_customers, []) (race_end, []) \<and>
   (\<exists>v\<in>set (gv_reviews race_end). \<exists>x\<in>set (gv_decisions race_end). \<exists>t.
      rd_ReviewID x = rv_ID v \<and> rv_Status v = ''completed'' \<and> rv_ClosedAt v = Some t \<and> t < rd_DecidedAt x)"
proof
  let ?E = example_api_env and ?p = "(1::uuid, race_body)"
  have c: "decision_check ?E admin_request ''u'' (Ok race_body) race_opened = Inr ?p" by code_simp
  have n: "db_now (gv_db race_closed) \<le> 5" by code_simp
  have "gov_step ?E (gov_init two_customers, []) (race_opened, [])" unfolding race_opened_def by (rule gov_step.openr)
  moreover have "gov_step ?E (race_opened, []) (race_opened, [?p])" by (rule gov_step.check [OF c])
  moreover have "gov_step ?E (race_opened, [?p]) (race_closed, [?p])" unfolding race_closed_def by (rule gov_step.close)
  moreover have "gov_step ?E (race_closed, [?p]) (race_closed\<lparr>gv_db := (gv_db race_closed)\<lparr>db_now := 5\<rparr>\<rparr>, [?p])" by (rule gov_step.tick [OF n])
  moreover have "gov_step ?E (race_closed\<lparr>gv_db := (gv_db race_closed)\<lparr>db_now := 5\<rparr>\<rparr>, [?p]) (race_end, [])"
    using gov_step.insert [of ?p "[?p]" ?E "race_closed\<lparr>gv_db := (gv_db race_closed)\<lparr>db_now := 5\<rparr>\<rparr>"] by (simp add: race_end_def)
  ultimately show "(gov_step ?E)\<^sup>*\<^sup>* (gov_init two_customers, []) (race_end, [])"
    by (meson converse_rtranclp_into_rtranclp rtranclp.rtrancl_refl)
  have "map (\<lambda>v. (rv_ID v, rv_Status v, rv_ClosedAt v)) (gv_reviews race_end) = [(1, ''completed'', Some 0)]"
    "map (\<lambda>x. (rd_ReviewID x, rd_DecidedAt x)) (gv_decisions race_end) = [(1, 5)]" by code_simp+
  then show "\<exists>v\<in>set (gv_reviews race_end). \<exists>x\<in>set (gv_decisions race_end). \<exists>t.
      rd_ReviewID x = rv_ID v \<and> rv_Status v = ''completed'' \<and> rv_ClosedAt v = Some t \<and> t < rd_DecidedAt x"
    by (auto simp: map_eq_Cons_conv)
qed

end
