(* ===== verification/Go_Time.thy ===== *)
theory Go_Time
  imports Go_Prelude
begin

text \<open>
  The part of Go's \<^verbatim>\<open>time\<close> package that the synchronisation of tables uses: an instant is the number
  of nanoseconds since the Unix epoch, \<^verbatim>\<open>Format\<close> with the layout RFC 3339 in UTC, and \<^verbatim>\<open>Parse\<close>
  with the layouts of \<^verbatim>\<open>parseWatermark\<close>. Formatting and parsing are inverse up to the fraction of a
  second (\<open>time_Parse_Format\<close>).
\<close>

section \<open>The calendar\<close>

definition leap :: "int \<Rightarrow> bool" where
  "leap y \<longleftrightarrow> y mod 4 = 0 \<and> (y mod 100 \<noteq> 0 \<or> y mod 400 = 0)"

definition year_length :: "int \<Rightarrow> int" where
  "year_length y = (if leap y then 366 else 365)"

definition month_length :: "int \<Rightarrow> nat \<Rightarrow> int" where
  "month_length y m = (if m = 2 then (if leap y then 29 else 28) else if m \<in> {4, 6, 9, 11} then 30 else 31)"

text \<open>Days from the epoch to the first of January, and from there to the first of a month.\<close>

definition days_before :: "int \<Rightarrow> int" where
  "days_before y = 365 * (y - 1970) + (y - 1969) div 4 - (y - 1901) div 100 + (y - 1601) div 400"

fun days_before_month :: "int \<Rightarrow> nat \<Rightarrow> int" where
  "days_before_month y 0 = 0"
| "days_before_month y (Suc 0) = 0"
| "days_before_month y (Suc (Suc m)) = days_before_month y (Suc m) + month_length y (Suc m)"

text \<open>The year and the day of the year, and the month and the day of the month.\<close>

function year_of :: "int \<Rightarrow> int \<Rightarrow> int \<times> int" where
  "year_of d y =
     (if d < 0 then year_of (d + year_length (y - 1)) (y - 1)
      else if year_length y \<le> d then year_of (d - year_length y) (y + 1)
      else (y, d))"
  by pat_completeness auto
termination
  by (relation "measures [\<lambda>(d, y). if d < 0 then 1 else 0, \<lambda>(d, y). nat \<bar>d\<bar>]") (auto simp: year_length_def split: if_splits)

declare year_of.simps [simp del]

function month_of :: "int \<Rightarrow> int \<Rightarrow> nat \<Rightarrow> nat \<times> int" where
  "month_of y d m =
     (if m < 12 \<and> month_length y m \<le> d then month_of y (d - month_length y m) (m + 1) else (m, d))"
  by pat_completeness auto
termination
  by (relation "measure (\<lambda>(_, _, m). 12 - m)") auto

declare month_of.simps [simp del]

section \<open>Format\<close>

definition second :: int where
  "second = 1000000000"

definition hour :: int where
  "hour = 3600 * second"

text \<open>The product of a number and a unit as a \<^verbatim>\<open>time.Duration\<close>, a 64-bit integer.\<close>

definition duration :: "int \<Rightarrow> int \<Rightarrow> int" where
  "duration n unit = sint (word_of_int n * word_of_int unit :: 64 word)"

lemma duration_exact: "0 \<le> n * unit \<Longrightarrow> n * unit < 2 ^ 63 \<Longrightarrow> duration n unit = n * unit"
  by (simp add: duration_def signed_of_int signed_take_bit_int_eq_self flip: of_int_mult)

definition zero_pad :: "nat \<Rightarrow> nat \<Rightarrow> string" where
  "zero_pad width n = (let s = nat_digits n in replicate (width - length s) CHR ''0'' @ s)"

text \<open>\<^verbatim>\<open>t.UTC().Format(time.RFC3339)\<close> from year 0 on.\<close>

definition FormatRFC3339 :: "int \<Rightarrow> string" where
  "FormatRFC3339 t =
     (let secs = t div second; sod = nat (secs mod 86400); (y, yd) = year_of (secs div 86400) 1970; (m, md) = month_of y yd 1
      in zero_pad 4 (nat y) @ ''-'' @ zero_pad 2 m @ ''-'' @ zero_pad 2 (nat md + 1) @ ''T'' @
         zero_pad 2 (sod div 3600) @ '':'' @ zero_pad 2 (sod div 60 mod 60) @ '':'' @ zero_pad 2 (sod mod 60) @ ''Z'')"

section \<open>Parse\<close>

text \<open>
  The elements of a layout. \<open>LFrac\<close> is a fractional second of nines, \<open>LZone\<close> the element Z07:00. The
  state of the parser is the rest of the value and the fields found so far.
\<close>

datatype layout_item = LText string | LYear | LMonth | LDay | LHour | LMinute | LSecond | LFrac | LZone

record fields =
  tm_year :: nat
  tm_month :: nat
  tm_day :: nat
  tm_hour :: nat
  tm_min :: nat
  tm_sec :: nat
  tm_nsec :: nat
  tm_offset :: int

definition is_digit :: "char \<Rightarrow> bool" where
  "is_digit c \<longleftrightarrow> 48 \<le> (of_char c :: nat) \<and> (of_char c :: nat) \<le> 57"

definition digit_val :: "char \<Rightarrow> nat" where
  "digit_val c = of_char c - 48"

definition atoi :: "string \<Rightarrow> nat option" where
  "atoi s = (if s \<noteq> [] \<and> list_all is_digit s then Some (foldl (\<lambda>n c. 10 * n + digit_val c) 0 s) else None)"

text \<open>One or two digits; \<open>fixed\<close> insists on two.\<close>

fun getnum :: "string \<Rightarrow> bool \<Rightarrow> (nat \<times> string) option" where
  "getnum [] fixed = None"
| "getnum (a # s) fixed =
     (if \<not> is_digit a then None
      else (case s of
              b # r \<Rightarrow> if is_digit b then Some (10 * digit_val a + digit_val b, r)
                       else if fixed then None else Some (digit_val a, s)
            | [] \<Rightarrow> if fixed then None else Some (digit_val a, s)))"

text \<open>A fraction: a comma or a period and at least one digit; the first nine digits count.\<close>

definition has_frac :: "string \<Rightarrow> bool" where
  "has_frac s = (case s of p # d # _ \<Rightarrow> (p = CHR ''.'' \<or> p = CHR '','') \<and> is_digit d | _ \<Rightarrow> False)"

definition frac_nanos :: "string \<Rightarrow> nat" where
  "frac_nanos s =
     (let ds = take 9 (takeWhile is_digit (tl s))
      in foldl (\<lambda>n c. 10 * n + digit_val c) 0 ds * 10 ^ (9 - length ds))"

text \<open>A space of the layout stands for any number of spaces of the value.\<close>

function skip :: "string \<Rightarrow> string \<Rightarrow> string option" where
  "skip value [] = Some value"
| "skip value (p # ps) =
     (if p = CHR '' '' then
        (if value \<noteq> [] \<and> hd value \<noteq> CHR '' '' then None
         else skip (dropWhile (\<lambda>c. c = CHR '' '') value) (dropWhile (\<lambda>c. c = CHR '' '') ps))
      else (case value of [] \<Rightarrow> None | v # vs \<Rightarrow> if v = p then skip vs ps else None))"
  by pat_completeness auto
termination
  by (relation "measure (\<lambda>(_, prefix). length prefix)") (auto simp: le_imp_less_Suc length_dropWhile_le)

definition in_range :: "(nat \<times> string) option \<Rightarrow> nat \<Rightarrow> nat \<Rightarrow> (nat \<times> string) option" where
  "in_range r lo hi = (case r of Some (n, s) \<Rightarrow> if lo \<le> n \<and> n \<le> hi then Some (n, s) else None | None \<Rightarrow> None)"

definition parse_year :: "string \<Rightarrow> (nat \<times> string) option" where
  "parse_year s = (if length s < 4 then None else map_option (\<lambda>n. (n, drop 4 s)) (atoi (take 4 s)))"

definition parse_zone :: "string \<Rightarrow> (int \<times> string) option" where
  "parse_zone s =
     (case s of
        [] \<Rightarrow> None
      | c # r \<Rightarrow>
          if c = CHR ''Z'' then Some (0, r)
          else if length s < 6 \<or> s ! 3 \<noteq> CHR '':'' then None
          else (case (in_range (getnum (take 2 r) True) 0 24, in_range (getnum (take 2 (drop 4 s)) True) 0 60) of
                  (Some (hh, _), Some (mm, _)) \<Rightarrow>
                    if c = CHR ''+'' then Some (int (hh * 60 + mm) * 60, drop 6 s)
                    else if c = CHR ''-'' then Some (- (int (hh * 60 + mm) * 60), drop 6 s)
                    else None
                | _ \<Rightarrow> None))"

definition set_field :: "(nat \<times> string) option \<Rightarrow> (nat \<Rightarrow> fields) \<Rightarrow> (string \<times> fields) option" where
  "set_field r f = map_option (\<lambda>(n, s). (s, f n)) r"

text \<open>A second takes a fraction that follows it unless the layout asks for one next.\<close>

definition parse_item :: "layout_item \<Rightarrow> bool \<Rightarrow> string \<Rightarrow> fields \<Rightarrow> (string \<times> fields) option" where
  "parse_item i frac_next s f =
     (case i of
        LText t \<Rightarrow> map_option (\<lambda>r. (r, f)) (skip s t)
      | LYear \<Rightarrow> set_field (parse_year s) (\<lambda>n. f\<lparr>tm_year := n\<rparr>)
      | LMonth \<Rightarrow> set_field (in_range (getnum s True) 1 12) (\<lambda>n. f\<lparr>tm_month := n\<rparr>)
      | LDay \<Rightarrow> set_field (getnum s True) (\<lambda>n. f\<lparr>tm_day := n\<rparr>)
      | LHour \<Rightarrow> set_field (in_range (getnum s False) 0 23) (\<lambda>n. f\<lparr>tm_hour := n\<rparr>)
      | LMinute \<Rightarrow> set_field (in_range (getnum s True) 0 59) (\<lambda>n. f\<lparr>tm_min := n\<rparr>)
      | LSecond \<Rightarrow>
          (case in_range (getnum s True) 0 59 of
             None \<Rightarrow> None
           | Some (n, r) \<Rightarrow>
               if has_frac r \<and> \<not> frac_next
               then Some (dropWhile is_digit (tl r), f\<lparr>tm_sec := n, tm_nsec := frac_nanos r\<rparr>)
               else Some (r, f\<lparr>tm_sec := n\<rparr>))
      | LFrac \<Rightarrow>
          if has_frac s then Some (dropWhile is_digit (tl s), f\<lparr>tm_nsec := frac_nanos s\<rparr>) else Some (s, f)
      | LZone \<Rightarrow> map_option (\<lambda>(off, r). (r, f\<lparr>tm_offset := off\<rparr>)) (parse_zone s))"

definition time_of_fields :: "fields \<Rightarrow> int option" where
  "time_of_fields f =
     (let y = int (tm_year f) in
      if tm_day f < 1 \<or> int (tm_day f) > month_length y (tm_month f) then None
      else Some (((days_before y + days_before_month y (tm_month f) + int (tm_day f) - 1) * 86400 +
                  int (tm_hour f) * 3600 + int (tm_min f) * 60 + int (tm_sec f) - tm_offset f) * second + int (tm_nsec f)))"

fun parse_items :: "layout_item list \<Rightarrow> string \<Rightarrow> fields \<Rightarrow> int option" where
  "parse_items [] s f = (if s \<noteq> [] then None else time_of_fields f)"
| "parse_items (i # is) s f =
     (case parse_item i (is \<noteq> [] \<and> hd is = LFrac) s f of
        None \<Rightarrow> None
      | Some (s', f') \<Rightarrow> parse_items is s' f')"

definition time_Parse :: "layout_item list \<Rightarrow> string \<Rightarrow> int option" where
  "time_Parse layout value =
     parse_items layout value
       \<lparr>tm_year = 0, tm_month = 1, tm_day = 1, tm_hour = 0, tm_min = 0, tm_sec = 0, tm_nsec = 0, tm_offset = 0\<rparr>"

abbreviation date_items :: "layout_item list" where
  "date_items \<equiv> [LYear, LText ''-'', LMonth, LText ''-'', LDay]"

abbreviation clock_items :: "layout_item list" where
  "clock_items \<equiv> [LHour, LText '':'', LMinute, LText '':'', LSecond]"

definition RFC3339Nano :: "layout_item list" where
  "RFC3339Nano = date_items @ [LText ''T''] @ clock_items @ [LFrac, LZone]"

definition RFC3339 :: "layout_item list" where
  "RFC3339 = date_items @ [LText ''T''] @ clock_items @ [LZone]"

section \<open>Lemmas\<close>

lemma div_next: "0 < k \<Longrightarrow> (z + 1) div k = z div k + (if (z + 1) mod k = 0 then 1 else 0)" for z k :: int
proof (cases "z mod k = k - 1")
  assume k: "0 < k"
  have z: "z = k * (z div k) + z mod k" by simp
  {
    case True
    with z have "z + 1 = (z div k + 1) * k" by (simp add: algebra_simps)
    then show ?thesis using k by (metis mod_mult_self2_is_0 nonzero_mult_div_cancel_right less_irrefl)
  next
    case False
    with z k have "(z + 1) div k = z div k" "(z + 1) mod k = z mod k + 1"
      using int_div_pos_eq [of "z + 1" k "z div k" "z mod k + 1"] int_mod_pos_eq [of "z + 1" k "z div k" "z mod k + 1"]
        pos_mod_bound [OF k, of z] pos_mod_sign [OF k, of z] by auto
    moreover have "z mod k + 1 \<noteq> 0" using pos_mod_sign [OF k, of z] by linarith
    ultimately show ?thesis by simp
  }
qed

lemma mod_shift: "k dvd c \<Longrightarrow> (y - c) mod k = y mod k" for y c k :: int
  by (metis diff_zero dvd_imp_mod_0 mod_diff_right_eq)

lemma days_before_next: "days_before (y + 1) = days_before y + year_length y"
proof -
  have m: "(y - 1968) mod 4 = y mod 4" "(y - 1900) mod 100 = y mod 100" "(y - 1600) mod 400 = y mod 400"
    by (simp_all add: mod_shift)
  have e: "y - 1969 + 1 = y - 1968" "y - 1901 + 1 = y - 1900" "y - 1601 + 1 = y - 1600" by simp_all
  have d: "(y - 1968) div 4 = (y - 1969) div 4 + (if y mod 4 = 0 then 1 else 0)"
    "(y - 1900) div 100 = (y - 1901) div 100 + (if y mod 100 = 0 then 1 else 0)"
    "(y - 1600) div 400 = (y - 1601) div 400 + (if y mod 400 = 0 then 1 else 0)"
    by (fact div_next [of 4 "y - 1969", OF zero_less_numeral, unfolded e m],
        fact div_next [of 100 "y - 1901", OF zero_less_numeral, unfolded e m],
        fact div_next [of 400 "y - 1601", OF zero_less_numeral, unfolded e m])
  have "y mod 100 = 0 \<Longrightarrow> y mod 4 = 0" "y mod 400 = 0 \<Longrightarrow> y mod 100 = 0"
    using dvd_trans [of 4 100 y] dvd_trans [of 100 400 y] by (simp_all add: mod_eq_0_iff_dvd)
  then have "(if y mod 4 = 0 then 1 else 0) - (if y mod 100 = 0 then 1 else 0) + (if y mod 400 = 0 then 1 else 0) =
      (if leap y then 1 else 0 :: int)"
    unfolding leap_def by presburger
  then show ?thesis by (simp add: days_before_def year_length_def d split del: if_split) (simp split: if_splits)
qed

lemma days_before_mono: "a \<le> b \<Longrightarrow> days_before a \<le> days_before b"
  by (induction b rule: int_ge_induct) (auto simp: days_before_next year_length_def)

lemma year_of_spec:
  "year_of d y = (y', d') \<Longrightarrow>
     days_before y' + d' = days_before y + d \<and> 0 \<le> d' \<and> d' < year_length y' \<and> (0 \<le> d \<longrightarrow> y \<le> y')"
proof (induction d y rule: year_of.induct)
  case (1 d y)
  consider "d < 0" | "0 \<le> d" "year_length y \<le> d" | "0 \<le> d" "d < year_length y" by linarith
  then show ?case
  proof cases
    case 1
    have "days_before y = days_before (y - 1) + year_length (y - 1)" using days_before_next [of "y - 1"] by simp
    with 1 show ?thesis using "1.IH"(1) "1.prems" year_of.simps [of d y] by simp
  next
    case 2
    then show ?thesis using "1.IH"(2) "1.prems" days_before_next [of y] year_of.simps [of d y] by simp
  next
    case 3
    then show ?thesis using "1.prems" year_of.simps [of d y] by simp
  qed
qed

lemma days_before_month_next: "0 < m \<Longrightarrow> days_before_month y (m + 1) = days_before_month y m + month_length y m"
  by (cases m) simp_all

lemma days_before_december: "days_before_month y 12 + 31 = year_length y"
  by (simp add: numeral_eq_Suc month_length_def year_length_def)

lemma month_of_spec:
  "month_of y d m = (m', d') \<Longrightarrow> 0 < m \<Longrightarrow> m \<le> 12 \<Longrightarrow> 0 \<le> d \<Longrightarrow> days_before_month y m + d < year_length y \<Longrightarrow>
     days_before_month y m' + d' = days_before_month y m + d \<and> 0 < m' \<and> m' \<le> 12 \<and> 0 \<le> d' \<and> d' < month_length y m'"
proof (induction y d m rule: month_of.induct)
  case (1 y d m)
  show ?case
  proof (cases "m < 12 \<and> month_length y m \<le> d")
    case True
    then show ?thesis using 1 days_before_month_next [of m y] month_of.simps [of y d m] by simp
  next
    case False
    have "d < month_length y m"
    proof (cases "m < 12")
      case False
      with "1.prems" have "m = 12" by simp
      with "1.prems" days_before_december [of y] show ?thesis by (simp add: month_length_def)
    qed (use False in simp)
    with False "1.prems" show ?thesis using month_of.simps [of y d m] by auto
  qed
qed

lemma of_digit_char: "d < 10 \<Longrightarrow> (of_char (digit_char d) :: nat) = 48 + d"
  by (simp add: digit_char_def)

lemma digit_char [simp]: "d < 10 \<Longrightarrow> is_digit (digit_char d)" "d < 10 \<Longrightarrow> digit_val (digit_char d) = d"
  by (simp_all add: is_digit_def digit_val_def of_digit_char)

lemma nat_digits_lt10: "n < 10 \<Longrightarrow> nat_digits n = [digit_char n]"
  by (subst nat_digits.simps) simp

lemma nat_digits_ge10: "10 \<le> n \<Longrightarrow> nat_digits n = nat_digits (n div 10) @ [digit_char (n mod 10)]"
  by (subst nat_digits.simps) simp

lemma digit_char_0: "CHR ''0'' = digit_char 0"
  by code_simp

lemma zero_pad_2: "n < 100 \<Longrightarrow> zero_pad 2 n = [digit_char (n div 10), digit_char (n mod 10)]"
  by (cases "n < 10") (simp_all add: zero_pad_def Let_def nat_digits_lt10 nat_digits_ge10 digit_char_0 numeral_2_eq_2)

lemma zero_pad_4:
  assumes "n < 10000"
  shows "zero_pad 4 n = [digit_char (n div 1000), digit_char (n div 100 mod 10), digit_char (n div 10 mod 10), digit_char (n mod 10)]"
proof -
  have d: "n div 10 div 10 = n div 100" "n div 100 div 10 = n div 1000" by (simp_all add: div_mult2_eq [symmetric])
  consider "n < 10" | "10 \<le> n" "n < 100" | "100 \<le> n" "n < 1000" | "1000 \<le> n" by linarith
  then show ?thesis
  proof cases
    case 1
    then show ?thesis by (simp add: zero_pad_def Let_def nat_digits_lt10 digit_char_0 numeral_3_eq_3)
  next
    case 2
    then show ?thesis by (simp add: zero_pad_def Let_def nat_digits_lt10 nat_digits_ge10 digit_char_0 numeral_2_eq_2)
  next
    case 3
    then have "10 \<le> n div 10" "n div 100 < 10" by linarith+
    with 3 show ?thesis by (simp add: zero_pad_def Let_def nat_digits_lt10 nat_digits_ge10 digit_char_0 d)
  next
    case 4
    then have "10 \<le> n div 10" "10 \<le> n div 100" "n div 1000 < 10" using assms by linarith+
    with 4 show ?thesis by (simp add: zero_pad_def Let_def nat_digits_lt10 nat_digits_ge10 d)
  qed
qed

lemma getnum_zero_pad: "n < 100 \<Longrightarrow> getnum (zero_pad 2 n @ r) f = Some (n, r)"
  by (simp add: zero_pad_2)

lemma parse_year_zero_pad: "n < 10000 \<Longrightarrow> parse_year (zero_pad 4 n @ r) = Some (n, r)"
proof -
  assume n: "n < 10000"
  have d: "n div 10 div 10 = n div 100" "n div 100 div 10 = n div 1000" by (simp_all add: div_mult2_eq [symmetric])
  have "10 * (10 * (10 * (n div 1000) + n div 100 mod 10) + n div 10 mod 10) + n mod 10 = n"
    using mult_div_mod_eq [of 10 n] mult_div_mod_eq [of 10 "n div 10"] mult_div_mod_eq [of 10 "n div 100"] unfolding d by (simp only:)
  moreover have "n div 1000 < 10" using n by linarith
  moreover have "take 4 (a # b # c # e # r) = [a, b, c, e]" "drop 4 (a # b # c # e # r) = r" for a b c e :: char by simp_all
  ultimately show ?thesis by (simp add: parse_year_def zero_pad_4 [OF n] atoi_def del: take_Cons_numeral drop_Cons_numeral)
qed

lemma skip_char: "c \<noteq> CHR '' '' \<Longrightarrow> skip ([c] @ r) [c] = Some r"
  by simp

lemma parse_item_digits:
  "n < 10000 \<Longrightarrow> parse_item LYear b (zero_pad 4 n @ r) f = Some (r, f\<lparr>tm_year := n\<rparr>)"
  "0 < n \<Longrightarrow> n \<le> 12 \<Longrightarrow> parse_item LMonth b (zero_pad 2 n @ r) f = Some (r, f\<lparr>tm_month := n\<rparr>)"
  "n < 100 \<Longrightarrow> parse_item LDay b (zero_pad 2 n @ r) f = Some (r, f\<lparr>tm_day := n\<rparr>)"
  "n < 24 \<Longrightarrow> parse_item LHour b (zero_pad 2 n @ r) f = Some (r, f\<lparr>tm_hour := n\<rparr>)"
  "n < 60 \<Longrightarrow> parse_item LMinute b (zero_pad 2 n @ r) f = Some (r, f\<lparr>tm_min := n\<rparr>)"
  "n < 60 \<Longrightarrow> parse_item LSecond True (zero_pad 2 n @ r) f = Some (r, f\<lparr>tm_sec := n\<rparr>)"
  by (simp_all add: parse_item_def set_field_def getnum_zero_pad parse_year_zero_pad in_range_def)

lemma parse_item_text: "c \<noteq> CHR '' '' \<Longrightarrow> parse_item (LText [c]) b ([c] @ r) f = Some (r, f)"
  by (simp add: parse_item_def)

lemma parse_item_Z: "parse_item LFrac b ''Z'' f = Some (''Z'', f)" "parse_item LZone b ''Z'' f = Some ([], f\<lparr>tm_offset := 0\<rparr>)"
  by (simp_all add: parse_item_def has_frac_def parse_zone_def)

lemma seconds_of_day: "3600 * (s div 3600) + 60 * (s div 60 mod 60) + s mod 60 = s" for s :: nat
proof -
  have "s div 60 div 60 = s div 3600" by (simp add: div_mult2_eq [symmetric])
  with mult_div_mod_eq [of 60 s] mult_div_mod_eq [of 60 "s div 60"] show ?thesis by linarith
qed

lemma time_Parse_Format:
  assumes "0 \<le> t" and "t < days_before 10000 * 86400 * second"
  shows "time_Parse RFC3339Nano (FormatRFC3339 t) = Some (t div second * second)"
proof -
  define secs where "secs = t div second"
  define days where "days = secs div 86400"
  define sod where "sod = nat (secs mod 86400)"
  obtain y yd where yd: "year_of days 1970 = (y, yd)" by (cases "year_of days 1970")
  obtain m md where md: "month_of y yd 1 = (m, md)" by (cases "month_of y yd 1")
  have "0 \<le> secs" using assms by (simp add: secs_def second_def)
  then have days0: "0 \<le> days" by (simp add: days_def)
  have "secs < days_before 10000 * 86400"
    using assms(2) by (simp add: secs_def second_def div_less_iff_less_mult)
  then have days1: "days < days_before 10000" by (simp add: days_def div_less_iff_less_mult)
  have e: "days_before 1970 = 0" by (simp add: days_before_def)
  have Y: "days_before y + yd = days" "0 \<le> yd" "yd < year_length y" "1970 \<le> y"
    using year_of_spec [OF yd] days0 e by simp_all
  have "y < 10000"
    using Y days1 days_before_mono [of 10000 y] by linarith
  have M: "days_before_month y m + md = yd" "0 < m" "m \<le> 12" "0 \<le> md" "md < month_length y m"
    using month_of_spec [OF md] Y by simp_all
  have "month_length y m \<le> 31" by (simp add: month_length_def)
  then have md31: "nat md + 1 < 100" using M by linarith
  have sod: "sod < 86400" by (simp add: sod_def)
  then have s: "sod div 3600 < 24" "sod div 60 mod 60 < 60" "sod mod 60 < 60" by (simp_all add: div_less_iff_less_mult)
  have F: "FormatRFC3339 t = zero_pad 4 (nat y) @ ''-'' @ zero_pad 2 m @ ''-'' @ zero_pad 2 (nat md + 1) @ ''T'' @
         zero_pad 2 (sod div 3600) @ '':'' @ zero_pad 2 (sod div 60 mod 60) @ '':'' @ zero_pad 2 (sod mod 60) @ ''Z''"
    unfolding FormatRFC3339_def Let_def secs_def [symmetric] days_def [symmetric] sod_def [symmetric] yd by (simp add: md [simplified])
  have "time_Parse RFC3339Nano (FormatRFC3339 t) = time_of_fields
      \<lparr>tm_year = nat y, tm_month = m, tm_day = nat md + 1, tm_hour = sod div 3600, tm_min = sod div 60 mod 60,
        tm_sec = sod mod 60, tm_nsec = 0, tm_offset = 0\<rparr>"
    unfolding F using \<open>y < 10000\<close> Y(4) M(2,3) md31 s
    by (simp add: time_Parse_def RFC3339Nano_def parse_item_digits parse_item_text [simplified] parse_item_Z)
  also have "\<dots> = Some (secs * second)"
  proof -
    have "int (3600 * (sod div 3600) + 60 * (sod div 60 mod 60) + sod mod 60) = secs mod 86400"
      unfolding seconds_of_day by (simp add: sod_def)
    moreover have "days * 86400 + secs mod 86400 = secs" by (simp add: days_def)
    ultimately show ?thesis using Y M by (simp add: time_of_fields_def Let_def)
  qed
  finally show ?thesis by (simp add: secs_def)
qed

end
