(* ===== verification/Iceberg.thy ===== *)
theory Iceberg
  imports Go_Prelude "HOL-Library.AList"
begin

text \<open>
  The Iceberg package, \<^verbatim>\<open>internal/iceberg\<close>: the writer (writer.go), which commits snapshots through a
  DuckDB instance, and the REST catalog (catalog.go).

  DuckDB is a parameter: \<open>exec\<close> runs one statement on a world of type \<open>'w\<close> (the object store, local
  files, the clock) and returns its error, if any, with the world after it. The writer's mutex makes every
  call of it one step of that world.
\<close>

section \<open>The writer\<close>

type_synonym 'w duckdb = "string \<Rightarrow> 'w \<Rightarrow> go_error option \<times> 'w"

record iceberg_config =
  S3Endpoint :: string
  AWSAccessKey :: string
  AWSSecretKey :: string
  AWSRegion :: string

definition squote :: "string \<Rightarrow> string" where
  "squote s = CHR 0x27 # s @ [CHR 0x27]"

definition required_statements :: "iceberg_config \<Rightarrow> string list" where
  "required_statements cfg =
     [''INSTALL httpfs'', ''LOAD httpfs'',
      ''SET s3_endpoint='' @ squote (TrimPrefix (TrimPrefix (S3Endpoint cfg) ''http://'') ''https://''),
      ''SET s3_access_key_id='' @ squote (AWSAccessKey cfg),
      ''SET s3_secret_access_key='' @ squote (AWSSecretKey cfg),
      ''SET s3_region='' @ squote (AWSRegion cfg),
      ''SET s3_url_style='' @ squote ''path'',
      ''SET s3_use_ssl=false'']"

definition optional_statements :: "string list" where
  "optional_statements = [''INSTALL iceberg'', ''LOAD iceberg'']"

text \<open>The first failing required statement ends the set-up; a failing optional one is only logged.\<close>

fun run_required :: "'w duckdb \<Rightarrow> string list \<Rightarrow> 'w \<Rightarrow> go_error option \<times> 'w" where
  "run_required exec [] w = (None, w)"
| "run_required exec (s # ss) w =
     (case exec s w of
        (Some e, w1) \<Rightarrow> (Some (ErrorfW (s @ '': '' @ Error e) e), w1)
      | (None, w1) \<Rightarrow> run_required exec ss w1)"

fun run_optional :: "'w duckdb \<Rightarrow> string list \<Rightarrow> 'w \<Rightarrow> 'w" where
  "run_optional exec [] w = w"
| "run_optional exec (s # ss) w = run_optional exec ss (snd (exec s w))"

definition writer_installExtensions :: "'w duckdb \<Rightarrow> iceberg_config \<Rightarrow> 'w \<Rightarrow> go_error option \<times> 'w" where
  "writer_installExtensions exec cfg w =
     (case run_required exec (required_statements cfg) w of
        (Some e, w1) \<Rightarrow> (Some e, w1)
      | (None, w1) \<Rightarrow> (None, run_optional exec optional_statements w1))"

text \<open>\<open>opened\<close> is the result of \<^verbatim>\<open>sql.Open\<close>.\<close>

definition iceberg_NewWriter :: "'w duckdb go \<Rightarrow> iceberg_config \<Rightarrow> 'w \<Rightarrow> 'w duckdb go \<times> 'w" where
  "iceberg_NewWriter opened cfg w =
     (case opened of
        Err e \<Rightarrow> (Err (ErrorfW (''duckdb open: '' @ Error e) e), w)
      | Panic \<Rightarrow> (Panic, w)
      | Ok exec \<Rightarrow>
          (case writer_installExtensions exec cfg w of
             (Some e, w1) \<Rightarrow> (Err (ErrorfW (''install extensions: '' @ Error e) e), w1)
           | (None, w1) \<Rightarrow> (Ok exec, w1)))"

definition TableLocation :: "string \<Rightarrow> string \<Rightarrow> string \<Rightarrow> string \<Rightarrow> string" where
  "TableLocation bucket customerSlug schema table = ''s3://'' @ bucket @ ''/'' @ customerSlug @ ''/'' @ schema @ ''/'' @ table"

definition copy_stmt :: "string \<Rightarrow> bool \<Rightarrow> string \<Rightarrow> string \<Rightarrow> string" where
  "copy_stmt format overwrite location sourceQuery =
     ''COPY ('' @ sourceQuery @ '') TO '' @ squote location @ '' (FORMAT '' @ squote format @ '', OVERWRITE_OR_IGNORE '' @
     (if overwrite then ''TRUE'' else ''FALSE'') @ '')''"

definition CreateTableAs :: "'w duckdb \<Rightarrow> string \<Rightarrow> string \<Rightarrow> 'w \<Rightarrow> go_error option \<times> 'w" where
  "CreateTableAs exec location sourceQuery w =
     (case exec (copy_stmt ''iceberg'' True location sourceQuery) w of
        (None, w1) \<Rightarrow> (None, w1)
      | (Some _, w1) \<Rightarrow>
          (case exec (copy_stmt ''parquet'' True location sourceQuery) w1 of
             (Some e, w2) \<Rightarrow> (Some (ErrorfW (''iceberg/parquet write '' @ location @ '': '' @ Error e) e), w2)
           | (None, w2) \<Rightarrow> (None, w2)))"

definition writer_Append :: "'w duckdb \<Rightarrow> string \<Rightarrow> string \<Rightarrow> 'w \<Rightarrow> go_error option \<times> 'w" where
  "writer_Append exec location sourceQuery w =
     (case exec (copy_stmt ''iceberg'' False location sourceQuery) w of
        (None, w1) \<Rightarrow> (None, w1)
      | (Some _, w1) \<Rightarrow>
          (case exec (copy_stmt ''parquet'' False location sourceQuery) w1 of
             (Some e, w2) \<Rightarrow> (Some (ErrorfW (''iceberg/parquet append '' @ location @ '': '' @ Error e) e), w2)
           | (None, w2) \<Rightarrow> (None, w2)))"

text \<open>
  What the writer relies on. \<open>content w l\<close> is the table at location \<open>l\<close> and \<open>query w q\<close> the rows a source
  query delivers, if it is valid. A COPY of either format that succeeds replaces the table at its location
  by the rows of its source and changes no other table; one that fails changes none.
\<close>

definition copy_atomic :: "'w duckdb \<Rightarrow> ('w \<Rightarrow> string \<Rightarrow> 'r option) \<Rightarrow> ('w \<Rightarrow> string \<Rightarrow> 'r option) \<Rightarrow> bool" where
  "copy_atomic exec content query \<longleftrightarrow>
     (\<forall>format \<in> {''iceberg'', ''parquet''}. \<forall>l q w e w'.
        exec (copy_stmt format True l q) w = (e, w') \<longrightarrow>
          query w' = query w \<and>
          (if e = None then query w q \<noteq> None \<and> content w' = (content w)(l := query w q) else content w' = content w))"

section \<open>The catalog\<close>

record table_metadata =
  tmd_Name :: string
  tmd_Location :: string

text \<open>The map of tables is an association list in the order in which Go happens to iterate over it.\<close>

record catalog =
  cat_tables :: "(string \<times> table_metadata) list"
  cat_BearerToken :: string

definition NewCatalogServer :: "string \<Rightarrow> catalog" where
  "NewCatalogServer token = \<lparr>cat_tables = [], cat_BearerToken = token\<rparr>"

definition Register :: "string \<Rightarrow> string \<Rightarrow> string \<Rightarrow> catalog \<Rightarrow> catalog" where
  "Register ns name location c =
     c\<lparr>cat_tables := AList.update (ns @ ''.'' @ name) \<lparr>tmd_Name = name, tmd_Location = location\<rparr> (cat_tables c)\<rparr>"

datatype catalog_body =
    ConfigBody
  | NamespacesBody "string list"
  | IdentifiersBody "(string \<times> string) list"
  | MetadataBody string string
  | CatalogError string

datatype catalog_route = RConfig | RNamespaces | RTables string | RTable string string

definition key_namespace :: "string \<Rightarrow> string" where
  "key_namespace k = hd (SplitN k (CHR ''.'') 2)"

definition handleConfig :: "nat \<times> catalog_body" where
  "handleConfig = (200, ConfigBody)"

definition handleNamespaces :: "catalog \<Rightarrow> nat \<times> catalog_body" where
  "handleNamespaces c = (200, NamespacesBody (remdups (map (\<lambda>(k, _). key_namespace k) (cat_tables c))))"

definition handleTables :: "string \<Rightarrow> catalog \<Rightarrow> nat \<times> catalog_body" where
  "handleTables ns c =
     (200, IdentifiersBody [(ns, tmd_Name t). (k, t) \<leftarrow> cat_tables c, key_namespace k = ns])"

definition handleTable :: "string \<Rightarrow> string \<Rightarrow> catalog \<Rightarrow> nat \<times> catalog_body" where
  "handleTable ns tab c =
     (case map_of (cat_tables c) (ns @ ''.'' @ tab) of
        None \<Rightarrow> (404, CatalogError ''not found'')
      | Some t \<Rightarrow> (200, MetadataBody (tmd_Location t @ ''/metadata/v1.metadata.json'') (tmd_Location t)))"

definition bearerAuth :: "(catalog \<Rightarrow> nat \<times> catalog_body) \<Rightarrow> string \<Rightarrow> catalog \<Rightarrow> nat \<times> catalog_body" where
  "bearerAuth next authorization c =
     (if cat_BearerToken c = [] then next c
      else if authorization \<noteq> ''Bearer '' @ cat_BearerToken c then (401, CatalogError ''unauthorized'')
      else next c)"

fun catalog_dispatch :: "catalog_route \<Rightarrow> catalog \<Rightarrow> nat \<times> catalog_body" where
  "catalog_dispatch RConfig c = handleConfig"
| "catalog_dispatch RNamespaces c = handleNamespaces c"
| "catalog_dispatch (RTables ns) c = handleTables ns c"
| "catalog_dispatch (RTable ns tab) c = handleTable ns tab c"

definition catalog_Routes :: "catalog_route \<Rightarrow> string \<Rightarrow> catalog \<Rightarrow> nat \<times> catalog_body" where
  "catalog_Routes r = bearerAuth (catalog_dispatch r)"

section \<open>Lemmas\<close>

lemma CreateTableAs_spec:
  assumes "copy_atomic exec content query" and "CreateTableAs exec l q w = (e, w')"
  shows "if e = None then query w q \<noteq> None \<and> content w' = (content w)(l := query w q) else content w' = content w"
    and "query w' = query w"
proof -
  obtain e1 w1 where x1: "exec (copy_stmt ''iceberg'' True l q) w = (e1, w1)" by force
  obtain e2 w2 where x2: "exec (copy_stmt ''parquet'' True l q) w1 = (e2, w2)" by force
  have i: "query w1 = query w" "if e1 = None then query w q \<noteq> None \<and> content w1 = (content w)(l := query w q) else content w1 = content w"
    using assms(1) x1 unfolding copy_atomic_def by (blast, metis insertI1)
  have p: "query w2 = query w1" "if e2 = None then query w1 q \<noteq> None \<and> content w2 = (content w1)(l := query w1 q) else content w2 = content w1"
    using assms(1) x2 unfolding copy_atomic_def by (blast, metis insertI1 insertI2)
  show "if e = None then query w q \<noteq> None \<and> content w' = (content w)(l := query w q) else content w' = content w"
    "query w' = query w"
    using assms(2) x1 x2 i p by (auto simp: CreateTableAs_def split: option.splits)
qed

lemma hd_Split: "hd (Split s c) = takeWhile (\<lambda>x. x \<noteq> c) s" "Split s c \<noteq> []"
  by (induction s c rule: Split.induct) (auto split: list.splits)

lemma Split_one: "Split s c = [x] \<Longrightarrow> x = s"
  by (induction s c arbitrary: x rule: Split.induct) (auto split: list.splits if_splits simp: hd_Split)

lemma key_namespace_eq: "key_namespace k = takeWhile (\<lambda>x. x \<noteq> CHR ''.'') k"
proof (cases "length (Split k (CHR ''.'')) \<le> 2")
  case False
  then have "hd (take (Suc 0) (Split k (CHR ''.'')) @ r) = hd (Split k (CHR ''.''))" for r
    by (cases "Split k (CHR ''.'')") auto
  with False show ?thesis by (simp add: key_namespace_def SplitN_def Let_def hd_Split)
qed (simp add: key_namespace_def SplitN_def Let_def hd_Split)

abbreviation dot_free :: "string \<Rightarrow> bool" where
  "dot_free s \<equiv> CHR ''.'' \<notin> set s"

lemma key_namespace_key: "dot_free ns \<Longrightarrow> key_namespace (ns @ ''.'' @ name) = ns"
  by (simp add: key_namespace_eq takeWhile_append)

lemma key_namespace_dot_free: "dot_free (key_namespace k)"
  unfolding key_namespace_eq using set_takeWhileD [of "CHR ''.''" "\<lambda>x. x \<noteq> CHR ''.''" k] by blast

lemma key_inj: "dot_free ns \<Longrightarrow> dot_free ns' \<Longrightarrow> ns @ ''.'' @ n = ns' @ ''.'' @ n' \<longleftrightarrow> ns = ns' \<and> n = n'"
  using key_namespace_key [of ns n] key_namespace_key [of ns' n'] by (metis append_same_eq same_append_eq)

text \<open>The abstract catalog: a map from a namespace and a table name to a location.\<close>

type_synonym catalog_map = "string \<times> string \<rightharpoonup> string"

definition register_all :: "(string \<times> string \<times> string) list \<Rightarrow> catalog \<Rightarrow> catalog" where
  "register_all rs c = fold (\<lambda>(ns, n, l). Register ns n l) rs c"

definition catalog_spec :: "(string \<times> string \<times> string) list \<Rightarrow> catalog_map \<Rightarrow> catalog_map" where
  "catalog_spec rs m = fold (\<lambda>(ns, n, l) m. m((ns, n) \<mapsto> l)) rs m"

definition represents :: "catalog \<Rightarrow> catalog_map \<Rightarrow> bool" where
  "represents c m \<longleftrightarrow>
     distinct (map fst (cat_tables c)) \<and> (\<forall>ns n. (ns, n) \<in> dom m \<longrightarrow> dot_free ns) \<and>
     (\<forall>k t. map_of (cat_tables c) k = Some t \<longleftrightarrow> (\<exists>ns n l. m (ns, n) = Some l \<and> k = ns @ ''.'' @ n \<and> t = \<lparr>tmd_Name = n, tmd_Location = l\<rparr>))"

lemma represents_Register:
  assumes "represents c m" and "dot_free ns"
  shows "represents (Register ns n l c) (m((ns, n) \<mapsto> l))"
proof -
  have "map_of (cat_tables (Register ns n l c)) = (map_of (cat_tables c))(ns @ ''.'' @ n \<mapsto> \<lparr>tmd_Name = n, tmd_Location = l\<rparr>)"
    by (simp add: Register_def update_conv')
  moreover have "distinct (map fst (cat_tables (Register ns n l c)))"
    using assms(1) by (simp add: Register_def represents_def distinct_update)
  moreover have "ns' @ ''.'' @ n' = ns @ ''.'' @ n \<longleftrightarrow> ns' = ns \<and> n' = n" if "m (ns', n') = Some l'" for ns' n' l'
    using assms that key_inj [of ns' ns n' n] by (auto simp: represents_def)
  ultimately show ?thesis
    using assms unfolding represents_def by (auto split: if_splits) metis+
qed

lemma represents_register_all:
  "\<forall>(ns, n, l) \<in> set rs. dot_free ns \<Longrightarrow> represents c m \<Longrightarrow> represents (register_all rs c) (catalog_spec rs m)"
  by (induction rs arbitrary: c m) (auto simp: register_all_def catalog_spec_def represents_Register)

lemma represents_set:
  assumes "represents c m"
  shows "(k, t) \<in> set (cat_tables c) \<longleftrightarrow>
     (\<exists>ns n l. m (ns, n) = Some l \<and> k = ns @ ''.'' @ n \<and> t = \<lparr>tmd_Name = n, tmd_Location = l\<rparr>)"
  using assms map_of_eq_Some_iff [of "cat_tables c" k t] by (simp add: represents_def)

lemma represents_lookup:
  assumes "represents c m" and "dot_free ns"
  shows "map_option tmd_Location (map_of (cat_tables c) (ns @ ''.'' @ n)) = m (ns, n)"
proof (cases "m (ns, n)")
  case None
  have "map_of (cat_tables c) (ns @ ''.'' @ n) = None"
  proof (rule ccontr)
    assume "\<not> ?thesis"
    then obtain t ns' n' l where "m (ns', n') = Some l" "ns @ ''.'' @ n = ns' @ ''.'' @ n'"
      using assms(1) by (auto simp: represents_def)
    moreover have "dot_free ns'" using assms(1) calculation(1) by (auto simp: represents_def)
    ultimately show False using None key_inj [OF assms(2)] by auto
  qed
  with None show ?thesis by simp
next
  case (Some l)
  then have "map_of (cat_tables c) (ns @ ''.'' @ n) = Some \<lparr>tmd_Name = n, tmd_Location = l\<rparr>"
    using assms(1) by (auto simp: represents_def)
  with Some show ?thesis by simp
qed

lemma register_all_token: "cat_BearerToken (register_all rs c) = cat_BearerToken c"
  by (induction rs arbitrary: c) (auto simp: register_all_def Register_def)

lemma listing_map_filter:
  "[(ns, tmd_Name t). (k, t) \<leftarrow> xs, P k] = map (\<lambda>(k, t). (ns, tmd_Name t)) (filter (\<lambda>(k, t). P k) xs)"
  by (induction xs) auto

lemma dotted_namespace_unlisted:
  assumes "\<not> dot_free ns"
  shows "handleTables ns c = (200, IdentifiersBody [])"
proof -
  have "key_namespace k \<noteq> ns" for k using assms key_namespace_dot_free by blast
  then show ?thesis by (simp add: handleTables_def listing_map_filter)
qed

lemma represents_dot_free: "represents c m \<Longrightarrow> m (ns, n) = Some l \<Longrightarrow> dot_free ns"
  by (auto simp: represents_def)

lemma represents_entry:
  assumes "represents c m" and "(k, t) \<in> set (cat_tables c)"
  shows "k = key_namespace k @ ''.'' @ tmd_Name t" and "m (key_namespace k, tmd_Name t) = Some (tmd_Location t)"
proof -
  obtain ns n l where e: "m (ns, n) = Some l" "k = ns @ ''.'' @ n" "t = \<lparr>tmd_Name = n, tmd_Location = l\<rparr>"
    using assms(2) unfolding represents_set [OF assms(1)] by blast
  then have "key_namespace k = ns" using represents_dot_free [OF assms(1)] key_namespace_key by blast
  with e show "k = key_namespace k @ ''.'' @ tmd_Name t" "m (key_namespace k, tmd_Name t) = Some (tmd_Location t)" by simp_all
qed

lemma represents_entry_ex:
  assumes "represents c m" and "m (ns, n) = Some l"
  shows "\<exists>k t. (k, t) \<in> set (cat_tables c) \<and> key_namespace k = ns \<and> tmd_Name t = n"
  using represents_set [OF assms(1)] assms(2) key_namespace_key [OF represents_dot_free [OF assms]]
  by (metis table_metadata.select_convs(1))

lemma represents_listing:
  fixes ns :: string
  assumes "represents c m"
  defines "es \<equiv> filter (\<lambda>(k, t). key_namespace k = ns) (cat_tables c)"
  shows "distinct (map (\<lambda>(k, t). (ns, tmd_Name t)) es)" and "set (map (\<lambda>(k, t). (ns, tmd_Name t)) es) = {x \<in> dom m. fst x = ns}"
proof -
  have d: "distinct (map fst (cat_tables c))" using assms(1) by (simp add: represents_def)
  have "inj_on (\<lambda>(k, t). (ns, tmd_Name t)) (set es)"
  proof (rule inj_onI, clarify)
    fix k t k' t'
    assume "(k, t) \<in> set es" "(k', t') \<in> set es" and n: "tmd_Name t = tmd_Name t'"
    then have e: "(k, t) \<in> set (cat_tables c)" "(k', t') \<in> set (cat_tables c)" "key_namespace k = key_namespace k'"
      by (simp_all add: es_def)
    with n have "k = k'" using represents_entry(1) [OF assms(1)] by metis
    with e show "k = k' \<and> t = t'" using eq_key_imp_eq_value [OF d] by blast
  qed
  moreover have "distinct es" using d by (simp add: es_def distinct_map)
  ultimately show "distinct (map (\<lambda>(k, t). (ns, tmd_Name t)) es)" by (simp add: distinct_map)
  show "set (map (\<lambda>(k, t). (ns, tmd_Name t)) es) = {x \<in> dom m. fst x = ns}"
  proof (intro set_eqI iffI)
    fix x assume "x \<in> {x \<in> dom m. fst x = ns}"
    then obtain n l where x: "x = (ns, n)" "m (ns, n) = Some l" by (cases x) auto
    obtain k t where "(k, t) \<in> set es" "tmd_Name t = n"
      using represents_entry_ex [OF assms(1) x(2)] unfolding es_def by auto
    then have "(ns, tmd_Name t) \<in> set (map (\<lambda>(k, t). (ns, tmd_Name t)) es)" by (auto simp: image_iff intro!: bexI [of _ "(k, t)"])
    with x \<open>tmd_Name t = n\<close> show "x \<in> set (map (\<lambda>(k, t). (ns, tmd_Name t)) es)" by simp
  qed (use represents_entry(2) [OF assms(1)] in \<open>force simp: es_def\<close>)
qed

lemma represents_namespaces:
  assumes "represents c m"
  shows "(\<lambda>(k, _). key_namespace k) ` set (cat_tables c) = fst ` dom m"
proof (intro set_eqI iffI)
  fix ns assume "ns \<in> fst ` dom m"
  then obtain n l where "m (ns, n) = Some l" by force
  with represents_entry_ex [OF assms] show "ns \<in> (\<lambda>(k, _). key_namespace k) ` set (cat_tables c)" by force
qed (use represents_entry(2) [OF assms] in \<open>force\<close>)

section \<open>Properties\<close>

text \<open>
  The catalog implements a map from (namespace, table) to locations for namespaces without a dot: after any
  registrations, an authorised request for a table finds the location of its last registration or answers
  404, the list of a namespace has each of its tables once, the list of namespaces each namespace once; a
  request with another token than the configured one is answered with 401 on every route.
\<close>

theorem catalog_refines:
  fixes token auth :: string
  assumes "\<forall>(ns, n, l) \<in> set rs. dot_free ns" and "dot_free ns"
  defines "c \<equiv> register_all rs (NewCatalogServer token)" and "m \<equiv> catalog_spec rs Map.empty"
    and "ok \<equiv> token = [] \<or> auth = ''Bearer '' @ token"
  shows "catalog_Routes (RTable ns n) auth c =
      (if \<not> ok then (401, CatalogError ''unauthorized'')
       else case m (ns, n) of None \<Rightarrow> (404, CatalogError ''not found'')
            | Some l \<Rightarrow> (200, MetadataBody (l @ ''/metadata/v1.metadata.json'') l)) \<and>
    (\<exists>ids. catalog_Routes (RTables ns) auth c =
       (if \<not> ok then (401, CatalogError ''unauthorized'') else (200, IdentifiersBody ids)) \<and>
       distinct ids \<and> set ids = {x \<in> dom m. fst x = ns}) \<and>
    (\<exists>nss. catalog_Routes RNamespaces auth c =
       (if \<not> ok then (401, CatalogError ''unauthorized'') else (200, NamespacesBody nss)) \<and>
       distinct nss \<and> set nss = fst ` dom m)"
proof -
  have R: "represents c m"
    unfolding c_def m_def
    by (rule represents_register_all [OF assms(1)]) (simp add: represents_def NewCatalogServer_def)
  have tok: "cat_BearerToken c = token" by (simp add: c_def register_all_token NewCatalogServer_def)
  note auth = catalog_Routes_def bearerAuth_def tok ok_def
  have "handleTable ns n c = (case m (ns, n) of None \<Rightarrow> (404, CatalogError ''not found'')
            | Some l \<Rightarrow> (200, MetadataBody (l @ ''/metadata/v1.metadata.json'') l))"
    unfolding represents_lookup [OF R assms(2), symmetric] by (simp add: handleTable_def split: option.splits)
  moreover have "\<exists>ids. handleTables ns c = (200, IdentifiersBody ids) \<and> distinct ids \<and> set ids = {x \<in> dom m. fst x = ns}"
    unfolding handleTables_def listing_map_filter using represents_listing [OF R] by blast
  moreover have "\<exists>nss. handleNamespaces c = (200, NamespacesBody nss) \<and> distinct nss \<and> set nss = fst ` dom m"
    by (simp add: handleNamespaces_def represents_namespaces [OF R])
  ultimately show ?thesis by (auto simp: auth)
qed

definition example_registrations :: "(string \<times> string \<times> string) list" where
  "example_registrations = [(''sales'', ''orders'', ''s3://b/old''), (''sales'', ''v1.items'', ''s3://b/items''), (''sales'', ''orders'', ''s3://b/orders'')]"

theorem catalog_refines_witness:
  "catalog_Routes (RTable ''sales'' ''orders'') ''Bearer t'' (register_all example_registrations (NewCatalogServer ''t'')) =
     (200, MetadataBody ''s3://b/orders/metadata/v1.metadata.json'' ''s3://b/orders'') \<and>
   catalog_Routes (RTable ''sales'' ''orders'') ''Bearer x'' (register_all example_registrations (NewCatalogServer ''t'')) =
     (401, CatalogError ''unauthorized'') \<and>
   (\<exists>ids. catalog_Routes (RTables ''sales'') ''Bearer t'' (register_all example_registrations (NewCatalogServer ''t'')) =
     (200, IdentifiersBody ids) \<and> distinct ids \<and> set ids = {(''sales'', ''orders''), (''sales'', ''v1.items'')})"
proof -
  have d: "\<forall>(ns, n, l) \<in> set example_registrations. dot_free ns" and s: "dot_free ''sales''"
    by (simp_all add: example_registrations_def)
  have m: "catalog_spec example_registrations Map.empty =
      [(''sales'', ''orders'') \<mapsto> ''s3://b/orders'', (''sales'', ''v1.items'') \<mapsto> ''s3://b/items'']"
    by (rule ext) (simp add: catalog_spec_def example_registrations_def)
  have e: "{x \<in> dom [(''sales'', ''orders'') \<mapsto> ''s3://b/orders'', (''sales'', ''v1.items'') \<mapsto> ''s3://b/items'']. fst x = ''sales''} =
      {(''sales'', ''orders''), (''sales'', ''v1.items'')}" by auto
  show ?thesis
    using catalog_refines [OF d s, where token = "''t''" and n = "''orders''" and auth = "''Bearer t''"] catalog_refines [OF d s, where token = "''t''" and n = "''orders''" and auth = "''Bearer x''"]
    unfolding m e by simp
qed

end
