(* ===== verification/Sync.thy ===== *)
theory Sync
  imports Connectors Sql_Router Go_Time Iceberg
begin

text \<open>
  The sync service, \<^verbatim>\<open>internal/sync\<close>: the orchestrator (syncer.go) and the BigQuery and Snowflake loads
  (bigquery_syncer.go, snowflake_syncer.go) over the control store and the Iceberg writer.

  Everything outside the process is a world of type \<open>'w\<close>: the warehouses, the object store, local files,
  Redis, the clocks, and whether the control database answers. The libraries are functions on it; every call
  may change it, so a database that goes down between two statements of one load is covered. The
  statements of the store run on the tables in \<open>y_db\<close> with the clock and the availability of the world.
\<close>

section \<open>The world and its calls\<close>

record 'w sync_libs =
  x_now :: "'w \<Rightarrow> int"
  x_db_now :: "'w \<Rightarrow> int"
  x_db_fail :: "'w \<Rightarrow> go_error option"
  x_exec :: "'w duckdb"
  x_bq_Unmarshal :: "bytes \<Rightarrow> bq_creds go"
  x_bq_NewClient :: "string \<Rightarrow> bytes option \<Rightarrow> 'w \<Rightarrow> unit go \<times> 'w"
  x_bq_Run :: "string \<Rightarrow> string \<Rightarrow> (string \<times> int) list \<Rightarrow> 'w \<Rightarrow> nat go \<times> 'w"
  x_bq_Read :: "nat \<Rightarrow> 'w \<Rightarrow> bq_iter go \<times> 'w"
  x_CreateTemp :: "'w \<Rightarrow> string go \<times> 'w"
  x_Encode :: "(string \<rightharpoonup> sql_value) \<Rightarrow> bytes go"
  x_buffered :: "bytes \<Rightarrow> go_error option"
  x_WriteFile :: "string \<Rightarrow> bytes \<Rightarrow> 'w \<Rightarrow> unit go \<times> 'w"
  x_Remove :: "string \<Rightarrow> 'w \<Rightarrow> 'w"
  x_sf_Unmarshal :: "bytes \<Rightarrow> sf_creds go"
  x_sf_DSN :: "sf_creds \<Rightarrow> string go"
  x_sf_Open :: "string \<Rightarrow> unit go"
  x_sf_Ping :: "string \<Rightarrow> 'w \<Rightarrow> unit go \<times> 'w"
  x_sf_Begin :: "string \<Rightarrow> 'w \<Rightarrow> nat go \<times> 'w"
  x_sf_Count :: "nat \<Rightarrow> string \<Rightarrow> 'w \<Rightarrow> int option go \<times> 'w"
  x_sf_Commit :: "nat \<Rightarrow> 'w \<Rightarrow> unit go \<times> 'w"
  x_sf_Rollback :: "nat \<Rightarrow> 'w \<Rightarrow> 'w"
  x_Publish :: "string \<Rightarrow> string \<Rightarrow> 'w \<Rightarrow> 'w"
  x_uuid :: "uuid \<Rightarrow> string"

record 'w syncer =
  y_db :: db
  y_world :: 'w

record sync_config =
  sc_S3Bucket :: string
  sc_enc :: aead

type_synonym ('w, 'a) call = "'w syncer \<Rightarrow> 'a go \<times> 'w syncer"

text \<open>Calls in sequence: the first error or panic ends the sequence and is its result.\<close>

definition then_do :: "('w, 'a) call \<Rightarrow> ('a \<Rightarrow> ('w, 'b) call) \<Rightarrow> ('w, 'b) call" where
  "then_do m f s =
     (case m s of
        (Ok x, s1) \<Rightarrow> f x s1
      | (Err e, s1) \<Rightarrow> (Err e, s1)
      | (Panic, s1) \<Rightarrow> (Panic, s1))"

definition value_of :: "'a go \<Rightarrow> ('w, 'a) call" where
  "value_of r s = (r, s)"

definition wrap_err :: "string \<Rightarrow> ('w, 'a) call \<Rightarrow> ('w, 'a) call" where
  "wrap_err label m s = (let (r, s1) = m s in (map_err (wrapf label) r, s1))"

definition outside :: "('w \<Rightarrow> 'a \<times> 'w) \<Rightarrow> 'w syncer \<Rightarrow> 'a \<times> 'w syncer" where
  "outside f s = (let (r, w) = f (y_world s) in (r, s\<lparr>y_world := w\<rparr>))"

text \<open>A call of the writer, which returns its error.\<close>

definition attempt :: "('w \<Rightarrow> go_error option \<times> 'w) \<Rightarrow> ('w, unit) call" where
  "attempt f = outside (\<lambda>w. let (e, w1) = f w in (case e of None \<Rightarrow> Ok () | Some er \<Rightarrow> Err er, w1))"

definition current_db :: "'w sync_libs \<Rightarrow> 'w syncer \<Rightarrow> db" where
  "current_db X s = (y_db s)\<lparr>db_now := x_db_now X (y_world s), db_fail := x_db_fail X (y_world s)\<rparr>"

definition reading :: "'w sync_libs \<Rightarrow> (db \<Rightarrow> 'a go) \<Rightarrow> ('w, 'a) call" where
  "reading X f s = (f (current_db X s), s)"

definition writing :: "'w sync_libs \<Rightarrow> (db \<Rightarrow> 'a go \<times> db) \<Rightarrow> ('w, 'a) call" where
  "writing X f s = (let (r, d) = f (current_db X s) in (r, s\<lparr>y_db := d\<rparr>))"

section \<open>Shared operations\<close>

definition PublishSnapshot :: "'w sync_libs \<Rightarrow> string \<Rightarrow> uuid \<Rightarrow> string \<Rightarrow> string \<Rightarrow> int \<Rightarrow> 'w syncer \<Rightarrow> 'w syncer" where
  "PublishSnapshot X customerSlug connID schema table snapshotID s =
     s\<lparr>y_world := x_Publish X
        (''iceberg.snapshot.'' @ customerSlug @ ''.'' @ x_uuid X connID @ ''.'' @ schema @ ''.'' @ table)
        (Itoa snapshotID) (y_world s)\<rparr>"

definition markError :: "'w sync_libs \<Rightarrow> uuid \<Rightarrow> go_error \<Rightarrow> ('w, unit) call" where
  "markError X i err = writing X (MarkSyncedTableState i ''error'' (Some (Error err)) None None 0)"

definition customerSlugFromID :: "uuid \<Rightarrow> db \<Rightarrow> string" where
  "customerSlugFromID i d =
     (case ListCustomers d of
        Ok cs \<Rightarrow> (case find (\<lambda>c. c_ID c = i) cs of Some c \<Rightarrow> c_Slug c | None \<Rightarrow> [])
      | _ \<Rightarrow> [])"

definition customer_of :: "'w sync_libs \<Rightarrow> uuid \<Rightarrow> ('w, customer) call" where
  "customer_of X i = reading X (\<lambda>d. GetCustomerBySlug (customerSlugFromID i d) d)"

text \<open>The end of every load: the table is marked live as of now, then the snapshot is announced.\<close>

definition mark_live :: "'w sync_libs \<Rightarrow> string \<Rightarrow> uuid \<Rightarrow> synced_table \<Rightarrow> int \<Rightarrow> ('w, unit) call" where
  "mark_live X slug connID t rows s =
     then_do (writing X (MarkSyncedTableState (t_ID t) ''live'' None None (Some (FormatRFC3339 (x_now X (y_world s)))) rows))
       (\<lambda>_ s1. (Ok (), PublishSnapshot X slug connID (t_SchemaName t) (t_TableName t) (x_now X (y_world s1) div second) s1)) s"

section \<open>BigQuery\<close>

text \<open>One object per row: the columns of the schema in order, as far as the row goes; a later column of the same name wins.\<close>

fun row_object :: "(string \<times> string) list \<Rightarrow> sql_value list \<Rightarrow> (string \<rightharpoonup> sql_value) \<Rightarrow> (string \<rightharpoonup> sql_value)" where
  "row_object ((name, _) # fs) (v # vs) obj = row_object fs vs (obj(name \<mapsto> v))"
| "row_object _ _ obj = obj"

text \<open>
  The loop over the iterator: the lines written so far and their number. \<open>x_buffered\<close> is the error that
  writing them through the buffer has met, if any.
\<close>

fun encode_rows :: "'w sync_libs \<Rightarrow> (string \<times> string) list \<Rightarrow> sql_value list go list \<Rightarrow> bytes \<Rightarrow> nat \<Rightarrow> (bytes \<times> nat) go" where
  "encode_rows X schema [] out n = Ok (out, n)"
| "encode_rows X schema (row # rows) out n =
     bind_go row (\<lambda>vs.
       bind_go (x_Encode X (row_object schema vs Map.empty)) (\<lambda>line.
         case x_buffered X (out @ line) of
           Some e \<Rightarrow> Err e
         | None \<Rightarrow> encode_rows X schema rows (out @ line) (n + 1)))"

definition source_query :: "string \<Rightarrow> nat \<Rightarrow> string" where
  "source_query tmp n =
     (if n = 0 then ''SELECT 1 WHERE FALSE''
      else ''SELECT * FROM read_json_auto('' @ squote (ReplaceAll tmp [CHR 0x27] [CHR 0x27, CHR 0x27]) @ '')'')"

text \<open>A failing commit is logged; the count is returned as if it had succeeded.\<close>

definition streamToIceberg :: "'w sync_libs \<Rightarrow> bq_iter \<Rightarrow> string \<Rightarrow> ('w, nat) call" where
  "streamToIceberg X it location =
     then_do (wrap_err ''temp file'' (outside (x_CreateTemp X))) (\<lambda>tmp s.
       let (r, s1) =
         then_do (value_of (encode_rows X (it_Schema it) (it_Rows it) [] 0)) (\<lambda>(out, n).
           then_do (outside (x_WriteFile X tmp out)) (\<lambda>_ s2.
             (Ok n, snd (outside (CreateTableAs (x_exec X) location (source_query tmp n)) s2)))) s
       in (r, s1\<lparr>y_world := x_Remove X tmp (y_world s1)\<rparr>))"

definition bq_source :: "synced_table \<Rightarrow> string" where
  "bq_source t = ''`'' @ t_SchemaName t @ ''.'' @ t_TableName t @ ''`''"

definition bqInitialOrFullLoad :: "'w sync_libs \<Rightarrow> string \<Rightarrow> synced_table \<Rightarrow> string \<Rightarrow> string \<Rightarrow> ('w, unit) call" where
  "bqInitialOrFullLoad X project t location slug =
     then_do (wrap_err ''bq job run'' (outside (x_bq_Run X project (''SELECT * FROM '' @ bq_source t) []))) (\<lambda>job.
       then_do (wrap_err ''bq job read'' (outside (x_bq_Read X job))) (\<lambda>it.
         then_do (streamToIceberg X it location) (\<lambda>rowCount.
           mark_live X slug (t_ConnectionID t) t (int rowCount))))"

definition watermark_layouts :: "layout_item list list" where
  "watermark_layouts =
     [RFC3339Nano, RFC3339, date_items @ [LText '' ''] @ clock_items @ [LFrac],
      date_items @ [LText '' ''] @ clock_items, date_items]"

fun first_parse :: "layout_item list list \<Rightarrow> string \<Rightarrow> int go" where
  "first_parse [] s = Err (Errorf ''unrecognized timestamp layout'')"
| "first_parse (l # ls) s = (case time_Parse l s of Some t \<Rightarrow> Ok t | None \<Rightarrow> first_parse ls s)"

definition parseWatermark :: "string \<Rightarrow> int go" where
  "parseWatermark s = first_parse watermark_layouts s"

definition non_empty_or :: "string option \<Rightarrow> string \<Rightarrow> string" where
  "non_empty_or v d = (case v of Some x \<Rightarrow> if x \<noteq> [] then x else d | None \<Rightarrow> d)"

definition bqWatermarkLoad :: "'w sync_libs \<Rightarrow> string \<Rightarrow> synced_table \<Rightarrow> string \<Rightarrow> string \<Rightarrow> ('w, unit) call" where
  "bqWatermarkLoad X project t location slug =
     (let col = non_empty_or (t_WatermarkColumn t) ''_PARTITIONTIME'';
          wm = non_empty_or (t_LastWatermark t) ''1970-01-01 00:00:00'' in
      then_do (wrap_err (''parse watermark '' @ Quote wm) (value_of (parseWatermark wm))) (\<lambda>wmTime.
        then_do (wrap_err ''bq watermark run'' (outside (x_bq_Run X project
             (''SELECT * FROM '' @ bq_source t @ '' WHERE '' @ col @ '' > @uv_watermark ORDER BY '' @ col)
             [(''uv_watermark'', wmTime)]))) (\<lambda>job.
          then_do (wrap_err ''bq watermark read'' (outside (x_bq_Read X job))) (\<lambda>it.
            then_do (streamToIceberg X it location) (\<lambda>rows.
              if rows = 0 then value_of (Ok ())
              else mark_live X slug (t_ConnectionID t) t (int rows))))))"

definition syncBigQueryTable :: "'w sync_libs \<Rightarrow> sync_config \<Rightarrow> uuid \<Rightarrow> connection \<Rightarrow> synced_table \<Rightarrow> ('w, unit) call" where
  "syncBigQueryTable X cfg customerID conn t =
     then_do (wrap_err ''load bq creds'' (reading X (GetConnectionForCustomer (sc_enc cfg) customerID ''bigquery''))) (\<lambda>(_, creds).
       then_do (value_of (x_bq_Unmarshal X creds)) (\<lambda>bc.
         then_do (wrap_err ''bq client'' (outside (x_bq_NewClient X (bq_ProjectID bc)
             (if bq_ServiceAccountKey bc \<noteq> [] \<and> bq_ServiceAccountKey bc \<noteq> ''null'' then Some (bq_ServiceAccountKey bc) else None)))) (\<lambda>_.
           then_do (customer_of X customerID) (\<lambda>customer.
             let location = TableLocation (sc_S3Bucket cfg) (c_Slug customer) (t_SchemaName t) (t_TableName t) in
             if t_SyncMode t = ''watermark'' then bqWatermarkLoad X (bq_ProjectID bc) t location (c_Slug customer)
             else if t_SyncMode t = ''cdc_native'' \<or> t_SyncMode t = ''manual''
             then bqInitialOrFullLoad X (bq_ProjectID bc) t location (c_Slug customer)
             else value_of (Err (Errorf (''unknown sync_mode '' @ Quote (t_SyncMode t))))))))"

section \<open>Snowflake\<close>

definition snowflakeDSNFromCreds :: "'w sync_libs \<Rightarrow> bytes \<Rightarrow> string go" where
  "snowflakeDSNFromCreds X creds = bind_go (x_sf_Unmarshal X creds) (\<lambda>c. x_sf_DSN X (c\<lparr>sf_PrivateKeyPEM := []\<rparr>))"

text \<open>The body of the transaction: \<open>Ok\<close> without an effect when the stream has no changes.\<close>

definition sf_apply_changes :: "'w sync_libs \<Rightarrow> sync_config \<Rightarrow> uuid \<Rightarrow> connection \<Rightarrow> synced_table \<Rightarrow> nat \<Rightarrow> ('w, unit) call" where
  "sf_apply_changes X cfg customerID conn t tx =
     (let streamName = ''uv_'' @ t_SchemaName t @ ''_'' @ t_TableName t @ ''_stream'' in
      then_do (wrap_err ''snowflake stream query'' (outside (x_sf_Count X tx (''SELECT COUNT(*) FROM '' @ streamName)))) (\<lambda>count.
        let changeCount = (case count of Some n \<Rightarrow> n | None \<Rightarrow> 0) in
        if changeCount = 0 then value_of (Ok ())
        else then_do (customer_of X customerID) (\<lambda>customer.
          let location = TableLocation (sc_S3Bucket cfg) (c_Slug customer) (t_SchemaName t) (t_TableName t) in
          then_do (attempt (writer_Append (x_exec X) location (''SELECT * FROM '' @ streamName))) (\<lambda>_.
            then_do (wrap_err ''snowflake commit (stream advance)'' (outside (x_sf_Commit X tx))) (\<lambda>_.
              mark_live X (c_Slug customer) (cn_ID conn) t (t_RowCount t + changeCount))))))"

definition syncSnowflakeTable :: "'w sync_libs \<Rightarrow> sync_config \<Rightarrow> uuid \<Rightarrow> connection \<Rightarrow> synced_table \<Rightarrow> ('w, unit) call" where
  "syncSnowflakeTable X cfg customerID conn t s =
     (if cn_WarehouseType conn \<noteq> ''snowflake''
      then (Err (Errorf (''called snowflake syncer with '' @ cn_WarehouseType conn)), s)
      else case GetConnectionForCustomer (sc_enc cfg) customerID ''snowflake'' (current_db X s) of
        Err _ \<Rightarrow> (Ok (), s)
      | Panic \<Rightarrow> (Panic, s)
      | Ok (_, creds) \<Rightarrow>
          (case bind_go (snowflakeDSNFromCreds X creds) (\<lambda>dsn. bind_go (x_sf_Open X dsn) (\<lambda>_. Ok dsn)) of
             Err e \<Rightarrow> (Err e, s)
           | Panic \<Rightarrow> (Panic, s)
           | Ok dsn \<Rightarrow>
               (case outside (x_sf_Ping X dsn) s of
                  (Panic, s1) \<Rightarrow> (Panic, s1)
                | (Err _, s1) \<Rightarrow> (Ok (), s1)
                | (Ok _, s1) \<Rightarrow>
                    then_do (wrap_err ''snowflake begin'' (outside (x_sf_Begin X dsn))) (\<lambda>tx s2.
                      let (r, s3) = sf_apply_changes X cfg customerID conn t tx s2
                      in (r, s3\<lparr>y_world := x_sf_Rollback X tx (y_world s3)\<rparr>)) s1)))"

section \<open>The orchestrator\<close>

definition syncTable :: "'w sync_libs \<Rightarrow> sync_config \<Rightarrow> uuid \<Rightarrow> connection \<Rightarrow> synced_table \<Rightarrow> ('w, unit) call" where
  "syncTable X cfg customerID conn t =
     (if cn_WarehouseType conn = ''bigquery'' then syncBigQueryTable X cfg customerID conn t
      else if cn_WarehouseType conn = ''snowflake'' then syncSnowflakeTable X cfg customerID conn t
      else value_of (Err (Errorf (''unsupported warehouse for sync: '' @ cn_WarehouseType conn))))"

text \<open>The body of the inner loop: a failing table is marked; an error of marking it is dropped.\<close>

definition mark_failed :: "'w sync_libs \<Rightarrow> uuid \<Rightarrow> ('w, unit) call \<Rightarrow> ('w, unit) call" where
  "mark_failed X i m s =
     (case m s of
        (Ok _, s1) \<Rightarrow> (Ok (), s1)
      | (Panic, s1) \<Rightarrow> (Panic, s1)
      | (Err e, s1) \<Rightarrow> (Ok (), snd (markError X i e s1)))"

definition sync_one :: "'w sync_libs \<Rightarrow> sync_config \<Rightarrow> uuid \<Rightarrow> connection \<Rightarrow> synced_table \<Rightarrow> ('w, unit) call" where
  "sync_one X cfg customerID conn t = mark_failed X (t_ID t) (syncTable X cfg customerID conn t)"

fun sync_tables :: "'w sync_libs \<Rightarrow> sync_config \<Rightarrow> uuid \<Rightarrow> connection \<Rightarrow> synced_table list \<Rightarrow> ('w, unit) call" where
  "sync_tables X cfg customerID conn [] = value_of (Ok ())"
| "sync_tables X cfg customerID conn (t # ts) =
     then_do (sync_one X cfg customerID conn t) (\<lambda>_. sync_tables X cfg customerID conn ts)"

fun sync_conns :: "'w sync_libs \<Rightarrow> sync_config \<Rightarrow> uuid \<Rightarrow> connection list \<Rightarrow> ('w, unit) call" where
  "sync_conns X cfg customerID [] = value_of (Ok ())"
| "sync_conns X cfg customerID (conn # conns) =
     then_do (reading X (ListSyncedTables (cn_ID conn))) (\<lambda>tables.
       then_do (sync_tables X cfg customerID conn tables) (\<lambda>_. sync_conns X cfg customerID conns))"

definition syncCustomer :: "'w sync_libs \<Rightarrow> sync_config \<Rightarrow> uuid \<Rightarrow> ('w, unit) call" where
  "syncCustomer X cfg customerID =
     then_do (reading X (ListConnections customerID)) (\<lambda>conns. sync_conns X cfg customerID conns)"

text \<open>
  One tick. The goroutines of the group run here one after the other in the order in which they are
  started; an error cancels the group's context, so the customers after it fail at their first statement.
\<close>

fun sync_customers :: "'w sync_libs \<Rightarrow> sync_config \<Rightarrow> customer list \<Rightarrow> ('w, unit) call" where
  "sync_customers X cfg [] = value_of (Ok ())"
| "sync_customers X cfg (c # cs) = then_do (syncCustomer X cfg (c_ID c)) (\<lambda>_. sync_customers X cfg cs)"

definition sync_tick :: "'w sync_libs \<Rightarrow> sync_config \<Rightarrow> ('w, unit) call" where
  "sync_tick X cfg = then_do (reading X ListCustomers) (sync_customers X cfg)"

text \<open>The events of the loop: a tick with the world as it is then, or the end of the context.\<close>

datatype 'w sync_event = Ticked 'w | CtxDone go_error

fun sync_Run :: "'w sync_libs \<Rightarrow> sync_config \<Rightarrow> 'w sync_event list \<Rightarrow> 'w syncer \<Rightarrow> go_error option go \<times> 'w syncer" where
  "sync_Run X cfg [] s = (Ok None, s)"
| "sync_Run X cfg (CtxDone e # evs) s = (Ok (Some e), s)"
| "sync_Run X cfg (Ticked w # evs) s =
     (case sync_tick X cfg (s\<lparr>y_world := w\<rparr>) of
        (Panic, s1) \<Rightarrow> (Panic, s1)
      | (_, s1) \<Rightarrow> sync_Run X cfg evs s1)"

section \<open>What a call keeps\<close>

text \<open>
  A call keeps a relation when its start and end states are always related; for a reflexive and transitive
  relation, a sequence of calls keeps it when its parts do.
\<close>

definition keeps :: "('w syncer \<Rightarrow> 'w syncer \<Rightarrow> bool) \<Rightarrow> ('w, 'a) call \<Rightarrow> bool" where
  "keeps R m \<longleftrightarrow> (\<forall>s. R s (snd (m s)))"

lemma keeps_then_do: "transp R \<Longrightarrow> keeps R m \<Longrightarrow> (\<And>x. keeps R (f x)) \<Longrightarrow> keeps R (then_do m f)"
proof -
  assume R: "transp R" and m: "keeps R m" and f: "\<And>x. keeps R (f x)"
  have "R s (snd (then_do m f s))" for s
  proof (cases "m s")
    case (Pair r s1)
    with m have "R s s1" by (metis keeps_def snd_conv)
    moreover have "R s1 (snd (f x s1))" for x using f by (simp add: keeps_def)
    ultimately show ?thesis using Pair by (cases r) (auto simp: then_do_def dest: transpD [OF R])
  qed
  then show ?thesis by (simp add: keeps_def)
qed

lemma keeps_value_of: "reflp R \<Longrightarrow> keeps R (value_of r)"
  by (simp add: keeps_def value_of_def reflpD)

lemma keeps_reading: "reflp R \<Longrightarrow> keeps R (reading X f)"
  by (simp add: keeps_def reading_def reflpD)

lemma keeps_wrap_err: "keeps R m \<Longrightarrow> keeps R (wrap_err l m)"
  by (simp add: keeps_def wrap_err_def split_def Let_def)

lemma keepsD: "keeps R m \<Longrightarrow> m s = (r, s') \<Longrightarrow> R s s'"
  unfolding keeps_def by (metis snd_conv)

text \<open>
  A table row that a sync has written: it keeps its identity and configuration and is live or in error. A run
  \<open>touches\<close> a set of tables when it writes such rows for them and nothing else of the store.
\<close>

definition t_ident :: "synced_table \<Rightarrow> uuid \<times> uuid \<times> string \<times> string \<times> string \<times> string option \<times> int option \<times> string option" where
  "t_ident t = (t_ID t, t_ConnectionID t, t_SchemaName t, t_TableName t, t_SyncMode t, t_WatermarkColumn t, t_LastSnapshotID t, t_IcebergPath t)"

definition row_written :: "uuid set \<Rightarrow> synced_table \<Rightarrow> synced_table \<Rightarrow> bool" where
  "row_written A t t' \<longleftrightarrow> t' = t \<or> t_ID t \<in> A \<and> t_ident t' = t_ident t \<and> t_State t' \<in> {''live'', ''error''}"

definition same_rest :: "db \<Rightarrow> db \<Rightarrow> bool" where
  "same_rest d d' \<longleftrightarrow> customers d' = customers d \<and> connections d' = connections d \<and> api_keys d' = api_keys d \<and>
     query_log d' = query_log d \<and> db_next d' = db_next d"

definition touches :: "uuid set \<Rightarrow> 'w syncer \<Rightarrow> 'w syncer \<Rightarrow> bool" where
  "touches A s s' \<longleftrightarrow> same_rest (y_db s) (y_db s') \<and> list_all2 (row_written A) (synced_tables (y_db s)) (synced_tables (y_db s'))"

lemma row_written_refl: "row_written A t t"
  by (simp add: row_written_def)

lemma row_written_trans: "row_written A t t' \<Longrightarrow> row_written A t' t'' \<Longrightarrow> row_written A t t''"
  by (auto simp: row_written_def t_ident_def)

lemma row_written_ident: "row_written A t t' \<Longrightarrow> t_ident t' = t_ident t"
  by (auto simp: row_written_def)

lemma touches_refl: "reflp (touches A)"
  by (auto intro!: reflpI simp: touches_def same_rest_def list_all2_refl row_written_refl)

lemma touches_trans: "transp (touches A)"
proof (rule transpI)
  fix s1 s2 s3 :: "'w syncer"
  assume "touches A s1 s2" "touches A s2 s3"
  then show "touches A s1 s3"
    unfolding touches_def
    using list_all2_trans [of "row_written A" "row_written A" "row_written A", OF row_written_trans]
    by (auto simp: same_rest_def)
qed

lemma touches_mono: "touches A s s' \<Longrightarrow> A \<subseteq> B \<Longrightarrow> touches B s s'"
  unfolding touches_def by (auto elim!: list_all2_mono simp: row_written_def)

lemma touches_map:
  assumes "touches A s s'" and "\<And>t t'. t_ident t' = t_ident t \<Longrightarrow> f t' = f t"
  shows "map f (synced_tables (y_db s')) = map f (synced_tables (y_db s))"
proof -
  have "list_all2 (row_written A) (synced_tables (y_db s)) (synced_tables (y_db s'))"
    using assms(1) by (simp add: touches_def)
  then show ?thesis
  proof (induction rule: list_all2_induct)
    case (Cons t ts t' ts')
    then show ?case using assms(2) [OF row_written_ident] by simp
  qed simp
qed

lemma touches_db_ok:
  assumes "touches A s s'"
  shows "db_ok (y_db s') = db_ok (y_db s)"
proof -
  note m = touches_map [OF assms]
  have "map t_ID (synced_tables (y_db s')) = map t_ID (synced_tables (y_db s))"
    "map t_ConnectionID (synced_tables (y_db s')) = map t_ConnectionID (synced_tables (y_db s))"
    "map (\<lambda>t. (t_ConnectionID t, t_SchemaName t, t_TableName t)) (synced_tables (y_db s')) =
     map (\<lambda>t. (t_ConnectionID t, t_SchemaName t, t_TableName t)) (synced_tables (y_db s))"
    by (rule m, simp add: t_ident_def)+
  moreover from this have "t_ID ` set (synced_tables (y_db s')) = t_ID ` set (synced_tables (y_db s))"
    "t_ConnectionID ` set (synced_tables (y_db s')) = t_ConnectionID ` set (synced_tables (y_db s))"
    unfolding list.set_map [symmetric] by (simp_all only:)
  ultimately show ?thesis using assms unfolding touches_def same_rest_def db_ok_def by simp
qed

lemma touches_world: "touches A s (s'\<lparr>y_world := w\<rparr>) = touches A s s'"
  by (simp add: touches_def)

lemma keeps_outside: "keeps (touches A) (outside f)"
  by (simp add: keeps_def outside_def split_def Let_def touches_world reflpD [OF touches_refl])

lemma keeps_mark:
  assumes "st \<in> {''live'', ''error''}"
  shows "keeps (touches {i}) (writing X (MarkSyncedTableState i st e None wm n))"
  using assms
  by (auto simp: keeps_def writing_def MarkSyncedTableState_def current_db_def touches_def same_rest_def row_written_def
      t_ident_def coalesce_def list_all2_conv_all_nth split: option.splits)

text \<open>The calls before the last statement of a load leave the tables of the store alone.\<close>

abbreviation same_db :: "'w syncer \<Rightarrow> 'w syncer \<Rightarrow> bool" where
  "same_db s s' \<equiv> y_db s' = y_db s"

lemma same_db_refl: "reflp same_db" and same_db_trans: "transp same_db"
  by (auto intro: reflpI transpI)

lemma keeps_outside_db: "keeps same_db (outside f)"
  by (simp add: keeps_def outside_def split_def Let_def)

lemmas keeps_calls = keeps_value_of [OF same_db_refl] keeps_reading [OF same_db_refl] keeps_wrap_err keeps_outside_db
  keeps_then_do [OF same_db_trans]

lemma keeps_streamToIceberg: "keeps same_db (streamToIceberg X it location)"
  unfolding streamToIceberg_def
proof (intro keeps_calls)
  fix tmp
  let ?m = "then_do (value_of (encode_rows X (it_Schema it) (it_Rows it) [] 0)) (\<lambda>(out, n).
      then_do (outside (x_WriteFile X tmp out)) (\<lambda>_ s2.
        (Ok n, snd (outside (CreateTableAs (x_exec X) location (source_query tmp n)) s2))))"
  have "keeps same_db (\<lambda>s2. (Ok n, snd (outside f s2)))" for n and f :: "'a \<Rightarrow> go_error option \<times> 'a"
    by (simp add: keeps_def outside_def split_def Let_def)
  then have "keeps same_db ?m" by (intro keeps_calls) (auto intro!: keeps_calls split: prod.split)
  then show "keeps same_db (\<lambda>s. let (r, s1) = ?m s in (r, s1\<lparr>y_world := x_Remove X tmp (y_world s1)\<rparr>))"
    by (simp add: keeps_def split_def Let_def)
qed

definition live_row :: "string \<Rightarrow> int \<Rightarrow> int \<Rightarrow> synced_table \<Rightarrow> synced_table" where
  "live_row wm n tm t = t\<lparr>t_State := ''live'', t_LastError := None, t_LastWatermark := Some wm, t_RowCount := n, t_LastSyncAt := Some tm\<rparr>"

definition set_row :: "uuid \<Rightarrow> (synced_table \<Rightarrow> synced_table) \<Rightarrow> synced_table list \<Rightarrow> synced_table list" where
  "set_row i f ts = map (\<lambda>t. if t_ID t = i then f t else t) ts"

text \<open>
  The contract of the sync of one table: an error leaves all rows as they were, and success leaves them or
  marks the one row live.
\<close>

definition settles :: "uuid \<Rightarrow> ('w, 'a) call \<Rightarrow> bool" where
  "settles i m \<longleftrightarrow> (\<forall>s r s'. m s = (r, s') \<longrightarrow> same_rest (y_db s) (y_db s') \<and>
     (synced_tables (y_db s') = synced_tables (y_db s) \<or>
      (\<exists>x. r = Ok x) \<and> (\<exists>wm n tm. synced_tables (y_db s') = set_row i (live_row wm n tm) (synced_tables (y_db s)))))"

lemma settlesD:
  assumes "settles i m" and "m s = (r, s')"
  shows "same_rest (y_db s) (y_db s')"
    and "synced_tables (y_db s') = synced_tables (y_db s) \<or>
      (\<exists>x. r = Ok x) \<and> (\<exists>wm n tm. synced_tables (y_db s') = set_row i (live_row wm n tm) (synced_tables (y_db s)))"
  using assms unfolding settles_def by blast+

lemma settles_quiet: "keeps same_db m \<Longrightarrow> settles i m"
  by (auto simp: settles_def same_rest_def dest: keepsD)

lemma settles_then:
  assumes "keeps same_db m" and "\<And>x. settles i (f x)"
  shows "settles i (then_do m f)"
  unfolding settles_def
proof (intro allI impI)
  fix s r s'
  assume run: "then_do m f s = (r, s')"
  obtain r1 s1 where m: "m s = (r1, s1)" by force
  then have "y_db s1 = y_db s" using keepsD [OF assms(1)] by blast
  then show "same_rest (y_db s) (y_db s') \<and>
     (synced_tables (y_db s') = synced_tables (y_db s) \<or>
      (\<exists>x. r = Ok x) \<and> (\<exists>wm n tm. synced_tables (y_db s') = set_row i (live_row wm n tm) (synced_tables (y_db s))))"
    using run m assms(2) by (cases r1) (force simp: then_do_def settles_def same_rest_def)+
qed

lemma MarkSyncedTableState_run:
  "writing X (MarkSyncedTableState i st e None wm n) s =
     (case x_db_fail X (y_world s) of
        Some er \<Rightarrow> (Err er, s\<lparr>y_db := current_db X s\<rparr>)
      | None \<Rightarrow> (Ok (), s\<lparr>y_db := (current_db X s)\<lparr>synced_tables := set_row i (\<lambda>t. t\<lparr>t_State := st, t_LastError := e,
           t_LastWatermark := coalesce wm (t_LastWatermark t), t_RowCount := n, t_LastSyncAt := Some (x_db_now X (y_world s))\<rparr>)
           (synced_tables (y_db s))\<rparr>\<rparr>))"
  by (auto simp: writing_def MarkSyncedTableState_def current_db_def set_row_def coalesce_def split: option.splits intro!: map_cong)

lemma mark_live_run:
  "mark_live X slug c t n s =
     (case x_db_fail X (y_world s) of
        Some er \<Rightarrow> (Err er, s\<lparr>y_db := current_db X s\<rparr>)
      | None \<Rightarrow> (Ok (), PublishSnapshot X slug c (t_SchemaName t) (t_TableName t) (x_now X (y_world s) div second)
           (s\<lparr>y_db := (current_db X s)\<lparr>synced_tables :=
             set_row (t_ID t) (live_row (FormatRFC3339 (x_now X (y_world s))) n (x_db_now X (y_world s))) (synced_tables (y_db s))\<rparr>\<rparr>)))"
  by (auto simp: mark_live_def then_do_def MarkSyncedTableState_run coalesce_def live_row_def set_row_def cong: if_cong split: option.splits)

lemma settles_mark_live: "settles (t_ID t) (mark_live X slug c t n)"
  by (auto simp: settles_def mark_live_run current_db_def same_rest_def PublishSnapshot_def split: option.splits)

lemma settles_after: "settles i m \<Longrightarrow> settles i (\<lambda>s. let (r, s1) = m s in (r, s1\<lparr>y_world := g s1\<rparr>))"
  unfolding settles_def split_def Let_def by (auto dest: prod_eqI) (metis prod.collapse)+

lemma settles_if: "settles i m \<Longrightarrow> settles i m' \<Longrightarrow> settles i (if b then m else m')"
  by simp

lemmas settles_calls = settles_then settles_mark_live settles_if settles_quiet keeps_calls keeps_streamToIceberg

section \<open>The contract of a table sync\<close>

locale table_sync =
  fixes sync :: "uuid \<Rightarrow> connection \<Rightarrow> synced_table \<Rightarrow> ('w, unit) call"
  assumes sync_settles: "settles (t_ID t) (sync cid conn t)"
begin

lemma failed_row:
  assumes "sync cid conn t s = (Err e, s1)" and "x_db_fail X (y_world s1) = None"
  shows "mark_failed X (t_ID t) (sync cid conn t) s = (Ok (), s') \<Longrightarrow>
     synced_tables (y_db s') = set_row (t_ID t) (\<lambda>t. t\<lparr>t_State := ''error'', t_LastError := Some (Error e),
        t_RowCount := 0, t_LastSyncAt := Some (x_db_now X (y_world s1))\<rparr>) (synced_tables (y_db s)) \<and> same_rest (y_db s) (y_db s')"
  using assms settlesD [OF sync_settles assms(1)]
  by (auto simp: mark_failed_def markError_def MarkSyncedTableState_run coalesce_def current_db_def same_rest_def)

lemma keeps_mark_failed: "keeps (touches {t_ID t}) (mark_failed X (t_ID t) (sync cid conn t))"
proof -
  have "touches {t_ID t} s (snd (mark_failed X (t_ID t) (sync cid conn t) s))" for s
  proof (cases "sync cid conn t s")
    case (Pair r s1)
    have "touches {t_ID t} s s1"
      using settlesD [OF sync_settles Pair]
      by (auto simp: touches_def row_written_def set_row_def live_row_def t_ident_def list_all2_conv_all_nth split: if_splits)
    moreover have "touches {t_ID t} s1 (snd (markError X (t_ID t) e s1))" for e
      using keeps_mark [of "''error''" "t_ID t" X] by (simp add: markError_def keeps_def)
    ultimately show ?thesis
      using Pair touches_trans [of "{t_ID t}"] by (cases r) (auto simp: mark_failed_def dest: transpD)
  qed
  then show ?thesis by (simp add: keeps_def)
qed

end

lemma settles_syncBigQueryTable: "settles (t_ID t) (syncBigQueryTable X cfg cid conn t)"
  unfolding syncBigQueryTable_def bqWatermarkLoad_def bqInitialOrFullLoad_def customer_of_def Let_def split_def
  by (intro settles_calls)

lemma settles_syncSnowflakeTable: "settles (t_ID t) (syncSnowflakeTable X cfg cid conn t)"
proof -
  have body: "settles (t_ID t) (sf_apply_changes X cfg cid conn t tx)" for tx
    unfolding sf_apply_changes_def customer_of_def attempt_def Let_def by (intro settles_calls)
  have tx: "settles (t_ID t) (then_do (wrap_err ''snowflake begin'' (outside (x_sf_Begin X dsn))) (\<lambda>tx s2.
      let (r, s3) = sf_apply_changes X cfg cid conn t tx s2 in (r, s3\<lparr>y_world := x_sf_Rollback X tx (y_world s3)\<rparr>)))" for dsn
    by (intro settles_then keeps_calls settles_after body)
  show ?thesis
    unfolding settles_def
  proof (intro allI impI)
    fix s r s'
    assume run: "syncSnowflakeTable X cfg cid conn t s = (r, s')"
    let ?settled = "same_rest (y_db s) (y_db s') \<and>
     (synced_tables (y_db s') = synced_tables (y_db s) \<or>
      (\<exists>x. r = Ok x) \<and> (\<exists>wm n tm. synced_tables (y_db s') = set_row (t_ID t) (live_row wm n tm) (synced_tables (y_db s))))"
    have quiet: ?settled if "y_db s' = y_db s" using that by (simp add: same_rest_def)
    let ?dsn = "\<lambda>creds. bind_go (snowflakeDSNFromCreds X creds) (\<lambda>dsn. bind_go (x_sf_Open X dsn) (\<lambda>_. Ok dsn))"
    show ?settled
    proof (cases "cn_WarehouseType conn = ''snowflake'' \<and> (\<exists>c creds dsn.
        GetConnectionForCustomer (sc_enc cfg) cid ''snowflake'' (current_db X s) = Ok (c, creds) \<and> ?dsn creds = Ok dsn)")
      case True
      then obtain c creds dsn where ok: "GetConnectionForCustomer (sc_enc cfg) cid ''snowflake'' (current_db X s) = Ok (c, creds)"
        "?dsn creds = Ok dsn" "cn_WarehouseType conn = ''snowflake''" by blast
      obtain rp s1 where ping: "outside (x_sf_Ping X dsn) s = (rp, s1)" by force
      then have d: "y_db s1 = y_db s" by (auto simp: outside_def split_def Let_def)
      show ?thesis
      proof (cases rp)
        case (Ok u)
        show ?thesis
          using settlesD [OF tx, of dsn s1 r s'] run ok ping Ok d by (simp add: syncSnowflakeTable_def)
      qed (use run ok ping d quiet in \<open>simp_all add: syncSnowflakeTable_def\<close>)
    next
      case False
      with run have "y_db s' = y_db s"
        by (auto simp: syncSnowflakeTable_def split: if_splits go.splits)
      then show ?thesis by (rule quiet)
    qed
  qed
qed

lemma settles_syncTable: "settles (t_ID t) (syncTable X cfg cid conn t)"
  unfolding syncTable_def by (intro settles_calls settles_syncBigQueryTable settles_syncSnowflakeTable)

interpretation bigquery_sync: table_sync "syncBigQueryTable X cfg" for X cfg
  by unfold_locales (rule settles_syncBigQueryTable)

interpretation snowflake_sync: table_sync "syncSnowflakeTable X cfg" for X cfg
  by unfold_locales (rule settles_syncSnowflakeTable)

interpretation any_sync: table_sync "syncTable X cfg" for X cfg
  by unfold_locales (rule settles_syncTable)

section \<open>The orchestrator and its tenants\<close>

definition owned :: "uuid \<Rightarrow> db \<Rightarrow> uuid set" where
  "owned cid d = {t_ID t | t. t \<in> set (synced_tables d) \<and>
     (\<exists>c \<in> set (connections d). cn_ID c = t_ConnectionID t \<and> cn_CustomerID c = cid)}"

lemma touches_owned:
  assumes "touches A s s'"
  shows "owned cid (y_db s') = owned cid (y_db s)"
proof -
  have "map (\<lambda>t. (t_ID t, t_ConnectionID t)) (synced_tables (y_db s')) = map (\<lambda>t. (t_ID t, t_ConnectionID t)) (synced_tables (y_db s))"
    by (rule touches_map [OF assms]) (simp add: t_ident_def)
  then have e: "(\<lambda>t. (t_ID t, t_ConnectionID t)) ` set (synced_tables (y_db s')) = (\<lambda>t. (t_ID t, t_ConnectionID t)) ` set (synced_tables (y_db s))"
    by (metis list.set_map)
  have o: "owned cid d = {i. \<exists>j. (i, j) \<in> (\<lambda>t. (t_ID t, t_ConnectionID t)) ` set (synced_tables d) \<and>
     (\<exists>c \<in> set (connections d). cn_ID c = j \<and> cn_CustomerID c = cid)}" for d
    by (auto simp: owned_def)
  show ?thesis unfolding o e using assms by (simp add: touches_def same_rest_def)
qed

lemma keeps_sync_one: "t_ID t \<in> A \<Longrightarrow> keeps (touches A) (sync_one X cfg cid conn t)"
  using any_sync.keeps_mark_failed [of t X X cfg cid conn] unfolding sync_one_def keeps_def by (auto intro: touches_mono)

lemma keeps_sync_tables: "t_ID ` set ts \<subseteq> A \<Longrightarrow> keeps (touches A) (sync_tables X cfg cid conn ts)"
  by (induction ts) (auto intro!: keeps_value_of [OF touches_refl] keeps_then_do [OF touches_trans] keeps_sync_one)

lemma set_insert_table: "set (insert_table t ts) = insert t (set ts)"
  by (induction ts) auto

lemma ListSyncedTables_set: "ListSyncedTables c d = Ok ts \<Longrightarrow> set ts = {t \<in> set (synced_tables d). t_ConnectionID t = c}"
proof -
  have "set (foldr insert_table xs []) = set xs" for xs by (induction xs) (auto simp: set_insert_table)
  moreover assume "ListSyncedTables c d = Ok ts"
  ultimately show ?thesis by (auto simp: ListSyncedTables_def split: option.splits)
qed

lemma sync_conns_touches:
  assumes "sync_conns X cfg cid conns s = (r, s')"
    and "set conns \<subseteq> {c \<in> set (connections (y_db s)). cn_CustomerID c = cid}"
  shows "touches (owned cid (y_db s)) s s'"
  using assms
proof (induction conns arbitrary: s)
  case Nil
  then show ?case by (simp add: value_of_def reflpD [OF touches_refl])
next
  case (Cons conn conns)
  let ?A = "owned cid (y_db s)"
  show ?case
  proof (cases "ListSyncedTables (cn_ID conn) (current_db X s)")
    case (Ok ts)
    obtain r1 s1 where run: "sync_tables X cfg cid conn ts s = (r1, s1)" by force
    have "t_ID ` set ts \<subseteq> ?A"
      using ListSyncedTables_set [OF Ok] Cons.prems(2) unfolding owned_def current_db_def by fastforce
    then have t1: "touches ?A s s1" using keepsD [OF keeps_sync_tables run] by blast
    show ?thesis
    proof (cases r1)
      case r1: (Ok u)
      have "sync_conns X cfg cid conns s1 = (r, s')"
        using Cons.prems(1) Ok run r1 by (simp add: then_do_def reading_def)
      moreover have "connections (y_db s1) = connections (y_db s)" using t1 by (simp add: touches_def same_rest_def)
      ultimately have "touches (owned cid (y_db s1)) s1 s'" using Cons.IH Cons.prems(2) by simp
      with t1 show ?thesis unfolding touches_owned [OF t1] by (rule transpD [OF touches_trans])
    qed (use Cons.prems Ok run t1 in \<open>auto simp: then_do_def reading_def\<close>)
  qed (use Cons.prems in \<open>auto simp: then_do_def reading_def reflpD [OF touches_refl]\<close>)
qed

lemma syncCustomer_touches:
  assumes "syncCustomer X cfg cid s = (r, s')"
  shows "touches (owned cid (y_db s)) s s'"
proof (cases "ListConnections cid (current_db X s)")
  case (Ok conns)
  then have "set conns \<subseteq> {c \<in> set (connections (y_db s)). cn_CustomerID c = cid}"
    by (auto simp: ListConnections_def current_db_def split: option.splits)
  with Ok assms show ?thesis using sync_conns_touches by (simp add: syncCustomer_def then_do_def reading_def)
qed (use assms in \<open>auto simp: syncCustomer_def then_do_def reading_def reflpD [OF touches_refl]\<close>)

lemma keeps_syncCustomer: "keeps (touches UNIV) (syncCustomer X cfg cid)"
  unfolding keeps_def using syncCustomer_touches touches_mono by (metis prod.collapse subset_UNIV)

lemma keeps_sync_tick: "keeps (touches UNIV) (sync_tick X cfg)"
proof -
  have "keeps (touches UNIV) (sync_customers X cfg cs)" for cs
    by (induction cs) (auto intro!: keeps_value_of [OF touches_refl] keeps_then_do [OF touches_trans] keeps_syncCustomer)
  then show ?thesis
    unfolding sync_tick_def by (intro keeps_reading [OF touches_refl] keeps_then_do [OF touches_trans])
qed

lemma sync_Run_touches: "sync_Run X cfg evs s = (r, s') \<Longrightarrow> touches UNIV s s'"
proof (induction X cfg evs s rule: sync_Run.induct)
  case (3 X cfg w evs s)
  obtain r1 s1 where t: "sync_tick X cfg (s\<lparr>y_world := w\<rparr>) = (r1, s1)" by force
  have "touches UNIV (s\<lparr>y_world := w\<rparr>) s1" using keepsD [OF keeps_sync_tick t] .
  then have "touches UNIV s s1" by (simp add: touches_def)
  moreover have "r1 \<noteq> Panic \<Longrightarrow> touches UNIV s1 s'" using 3 t by (cases r1) auto
  ultimately show ?case using "3.prems" t transpD [OF touches_trans] by (cases r1) auto
qed (auto simp: reflpD [OF touches_refl])

end
