(* ===== verification/Sync_Freshness.thy ===== *)
theory Sync_Freshness
  imports Sync
begin

text \<open>
  What a sync leaves behind, in the object store, in the control store, and for the router that reads the
  control store: the outcome of the loads of \<open>Sync\<close> composed with \<open>Decide\<close> of \<open>Sql_Router\<close>.
\<close>

section \<open>What the other customers see\<close>

lemma find_row_written:
  assumes "list_all2 (row_written A) ts ts'" and "\<And>t t'. t_ident t' = t_ident t \<Longrightarrow> P t' = P t"
    and "\<forall>t \<in> set ts. P t \<longrightarrow> t_ID t \<notin> A"
  shows "find P ts' = find P ts"
  using assms(1,3)
proof (induction rule: list_all2_induct)
  case (Cons t ts t' ts')
  then have "P t' = P t" using assms(2) row_written_ident by blast
  moreover have "P t \<Longrightarrow> t' = t" using Cons.hyps(1) Cons.prems by (auto simp: row_written_def)
  ultimately show ?case using Cons.IH Cons.prems by auto
qed simp

definition online :: "db \<Rightarrow> db" where
  "online d = d\<lparr>db_fail := None\<rparr>"

lemma not_owned_by_other:
  assumes "db_ok d" and "t \<in> set (synced_tables d)" and "cid' \<noteq> cid"
    and "c \<in> set (connections d)" "cn_ID c = t_ConnectionID t" "cn_CustomerID c = cid'"
  shows "t_ID t \<notin> owned cid d"
proof
  assume "t_ID t \<in> owned cid d"
  then obtain u c' where u: "u \<in> set (synced_tables d)" "t_ID u = t_ID t"
    and c': "c' \<in> set (connections d)" "cn_ID c' = t_ConnectionID u" "cn_CustomerID c' = cid"
    by (auto simp: owned_def)
  have "u = t" using assms(1,2) u distinct_map_unique [of t_ID "synced_tables d" u t] by (simp add: db_ok_def)
  then have "c' = c" using assms(1,4,5) c' distinct_map_unique [of cn_ID "connections d" c' c] by (simp add: db_ok_def)
  with c' assms show False by simp
qed

lemma other_customer_lookup:
  assumes "db_ok (y_db s)" and "touches (owned cid (y_db s)) s s'" and "cid' \<noteq> cid"
  shows "LookupSyncedTable cid' wh sch tab (online (y_db s')) = LookupSyncedTable cid' wh sch tab (online (y_db s))"
proof -
  let ?P = "\<lambda>t. t_SchemaName t = sch \<and> t_TableName t = tab \<and>
     (\<exists>c \<in> set (connections (y_db s)). cn_ID c = t_ConnectionID t \<and> cn_CustomerID c = cid' \<and> cn_WarehouseType c = wh)"
  have "find ?P (synced_tables (y_db s')) = find ?P (synced_tables (y_db s))"
    by (rule find_row_written [of "owned cid (y_db s)"])
      (use assms not_owned_by_other in \<open>auto simp: touches_def t_ident_def\<close>)
  then show ?thesis using assms(2) by (simp add: LookupSyncedTable_def online_def touches_def same_rest_def)
qed

section \<open>The row of a table after it was written\<close>

lemma set_row_id: "set_row i id ts = ts"
  by (simp add: set_row_def map_idI)

lemma find_set_row:
  assumes "\<And>t. t_ident (f t) = t_ident t" and "\<And>t t'. t_ident t' = t_ident t \<Longrightarrow> P t' = P t" and "find P ts = Some t" and "t_ID t = i"
  shows "find P (set_row i f ts) = Some (f t)"
  using assms(3,4) assms(2) [OF assms(1)] by (induction ts) (auto simp: set_row_def split: if_splits)

lemma Lookup_set_row:
  assumes "LookupSyncedTable cid wh sch tab (online d) = Ok t" and "\<And>t. t_ident (f t) = t_ident t"
    and "synced_tables d' = set_row (t_ID t) f (synced_tables d)" and "same_rest d d'"
  shows "LookupSyncedTable cid wh sch tab (online d') = Ok (f t)"
proof -
  let ?P = "\<lambda>t. t_SchemaName t = sch \<and> t_TableName t = tab \<and>
     (\<exists>c \<in> set (connections d). cn_ID c = t_ConnectionID t \<and> cn_CustomerID c = cid \<and> cn_WarehouseType c = wh)"
  have f1: "find ?P (synced_tables d) = Some t"
    using assms(1) by (simp add: LookupSyncedTable_def online_def split: option.splits)
  have "find ?P (set_row (t_ID t) f (synced_tables d)) = Some (f t)"
    by (rule find_set_row [OF assms(2) _ f1]) (auto simp: t_ident_def)
  then show ?thesis using assms(3,4) by (simp add: LookupSyncedTable_def online_def same_rest_def)
qed

lemma Decide_not_live:
  assumes "LookupSyncedTable cid wh sch tab d = Ok t" and "t_State t \<noteq> ''live''"
    and "ExtractTables parse sql = Ok refs" and "\<lparr>Schema = sch, Table = tab\<rparr> \<in> set refs"
    and "Decide parse (store_lookup d) now cid wh sql = Ok (dec, m)"
  shows "d_Target dec \<noteq> TargetDuckDB"
proof
  assume "d_Target dec = TargetDuckDB"
  then have "ExtractTables parse sql = Ok (d_Tables dec)" "\<forall>r \<in> set (d_Tables dec). store_catalog.servable d cid wh now r"
    using store_catalog.decide_duckdb_iff [OF assms(5)] by auto
  with assms(3,4) have "store_catalog.servable d cid wh now \<lparr>Schema = sch, Table = tab\<rparr>" by auto
  with assms(1,2) show False by (auto simp: store_catalog.servable_def store_lookup_def)
qed

lemma Decide_target: "Decide parse lookup now cid wh sql = Ok (dec, m) \<Longrightarrow> d_Target dec \<in> {TargetDuckDB, TargetWarehouse}"
  by (auto simp: Decide_def bind_go_eq split: go.splits option.splits if_splits)

lemma Decide_live:
  assumes "LookupSyncedTable cid wh sch tab d = Ok t" and "t_State t = ''live''" and "t_LastSyncAt t = Some tm"
    and "now - tm \<le> FreshnessThreshold" and "Classify sql = Ok ClassSelect" and "ExtractTables parse sql = Ok [\<lparr>Schema = sch, Table = tab\<rparr>]"
  shows "\<exists>dec m. Decide parse (store_lookup d) now cid wh sql = Ok (dec, m) \<and> d_Target dec = TargetDuckDB"
  using assms by (simp add: Decide_def store_lookup_def IsFresh_def)

section \<open>Properties of the orchestrator\<close>



text \<open>
  The watermark a load stores can be read by the next one: after a table is marked live at time
  \<open>now\<close>, \<open>parseWatermark\<close> of its stored watermark is \<open>now\<close> cut to the second, for every time from 1970 to
  the year 9999.
\<close>

theorem watermark_roundtrip:
  assumes "mark_live X slug c t n s = (Ok (), s')" and "t' \<in> set (synced_tables (y_db s'))" and "t_ID t' = t_ID t"
    and "0 \<le> x_now X (y_world s)" and "x_now X (y_world s) < days_before 10000 * 86400 * second"
  shows "parseWatermark (non_empty_or (t_LastWatermark t') dflt) = Ok (x_now X (y_world s) - x_now X (y_world s) mod second)"
proof -
  let ?now = "x_now X (y_world s)"
  have wm: "t_LastWatermark t' = Some (FormatRFC3339 ?now)"
    using assms(1,2,3)
    by (auto simp: mark_live_run PublishSnapshot_def current_db_def set_row_def live_row_def split: option.splits if_splits)
  have "FormatRFC3339 ?now \<noteq> []" by (simp add: FormatRFC3339_def split_def Let_def)
  with wm have "parseWatermark (non_empty_or (t_LastWatermark t') dflt) = Ok (?now div second * second)"
    by (simp add: non_empty_or_def parseWatermark_def watermark_layouts_def time_Parse_Format [OF assms(4,5)])
  then show ?thesis by (simp add: minus_mod_eq_div_mult)
qed

section \<open>What a load writes\<close>

text \<open>
  What the loads rely on besides \<open>copy_atomic\<close>: a file of JSON lines that was written is read back by
  \<^verbatim>\<open>read_json_auto\<close> as the objects it encodes, and no call but a COPY changes a table of the object store.
\<close>

type_synonym lake_row = "string \<rightharpoonup> sql_value"

definition file_readable :: "'w sync_libs \<Rightarrow> ('w \<Rightarrow> string \<Rightarrow> lake_row list option) \<Rightarrow> bool" where
  "file_readable X query \<longleftrightarrow>
     (\<forall>tmp objs lines w w1. list_all2 (\<lambda>obj line. x_Encode X obj = Ok line) objs lines \<longrightarrow>
        x_WriteFile X tmp (concat lines) w = (Ok (), w1) \<longrightarrow> query w1 (source_query tmp (length objs)) = Some objs)"

definition lake_quiet :: "'w sync_libs \<Rightarrow> ('w \<Rightarrow> string \<Rightarrow> lake_row list option) \<Rightarrow> bool" where
  "lake_quiet X content \<longleftrightarrow>
     (\<forall>p k w. content (snd (x_bq_NewClient X p k w)) = content w) \<and>
     (\<forall>p q ps w. content (snd (x_bq_Run X p q ps w)) = content w) \<and>
     (\<forall>j w. content (snd (x_bq_Read X j w)) = content w) \<and>
     (\<forall>w. content (snd (x_CreateTemp X w)) = content w) \<and>
     (\<forall>f b w. content (snd (x_WriteFile X f b w)) = content w) \<and>
     (\<forall>f w. content (x_Remove X f w) = content w) \<and>
     (\<forall>c m w. content (x_Publish X c m w) = content w)"

lemma then_do_Ok: "then_do m f s = (Ok y, s') \<longleftrightarrow> (\<exists>x s1. m s = (Ok x, s1) \<and> f x s1 = (Ok y, s'))"
  by (cases "m s"; cases "fst (m s)") (auto simp: then_do_def)

lemma wrap_err_Ok: "wrap_err l m s = (Ok x, s1) \<longleftrightarrow> m s = (Ok x, s1)"
  by (cases "m s"; cases "fst (m s)") (auto simp: wrap_err_def map_err_def)

lemma outside_eq: "outside f s = (r, s1) \<longleftrightarrow> (\<exists>w. f (y_world s) = (r, w) \<and> s1 = s\<lparr>y_world := w\<rparr>)"
  by (auto simp: outside_def split_def Let_def prod_eq_iff)

lemma snd_outside: "snd (outside f s) = s\<lparr>y_world := snd (f (y_world s))\<rparr>"
  by (simp add: outside_def split_def Let_def)

lemma after_eq: "(let (r, s1) = p in (r, g s1)) = (r', s') \<longleftrightarrow> (\<exists>s1. p = (r', s1) \<and> s' = g s1)"
  by (cases p) auto

lemma reading_eq: "reading X f s = (r, s1) \<longleftrightarrow> f (current_db X s) = r \<and> s1 = s"
  by (auto simp: reading_def)

lemma value_of_eq: "value_of r s = (r', s1) \<longleftrightarrow> r = r' \<and> s1 = s"
  by (auto simp: value_of_def)

lemmas call_eqs = then_do_Ok wrap_err_Ok outside_eq reading_eq value_of_eq

abbreviation row_objects :: "bq_iter \<Rightarrow> sql_value list list \<Rightarrow> lake_row list" where
  "row_objects it rows \<equiv> map (\<lambda>vs. row_object (it_Schema it) vs Map.empty) rows"

lemma encode_rows_Ok:
  assumes "encode_rows X schema rows out n = Ok (out', n')"
  shows "\<exists>vss lines. rows = map Ok vss \<and> n' = n + length vss \<and> out' = out @ concat lines \<and>
     list_all2 (\<lambda>obj line. x_Encode X obj = Ok line) (map (\<lambda>vs. row_object schema vs Map.empty) vss) lines"
  using assms
proof (induction X schema rows out n rule: encode_rows.induct)
  case (1 X schema out n)
  then show ?case by (intro exI [of _ "[]"]) simp
next
  case (2 X schema row rows out n)
  from "2.prems" obtain vs line where r: "row = Ok vs" "x_Encode X (row_object schema vs Map.empty) = Ok line"
    "x_buffered X (out @ line) = None" "encode_rows X schema rows (out @ line) (n + 1) = Ok (out', n')"
    by (auto simp: bind_go_eq_Ok split: option.splits)
  with "2.IH" obtain vss lines where "rows = map Ok vss" "n' = n + 1 + length vss" "out' = (out @ line) @ concat lines"
    "list_all2 (\<lambda>obj line. x_Encode X obj = Ok line) (map (\<lambda>vs. row_object schema vs Map.empty) vss) lines" by blast
  with r show ?case by (intro exI [of _ "vs # vss"] exI [of _ "line # lines"]) simp
qed

text \<open>
  Rows that a load wrote to a location: the table there is replaced if the commit reported no error. The load
  does not look at that result.
\<close>

definition committed ::
  "'w sync_libs \<Rightarrow> ('w \<Rightarrow> string \<Rightarrow> lake_row list option) \<Rightarrow> string \<Rightarrow> lake_row list \<Rightarrow> 'w \<Rightarrow> 'w \<Rightarrow> bool" where
  "committed X content location rows w w' \<longleftrightarrow>
     (\<exists>tmp w1. content w' =
        (if fst (CreateTableAs (x_exec X) location (source_query tmp (length rows)) w1) = None
         then (content w)(location := Some rows) else content w))"

lemma committed_cong:
  "content v = content w \<Longrightarrow> content v' = content w' \<Longrightarrow> committed X content l rows v v' = committed X content l rows w w'"
  by (simp add: committed_def)

lemma streamToIceberg_Ok:
  assumes "copy_atomic (x_exec X) content query" and "file_readable X query" and "lake_quiet X content"
    and "streamToIceberg X it location s = (Ok n, s')"
  shows "\<exists>vss. it_Rows it = map Ok vss \<and> n = length vss \<and> committed X content location (row_objects it vss) (y_world s) (y_world s')"
proof -
  obtain tmp w1 out w2 where t: "x_CreateTemp X (y_world s) = (Ok tmp, w1)"
    and enc: "encode_rows X (it_Schema it) (it_Rows it) [] 0 = Ok (out, n)" and w2: "x_WriteFile X tmp out w1 = (Ok (), w2)"
    and s': "y_world s' = x_Remove X tmp (snd (CreateTableAs (x_exec X) location (source_query tmp n) w2))"
    using assms(4) unfolding streamToIceberg_def call_eqs after_eq by (auto simp: call_eqs snd_outside)
  obtain vss lines where v: "it_Rows it = map Ok vss" "n = length vss" "out = concat lines"
    "list_all2 (\<lambda>obj line. x_Encode X obj = Ok line) (row_objects it vss) lines"
    using encode_rows_Ok [OF enc] by auto
  have q: "query w2 (source_query tmp n) = Some (row_objects it vss)"
    using assms(2) v w2 unfolding file_readable_def by (metis length_map)
  have c: "content w1 = content (y_world s)" "content w2 = content w1" "content (x_Remove X tmp w) = content w" for w
    using assms(3) t w2 unfolding lake_quiet_def by (metis snd_conv)+
  obtain e w3 where x: "CreateTableAs (x_exec X) location (source_query tmp n) w2 = (e, w3)" by force
  then have "content w3 = (if e = None then (content w2)(location := Some (row_objects it vss)) else content w2)"
    using CreateTableAs_spec(1) [OF assms(1) x] q by (simp split: if_splits)
  then have "committed X content location (row_objects it vss) w2 w3"
    using x v(2) unfolding committed_def by (intro exI [of _ tmp] exI [of _ w2]) simp
  then have "committed X content location (row_objects it vss) (y_world s) (y_world s')"
    using committed_cong [of content w2 "y_world s" w3 "y_world s'"] c s' x by simp
  with v(1,2) show ?thesis by blast
qed

lemma mark_live_Ok:
  assumes "mark_live X slug c t n s = (Ok (), s')"
  shows "same_rest (y_db s) (y_db s')"
    and "synced_tables (y_db s') =
      set_row (t_ID t) (live_row (FormatRFC3339 (x_now X (y_world s))) n (x_db_now X (y_world s))) (synced_tables (y_db s))"
    and "lake_quiet X content \<Longrightarrow> content (y_world s') = content (y_world s)"
  using assms by (auto simp: mark_live_run PublishSnapshot_def current_db_def same_rest_def lake_quiet_def split: option.splits)

lemma find_SomeD: "find P xs = Some x \<Longrightarrow> x \<in> set xs \<and> P x"
  by (induction xs) (auto split: if_splits)

text \<open>The customer whose slug names the location is the one that is synced.\<close>

lemma customer_of_Ok:
  assumes "customer_of X cid s = (Ok c, s')" and "db_ok (y_db s)" and "cid \<in> c_ID ` set (customers (y_db s))"
  shows "c \<in> set (customers (y_db s))" and "c_ID c = cid" and "s' = s"
proof -
  let ?d = "current_db X s" and ?cs = "sort_key (\<lambda>c. - c_CreatedAt c) (customers (y_db s))"
  have g: "GetCustomerBySlug (customerSlugFromID cid ?d) ?d = Ok c" "s' = s"
    using assms(1) by (auto simp: customer_of_def reading_eq)
  then have up: "db_fail ?d = None" "customers ?d = customers (y_db s)"
    by (auto simp: GetCustomerBySlug_def current_db_def split: option.splits)
  obtain c0 where c0: "find (\<lambda>c. c_ID c = cid) ?cs = Some c0"
    using assms(3) find_None_iff [of "\<lambda>c. c_ID c = cid" ?cs] by (cases "find (\<lambda>c. c_ID c = cid) ?cs") auto
  then have m: "c0 \<in> set (customers (y_db s))" "c_ID c0 = cid"
    using find_SomeD [OF c0] by simp_all
  have "customerSlugFromID cid ?d = c_Slug c0"
    using c0 up by (simp add: customerSlugFromID_def ListCustomers_def)
  with g up have "c \<in> set (customers (y_db s))" "c_Slug c = c_Slug c0"
    by (auto simp: GetCustomerBySlug_def split: option.splits dest: find_SomeD)
  moreover from this have "c = c0"
    using m(1) assms(2) distinct_map_unique [of c_Slug "customers (y_db s)" c c0] by (simp add: db_ok_def)
  ultimately show "c \<in> set (customers (y_db s))" "c_ID c = cid" "s' = s" using m g by simp_all
qed

lemma synced_table_customer:
  assumes "db_ok d" and "LookupSyncedTable cid wh sch tab (online d) = Ok t"
  shows "cid \<in> c_ID ` set (customers d)"
proof -
  obtain c where "c \<in> set (connections d)" "cn_CustomerID c = cid"
    using assms(2) by (auto simp: LookupSyncedTable_def online_def find_Some_iff split: option.splits)
  with assms(1) show ?thesis by (auto simp: db_ok_def)
qed

lemma syncBigQueryTable_Ok:
  assumes "syncBigQueryTable X cfg cid conn t s = (Ok (), s')" and "lake_quiet X content"
    and "db_ok (y_db s)" and "cid \<in> c_ID ` set (customers (y_db s))"
  shows "\<exists>c project s1. c \<in> set (customers (y_db s)) \<and> c_ID c = cid \<and> y_db s1 = y_db s \<and> content (y_world s1) = content (y_world s) \<and>
     (if t_SyncMode t = ''watermark''
      then bqWatermarkLoad X project t (TableLocation (sc_S3Bucket cfg) (c_Slug c) (t_SchemaName t) (t_TableName t)) (c_Slug c) s1 = (Ok (), s')
      else t_SyncMode t \<in> {''cdc_native'', ''manual''} \<and>
        bqInitialOrFullLoad X project t (TableLocation (sc_S3Bucket cfg) (c_Slug c) (t_SchemaName t) (t_TableName t)) (c_Slug c) s1 = (Ok (), s'))"
proof -
  obtain bc :: bq_creds and k w1 c s2 where w: "x_bq_NewClient X (bq_ProjectID bc) k (y_world s) = (Ok (), w1)"
    and c: "customer_of X cid (s\<lparr>y_world := w1\<rparr>) = (Ok c, s2)"
    and load: "(let location = TableLocation (sc_S3Bucket cfg) (c_Slug c) (t_SchemaName t) (t_TableName t) in
             if t_SyncMode t = ''watermark'' then bqWatermarkLoad X (bq_ProjectID bc) t location (c_Slug c)
             else if t_SyncMode t = ''cdc_native'' \<or> t_SyncMode t = ''manual''
             then bqInitialOrFullLoad X (bq_ProjectID bc) t location (c_Slug c)
             else value_of (Err (Errorf (''unknown sync_mode '' @ Quote (t_SyncMode t))))) s2 = (Ok (), s')"
    using assms(1) unfolding syncBigQueryTable_def call_eqs by (auto simp: call_eqs)
  have "content w1 = content (y_world s)" using w assms(2) unfolding lake_quiet_def by (metis snd_conv)
  moreover have "c \<in> set (customers (y_db s))" "c_ID c = cid" "s2 = s\<lparr>y_world := w1\<rparr>"
    using customer_of_Ok [OF c] assms(3,4) by simp_all
  ultimately show ?thesis
    using load by (intro exI [of _ c] exI [of _ "bq_ProjectID bc"] exI [of _ s2]) (auto simp: Let_def value_of_eq split: if_splits)
qed

text \<open>An iterator that BigQuery delivered for a query with its parameters.\<close>

definition read_by :: "'w sync_libs \<Rightarrow> string \<Rightarrow> (string \<times> int) list \<Rightarrow> bq_iter \<Rightarrow> bool" where
  "read_by X sql params it \<longleftrightarrow>
     (\<exists>p w1 w2 job w3 w4. x_bq_Run X p sql params w1 = (Ok job, w2) \<and> x_bq_Read X job w3 = (Ok it, w4))"

lemma bq_read_stream_Ok:
  assumes "copy_atomic (x_exec X) content query" and "file_readable X query" and "lake_quiet X content"
    and "then_do (wrap_err l (outside (x_bq_Run X project sql params))) (\<lambda>job.
       then_do (wrap_err l' (outside (x_bq_Read X job))) (\<lambda>it. then_do (streamToIceberg X it location) k)) s = (Ok (), s')"
  shows "\<exists>it vss s1. read_by X sql params it \<and> it_Rows it = map Ok vss \<and> y_db s1 = y_db s \<and>
     committed X content location (row_objects it vss) (y_world s) (y_world s1) \<and> k (length vss) s1 = (Ok (), s')"
proof -
  obtain job w1 it w2 n s1 where r: "x_bq_Run X project sql params (y_world s) = (Ok job, w1)" "x_bq_Read X job w1 = (Ok it, w2)"
    and st: "streamToIceberg X it location (s\<lparr>y_world := w2\<rparr>) = (Ok n, s1)" and k: "k n s1 = (Ok (), s')"
    using assms(4) unfolding call_eqs by (auto simp: call_eqs)
  have c: "content w2 = content (y_world s)" using assms(3) r unfolding lake_quiet_def by (metis snd_conv)
  have "y_db s1 = y_db s" using keepsD [OF keeps_streamToIceberg st] by simp
  moreover have "read_by X sql params it" using r unfolding read_by_def by blast
  ultimately show ?thesis
    using streamToIceberg_Ok [OF assms(1-3) st] k committed_cong [of content w2 "y_world s" "y_world s1" "y_world s1"] c by auto
qed

section \<open>Properties of the loads\<close>



section \<open>Witnesses\<close>

text \<open>
  A small world: one file, a lake of tables, a warehouse with two rows and none beyond the watermark, and a
  DuckDB that can only commit the empty table at one location.
\<close>

record small_world =
  sw_lake :: "string \<Rightarrow> lake_row list option"
  sw_file :: bytes

definition small_location :: string where
  "small_location = TableLocation ''b'' ''acme'' ''s'' ''t''"

definition small_exec :: "small_world duckdb" where
  "small_exec st w =
     (if st = copy_stmt ''iceberg'' True small_location ''SELECT 1 WHERE FALSE''
      then (None, w\<lparr>sw_lake := (sw_lake w)(small_location := Some [])\<rparr>) else (Some (Errorf ''no extension''), w))"

definition small_query :: "small_world \<Rightarrow> string \<Rightarrow> lake_row list option" where
  "small_query w q = (if q = ''SELECT 1 WHERE FALSE'' then Some [] else Some (replicate (length (sw_file w)) Map.empty))"

definition small_libs :: "small_world sync_libs" where
  "small_libs = \<lparr>
     x_now = (\<lambda>_. 1700000000 * second), x_db_now = (\<lambda>_. 1700000000 * second), x_db_fail = (\<lambda>_. None), x_exec = small_exec,
     x_bq_Unmarshal = (\<lambda>_. Ok \<lparr>bq_ProjectID = ''p'', bq_ServiceAccountKey = []\<rparr>), x_bq_NewClient = (\<lambda>_ _ w. (Ok (), w)),
     x_bq_Run = (\<lambda>_ _ ps w. (Ok (length ps), w)),
     x_bq_Read = (\<lambda>job w. (Ok \<lparr>it_Schema = [], it_Rows = (if job = 0 then [Ok [], Ok []] else [])\<rparr>, w)),
     x_CreateTemp = (\<lambda>w. (Ok ''/tmp/f'', w)), x_Encode = (\<lambda>obj. if obj = Map.empty then Ok ''n'' else Err EOF),
     x_buffered = (\<lambda>_. None), x_WriteFile = (\<lambda>_ b w. (Ok (), w\<lparr>sw_file := b\<rparr>)), x_Remove = (\<lambda>_ w. w),
     x_sf_Unmarshal = (\<lambda>_. Err EOF), x_sf_DSN = (\<lambda>_. Err EOF), x_sf_Open = (\<lambda>_. Err EOF), x_sf_Ping = (\<lambda>_ w. (Err EOF, w)),
     x_sf_Begin = (\<lambda>_ w. (Err EOF, w)), x_sf_Count = (\<lambda>_ _ w. (Err EOF, w)), x_sf_Commit = (\<lambda>_ w. (Err EOF, w)),
     x_sf_Rollback = (\<lambda>_ w. w), x_Publish = (\<lambda>_ _ w. w), x_uuid = (\<lambda>_. ''u'')\<rparr>"

lemma copy_stmt_small:
  assumes "copy_stmt f True l q = copy_stmt ''iceberg'' True small_location ''SELECT 1 WHERE FALSE''" and "f \<in> {''iceberg'', ''parquet''}"
  shows "l = small_location \<and> q = ''SELECT 1 WHERE FALSE''"
proof -
  let ?tl = "\<lambda>f. CHR 0x27 # '' (FORMAT '' @ squote f @ '', OVERWRITE_OR_IGNORE TRUE)''"
  have c: "copy_stmt f True l q = ''COPY ('' @ (q @ CHR '')'' # '' TO '' @ CHR 0x27 # l) @ ?tl f" for f l q
    by (simp add: copy_stmt_def squote_def)
  have "length (?tl f) = length (?tl ''iceberg'')" using assms(2) by (auto simp: squote_def)
  then have "q @ CHR '')'' # '' TO '' @ CHR 0x27 # l = ''SELECT 1 WHERE FALSE'' @ CHR '')'' # '' TO '' @ CHR 0x27 # small_location"
    using assms(1) unfolding c by (simp only: append_same_eq same_append_eq append_eq_append_conv simp_thms)
  moreover have "CHR '')'' \<notin> set ''SELECT 1 WHERE FALSE''" "CHR '')'' \<notin> set ('' TO '' @ CHR 0x27 # small_location)"
    by (simp_all add: small_location_def TableLocation_def)
  ultimately show ?thesis
    by (metis append_Cons_eq_iff list.inject same_append_eq)
qed

lemma small_laws:
  "copy_atomic (x_exec small_libs) sw_lake small_query" "file_readable small_libs small_query" "lake_quiet small_libs sw_lake"
proof -
  show "copy_atomic (x_exec small_libs) sw_lake small_query"
    unfolding copy_atomic_def
    using copy_stmt_small by (auto simp: small_libs_def small_exec_def small_query_def split: if_splits)
  have "objs = replicate (length lines) Map.empty \<and> length (concat lines) = length lines"
    if "list_all2 (\<lambda>obj line. x_Encode small_libs obj = Ok line) objs lines" for objs lines
    using that by (induction rule: list_all2_induct) (auto simp: small_libs_def split: if_splits)
  then show "file_readable small_libs small_query"
    by (fastforce simp: file_readable_def small_query_def small_libs_def source_query_def)
  show "lake_quiet small_libs sw_lake" by (simp add: lake_quiet_def small_libs_def)
qed

definition small_db :: "string \<Rightarrow> db" where
  "small_db mode =
     snd (UpsertSyncedTable \<lparr>t_ID = 0, t_ConnectionID = 2, t_SchemaName = ''s'', t_TableName = ''t'', t_SyncMode = mode,
               t_WatermarkColumn = None, t_LastSyncAt = None, t_LastSnapshotID = None, t_LastWatermark = None,
               t_IcebergPath = None, t_RowCount = 0, t_State = ''live'', t_LastError = None\<rparr>
         (snd (CreateConnection 1 ''bigquery'' ''bq'' [] [] ''uv'' None None
           (snd (CreateCustomer ''acme'' ''Acme'' (empty_db 0))))))"

definition small_start :: "string \<Rightarrow> small_world syncer" where
  "small_start mode = \<lparr>y_db = small_db mode, y_world = \<lparr>sw_lake = [small_location \<mapsto> [Map.empty]], sw_file = []\<rparr>\<rparr>"

definition small_cfg :: sync_config where
  "small_cfg = \<lparr>sc_S3Bucket = ''b'', sc_enc = \<lparr>NonceSize = 0, Seal = (\<lambda>n p. p), Open = (\<lambda>n c. Ok c)\<rparr>\<rparr>"

definition small_table :: "string \<Rightarrow> synced_table" where
  "small_table mode = hd (synced_tables (small_db mode))"

definition small_conn :: connection where
  "small_conn = hd (connections (small_db []))"

lemma small_db_eq:
  "small_db mode = \<lparr>customers = [\<lparr>c_ID = 1, c_Slug = ''acme'', c_DisplayName = ''Acme'', c_CreatedAt = 0\<rparr>],
     connections = [\<lparr>cn_ID = 2, cn_CustomerID = 1, cn_WarehouseType = ''bigquery'', cn_Name = ''bq'', cn_StorageMode = ''uv'',
       cn_S3Bucket = None, cn_S3Prefix = None, cn_CreatedAt = 0, cn_Ciphertext = [], cn_Nonce = []\<rparr>],
     api_keys = [],
     synced_tables = [\<lparr>t_ID = 3, t_ConnectionID = 2, t_SchemaName = ''s'', t_TableName = ''t'', t_SyncMode = mode,
       t_WatermarkColumn = None, t_LastSyncAt = None, t_LastSnapshotID = None, t_LastWatermark = None,
       t_IcebergPath = None, t_RowCount = 0, t_State = ''live'', t_LastError = None\<rparr>],
     query_log = [], db_now = 0, db_next = 4, db_fail = None\<rparr>"
  by (simp add: small_db_def UpsertSyncedTable_def CreateConnection_def CreateCustomer_def empty_db_def Let_def nullDefault_def)

lemmas small_defs = small_start_def small_db_eq small_table_def small_conn_def

lemma small_store:
  "db_ok (y_db (small_start mode))" "cn_WarehouseType small_conn = ''bigquery''" "t_SyncMode (small_table mode) = mode"
  "LookupSyncedTable 1 ''bigquery'' (t_SchemaName (small_table mode)) (t_TableName (small_table mode)) (online (y_db (small_start mode))) = Ok (small_table mode)"
  by (simp_all add: small_defs db_ok_def LookupSyncedTable_def online_def)

lemma small_reads:
  assumes "y_db s = small_db mode"
  shows "reading small_libs (GetConnectionForCustomer (sc_enc small_cfg) 1 ''bigquery'') s = (Ok (small_conn, []), s)"
    and "customer_of small_libs 1 s = (Ok (hd (customers (small_db []))), s)"
  using assms
  by (simp_all add: small_defs small_libs_def small_cfg_def reading_def customer_of_def current_db_def GetConnectionForCustomer_def
      newest_connection_def Decrypt_def GetCustomerBySlug_def customerSlugFromID_def ListCustomers_def)

lemma small_mark: "fst (mark_live small_libs slug c t n s) = Ok ()"
  by (simp add: mark_live_run small_libs_def)

lemma small_sel:
  "x_Encode small_libs = (\<lambda>obj. if obj = Map.empty then Ok ''n'' else Err EOF)" "x_buffered small_libs = (\<lambda>_. None)"
  "x_CreateTemp small_libs w = (Ok ''/tmp/f'', w)" "x_WriteFile small_libs f b w = (Ok (), w\<lparr>sw_file := b\<rparr>)"
  "x_bq_Unmarshal small_libs c = Ok \<lparr>bq_ProjectID = ''p'', bq_ServiceAccountKey = []\<rparr>" "x_bq_NewClient small_libs p k w = (Ok (), w)"
  "x_bq_Run small_libs p q ps w = (Ok (length ps), w)"
  "x_bq_Read small_libs job w = (Ok \<lparr>it_Schema = [], it_Rows = (if job = 0 then [Ok [], Ok []] else [])\<rparr>, w)"
  by (simp_all add: small_libs_def)

lemma small_encode: "encode_rows small_libs [] (replicate k (Ok [])) out n = Ok (out @ replicate k (CHR ''n''), n + k)"
  by (induction k arbitrary: out n) (simp_all add: small_sel)

lemma small_stream:
  "fst (streamToIceberg small_libs \<lparr>it_Schema = [], it_Rows = replicate k (Ok [])\<rparr> l s) = Ok k"
  by (simp add: streamToIceberg_def then_do_def wrap_err_def outside_def map_err_def value_of_def split_def Let_def small_sel small_encode)

lemma small_load:
  "fst (bqInitialOrFullLoad small_libs p t l slug s) = Ok ()"
  "t_LastWatermark t = None \<Longrightarrow> fst (bqWatermarkLoad small_libs p t l slug s) = Ok ()"
proof -
  have wm: "parseWatermark ''1970-01-01 00:00:00'' = Ok 0" by code_simp
  obtain s2 where 2: "streamToIceberg small_libs \<lparr>it_Schema = [], it_Rows = [Ok [], Ok []]\<rparr> l s = (Ok 2, s2)"
    using small_stream [of 2 l s] by (cases "streamToIceberg small_libs \<lparr>it_Schema = [], it_Rows = [Ok [], Ok []]\<rparr> l s") (simp add: numeral_2_eq_2)
  obtain s0 where 0: "streamToIceberg small_libs \<lparr>it_Schema = [], it_Rows = []\<rparr> l s = (Ok 0, s0)"
    using small_stream [of 0 l s] by (cases "streamToIceberg small_libs \<lparr>it_Schema = [], it_Rows = []\<rparr> l s") simp
  show "fst (bqInitialOrFullLoad small_libs p t l slug s) = Ok ()"
    by (simp add: bqInitialOrFullLoad_def then_do_def wrap_err_def outside_def map_err_def small_sel 2 small_mark)
  show "t_LastWatermark t = None \<Longrightarrow> fst (bqWatermarkLoad small_libs p t l slug s) = Ok ()"
    by (simp add: bqWatermarkLoad_def then_do_def wrap_err_def outside_def map_err_def value_of_def small_sel 0 wm non_empty_or_def Let_def)
qed

lemma small_sync:
  assumes "mode = ''manual'' \<or> mode = ''watermark''"
  shows "\<exists>s'. syncTable small_libs small_cfg 1 small_conn (small_table mode) (small_start mode) = (Ok (), s')"
proof -
  have "fst (syncTable small_libs small_cfg 1 small_conn (small_table mode) (small_start mode)) = Ok ()"
    using assms small_reads [of "small_start mode" mode]
    by (auto simp: syncTable_def syncBigQueryTable_def then_do_def wrap_err_def outside_def map_err_def value_of_def
        small_sel small_store small_load small_start_def small_table_def small_db_eq Let_def)
  then show ?thesis by (metis prod.collapse)
qed

lemma small_sql: "Classify ''SELECT 1 FROM s.t'' = Ok ClassSelect"
  "ExtractTables (\<lambda>_. Ok []) ''SELECT 1 FROM s.t'' = Ok [\<lparr>Schema = ''s'', Table = ''t''\<rparr>]"
  by code_simp+

lemma small_table_names: "t_SchemaName (small_table mode) = ''s''" "t_TableName (small_table mode) = ''t''" "t_ID (small_table mode) = 3"
  by (simp_all add: small_table_def small_db_eq)

lemma small_slug: "c \<in> set (customers (y_db (small_start mode))) \<Longrightarrow> TableLocation (sc_S3Bucket small_cfg) (c_Slug c) ''s'' ''t'' = small_location"
  by (simp add: small_defs small_cfg_def small_location_def)

lemma small_no_commit: "0 < n \<Longrightarrow> fst (CreateTableAs (x_exec small_libs) l (source_query tmp n) w) \<noteq> None"
proof -
  assume "0 < n"
  then have "source_query tmp n \<noteq> ''SELECT 1 WHERE FALSE''" by (simp add: source_query_def)
  then have "copy_stmt f True l (source_query tmp n) \<noteq> copy_stmt ''iceberg'' True small_location ''SELECT 1 WHERE FALSE''"
    if "f \<in> {''iceberg'', ''parquet''}" for f
    using copy_stmt_small that by blast
  then show ?thesis by (simp add: CreateTableAs_def small_libs_def small_exec_def)
qed





theorem watermark_roundtrip_witness:
  "\<exists>s' t'. mark_live small_libs ''acme'' 2 (small_table ''watermark'') 5 (small_start ''watermark'') = (Ok (), s') \<and> synced_tables (y_db s') = [t'] \<and>
     parseWatermark (non_empty_or (t_LastWatermark t') []) = Ok (1700000000 * second)"
proof -
  obtain s' where s': "mark_live small_libs ''acme'' 2 (small_table ''watermark'') 5 (small_start ''watermark'') = (Ok (), s')"
    using small_mark by (metis prod.collapse)
  obtain t' where t': "synced_tables (y_db s') = [t']" "t_ID t' = 3"
    using mark_live_Ok(2) [OF s'] by (auto simp: set_row_def small_defs live_row_def)
  have n: "x_now small_libs w = 1700000000 * second" for w by (simp add: small_libs_def)
  have "parseWatermark (non_empty_or (t_LastWatermark t') []) = Ok (x_now small_libs (y_world (small_start ''watermark'')) -
      x_now small_libs (y_world (small_start ''watermark'')) mod second)"
    by (rule watermark_roundtrip [OF s']) (use t' n in \<open>auto simp: small_table_names second_def days_before_def\<close>)
  with s' t' n show ?thesis by (auto simp: second_def)
qed

end
