(* ===== verification/Cost_Control.thy ===== *)
theory Cost_Control
  imports Connectors Sql_Router Go_Time
begin

text \<open>
  What queries cost and who may spend it: the estimator (\<^verbatim>\<open>internal/costest\<close>), the backfiller with its
  daily roll-up (\<^verbatim>\<open>internal/cost\<close>), the workspace budget (\<^verbatim>\<open>internal/budgets\<close>) and the per-user quotas
  (\<^verbatim>\<open>internal/quotas\<close>).

  The tables are lists of rows over the control store; \<open>cd_log\<close> is \<^verbatim>\<open>query_log\<close> with the columns that the
  proxy does not write. The database is up or down for the whole of an operation. Amounts are real
  numbers: the rounding of \<^verbatim>\<open>float64\<close> and \<^verbatim>\<open>NUMERIC\<close> is outside the model, and byte counts are
  unbounded integers. Times are nanoseconds; a day of the database is a UTC day.
\<close>

section \<open>Tables\<close>

record log_row =
  lr_ID :: uuid
  lr_Entry :: query_log_entry
  lr_StartedAt :: int
  lr_ActualCostUSD :: "real option"

record attribution =
  at_CustomerID :: uuid
  at_ConnectionID :: uuid
  at_PeriodStart :: int
  at_PeriodEnd :: int
  at_WarehouseCostUSD :: real
  at_DuckDBCostUSD :: real
  at_EstimatedSavingsUSD :: real
  at_QueriesTotal :: nat
  at_QueriesDuckDB :: nat

record quota =
  qu_CustomerID :: uuid
  qu_UserSlug :: string
  qu_MonthlyCapUSD :: real
  qu_HardBlock :: bool
  qu_CreatedAt :: int
  qu_UpdatedAt :: int

record budget =
  bu_CustomerID :: uuid
  bu_MonthlyCapUSD :: real
  bu_SoftPct :: int
  bu_HardPct :: int
  bu_AlertChannel :: string

record cost_db =
  cd_db :: db
  cd_log :: "log_row list"
  cd_attribution :: "attribution list"
  cd_quotas :: "quota list"
  cd_budgets :: "budget list"

abbreviation cd_now :: "cost_db \<Rightarrow> int" where
  "cd_now s \<equiv> db_now (cd_db s)"

abbreviation cd_fail :: "cost_db \<Rightarrow> go_error option" where
  "cd_fail s \<equiv> db_fail (cd_db s)"

abbreviation lr_route :: "log_row \<Rightarrow> string" where
  "lr_route r \<equiv> q_RouteDecision (lr_Entry r)"

abbreviation lr_customer :: "log_row \<Rightarrow> uuid" where
  "lr_customer r \<equiv> q_CustomerID (lr_Entry r)"

abbreviation lr_estimated :: "log_row \<Rightarrow> real option" where
  "lr_estimated r \<equiv> q_EstimatedCostUSD (lr_Entry r)"

section \<open>The estimator\<close>

record estimator =
  es_bqUSDPerTiB :: real
  es_sfUSDPerTiB :: real

definition bytesPerRowGuess :: int where
  "bytesPerRowGuess = 256"

definition tib :: real where
  "tib = 2 ^ 40"

definition estimator_New :: "real \<Rightarrow> real \<Rightarrow> estimator" where
  "estimator_New bq sf = \<lparr>es_bqUSDPerTiB = (if bq \<le> 0 then 6.25 else bq), es_sfUSDPerTiB = (if sf \<le> 0 then 5 else sf)\<rparr>"

definition CostForBytes :: "estimator \<Rightarrow> string \<Rightarrow> int \<Rightarrow> real" where
  "CostForBytes e warehouse bytes =
     (if bytes \<le> 0 then 0
      else real_of_int bytes / tib * (if EqualFold warehouse ''snowflake'' then es_sfUSDPerTiB e else es_bqUSDPerTiB e))"

text \<open>ORDER BY last_sync_at DESC NULLS LAST.\<close>

definition newest_first :: "synced_table list \<Rightarrow> synced_table list" where
  "newest_first ts =
     sort_key (\<lambda>t. case t_LastSyncAt t of Some x \<Rightarrow> - x | None \<Rightarrow> 0) (filter (\<lambda>t. t_LastSyncAt t \<noteq> None) ts) @
     filter (\<lambda>t. t_LastSyncAt t = None) ts"

definition lookupRowCount :: "uuid \<Rightarrow> string \<Rightarrow> string \<Rightarrow> db \<Rightarrow> int option go" where
  "lookupRowCount customerID schema table d =
     (case db_fail d of
        Some e \<Rightarrow> Err e
      | None \<Rightarrow>
          (case newest_first (filter (\<lambda>t. t_TableName t = table \<and> (schema = [] \<or> t_SchemaName t = schema) \<and>
                  (\<exists>c \<in> set (connections d). cn_ID c = t_ConnectionID t \<and> cn_CustomerID c = customerID)) (synced_tables d)) of
             [] \<Rightarrow> Ok None
           | t # _ \<Rightarrow> Ok (Some (t_RowCount t))))"

fun sum_tables :: "uuid \<Rightarrow> db \<Rightarrow> table_ref list \<Rightarrow> int \<Rightarrow> string list \<Rightarrow> (int \<times> string list) go" where
  "sum_tables customerID d [] bytes unknown = Ok (bytes, unknown)"
| "sum_tables customerID d (t # ts) bytes unknown =
     bind_go (lookupRowCount customerID (Schema t) (Table t) d) (\<lambda>found.
       case found of
         None \<Rightarrow> sum_tables customerID d ts bytes
                   (unknown @ [if Schema t \<noteq> [] then Schema t @ ''.'' @ Table t else Table t])
       | Some rowCount \<Rightarrow> sum_tables customerID d ts (bytes + rowCount * bytesPerRowGuess) unknown)"

definition EstimateSQL :: "estimator \<Rightarrow> parser \<Rightarrow> uuid \<Rightarrow> string \<Rightarrow> string \<Rightarrow> db \<Rightarrow> (int \<times> real \<times> string list) go" where
  "EstimateSQL e parse customerID warehouse sql d =
     bind_go (ExtractTables parse sql) (\<lambda>refs.
       if refs = [] then Ok (0, 0, [])
       else bind_go (sum_tables customerID d refs 0 []) (\<lambda>(bytes, unknown).
         Ok (bytes, CostForBytes e warehouse bytes, unknown)))"

section \<open>Actual costs\<close>

record cost_libs =
  cl_enc :: aead
  cl_parse :: parser
  cl_bq_Unmarshal :: "bytes \<Rightarrow> bq_creds go"
  cl_bq_NewClient :: "string \<Rightarrow> bytes option \<Rightarrow> unit go"
  cl_bq_Query :: "string \<Rightarrow> string \<Rightarrow> (string \<times> int) list \<Rightarrow> bq_iter go"
  cl_sf_Unmarshal :: "bytes \<Rightarrow> sf_creds go"
  cl_sf_DSN :: "sf_creds \<Rightarrow> string go"
  cl_sf_Open :: "string \<Rightarrow> unit go"
  cl_sf_QueryRow :: "string \<Rightarrow> string \<Rightarrow> int go"

definition nl :: string where
  "nl = [CHR 0x0A]"

definition bqOnDemandUSDPerTiB :: real where
  "bqOnDemandUSDPerTiB = 5"

definition jobs_query :: "string \<Rightarrow> string" where
  "jobs_query project =
     nl @ ''SELECT total_bytes_billed'' @ nl @
     ''FROM `'' @ project @ ''.region-us.INFORMATION_SCHEMA.JOBS_BY_PROJECT`'' @ nl @
     ''WHERE creation_time BETWEEN TIMESTAMP_SUB(@ts, INTERVAL 60 SECOND) AND TIMESTAMP_ADD(@ts, INTERVAL 60 SECOND)'' @ nl @
     ''  AND statement_type IS NOT NULL'' @ nl @
     ''ORDER BY creation_time DESC LIMIT 1''"

text \<open>The bytes of the first row; a value of another type counts as zero, an empty row panics.\<close>

fun first_bytes :: "sql_value list go list \<Rightarrow> int go" where
  "first_bytes [] = Ok 0"
| "first_bytes (row # _) =
     bind_go row (\<lambda>vs. case vs of [] \<Rightarrow> Panic | VInt64 w # _ \<Rightarrow> Ok (sint w) | _ # _ \<Rightarrow> Ok 0)"

definition bq_LookupCost :: "cost_libs \<Rightarrow> uuid \<Rightarrow> string \<Rightarrow> int \<Rightarrow> db \<Rightarrow> real go" where
  "bq_LookupCost L customerID queryHash startedAt d =
     bind_go (GetConnectionForCustomer (cl_enc L) customerID ''bigquery'' d) (\<lambda>(_, creds).
       bind_go (cl_bq_Unmarshal L creds) (\<lambda>c.
         bind_go (cl_bq_NewClient L (bq_ProjectID c)
             (if bq_ServiceAccountKey c \<noteq> [] \<and> bq_ServiceAccountKey c \<noteq> ''null'' then Some (bq_ServiceAccountKey c) else None)) (\<lambda>_.
           bind_go (cl_bq_Query L (bq_ProjectID c) (jobs_query (bq_ProjectID c)) [(''ts'', startedAt)]) (\<lambda>it.
             bind_go (first_bytes (it_Rows it)) (\<lambda>bytes.
               if it_Rows it = [] then Ok 0 else Ok (real_of_int bytes / tib * bqOnDemandUSDPerTiB))))))"

definition sfDefaultUSDPerTiB :: real where
  "sfDefaultUSDPerTiB = 5"

definition history_query :: "int \<Rightarrow> string" where
  "history_query startedAt =
     (let q = CHR 0x27 # FormatRFC3339 startedAt @ [CHR 0x27] in
      nl @ ''SELECT BYTES_SCANNED FROM SNOWFLAKE.ACCOUNT_USAGE.QUERY_HISTORY'' @ nl @
      ''WHERE START_TIME BETWEEN DATEADD(SECOND,-60,'' @ q @ '') AND DATEADD(SECOND,60,'' @ q @ '')'' @ nl @
      ''ORDER BY START_TIME DESC LIMIT 1'')"

definition sf_LookupCost :: "cost_libs \<Rightarrow> real \<Rightarrow> uuid \<Rightarrow> string \<Rightarrow> int \<Rightarrow> db \<Rightarrow> real go" where
  "sf_LookupCost L USDPerTiB customerID queryHash startedAt d =
     bind_go (GetConnectionForCustomer (cl_enc L) customerID ''snowflake'' d) (\<lambda>(_, creds).
       bind_go (cl_sf_Unmarshal L creds) (\<lambda>c.
         bind_go (cl_sf_DSN L (c\<lparr>sf_PrivateKeyPEM := []\<rparr>)) (\<lambda>dsn.
           bind_go (cl_sf_Open L dsn) (\<lambda>_.
             bind_go (cl_sf_QueryRow L dsn (history_query startedAt)) (\<lambda>bytesScanned.
               Ok (real_of_int bytesScanned / tib * (if USDPerTiB = 0 then sfDefaultUSDPerTiB else USDPerTiB)))))))"

section \<open>The backfiller\<close>

record cost_config =
  cc_BigQueryUSDPerTiB :: real
  cc_SnowflakeUSDPerTiB :: real

definition ErrUnsupportedWarehouseCost :: go_error where
  "ErrUnsupportedWarehouseCost = Errorf ''unsupported warehouse for cost backfill''"

definition day :: int where
  "day = 86400 * second"

definition set_log :: "uuid \<Rightarrow> (log_row \<Rightarrow> log_row) \<Rightarrow> cost_db \<Rightarrow> cost_db" where
  "set_log i f s = s\<lparr>cd_log := map (\<lambda>r. if lr_ID r = i then f r else r) (cd_log s)\<rparr>"

definition newest_rows :: "nat \<Rightarrow> log_row list \<Rightarrow> log_row list" where
  "newest_rows n rs = take n (sort_key (\<lambda>r. - lr_StartedAt r) rs)"

definition wants_actual :: "uuid \<Rightarrow> int \<Rightarrow> log_row \<Rightarrow> bool" where
  "wants_actual customerID now r \<longleftrightarrow>
     lr_customer r = customerID \<and> lr_ActualCostUSD r = None \<and> lr_StartedAt r > now - day \<and>
     lr_route r \<in> set [''warehouse'', ''fallback'']"

definition lookup_actual :: "cost_libs \<Rightarrow> cost_config \<Rightarrow> uuid \<Rightarrow> connection \<Rightarrow> log_row \<Rightarrow> db \<Rightarrow> real go" where
  "lookup_actual L cfg customerID conn r d =
     (if cn_WarehouseType conn = ''bigquery'' then bq_LookupCost L customerID (q_QueryHash (lr_Entry r)) (lr_StartedAt r) d
      else if cn_WarehouseType conn = ''snowflake''
      then sf_LookupCost L (cc_SnowflakeUSDPerTiB cfg) customerID (q_QueryHash (lr_Entry r)) (lr_StartedAt r) d
      else Err ErrUnsupportedWarehouseCost)"

fun fill_actual :: "cost_libs \<Rightarrow> cost_config \<Rightarrow> uuid \<Rightarrow> log_row list \<Rightarrow> cost_db \<Rightarrow> unit go \<times> cost_db" where
  "fill_actual L cfg customerID [] s = (Ok (), s)"
| "fill_actual L cfg customerID (r # rs) s =
     (case q_ConnectionID (lr_Entry r) of
        None \<Rightarrow> fill_actual L cfg customerID rs s
      | Some connectionID \<Rightarrow>
          (case ListConnections customerID (cd_db s) of
             Err e \<Rightarrow> (Err e, s)
           | Panic \<Rightarrow> (Panic, s)
           | Ok conns \<Rightarrow>
               (case find (\<lambda>c. cn_ID c = connectionID) conns of
                  None \<Rightarrow> fill_actual L cfg customerID rs s
                | Some conn \<Rightarrow>
                    (case lookup_actual L cfg customerID conn r (cd_db s) of
                       Err _ \<Rightarrow> fill_actual L cfg customerID rs s
                     | Panic \<Rightarrow> (Panic, s)
                     | Ok costUSD \<Rightarrow>
                         fill_actual L cfg customerID rs
                           (set_log (lr_ID r) (\<lambda>x. x\<lparr>lr_ActualCostUSD := Some costUSD\<rparr>) s)))))"

definition wants_estimate :: "uuid \<Rightarrow> int \<Rightarrow> log_row \<Rightarrow> bool" where
  "wants_estimate customerID now r \<longleftrightarrow>
     lr_customer r = customerID \<and> lr_estimated r = None \<and> lr_route r \<noteq> ''error'' \<and> lr_StartedAt r > now - day"

definition log_warehouse :: "db \<Rightarrow> log_row \<Rightarrow> string" where
  "log_warehouse d r =
     (case q_ConnectionID (lr_Entry r) of
        None \<Rightarrow> []
      | Some i \<Rightarrow> (case find (\<lambda>c. cn_ID c = i) (connections d) of Some c \<Rightarrow> cn_WarehouseType c | None \<Rightarrow> []))"

definition set_estimate :: "real \<Rightarrow> log_row \<Rightarrow> log_row" where
  "set_estimate c r = r\<lparr>lr_Entry := (lr_Entry r)\<lparr>q_EstimatedCostUSD := Some c\<rparr>\<rparr>"

fun fill_estimates :: "cost_libs \<Rightarrow> estimator \<Rightarrow> uuid \<Rightarrow> log_row list \<Rightarrow> cost_db \<Rightarrow> unit go \<times> cost_db" where
  "fill_estimates L e customerID [] s = (Ok (), s)"
| "fill_estimates L e customerID (r # rs) s =
     (let w = log_warehouse (cd_db s) r; warehouse = (if w = [] then ''bigquery'' else w) in
      case EstimateSQL e (cl_parse L) customerID warehouse (q_NormalizedSQL (lr_Entry r)) (cd_db s) of
        Err _ \<Rightarrow> fill_estimates L e customerID rs s
      | Panic \<Rightarrow> (Panic, s)
      | Ok (_, c, _) \<Rightarrow> fill_estimates L e customerID rs (set_log (lr_ID r) (set_estimate c) s))"

definition backfillEstimatedCost :: "cost_libs \<Rightarrow> cost_config \<Rightarrow> uuid \<Rightarrow> cost_db \<Rightarrow> unit go \<times> cost_db" where
  "backfillEstimatedCost L cfg customerID s =
     (case cd_fail s of
        Some e \<Rightarrow> (Err e, s)
      | None \<Rightarrow>
          fill_estimates L (estimator_New (cc_BigQueryUSDPerTiB cfg) (cc_SnowflakeUSDPerTiB cfg)) customerID
            (newest_rows 2000 (filter (wants_estimate customerID (cd_now s)) (cd_log s))) s)"

section \<open>The roll-up\<close>

definition sum_costs :: "(log_row \<Rightarrow> real option) \<Rightarrow> log_row list \<Rightarrow> real" where
  "sum_costs f rs = sum_list (map (\<lambda>r. case f r of Some x \<Rightarrow> x | None \<Rightarrow> 0) rs)"

definition day_start :: "int \<Rightarrow> int" where
  "day_start now = now - now mod day"

definition today_rows :: "uuid \<Rightarrow> uuid \<Rightarrow> int \<Rightarrow> log_row list \<Rightarrow> log_row list" where
  "today_rows customerID connectionID now rs =
     filter (\<lambda>r. lr_customer r = customerID \<and> q_ConnectionID (lr_Entry r) = Some connectionID \<and> lr_StartedAt r \<ge> day_start now) rs"

definition summarise :: "uuid \<Rightarrow> uuid \<Rightarrow> int \<Rightarrow> log_row list \<Rightarrow> attribution" where
  "summarise customerID connectionID now rs =
     (let ts = today_rows customerID connectionID now rs;
          duck = filter (\<lambda>r. lr_route r = ''duckdb'') ts;
          paid = filter (\<lambda>r. lr_route r \<in> set [''warehouse'', ''fallback'']) ts in
      \<lparr>at_CustomerID = customerID, at_ConnectionID = connectionID,
       at_PeriodStart = day_start now, at_PeriodEnd = day_start now + day,
       at_WarehouseCostUSD = sum_costs lr_ActualCostUSD paid,
       at_DuckDBCostUSD = sum_costs lr_ActualCostUSD duck,
       at_EstimatedSavingsUSD = sum_costs lr_estimated duck - sum_costs lr_ActualCostUSD duck,
       at_QueriesTotal = length ts, at_QueriesDuckDB = length duck\<rparr>)"

definition at_key :: "attribution \<Rightarrow> uuid \<times> uuid \<times> int" where
  "at_key a = (at_CustomerID a, at_ConnectionID a, at_PeriodStart a)"

text \<open>INSERT ... ON CONFLICT (customer_id, connection_id, period_start) DO UPDATE of all columns but the period.\<close>

definition upsert_attribution :: "attribution \<Rightarrow> attribution list \<Rightarrow> attribution list" where
  "upsert_attribution a as =
     (if at_key a \<in> at_key ` set as
      then map (\<lambda>x. if at_key x = at_key a then a\<lparr>at_PeriodEnd := at_PeriodEnd x\<rparr> else x) as
      else as @ [a])"

fun rollup_conns :: "uuid \<Rightarrow> connection list \<Rightarrow> cost_db \<Rightarrow> unit go \<times> cost_db" where
  "rollup_conns customerID [] s = (Ok (), s)"
| "rollup_conns customerID (c # cs) s =
     (case cd_fail s of
        Some e \<Rightarrow> (Err e, s)
      | None \<Rightarrow>
          rollup_conns customerID cs
            (s\<lparr>cd_attribution := upsert_attribution (summarise customerID (cn_ID c) (cd_now s) (cd_log s)) (cd_attribution s)\<rparr>))"

definition rollup :: "uuid \<Rightarrow> cost_db \<Rightarrow> unit go \<times> cost_db" where
  "rollup customerID s =
     (case ListConnections customerID (cd_db s) of
        Err e \<Rightarrow> (Err e, s)
      | Panic \<Rightarrow> (Panic, s)
      | Ok conns \<Rightarrow> rollup_conns customerID conns s)"

definition RollupCustomer :: "cost_libs \<Rightarrow> cost_config \<Rightarrow> uuid \<Rightarrow> cost_db \<Rightarrow> unit go \<times> cost_db" where
  "RollupCustomer L cfg customerID s =
     (case backfillEstimatedCost L cfg customerID s of
        (Panic, s1) \<Rightarrow> (Panic, s1)
      | (_, s1) \<Rightarrow> rollup customerID s1)"

definition backfillCustomer :: "cost_libs \<Rightarrow> cost_config \<Rightarrow> uuid \<Rightarrow> cost_db \<Rightarrow> unit go \<times> cost_db" where
  "backfillCustomer L cfg customerID s =
     (case cd_fail s of
        Some e \<Rightarrow> (Err e, s)
      | None \<Rightarrow>
          (case fill_actual L cfg customerID (newest_rows 1000 (filter (wants_actual customerID (cd_now s)) (cd_log s))) s of
             (Ok _, s1) \<Rightarrow> RollupCustomer L cfg customerID s1
           | (Err e, s1) \<Rightarrow> (Err e, s1)
           | (Panic, s1) \<Rightarrow> (Panic, s1)))"

fun backfill_customers :: "cost_libs \<Rightarrow> cost_config \<Rightarrow> customer list \<Rightarrow> cost_db \<Rightarrow> unit go \<times> cost_db" where
  "backfill_customers L cfg [] s = (Ok (), s)"
| "backfill_customers L cfg (c # cs) s =
     (case backfillCustomer L cfg (c_ID c) s of
        (Panic, s1) \<Rightarrow> (Panic, s1)
      | (_, s1) \<Rightarrow> backfill_customers L cfg cs s1)"

definition backfill_tick :: "cost_libs \<Rightarrow> cost_config \<Rightarrow> cost_db \<Rightarrow> unit go \<times> cost_db" where
  "backfill_tick L cfg s =
     (case ListCustomers (cd_db s) of
        Err e \<Rightarrow> (Err e, s)
      | Panic \<Rightarrow> (Panic, s)
      | Ok cs \<Rightarrow> backfill_customers L cfg cs s)"

section \<open>The budget of a workspace\<close>

record forecast =
  fo_ProjectedMonthEndUSD :: real
  fo_BurnRatePerDayUSD :: real
  fo_DaysRemaining :: int

record budget_state =
  bs_Budget :: budget
  bs_SpendMTDUSD :: real
  bs_UtilizationPct :: real
  bs_Forecast :: forecast
  bs_Status :: string
  bs_AsOf :: int

definition zero_budget :: "uuid \<Rightarrow> budget" where
  "zero_budget customerID = \<lparr>bu_CustomerID = customerID, bu_MonthlyCapUSD = 0, bu_SoftPct = 0, bu_HardPct = 0, bu_AlertChannel = []\<rparr>"

definition budget_Upsert :: "budget \<Rightarrow> cost_db \<Rightarrow> unit go \<times> cost_db" where
  "budget_Upsert b s =
     (case cd_fail s of
        Some e \<Rightarrow> (Err e, s)
      | None \<Rightarrow>
          if bu_CustomerID b \<notin> c_ID ` set (customers (cd_db s)) then (Err constraint_violation, s)
          else (Ok (), s\<lparr>cd_budgets := filter (\<lambda>x. bu_CustomerID x \<noteq> bu_CustomerID b) (cd_budgets s) @ [b]\<rparr>))"

text \<open>The first day of the month of a time, in days since the epoch, and of the month after it.\<close>

definition month_start :: "int \<Rightarrow> int" where
  "month_start now =
     (let (y, yd) = year_of (now div day) 1970; (m, _) = month_of y yd 1
      in (days_before y + days_before_month y m) * day)"

definition month_end :: "int \<Rightarrow> int" where
  "month_end now =
     (let (y, yd) = year_of (now div day) 1970; (m, _) = month_of y yd 1
      in month_start now + month_length y m * day)"

definition month_spend :: "uuid \<Rightarrow> int \<Rightarrow> log_row list \<Rightarrow> real" where
  "month_spend customerID start rs =
     sum_costs lr_ActualCostUSD (filter (\<lambda>r. lr_customer r = customerID \<and> lr_StartedAt r \<ge> start) rs)"

definition budget_Status :: "uuid \<Rightarrow> cost_db \<Rightarrow> budget_state" where
  "budget_Status customerID s =
     (case (if cd_fail s = None then find (\<lambda>b. bu_CustomerID b = customerID) (cd_budgets s) else None) of
        None \<Rightarrow>
          \<lparr>bs_Budget = zero_budget customerID, bs_SpendMTDUSD = 0, bs_UtilizationPct = 0,
           bs_Forecast = \<lparr>fo_ProjectedMonthEndUSD = 0, fo_BurnRatePerDayUSD = 0, fo_DaysRemaining = 0\<rparr>,
           bs_Status = ''ok'', bs_AsOf = cd_now s\<rparr>
      | Some b \<Rightarrow>
          (let now = cd_now s;
               daysIntoMonth = (now - month_start now) div day + 1;
               daysRemaining = (month_end now - now) div day;
               spend = month_spend customerID (month_start now) (cd_log s);
               burn = (if daysIntoMonth > 0 then spend / real_of_int daysIntoMonth else 0);
               util = (if bu_MonthlyCapUSD b > 0 then spend / bu_MonthlyCapUSD b * 100 else 0)
           in \<lparr>bs_Budget = b, bs_SpendMTDUSD = spend, bs_UtilizationPct = util,
               bs_Forecast = \<lparr>fo_ProjectedMonthEndUSD = burn * real_of_int (daysIntoMonth + daysRemaining),
                              fo_BurnRatePerDayUSD = burn, fo_DaysRemaining = daysRemaining\<rparr>,
               bs_Status = (if util \<ge> real_of_int (bu_HardPct b) then ''hard_breach''
                            else if util \<ge> real_of_int (bu_SoftPct b) then ''soft_breach'' else ''ok''),
               bs_AsOf = now\<rparr>))"

definition PreflightAllow :: "uuid \<Rightarrow> real \<Rightarrow> cost_db \<Rightarrow> bool \<times> budget_state" where
  "PreflightAllow customerID priceUSD s =
     (let st = budget_Status customerID s; b = bs_Budget st in
      if bu_MonthlyCapUSD b = 0 then (True, st)
      else if bs_SpendMTDUSD st + priceUSD > bu_MonthlyCapUSD b * real_of_int (bu_HardPct b) / 100 then (False, st)
      else (True, st))"

definition HardBlock :: "uuid \<Rightarrow> real \<Rightarrow> cost_db \<Rightarrow> bool \<times> string" where
  "HardBlock customerID estimatedCostUSD s =
     (let st = budget_Status customerID s; cap = bu_MonthlyCapUSD (bs_Budget st) in
      if cap = 0 then (True, ''no_budget'')
      else if bs_SpendMTDUSD st + estimatedCostUSD > cap * 1 then (False, ''hard_cap_exceeded'')
      else (True, ''ok''))"

section \<open>The quotas of users\<close>

definition quota_Upsert :: "quota \<Rightarrow> cost_db \<Rightarrow> unit go \<times> cost_db" where
  "quota_Upsert q s =
     (if qu_CustomerID q = 0 \<or> qu_UserSlug q = [] then (Err (Errorf ''customer_id and user_slug required''), s)
      else if qu_MonthlyCapUSD q < 0 then (Err (Errorf ''monthly_cap_usd must be >= 0''), s)
      else case cd_fail s of
        Some e \<Rightarrow> (Err e, s)
      | None \<Rightarrow>
          if qu_CustomerID q \<notin> c_ID ` set (customers (cd_db s)) then (Err constraint_violation, s)
          else if \<exists>x \<in> set (cd_quotas s). qu_CustomerID x = qu_CustomerID q \<and> qu_UserSlug x = qu_UserSlug q
          then (Ok (), s\<lparr>cd_quotas := map (\<lambda>x. if qu_CustomerID x = qu_CustomerID q \<and> qu_UserSlug x = qu_UserSlug q
                  then x\<lparr>qu_MonthlyCapUSD := qu_MonthlyCapUSD q, qu_HardBlock := qu_HardBlock q, qu_UpdatedAt := cd_now s\<rparr>
                  else x) (cd_quotas s)\<rparr>)
          else (Ok (), s\<lparr>cd_quotas := cd_quotas s @ [q\<lparr>qu_CreatedAt := cd_now s, qu_UpdatedAt := cd_now s\<rparr>]\<rparr>))"

fun insert_quota :: "quota \<Rightarrow> quota list \<Rightarrow> quota list" where
  "insert_quota q [] = [q]"
| "insert_quota q (x # xs) =
     (if lex_le (str_key (qu_UserSlug q)) (str_key (qu_UserSlug x)) then q # x # xs else x # insert_quota q xs)"

definition quota_List :: "uuid \<Rightarrow> cost_db \<Rightarrow> quota list go" where
  "quota_List customerID s =
     (case cd_fail s of
        Some e \<Rightarrow> Err e
      | None \<Rightarrow> Ok (foldr insert_quota (filter (\<lambda>q. qu_CustomerID q = customerID) (cd_quotas s)) []))"

definition quota_ErrNotFound :: go_error where
  "quota_ErrNotFound = Errorf ''quota not found''"

definition quota_Get :: "uuid \<Rightarrow> string \<Rightarrow> cost_db \<Rightarrow> quota go" where
  "quota_Get customerID userSlug s =
     (case cd_fail s of
        Some e \<Rightarrow> Err e
      | None \<Rightarrow>
          (case find (\<lambda>q. qu_CustomerID q = customerID \<and> qu_UserSlug q = userSlug) (cd_quotas s) of
             None \<Rightarrow> Err quota_ErrNotFound
           | Some q \<Rightarrow> Ok q))"

definition quota_Delete :: "uuid \<Rightarrow> string \<Rightarrow> cost_db \<Rightarrow> unit go \<times> cost_db" where
  "quota_Delete customerID userSlug s =
     (case cd_fail s of
        Some e \<Rightarrow> (Err e, s)
      | None \<Rightarrow> (Ok (), s\<lparr>cd_quotas := filter (\<lambda>q. \<not> (qu_CustomerID q = customerID \<and> qu_UserSlug q = userSlug)) (cd_quotas s)\<rparr>))"

text \<open>The user is not a column of the log: the spend is that of the whole customer.\<close>

definition MonthSpend :: "uuid \<Rightarrow> string \<Rightarrow> cost_db \<Rightarrow> real go" where
  "MonthSpend customerID userSlug s =
     (case cd_fail s of
        Some e \<Rightarrow> Err e
      | None \<Rightarrow> Ok (month_spend customerID (month_start (cd_now s)) (cd_log s)))"

text \<open>\<open>usd\<close> renders an amount with the verb \%.2f.\<close>

definition quota_Check :: "(real \<Rightarrow> string) \<Rightarrow> uuid \<Rightarrow> string \<Rightarrow> real \<Rightarrow> cost_db \<Rightarrow> (bool \<times> string) go" where
  "quota_Check usd customerID userSlug estimatedCostUSD s =
     (case quota_Get customerID userSlug s of
        Err e \<Rightarrow> if e = quota_ErrNotFound then Ok (True, ''no quota configured'') else Err e
      | Panic \<Rightarrow> Panic
      | Ok q \<Rightarrow>
          bind_go (MonthSpend customerID userSlug s) (\<lambda>spend.
            let projected = spend + estimatedCostUSD;
                amounts = ''projected $'' @ usd projected @ '' > cap $'' @ usd (qu_MonthlyCapUSD q) in
            if qu_MonthlyCapUSD q > 0 \<and> projected > qu_MonthlyCapUSD q
            then (if qu_HardBlock q then Ok (False, ''hard quota exceeded: '' @ amounts)
                  else Ok (True, ''soft quota exceeded (warn only): '' @ amounts))
            else Ok (True, ''ok'')))"

definition CapFor :: "uuid \<Rightarrow> string \<Rightarrow> cost_db \<Rightarrow> (real \<times> bool) go" where
  "CapFor customerID userSlug s =
     (case quota_Get customerID userSlug s of
        Err e \<Rightarrow> if e = quota_ErrNotFound then Ok (0, False) else Err e
      | Panic \<Rightarrow> Panic
      | Ok q \<Rightarrow> Ok (qu_MonthlyCapUSD q, True))"

section \<open>Lemmas on the roll-up\<close>

text \<open>The attribution table as a map from its key to the row.\<close>

definition attr_map :: "attribution list \<Rightarrow> (uuid \<times> uuid \<times> int \<rightharpoonup> attribution)" where
  "attr_map as = map_of (map (\<lambda>a. (at_key a, a)) as)"

definition attr_ok :: "attribution list \<Rightarrow> bool" where
  "attr_ok as \<longleftrightarrow> distinct (map at_key as) \<and> (\<forall>a \<in> set as. at_PeriodEnd a = at_PeriodStart a + day)"

lemma at_key_period [simp]: "at_key (a\<lparr>at_PeriodEnd := e\<rparr>) = at_key a"
  by (simp add: at_key_def)

lemma attr_map_Some: "attr_map as k = Some a \<Longrightarrow> a \<in> set as \<and> at_key a = k"
  by (auto simp: attr_map_def dest: map_of_SomeD)

lemma attr_map_mem: "attr_ok as \<Longrightarrow> a \<in> set as \<Longrightarrow> attr_map as (at_key a) = Some a"
  by (simp add: attr_ok_def attr_map_def image_iff comp_def)

lemma upsert_existing:
  assumes "attr_ok as" and "at_PeriodEnd a = at_PeriodStart a + day"
  shows "map (\<lambda>x. if at_key x = at_key a then a\<lparr>at_PeriodEnd := at_PeriodEnd x\<rparr> else x) as =
     map (\<lambda>x. if at_key x = at_key a then a else x) as"
proof (rule map_cong [OF refl])
  fix x assume "x \<in> set as"
  then have "at_key x = at_key a \<Longrightarrow> at_PeriodEnd x = at_PeriodEnd a"
    using assms by (auto simp: attr_ok_def at_key_def)
  then show "(if at_key x = at_key a then a\<lparr>at_PeriodEnd := at_PeriodEnd x\<rparr> else x) = (if at_key x = at_key a then a else x)"
    by simp
qed

lemma attr_map_replace:
  "attr_map (map (\<lambda>x. if at_key x = at_key a then a else x) as) k =
     (if k = at_key a \<and> k \<in> at_key ` set as then Some a else attr_map as k)"
  by (induction as) (auto simp: attr_map_def)

lemma map_at_key_replace: "map at_key (map (\<lambda>x. if at_key x = at_key a then a else x) as) = map at_key as"
  by (induction as) auto

lemma upsert_attribution_spec:
  assumes "attr_ok as" and "at_PeriodEnd a = at_PeriodStart a + day"
  shows "attr_ok (upsert_attribution a as)" and "attr_map (upsert_attribution a as) = (attr_map as)(at_key a \<mapsto> a)"
proof -
  show "attr_ok (upsert_attribution a as)"
  proof (cases "at_key a \<in> at_key ` set as")
    case True
    have "distinct (map at_key (map (\<lambda>x. if at_key x = at_key a then a else x) as))"
      unfolding map_at_key_replace using assms(1) by (simp add: attr_ok_def)
    with True assms show ?thesis
      unfolding upsert_attribution_def by (simp only: if_True upsert_existing [OF assms]) (auto simp: attr_ok_def)
  qed (use assms in \<open>auto simp: upsert_attribution_def attr_ok_def\<close>)
  show "attr_map (upsert_attribution a as) = (attr_map as)(at_key a \<mapsto> a)"
  proof (cases "at_key a \<in> at_key ` set as")
    case True
    then show ?thesis
      unfolding upsert_attribution_def by (simp only: if_True upsert_existing [OF assms]) (auto simp: attr_map_replace fun_eq_iff)
  next
    case False
    have "attr_map (as @ [a]) k = (if k = at_key a then Some a else attr_map as k)" for k
      using False by (induction as) (auto simp: attr_map_def)
    with False show ?thesis by (simp add: upsert_attribution_def fun_eq_iff)
  qed
qed

lemma upsert_attribution_same: "attr_ok as \<Longrightarrow> attr_map as (at_key a) = Some a \<Longrightarrow> upsert_attribution a as = as"
proof -
  assume ok: "attr_ok as" and a: "attr_map as (at_key a) = Some a"
  have x: "x = a" if "x \<in> set as" "at_key x = at_key a" for x
    using attr_map_mem [OF ok that(1)] a that(2) by (metis option.inject)
  have "at_PeriodEnd a = at_PeriodStart a + day" using ok attr_map_Some [OF a] unfolding attr_ok_def by blast
  then show "upsert_attribution a as = as"
    using upsert_existing [OF ok, of a] x attr_map_Some [OF a]
    by (auto simp: upsert_attribution_def intro!: map_idI dest: x [symmetric])
qed

lemma summarise_key: "at_key (summarise cid i now rs) = (cid, i, day_start now)"
  "at_PeriodEnd (summarise cid i now rs) = at_PeriodStart (summarise cid i now rs) + day"
  by (simp_all add: summarise_def at_key_def Let_def)

lemma rollup_conns_spec:
  assumes "cd_fail s = None" and "attr_ok (cd_attribution s)"
  shows "\<exists>as. rollup_conns cid conns s = (Ok (), s\<lparr>cd_attribution := as\<rparr>) \<and> attr_ok as \<and>
     (\<forall>c i p. attr_map as (c, i, p) =
        (if c = cid \<and> p = day_start (cd_now s) \<and> i \<in> cn_ID ` set conns then Some (summarise cid i (cd_now s) (cd_log s))
         else attr_map (cd_attribution s) (c, i, p)))"
  using assms
proof (induction conns arbitrary: s)
  case Nil
  then show ?case by (intro exI [of _ "cd_attribution s"]) simp
next
  case (Cons c cs)
  let ?a = "summarise cid (cn_ID c) (cd_now s) (cd_log s)"
  let ?s = "s\<lparr>cd_attribution := upsert_attribution ?a (cd_attribution s)\<rparr>"
  note u = upsert_attribution_spec [OF Cons.prems(2) summarise_key(2)]
  from Cons.IH [of ?s] u(1) [of cid "cn_ID c" "cd_now s" "cd_log s"] Cons.prems(1)
  obtain as where "rollup_conns cid cs ?s = (Ok (), ?s\<lparr>cd_attribution := as\<rparr>)" "attr_ok as"
    "\<forall>c i p. attr_map as (c, i, p) =
        (if c = cid \<and> p = day_start (cd_now ?s) \<and> i \<in> cn_ID ` set cs then Some (summarise cid i (cd_now ?s) (cd_log ?s))
         else attr_map (cd_attribution ?s) (c, i, p))" by auto
  then show ?case using Cons.prems(1) u(2) [of cid "cn_ID c" "cd_now s" "cd_log s"]
    by (intro exI [of _ as]) (auto simp: summarise_key)
qed

lemma rollup_conns_same:
  assumes "cd_fail s = None" and "attr_ok (cd_attribution s)"
    and "\<forall>i \<in> cn_ID ` set conns. attr_map (cd_attribution s) (cid, i, day_start (cd_now s)) = Some (summarise cid i (cd_now s) (cd_log s))"
  shows "rollup_conns cid conns s = (Ok (), s)"
  using assms
proof (induction conns)
  case (Cons c cs)
  have "upsert_attribution (summarise cid (cn_ID c) (cd_now s) (cd_log s)) (cd_attribution s) = cd_attribution s"
    by (rule upsert_attribution_same) (use Cons.prems in \<open>simp_all add: summarise_key\<close>)
  with Cons show ?case by simp
qed simp

section \<open>Lemmas on the backfill\<close>

text \<open>
  What the backfill may do to a row of the log: fill a missing cost of a recent query that a warehouse ran, and
  a missing estimate of a recent query that did not fail.
\<close>

definition gap_base :: "log_row \<Rightarrow> log_row" where
  "gap_base r = r\<lparr>lr_ActualCostUSD := None, lr_Entry := (lr_Entry r)\<lparr>q_EstimatedCostUSD := None\<rparr>\<rparr>"

definition gap_filled :: "int \<Rightarrow> log_row \<Rightarrow> log_row \<Rightarrow> bool" where
  "gap_filled now r r' \<longleftrightarrow> gap_base r' = gap_base r \<and>
     (lr_ActualCostUSD r' = lr_ActualCostUSD r \<or> wants_actual (lr_customer r) now r) \<and>
     (lr_estimated r' = lr_estimated r \<or> wants_estimate (lr_customer r) now r)"

lemma gap_filled_refl: "gap_filled now r r"
  by (simp add: gap_filled_def)

lemma gap_base_sel:
  "lr_ID (gap_base r) = lr_ID r" "lr_StartedAt (gap_base r) = lr_StartedAt r" "lr_customer (gap_base r) = lr_customer r" "lr_route (gap_base r) = lr_route r"
  by (simp_all add: gap_base_def)

lemma gap_filled_fields:
  "gap_filled now r r' \<Longrightarrow> lr_ID r' = lr_ID r \<and> lr_StartedAt r' = lr_StartedAt r \<and> lr_customer r' = lr_customer r \<and> lr_route r' = lr_route r"
  unfolding gap_filled_def using gap_base_sel [of r] gap_base_sel [of r'] by simp

lemma gap_filled_trans: "gap_filled now r r' \<Longrightarrow> gap_filled now r' r'' \<Longrightarrow> gap_filled now r r''"
  using gap_filled_fields [of now r r'] unfolding gap_filled_def wants_actual_def wants_estimate_def by metis

definition log_filled :: "cost_db \<Rightarrow> cost_db \<Rightarrow> bool" where
  "log_filled s s' \<longleftrightarrow> list_all2 (gap_filled (cd_now s)) (cd_log s) (cd_log s') \<and>
     cd_db s' = cd_db s \<and> cd_quotas s' = cd_quotas s \<and> cd_budgets s' = cd_budgets s"

lemma log_filled_refl: "log_filled s s"
  by (simp add: log_filled_def list_all2_refl gap_filled_refl)

lemma log_filled_trans: "log_filled s s' \<Longrightarrow> log_filled s' s'' \<Longrightarrow> log_filled s s''"
  unfolding log_filled_def
  using list_all2_trans [of "gap_filled (cd_now s)" "gap_filled (cd_now s)" "gap_filled (cd_now s)", OF gap_filled_trans] by auto

lemma log_filled_ids: "log_filled s s' \<Longrightarrow> map lr_ID (cd_log s') = map lr_ID (cd_log s)"
proof -
  assume "log_filled s s'"
  then have "list_all2 (gap_filled (cd_now s)) (cd_log s) (cd_log s')" by (simp add: log_filled_def)
  then show ?thesis by (induction rule: list_all2_induct) (auto dest: gap_filled_fields)
qed

text \<open>One update of the backfill, of a row found at the start: it fills a gap, and the other rows stay.\<close>

lemma set_log_filled:
  assumes "distinct (map lr_ID (cd_log s))" and "r \<in> set (cd_log s)" and "gap_filled (cd_now s) r (f r)"
  shows "log_filled s (set_log (lr_ID r) f s)"
    and "x \<in> set (cd_log s) \<Longrightarrow> lr_ID x \<noteq> lr_ID r \<Longrightarrow> x \<in> set (cd_log (set_log (lr_ID r) f s))"
proof -
  have "x = r" if "x \<in> set (cd_log s)" "lr_ID x = lr_ID r" for x
    using assms(1,2) that by (auto simp: distinct_map dest: inj_onD)
  with assms(3) have "gap_filled (cd_now s) x (f x)" if "x \<in> set (cd_log s)" "lr_ID x = lr_ID r" for x
    using that by metis
  then show "log_filled s (set_log (lr_ID r) f s)"
    by (auto simp: log_filled_def set_log_def list_all2_conv_all_nth gap_filled_refl)
qed (auto simp: set_log_def image_iff)

text \<open>A list of rows of the log still to be filled, as the selects of the backfill return them.\<close>

definition pending_rows :: "(log_row \<Rightarrow> bool) \<Rightarrow> log_row list \<Rightarrow> cost_db \<Rightarrow> bool" where
  "pending_rows P todo s \<longleftrightarrow> distinct (map lr_ID (cd_log s)) \<and> distinct (map lr_ID todo) \<and>
     (\<forall>r \<in> set todo. r \<in> set (cd_log s) \<and> P r)"

lemma pending_newest:
  assumes "distinct (map lr_ID (cd_log s))"
  shows "pending_rows P (newest_rows n (filter P (cd_log s))) s"
proof -
  have "distinct (map lr_ID (sort_key (\<lambda>r. - lr_StartedAt r) (filter P (cd_log s))))"
    using assms by (simp add: distinct_map inj_on_def)
  then show ?thesis using assms
    by (auto simp: pending_rows_def newest_rows_def take_map [symmetric] dest: in_set_takeD)
qed

lemma pending_tl: "pending_rows P (r # rs) s \<Longrightarrow> pending_rows P rs s"
  by (simp add: pending_rows_def)

lemma pending_step:
  assumes "pending_rows P (r # rs) s" and "gap_filled (cd_now s) r (f r)"
  shows "log_filled s (set_log (lr_ID r) f s)" and "pending_rows P rs (set_log (lr_ID r) f s)"
proof -
  from assms(1) have r: "distinct (map lr_ID (cd_log s))" "r \<in> set (cd_log s)" by (simp_all add: pending_rows_def)
  show filled: "log_filled s (set_log (lr_ID r) f s)" using set_log_filled(1) [of s r f] r assms(2) by blast
  show "pending_rows P rs (set_log (lr_ID r) f s)"
    using assms(1) log_filled_ids [OF filled] set_log_filled(2) [of s r f] r assms(2)
    by (auto simp: pending_rows_def image_iff)
qed

lemma fill_actual_filled:
  "pending_rows (wants_actual cid (cd_now s)) todo s \<Longrightarrow> log_filled s (snd (fill_actual L cfg cid todo s))"
proof (induction todo arbitrary: s)
  case (Cons r rs)
  have gap: "gap_filled (cd_now s) r (r\<lparr>lr_ActualCostUSD := Some c\<rparr>)" for c
    using Cons.prems by (simp add: gap_filled_def gap_base_def pending_rows_def wants_actual_def)
  have "log_filled s (snd (fill_actual L cfg cid rs (set_log (lr_ID r) (\<lambda>x. x\<lparr>lr_ActualCostUSD := Some c\<rparr>) s)))" for c
    using pending_step [OF Cons.prems, of "\<lambda>x. x\<lparr>lr_ActualCostUSD := Some c\<rparr>"] gap Cons.IH [of "set_log (lr_ID r) (\<lambda>x. x\<lparr>lr_ActualCostUSD := Some c\<rparr>) s"]
    by (auto simp: set_log_def intro: log_filled_trans)
  then show ?case using Cons.IH [OF pending_tl [OF Cons.prems]]
    by (auto simp: log_filled_refl split: option.splits go.splits)
qed (simp add: log_filled_refl)

lemma fill_estimates_filled:
  "pending_rows (wants_estimate cid (cd_now s)) todo s \<Longrightarrow> log_filled s (snd (fill_estimates L e cid todo s))"
proof (induction todo arbitrary: s)
  case (Cons r rs)
  have gap: "gap_filled (cd_now s) r (set_estimate c r)" for c
    using Cons.prems by (simp add: gap_filled_def gap_base_def pending_rows_def wants_estimate_def set_estimate_def)
  have "log_filled s (snd (fill_estimates L e cid rs (set_log (lr_ID r) (set_estimate c) s)))" for c
    using pending_step [OF Cons.prems, of "set_estimate c"] gap Cons.IH [of "set_log (lr_ID r) (set_estimate c) s"]
    by (auto simp: set_log_def intro: log_filled_trans)
  then show ?case using Cons.IH [OF pending_tl [OF Cons.prems]]
    by (auto simp: log_filled_refl Let_def split: go.splits)
qed (simp add: log_filled_refl)

lemma rollup_conns_filled: "log_filled s (snd (rollup_conns cid conns s))"
proof (induction conns arbitrary: s)
  case (Cons c cs)
  have "log_filled s (s\<lparr>cd_attribution := as\<rparr>)" for as using log_filled_refl [of s] by (simp add: log_filled_def)
  with Cons.IH show ?case by (auto simp: log_filled_refl split: option.splits intro: log_filled_trans)
qed (simp add: log_filled_refl)

lemma rollup_filled: "log_filled s (snd (rollup cid s))"
  by (simp add: rollup_def rollup_conns_filled log_filled_refl split: go.split)

lemma backfillEstimatedCost_filled:
  "distinct (map lr_ID (cd_log s)) \<Longrightarrow> log_filled s (snd (backfillEstimatedCost L cfg cid s))"
  by (simp add: backfillEstimatedCost_def log_filled_refl fill_estimates_filled pending_newest split: option.split)

lemma RollupCustomer_filled:
  assumes "distinct (map lr_ID (cd_log s))"
  shows "log_filled s (snd (RollupCustomer L cfg cid s))"
  using backfillEstimatedCost_filled [OF assms, of L cfg cid] rollup_filled [of "snd (backfillEstimatedCost L cfg cid s)" cid]
  by (auto simp: RollupCustomer_def split: prod.splits go.splits intro: log_filled_trans)

lemma backfillCustomer_filled:
  assumes "distinct (map lr_ID (cd_log s))"
  shows "log_filled s (snd (backfillCustomer L cfg cid s))"
proof -
  let ?f = "fill_actual L cfg cid (newest_rows 1000 (filter (wants_actual cid (cd_now s)) (cd_log s))) s"
  have f: "log_filled s (snd ?f)" by (rule fill_actual_filled [OF pending_newest [OF assms]])
  then have "log_filled (snd ?f) (snd (RollupCustomer L cfg cid (snd ?f)))"
    using RollupCustomer_filled log_filled_ids [OF f] assms by metis
  with f show ?thesis
    by (auto simp: backfillCustomer_def log_filled_refl split: option.splits prod.splits go.splits intro: log_filled_trans)
qed

lemma backfill_customers_filled:
  "distinct (map lr_ID (cd_log s)) \<Longrightarrow> log_filled s (snd (backfill_customers L cfg cs s))"
proof (induction cs arbitrary: s)
  case (Cons c cs)
  let ?s = "snd (backfillCustomer L cfg (c_ID c) s)"
  have f: "log_filled s ?s" by (rule backfillCustomer_filled [OF Cons.prems])
  with Cons.IH [of ?s] Cons.prems log_filled_ids [OF f] have "log_filled s (snd (backfill_customers L cfg cs ?s))"
    by (metis log_filled_trans)
  with f show ?case by (auto split: prod.splits go.splits)
qed (simp add: log_filled_refl)

section \<open>Theorems\<close>

text \<open>
  A tick of the backfiller changes nothing but missing costs: whatever the warehouses answer and wherever it stops,
  the log keeps its rows in order with all their other fields, a cost that was there is never overwritten, an actual
  cost appears only on a query of the last day that a warehouse ran, an estimate only on one that did not fail, and
  the control store, the quotas and the budgets are as before.
\<close>

theorem backfill_fills_only_gaps:
  assumes "distinct (map lr_ID (cd_log s))"
  shows "log_filled s (snd (backfill_tick L cfg s))"
  using backfill_customers_filled [OF assms]
  by (simp add: backfill_tick_def log_filled_refl split: go.split)

text \<open>
  C4: the roll-up refines a map from (customer, connection, day) to summaries: it sets the key of today for every
  connection of the customer to the summary of today's queries and keeps every other entry, the table keeps its
  key and its day-long periods, and rolling up again changes nothing.
\<close>

theorem rollup_refines:
  assumes "cd_fail s = None" and "attr_ok (cd_attribution s)"
  shows "\<exists>as. rollup cid s = (Ok (), s\<lparr>cd_attribution := as\<rparr>) \<and> attr_ok as \<and>
     (\<forall>c i p. attr_map as (c, i, p) =
        (if c = cid \<and> p = day_start (cd_now s) \<and> (\<exists>cn \<in> set (connections (cd_db s)). cn_CustomerID cn = cid \<and> cn_ID cn = i)
         then Some (summarise cid i (cd_now s) (cd_log s))
         else attr_map (cd_attribution s) (c, i, p))) \<and>
     rollup cid (s\<lparr>cd_attribution := as\<rparr>) = (Ok (), s\<lparr>cd_attribution := as\<rparr>)"
proof -
  obtain conns where conns: "ListConnections cid (cd_db s) = Ok conns"
    "set conns = {c \<in> set (connections (cd_db s)). cn_CustomerID c = cid}"
    using assms(1) by (auto simp: ListConnections_def)
  obtain as where as: "rollup_conns cid conns s = (Ok (), s\<lparr>cd_attribution := as\<rparr>)" "attr_ok as"
    "\<And>c i p. attr_map as (c, i, p) =
        (if c = cid \<and> p = day_start (cd_now s) \<and> i \<in> cn_ID ` set conns then Some (summarise cid i (cd_now s) (cd_log s))
         else attr_map (cd_attribution s) (c, i, p))"
    using rollup_conns_spec [OF assms, of cid conns] by blast
  have "rollup_conns cid conns (s\<lparr>cd_attribution := as\<rparr>) = (Ok (), s\<lparr>cd_attribution := as\<rparr>)"
    by (rule rollup_conns_same) (use assms(1) as in simp_all)
  moreover have "i \<in> cn_ID ` set conns \<longleftrightarrow> (\<exists>cn \<in> set (connections (cd_db s)). cn_CustomerID cn = cid \<and> cn_ID cn = i)" for i
    using conns(2) by auto
  ultimately show ?thesis
    by (intro exI [of _ as]) (simp add: rollup_def conns(1) as)
qed

text \<open>Two queries of a connection, one on DuckDB and one on the warehouse, over a row that an earlier roll-up left.\<close>

definition two_queries :: cost_db where
  "two_queries =
     (let e = \<lparr>q_CustomerID = 1, q_ConnectionID = Some 3, q_APIKeyID = None, q_UserID = None, q_DashboardID = None, q_QueryHash = [],
               q_NormalizedSQL = ''select 1'', q_RouteDecision = ''duckdb'', q_FallbackReason = None, q_DurationMS = 0,
               q_RowsReturned = 0, q_BytesScanned = None, q_EstimatedCostUSD = Some 4, q_ErrorCode = None\<rparr>;
          c = \<lparr>cn_ID = 3, cn_CustomerID = 1, cn_WarehouseType = ''bigquery'', cn_Name = ''w'', cn_StorageMode = [], cn_S3Bucket = None,
               cn_S3Prefix = None, cn_CreatedAt = 0, cn_Ciphertext = [], cn_Nonce = []\<rparr>
      in \<lparr>cd_db = (empty_db 5)\<lparr>connections := [c]\<rparr>,
          cd_log = [\<lparr>lr_ID = 8, lr_Entry = e, lr_StartedAt = 2, lr_ActualCostUSD = None\<rparr>,
                    \<lparr>lr_ID = 9, lr_Entry = e\<lparr>q_RouteDecision := ''warehouse''\<rparr>, lr_StartedAt = 3, lr_ActualCostUSD = Some 6\<rparr>],
          cd_attribution = [\<lparr>at_CustomerID = 1, at_ConnectionID = 3, at_PeriodStart = 0, at_PeriodEnd = day, at_WarehouseCostUSD = 0,
                             at_DuckDBCostUSD = 0, at_EstimatedSavingsUSD = 4, at_QueriesTotal = 1, at_QueriesDuckDB = 1\<rparr>],
          cd_quotas = [], cd_budgets = []\<rparr>)"

theorem rollup_refines_witness:
  "\<exists>as a. rollup 1 two_queries = (Ok (), two_queries\<lparr>cd_attribution := as\<rparr>) \<and> attr_map as (1, 3, 0) = Some a \<and>
     at_WarehouseCostUSD a = 6 \<and> at_EstimatedSavingsUSD a = 4 \<and> at_QueriesTotal a = 2 \<and> at_QueriesDuckDB a = 1"
proof -
  have fail: "cd_fail two_queries = None" by (simp add: two_queries_def empty_db_def Let_def)
  have ok: "attr_ok (cd_attribution two_queries)" by (simp add: two_queries_def attr_ok_def Let_def)
  have now: "cd_now two_queries = 5" "day_start 5 = 0"
    by (simp_all add: two_queries_def empty_db_def Let_def day_start_def day_def second_def)
  have c: "\<exists>cn \<in> set (connections (cd_db two_queries)). cn_CustomerID cn = 1 \<and> cn_ID cn = 3"
    by (simp add: two_queries_def Let_def)
  from rollup_refines [OF fail ok, of 1] obtain as where
    r: "rollup 1 two_queries = (Ok (), two_queries\<lparr>cd_attribution := as\<rparr>)" and
    m: "\<forall>c i p. attr_map as (c, i, p) =
        (if c = 1 \<and> p = day_start (cd_now two_queries) \<and> (\<exists>cn \<in> set (connections (cd_db two_queries)). cn_CustomerID cn = 1 \<and> cn_ID cn = i)
         then Some (summarise 1 i (cd_now two_queries) (cd_log two_queries))
         else attr_map (cd_attribution two_queries) (c, i, p))" by blast
  have "attr_map as (1, 3, 0) = Some (summarise 1 3 5 (cd_log two_queries))"
    using m [rule_format, of 1 3 0] c now by simp
  with r show ?thesis
    by (intro exI [of _ as] exI [of _ "summarise 1 3 5 (cd_log two_queries)"])
      (simp add: summarise_def today_rows_def sum_costs_def now two_queries_def Let_def)
qed

text \<open>
  The savings of a day are what the DuckDB queries would have cost less what they cost, and a day's row never
  counts more DuckDB queries than queries.
\<close>

lemma summarise_counts:
  "at_QueriesDuckDB (summarise cid i now rs) \<le> at_QueriesTotal (summarise cid i now rs)"
  "at_DuckDBCostUSD (summarise cid i now rs) + at_EstimatedSavingsUSD (summarise cid i now rs) =
     sum_costs lr_estimated (filter (\<lambda>r. lr_route r = ''duckdb'') (today_rows cid i now rs))"
  by (simp_all add: summarise_def Let_def)

text \<open>
  The budget gate: a query is refused exactly when the database answers, the customer has a budget with a cap other
  than zero, and the spend of the month with the price exceeds the hard limit. When the database is down every query
  passes, and the hard block never reports an error.
\<close>

definition budget_of :: "uuid \<Rightarrow> cost_db \<Rightarrow> budget option" where
  "budget_of cid s = (if cd_fail s = None then find (\<lambda>b. bu_CustomerID b = cid) (cd_budgets s) else None)"

theorem budget_gate:
  shows "\<not> fst (PreflightAllow cid price s) \<longleftrightarrow>
     (\<exists>b. budget_of cid s = Some b \<and> bu_MonthlyCapUSD b \<noteq> 0 \<and>
       month_spend cid (month_start (cd_now s)) (cd_log s) + price > bu_MonthlyCapUSD b * real_of_int (bu_HardPct b) / 100)"
    and "HardBlock cid price s =
     (case budget_of cid s of
        None \<Rightarrow> (True, ''no_budget'')
      | Some b \<Rightarrow>
          if bu_MonthlyCapUSD b = 0 then (True, ''no_budget'')
          else if month_spend cid (month_start (cd_now s)) (cd_log s) + price > bu_MonthlyCapUSD b then (False, ''hard_cap_exceeded'')
          else (True, ''ok''))"
    and "cd_fail s = Some e \<Longrightarrow> fst (PreflightAllow cid price s) \<and> HardBlock cid price s = (True, ''no_budget'')"
  by (auto simp: PreflightAllow_def HardBlock_def budget_Status_def budget_of_def zero_budget_def Let_def split: option.split)

text \<open>
  The quota of a user: exact on every branch; a quota with the cap zero never blocks, and the database being down is
  an error here.
\<close>

theorem quota_Check_exact:
  "quota_Check usd cid user price s =
     (case cd_fail s of
        Some e \<Rightarrow> if e = quota_ErrNotFound then Ok (True, ''no quota configured'') else Err e
      | None \<Rightarrow>
          (case find (\<lambda>q. qu_CustomerID q = cid \<and> qu_UserSlug q = user) (cd_quotas s) of
             None \<Rightarrow> Ok (True, ''no quota configured'')
           | Some q \<Rightarrow>
               (let projected = month_spend cid (month_start (cd_now s)) (cd_log s) + price;
                    over = 0 < qu_MonthlyCapUSD q \<and> qu_MonthlyCapUSD q < projected;
                    amounts = ''projected $'' @ usd projected @ '' > cap $'' @ usd (qu_MonthlyCapUSD q)
                in Ok (if over \<and> qu_HardBlock q then (False, ''hard quota exceeded: '' @ amounts)
                       else if over then (True, ''soft quota exceeded (warn only): '' @ amounts)
                       else (True, ''ok'')))))"
  by (simp add: quota_Check_def quota_Get_def MonthSpend_def Let_def split: option.split)

text \<open>
  The forecast covers the month: the days up to now and those left are the month's days, except at midnight exactly,
  when one day is counted twice.
\<close>

theorem budget_days:
  "(cd_now s - month_start (cd_now s)) div day + 1 + (month_end (cd_now s) - cd_now s) div day =
     (month_end (cd_now s) - month_start (cd_now s)) div day + (if cd_now s mod day = 0 then 1 else 0)"
proof -
  obtain y yd m d where ym: "year_of (cd_now s div day) 1970 = (y, yd)" "month_of y yd 1 = (m, d)"
    by (metis prod.exhaust)
  define a where "a = days_before y + days_before_month y m"
  have a: "month_start (cd_now s) = a * day" using ym by (simp add: month_start_def a_def)
  have "month_end (cd_now s) = a * day + month_length y m * day" using ym a by (simp add: month_end_def)
  then obtain b where b: "month_end (cd_now s) = b * day" by (metis distrib_right)
  have pos: "day > 0" by (simp add: day_def second_def)
  have "cd_now s = cd_now s div day * day + cd_now s mod day" by simp
  moreover have "(b * day - cd_now s) div day = b - cd_now s div day - (if cd_now s mod day = 0 then 0 else 1)"
  proof -
    have "b * day - cd_now s = (b - cd_now s div day) * day - cd_now s mod day"
      by (simp add: algebra_simps minus_mod_eq_mult_div [symmetric])
    moreover have "((b - cd_now s div day) * day - cd_now s mod day) div day =
        (b - cd_now s div day) + (- (cd_now s mod day)) div day"
      using div_mult_self1 [of day "- (cd_now s mod day)" "b - cd_now s div day"] pos by simp
    moreover have "(- (cd_now s mod day)) div day = (if cd_now s mod day = 0 then 0 else - 1)"
      using pos pos_mod_bound [OF pos, of "cd_now s"] pos_mod_sign [OF pos, of "cd_now s"]
      by (simp add: zdiv_zminus1_eq_if)
    ultimately show ?thesis by simp
  qed
  moreover have "(cd_now s - a * day) div day = cd_now s div day - a"
    using div_mult_self1 [of day "cd_now s" "- a"] pos by simp
  moreover have "(b * day - a * day) div day = b - a" using pos by (simp add: left_diff_distrib [symmetric])
  ultimately show ?thesis by (simp add: a b)
qed

end
