(* ===== verification/Cost_Reports.thy ===== *)
theory Cost_Reports
  imports Cost_Control Query_Diff
begin

text \<open>
  The cost endpoints of the control API: the pre-flight check (\<^verbatim>\<open>api/cost_preflight.go\<close>), the quota
  handlers with the scheduling advice (\<^verbatim>\<open>quotas_handlers.go\<close>), the forecast (\<^verbatim>\<open>cost_forecast.go\<close>), the spend
  breakdown (\<^verbatim>\<open>spend_breakdown.go\<close>) and the CSV export (\<^verbatim>\<open>cost_attribution_export.go\<close>).

  A handler returns an error response or the value it encodes. Durations are 64-bit words where the code multiplies
  them; \<open>usd\<close> renders an amount with the verb \%.2f, \<open>usd6\<close> with \%.6f.
\<close>

section \<open>Pre-flight\<close>

record preflight_request =
  pf_CustomerID :: string
  pf_SQL :: string

record preflight_response =
  pr_EstimatedBytesScanned :: int
  pr_EstimatedCostUSD :: real
  pr_Warehouse :: string
  pr_WouldBlockIfOverBudget :: bool
  pr_BudgetReason :: string
  pr_UnknownTables :: "string list"

text \<open>The rest of a handler after a step that may fail with a status.\<close>

definition or_status :: "nat \<Rightarrow> 'a go \<Rightarrow> ('a \<Rightarrow> response + 'b) \<Rightarrow> response + 'b" where
  "or_status status r f = (case r of Ok x \<Rightarrow> f x | Err e \<Rightarrow> Inl (writeErr status e) | Panic \<Rightarrow> Inl (writeJSON 500 NoBody))"

definition resolvePreflightCustomer :: "api_env \<Rightarrow> http_request \<Rightarrow> string \<Rightarrow> db \<Rightarrow> uuid go" where
  "resolvePreflightCustomer E r raw d =
     (if raw \<noteq> []
      then (case ae_uuid_Parse E raw of
              Ok u \<Rightarrow> Ok u
            | Err e \<Rightarrow> Err (ErrorfW (''invalid customer_id: '' @ Error e) e)
            | Panic \<Rightarrow> Panic)
      else activeCustomer r d)"

definition primaryWarehouseFor :: "uuid \<Rightarrow> db \<Rightarrow> string go" where
  "primaryWarehouseFor customerID d =
     bind_go (ListConnections customerID d) (\<lambda>conns.
       case conns of [] \<Rightarrow> Ok ''bigquery'' | c # _ \<Rightarrow> Ok (cn_WarehouseType c))"

definition config_estimator :: "cost_config \<Rightarrow> estimator" where
  "config_estimator cfg = estimator_New (cc_BigQueryUSDPerTiB cfg) (cc_SnowflakeUSDPerTiB cfg)"

definition preflightCheck ::
  "api_env \<Rightarrow> parser \<Rightarrow> cost_config \<Rightarrow> (real \<Rightarrow> string) \<Rightarrow> preflight_request go \<Rightarrow> http_request \<Rightarrow> cost_db \<Rightarrow> response + preflight_response" where
  "preflightCheck E parse cfg usd body r s =
     or_status 400 body (\<lambda>req.
       if pf_SQL req = [] then Inl (writeErr 400 (Errorf ''sql required''))
       else or_status 400 (resolvePreflightCustomer E r (pf_CustomerID req) (cd_db s)) (\<lambda>cid.
         or_status 500 (primaryWarehouseFor cid (cd_db s)) (\<lambda>warehouse.
           or_status 500 (EstimateSQL (config_estimator cfg) parse cid warehouse (pf_SQL req) (cd_db s)) (\<lambda>(bytes, cost, unknown).
             let (allow, st) = PreflightAllow cid cost s in
             Inr \<lparr>pr_EstimatedBytesScanned = bytes, pr_EstimatedCostUSD = cost, pr_Warehouse = warehouse,
                  pr_WouldBlockIfOverBudget = (\<not> allow),
                  pr_BudgetReason = (if allow then []
                    else ''would exceed hard cap: spend $'' @ usd (bs_SpendMTDUSD st) @ '' + est $'' @ usd cost @ '' > cap $'' @
                      usd (bu_MonthlyCapUSD (bs_Budget st))),
                  pr_UnknownTables = unknown\<rparr>))))"

section \<open>Quotas and scheduling advice\<close>

definition listQuotas :: "api_env \<Rightarrow> string \<Rightarrow> cost_db \<Rightarrow> response + quota list" where
  "listQuotas E i s = or_status 400 (parseUUID E ''id'' i) (\<lambda>cid. or_status 500 (quota_List cid s) Inr)"

definition upsertQuota :: "quota go \<Rightarrow> cost_db \<Rightarrow> (response + quota) \<times> cost_db" where
  "upsertQuota body s =
     (case body of
        Err e \<Rightarrow> (Inl (writeErr 400 e), s)
      | Panic \<Rightarrow> (Inl (writeJSON 500 NoBody), s)
      | Ok q \<Rightarrow> (case quota_Upsert q s of (r, s') \<Rightarrow> (or_status 400 r (\<lambda>_. Inr q), s')))"

record suggest_request =
  sg_CustomerID :: string
  sg_SQL :: string
  sg_UserSlug :: string

record suggestion =
  su_suggest_schedule :: bool
  su_estimated_cost_usd :: real
  su_estimated_bytes :: int
  su_warehouse :: string
  su_unknown_tables :: "string list"
  su_quota_allowed :: bool
  su_quota_reason :: string
  su_reason :: "string option"

definition scheduleSuggest ::
  "api_env \<Rightarrow> parser \<Rightarrow> cost_config \<Rightarrow> (real \<Rightarrow> string) \<Rightarrow> suggest_request go \<Rightarrow> http_request \<Rightarrow> cost_db \<Rightarrow> response + suggestion" where
  "scheduleSuggest E parse cfg usd body r s =
     or_status 400 body (\<lambda>req.
       if sg_SQL req = [] \<or> sg_UserSlug req = [] then Inl (writeErr 400 (Errorf ''sql + user_slug required''))
       else or_status 400 (resolvePreflightCustomer E r (sg_CustomerID req) (cd_db s)) (\<lambda>cid.
         or_status 500 (primaryWarehouseFor cid (cd_db s)) (\<lambda>warehouse.
           or_status 500 (EstimateSQL (config_estimator cfg) parse cid warehouse (sg_SQL req) (cd_db s)) (\<lambda>(bytes, cost, unknown).
             or_status 500 (quota_Check usd cid (sg_UserSlug req) cost s) (\<lambda>(allowed, reason).
               let resp = \<lparr>su_suggest_schedule = False, su_estimated_cost_usd = cost, su_estimated_bytes = bytes,
                           su_warehouse = warehouse, su_unknown_tables = unknown, su_quota_allowed = allowed,
                           su_quota_reason = reason, su_reason = None\<rparr> in
               if \<not> allowed
               then Inr (resp\<lparr>su_suggest_schedule := True,
                              su_reason := Some (''quota would be exceeded; defer to off-peak schedule: '' @ reason)\<rparr>)
               else or_status 500 (CapFor cid (sg_UserSlug req) s) (\<lambda>(cap, hasCap).
                 if hasCap \<and> cap > 0 \<and> cost > cap * 0.5
                 then Inr (resp\<lparr>su_suggest_schedule := True,
                   su_reason := Some (''estimated $'' @ usd cost @ '' > 50% of monthly cap $'' @ usd cap @
                     [CHR 0x20, CHR 0xE2, CHR 0x80, CHR 0x94] @ '' recommend scheduling off-peak'')\<rparr>)
                 else Inr resp))))))"

section \<open>Forecast\<close>

record forecast_response =
  fr_ForecastUSD :: real
  fr_ConfidenceLow :: real
  fr_ConfidenceHigh :: real
  fr_Method :: string
  fr_Samples :: nat

definition linearRegression :: "real list \<Rightarrow> real list \<Rightarrow> real \<times> real \<times> real" where
  "linearRegression xs ys =
     (let n = length xs in
      if n = 0 \<or> n \<noteq> length ys then (0, 0, 0)
      else (let sx = (\<Sum>i<n. xs ! i); sy = (\<Sum>i<n. ys ! i);
                sxx = (\<Sum>i<n. xs ! i * xs ! i); sxy = (\<Sum>i<n. xs ! i * ys ! i);
                fn = real n; denom = fn * sxx - sx * sx in
            if denom = 0 then (0, sy / fn, 0)
            else (let slope = (fn * sxy - sx * sy) / denom; intercept = (sy - slope * sx) / fn in
                  if n < 3 then (slope, intercept, 0)
                  else (slope, intercept,
                        sqrt ((\<Sum>i<n. (ys ! i - (slope * xs ! i + intercept)) * (ys ! i - (slope * xs ! i + intercept))) / real (n - 2))))))"

text \<open>What \<^verbatim>\<open>strconv.Atoi\<close> returns beside an error: zero for a syntax error, the nearest integer for a range error.\<close>

fun uint_scan :: "nat \<Rightarrow> string \<Rightarrow> nat option" where
  "uint_scan acc [] = Some acc"
| "uint_scan acc (c # cs) =
     (let n = of_char c :: nat in
      if 48 \<le> n \<and> n \<le> 57
      then (if 2 ^ 64 \<le> acc * 10 + (n - 48) then Some (2 ^ 64 - 1) else uint_scan (acc * 10 + (n - 48)) cs)
      else None)"

definition Atoi_value :: "string \<Rightarrow> int" where
  "Atoi_value s =
     (let neg = (s \<noteq> [] \<and> hd s = CHR ''-'');
          body = (if s \<noteq> [] \<and> hd s \<in> {CHR ''-'', CHR ''+''} then tl s else s)
      in if body = [] then 0
         else (case uint_scan 0 body of
                 None \<Rightarrow> 0
               | Some n \<Rightarrow> if neg then max (- (2 ^ 63)) (- int n) else min (2 ^ 63 - 1) (int n)))"

definition forecast_days :: "http_request \<Rightarrow> int" where
  "forecast_days r =
     (let days = Atoi_value (rq_Query r ''days''); days = (if days \<le> 0 then 30 else days) in if 365 < days then 365 else days)"

text \<open>The daily sums, GROUP BY date_trunc('day', started_at) ORDER BY the day.\<close>

definition daily_costs :: "uuid \<Rightarrow> int \<Rightarrow> log_row list \<Rightarrow> (int \<times> real) list" where
  "daily_costs cid now rs =
     (let hits = filter (\<lambda>r. lr_customer r = cid \<and> lr_StartedAt r \<ge> now - 60 * day \<and> lr_ActualCostUSD r \<noteq> None) rs in
      map (\<lambda>d. (d, sum_costs lr_ActualCostUSD (filter (\<lambda>r. day_start (lr_StartedAt r) = d) hits)))
        (sort (remdups (map (\<lambda>r. day_start (lr_StartedAt r)) hits))))"

definition costForecast :: "api_env \<Rightarrow> string \<Rightarrow> http_request \<Rightarrow> cost_db \<Rightarrow> response + forecast_response" where
  "costForecast E i r s =
     or_status 400 (parseUUID E ''id'' i) (\<lambda>cid.
       case cd_fail s of
         Some e \<Rightarrow> Inl (writeErr 500 e)
       | None \<Rightarrow>
           (let days = forecast_days r; rows = daily_costs cid (cd_now s) (cd_log s);
                xs = map (\<lambda>(d, _). real_of_int (d - fst (hd rows)) / real_of_int day) rows; ys = map snd rows in
            if length xs < 2
            then Inr \<lparr>fr_ForecastUSD = 0, fr_ConfidenceLow = 0, fr_ConfidenceHigh = 0, fr_Method = ''insufficient'', fr_Samples = length xs\<rparr>
            else (let (slope, intercept, residStd) = linearRegression xs ys;
                      lastX = xs ! (length xs - 1);
                      forecastTotal = sum_list (map (\<lambda>k. let yhat = slope * (lastX + real k) + intercept in if yhat < 0 then 0 else yhat)
                        [1..<nat days + 1]);
                      band = 2 * residStd * sqrt (real_of_int days);
                      low = (if forecastTotal - band < 0 then 0 else forecastTotal - band)
                  in Inr \<lparr>fr_ForecastUSD = forecastTotal, fr_ConfidenceLow = low, fr_ConfidenceHigh = forecastTotal + band,
                          fr_Method = ''ols-linear-60d'', fr_Samples = length xs\<rparr>)))"

section \<open>Spend breakdown\<close>

record spend_row =
  sp_Key :: string
  sp_CostUSD :: real
  sp_QueryCount :: nat
  sp_SharePct :: real

definition parseWindow :: "string \<Rightarrow> int" where
  "parseWindow s =
     (if s = [] then 30 * 24 * hour
      else (case Atoi (butlast s) of
              None \<Rightarrow> 30 * 24 * hour
            | Some n \<Rightarrow>
                if n \<le> 0 then 30 * 24 * hour
                else if last s \<noteq> CHR ''d'' \<and> last s \<noteq> CHR ''h'' then 30 * 24 * hour
                else (let d = (if last s = CHR ''d'' then duration n (24 * hour) else duration n hour) in
                      if 365 * 24 * hour < d then 365 * 24 * hour else d)))"

definition breakdownColumn :: "string \<Rightarrow> log_row \<Rightarrow> uuid option" where
  "breakdownColumn by' r =
     (if by' = ''user'' then q_UserID (lr_Entry r)
      else if by' = ''dashboard'' then q_DashboardID (lr_Entry r)
      else q_APIKeyID (lr_Entry r))"

definition spend_hits :: "uuid \<Rightarrow> int \<Rightarrow> log_row list \<Rightarrow> log_row list" where
  "spend_hits cid since rs = filter (\<lambda>r. lr_customer r = cid \<and> lr_StartedAt r \<ge> since \<and> lr_ActualCostUSD r \<noteq> None) rs"

definition spend_groups :: "(uuid \<Rightarrow> string) \<Rightarrow> string \<Rightarrow> log_row list \<Rightarrow> spend_row list" where
  "spend_groups text by' hits =
     map (\<lambda>k. let g = filter (\<lambda>r. breakdownColumn by' r = k) hits in
            \<lparr>sp_Key = (case k of Some u \<Rightarrow> text u | None \<Rightarrow> ''unattributed''), sp_CostUSD = sum_costs lr_ActualCostUSD g,
             sp_QueryCount = length g, sp_SharePct = 0\<rparr>)
       (remdups (map (breakdownColumn by') hits))"

definition queryBreakdown :: "api_env \<Rightarrow> uuid \<Rightarrow> string \<Rightarrow> int \<Rightarrow> cost_db \<Rightarrow> (spend_row list \<times> real) go" where
  "queryBreakdown E cid by' since s =
     (case cd_fail s of
        Some e \<Rightarrow> Err e
      | None \<Rightarrow>
          (let out = take 500 (sort_key (\<lambda>x. - sp_CostUSD x) (spend_groups (ae_uuid_String E) by' (spend_hits cid since (cd_log s))));
               total = sum_list (map sp_CostUSD out)
           in Ok (if total > 0 then map (\<lambda>x. x\<lparr>sp_SharePct := sp_CostUSD x / total * 100\<rparr>) out else out, total)))"

definition spendBreakdown :: "api_env \<Rightarrow> string \<Rightarrow> http_request \<Rightarrow> cost_db \<Rightarrow> response + (spend_row list \<times> real)" where
  "spendBreakdown E i r s =
     or_status 400 (parseUUID E ''id'' i) (\<lambda>cid.
       let q = ToLower (rq_Query r ''by''); by' = (if q = [] then ''api_key'' else q) in
       if by' \<notin> set [''user'', ''api_key'', ''dashboard''] then Inl (writeErr 400 (Errorf ''by must be user|api_key|dashboard''))
       else or_status 500 (queryBreakdown E cid by' (cd_now s - parseWindow (rq_Query r ''window'')) s) Inr)"

section \<open>Export\<close>

record export_response =
  ex_Source :: string
  ex_Rows :: "string list list"

definition parseTimeQ :: "http_request \<Rightarrow> string \<Rightarrow> int \<Rightarrow> int" where
  "parseTimeQ r key fallback =
     (if rq_Query r key = [] then fallback
      else (case time_Parse RFC3339 (rq_Query r key) of Some t \<Rightarrow> t | None \<Rightarrow> fallback))"

definition export_header :: "string list" where
  "export_header = [''period_start'', ''period_end'', ''warehouse_cost_usd'', ''duckdb_cost_usd'', ''estimated_savings_usd'',
     ''queries_total'', ''queries_duckdb'']"

definition export_row :: "(real \<Rightarrow> string) \<Rightarrow> int \<Rightarrow> int \<Rightarrow> real \<Rightarrow> real \<Rightarrow> real \<Rightarrow> nat \<Rightarrow> nat \<Rightarrow> string list" where
  "export_row usd6 ps pe wh duck sav qt qd =
     [FormatRFC3339 ps, FormatRFC3339 pe, usd6 wh, usd6 duck, usd6 sav, Itoa (int qt), Itoa (int qd)]"

definition derived_row :: "(real \<Rightarrow> string) \<Rightarrow> log_row list \<Rightarrow> int \<Rightarrow> string list" where
  "derived_row usd6 hits d =
     (let ts = filter (\<lambda>r. day_start (lr_StartedAt r) = d) hits;
          paid = filter (\<lambda>r. lr_route r \<in> set [''warehouse'', ''fallback'']) ts;
          duck = filter (\<lambda>r. lr_route r = ''duckdb'') ts
      in export_row usd6 d (d + day) (sum_costs lr_ActualCostUSD paid) (sum_costs lr_ActualCostUSD duck)
           (sum_costs lr_estimated duck - sum_costs lr_ActualCostUSD duck) (length ts) (length duck))"

definition costAttributionCSV :: "api_env \<Rightarrow> (real \<Rightarrow> string) \<Rightarrow> string \<Rightarrow> http_request \<Rightarrow> cost_db \<Rightarrow> response + export_response" where
  "costAttributionCSV E usd6 i r s =
     or_status 400 (parseUUID E ''id'' i) (\<lambda>cid.
       let since = parseTimeQ r ''since'' (cd_now s - 30 * 24 * hour); until = parseTimeQ r ''until'' (cd_now s);
           rolled = filter (\<lambda>a. at_CustomerID a = cid \<and> at_PeriodStart a \<ge> since \<and> at_PeriodEnd a \<le> until) (cd_attribution s);
           hits = filter (\<lambda>r. lr_customer r = cid \<and> lr_StartedAt r \<ge> since \<and> lr_StartedAt r < until) (cd_log s)
       in case cd_fail s of
         Some e \<Rightarrow> Inl (writeErr 500 e)
       | None \<Rightarrow>
           if rolled \<noteq> []
           then Inr \<lparr>ex_Source = ''cost_attribution'',
                     ex_Rows = export_header # map (\<lambda>a. export_row usd6 (at_PeriodStart a) (at_PeriodEnd a) (at_WarehouseCostUSD a)
                       (at_DuckDBCostUSD a) (at_EstimatedSavingsUSD a) (at_QueriesTotal a) (at_QueriesDuckDB a)) (sort_key at_PeriodStart rolled)\<rparr>
           else Inr \<lparr>ex_Source = ''query_log_derived'',
                     ex_Rows = export_header # map (derived_row usd6 hits) (sort (remdups (map (\<lambda>r. day_start (lr_StartedAt r)) hits)))\<rparr>)"

section \<open>Least squares\<close>

text \<open>The sum of squared residuals of a line.\<close>

definition ssr :: "real list \<Rightarrow> real list \<Rightarrow> real \<Rightarrow> real \<Rightarrow> real" where
  "ssr xs ys m b = (\<Sum>i<length xs. (ys ! i - (m * xs ! i + b))\<^sup>2)"

text \<open>A line whose residuals sum to zero, plain and weighted by x, is at least as good as every other line.\<close>

lemma normal_equations_optimal:
  assumes "(\<Sum>i<length xs. ys ! i - (m * xs ! i + b)) = 0"
    and "(\<Sum>i<length xs. xs ! i * (ys ! i - (m * xs ! i + b))) = 0"
  shows "ssr xs ys m b \<le> ssr xs ys m' b'"
proof -
  let ?r = "\<lambda>i. ys ! i - (m * xs ! i + b)" and ?e = "\<lambda>i. (m - m') * xs ! i + (b - b')"
  have "ssr xs ys m' b' = (\<Sum>i<length xs. (?r i)\<^sup>2 + 2 * (m - m') * (xs ! i * ?r i) + 2 * (b - b') * ?r i + (?e i)\<^sup>2)"
    unfolding ssr_def by (rule sum.cong) (simp_all add: power2_eq_square algebra_simps)
  also have "\<dots> = ssr xs ys m b + 2 * (m - m') * (\<Sum>i<length xs. xs ! i * ?r i) + 2 * (b - b') * (\<Sum>i<length xs. ?r i) +
      (\<Sum>i<length xs. (?e i)\<^sup>2)"
    by (simp add: ssr_def sum.distrib sum_distrib_left)
  finally show ?thesis using assms by (simp add: sum_nonneg)
qed

lemma spread_zero:
  assumes "real n * (\<Sum>i<n. x i * x i) - (\<Sum>i<n. x i) * (\<Sum>i<n. x i) = 0" and "n > 0" and "k < n"
  shows "x k = (\<Sum>i<n. x i) / real n"
proof -
  define s where "s = (\<Sum>i<n. x i)"
  have "(\<Sum>i<n. (real n * x i - s)\<^sup>2) = (\<Sum>i<n. real n * real n * (x i * x i) - 2 * real n * s * x i + s * s)"
    by (rule sum.cong) (simp_all add: power2_eq_square algebra_simps)
  also have "\<dots> = real n * real n * (\<Sum>i<n. x i * x i) - 2 * real n * s * s + real n * (s * s)"
    by (simp add: sum.distrib sum_subtractf s_def flip: sum_distrib_left)
  also have "\<dots> = real n * (real n * (\<Sum>i<n. x i * x i) - s * s)" by (simp add: algebra_simps)
  finally have "(\<Sum>i<n. (real n * x i - s)\<^sup>2) = 0" using assms(1) by (simp add: s_def)
  then have "(real n * x k - s)\<^sup>2 = 0" using assms(3) by (simp add: sum_nonneg_eq_0_iff)
  then show ?thesis using assms(2) by (simp add: field_simps s_def)
qed

lemma regression_normal:
  assumes "length ys = length xs" and "xs \<noteq> []" and "linearRegression xs ys = (m, b, sd)"
  shows "(\<Sum>i<length xs. ys ! i - (m * xs ! i + b)) = 0" and "(\<Sum>i<length xs. xs ! i * (ys ! i - (m * xs ! i + b))) = 0"
proof -
  define n where "n = length xs"
  define sx sy sxx sxy where "sx = (\<Sum>i<n. xs ! i)" and "sy = (\<Sum>i<n. ys ! i)" and "sxx = (\<Sum>i<n. xs ! i * xs ! i)"
    and "sxy = (\<Sum>i<n. xs ! i * ys ! i)"
  note sums = sx_def sy_def sxx_def sxy_def
  have n: "real n > 0" using assms(2) by (simp add: n_def)
  have plain: "(\<Sum>i<n. ys ! i - (m * xs ! i + b)) = sy - m * sx - real n * b"
    by (simp add: sums sum_subtractf sum.distrib sum_distrib_left)
  have weighted: "(\<Sum>i<n. xs ! i * (ys ! i - (m * xs ! i + b))) = sxy - m * sxx - b * sx"
    by (simp add: sums sum_subtractf sum.distrib sum_distrib_left algebra_simps)
  have "sy - m * sx - real n * b = 0 \<and> (\<Sum>i<n. xs ! i * (ys ! i - (m * xs ! i + b))) = 0"
  proof (cases "real n * sxx - sx * sx = 0")
    case True
    then have "m = 0" "b = sy / real n" using assms by (auto simp: linearRegression_def Let_def n_def sums)
    then have zero: "sy - m * sx - real n * b = 0" using n by simp
    have "xs ! k = sx / real n" if "k < n" for k
      unfolding sx_def by (rule spread_zero) (use True that n in \<open>simp_all add: sums\<close>)
    then have "(\<Sum>i<n. xs ! i * (ys ! i - (m * xs ! i + b))) = (\<Sum>i<n. sx / real n * (ys ! i - (m * xs ! i + b)))"
      by (intro sum.cong) simp_all
    also have "\<dots> = sx / real n * (\<Sum>i<n. ys ! i - (m * xs ! i + b))" by (simp add: sum_distrib_left)
    finally show ?thesis using plain zero by simp
  next
    case False
    let ?d = "real n * sxx - sx * sx"
    have m: "m = (real n * sxy - sx * sy) / ?d" and b: "b = (sy - m * sx) / real n"
      using assms False by (auto simp: linearRegression_def Let_def n_def sums split: if_splits)
    have nb: "real n * b = sy - m * sx" using n b by simp
    have "m * ?d = real n * sxy - sx * sy" using False m by simp
    then have "real n * (sxy - m * sxx) = sx * (sy - m * sx)" by (simp add: algebra_simps)
    also have "\<dots> = real n * (b * sx)" unfolding nb [symmetric] by simp
    finally show ?thesis using n nb weighted by simp
  qed
  then show "(\<Sum>i<length xs. ys ! i - (m * xs ! i + b)) = 0" "(\<Sum>i<length xs. xs ! i * (ys ! i - (m * xs ! i + b))) = 0"
    using plain by (simp_all add: n_def)
qed

theorem linearRegression_least_squares:
  assumes "length ys = length xs" and "xs \<noteq> []" and "linearRegression xs ys = (m, b, sd)"
  shows "ssr xs ys m b \<le> ssr xs ys m' b'"
    and "3 \<le> length xs \<Longrightarrow> \<exists>i<length xs. \<exists>j<length xs. xs ! i \<noteq> xs ! j \<Longrightarrow> sd\<^sup>2 * real (length xs - 2) = ssr xs ys m b"
proof -
  show "ssr xs ys m b \<le> ssr xs ys m' b'" by (rule normal_equations_optimal [OF regression_normal [OF assms]])
  assume three: "3 \<le> length xs" and "\<exists>i<length xs. \<exists>j<length xs. xs ! i \<noteq> xs ! j"
  then have "real (length xs) * (\<Sum>i<length xs. xs ! i * xs ! i) - (\<Sum>i<length xs. xs ! i) * (\<Sum>i<length xs. xs ! i) \<noteq> 0"
    using spread_zero [of "length xs" "\<lambda>i. xs ! i"] assms(2) by (metis length_greater_0_conv)
  then have "sd = sqrt (ssr xs ys m b / real (length xs - 2))"
    using assms three by (auto simp: linearRegression_def Let_def ssr_def power2_eq_square)
  then show "sd\<^sup>2 * real (length xs - 2) = ssr xs ys m b" using three by (simp add: ssr_def sum_nonneg)
qed

text \<open>A forecast is not negative and lies within its band; its horizon is between one day and a year.\<close>

lemma residual_nonneg: "linearRegression xs ys = (m, b, sd) \<Longrightarrow> 0 \<le> sd"
  by (auto simp: linearRegression_def Let_def sum_nonneg split: if_splits)

lemma forecast_days_bounds: "1 \<le> forecast_days r \<and> forecast_days r \<le> 365"
  by (simp add: forecast_days_def Let_def)

theorem costForecast_band:
  assumes "costForecast E i r s = Inr f"
  shows "0 \<le> fr_ConfidenceLow f \<and> fr_ConfidenceLow f \<le> fr_ForecastUSD f \<and> fr_ForecastUSD f \<le> fr_ConfidenceHigh f"
proof -
  have band: "0 \<le> 2 * sd * sqrt (real_of_int (forecast_days r))" if "linearRegression xs ys = (m, b, sd)" for xs ys m b sd
    using residual_nonneg [OF that] forecast_days_bounds [of r] by simp
  have total: "0 \<le> sum_list (map (\<lambda>k. let yhat = m * (x + real k) + b in if yhat < 0 then 0 else yhat) ks)" for m b x :: real and ks
    by (rule sum_list_nonneg) (auto simp: Let_def)
  show ?thesis using assms band total
    by (auto simp: costForecast_def or_status_def Let_def split: go.splits option.splits prod.splits if_splits)
qed

section \<open>Windows and breakdowns\<close>

text \<open>
  A window never exceeds a year. It is positive as long as the number fits a duration, which the code does not check:
  106752 days are more nanoseconds than 64 bits hold, and the window is negative.
\<close>

theorem parseWindow_bounds:
  "parseWindow s \<le> 365 * 24 * hour"
  "\<forall>n. Atoi (butlast s) = Some n \<longrightarrow> n \<le> 106751 \<Longrightarrow> 0 < parseWindow s"
  "parseWindow ''106752d'' < 0"
proof -
  show "parseWindow s \<le> 365 * 24 * hour" by (simp add: parseWindow_def Let_def hour_def second_def split: option.split)
  assume small: "\<forall>n. Atoi (butlast s) = Some n \<longrightarrow> n \<le> 106751"
  have "0 < duration n unit" if "0 < n" "n \<le> 106751" "unit \<in> {hour, 24 * hour}" for n unit
    using that by (subst duration_exact) (auto simp: hour_def second_def)
  then show "0 < parseWindow s" using small
    by (auto simp: parseWindow_def Let_def hour_def second_def split: option.split)
next
  show "parseWindow ''106752d'' < 0"
    by (simp add: parseWindow_def Atoi_def Let_def duration_def hour_def second_def)
qed

lemma sum_costs_simps [simp]:
  "sum_costs f [] = 0" "sum_costs f (r # rs) = (case f r of Some x \<Rightarrow> x | None \<Rightarrow> 0) + sum_costs f rs"
  by (simp_all add: sum_costs_def)

lemma sum_costs_group:
  "sum_list (map (\<lambda>k. sum_costs f (filter (\<lambda>r. g r = k) rs)) (remdups ks)) = sum_costs f (filter (\<lambda>r. g r \<in> set ks) rs)"
proof (induction rs)
  case (Cons r rs)
  have "sum_list (map (\<lambda>k. sum_costs f (filter (\<lambda>r. g r = k) (r # rs))) (remdups ks)) =
      sum_list (map (\<lambda>k. (if g r = k then case f r of Some x \<Rightarrow> x | None \<Rightarrow> 0 else 0) + sum_costs f (filter (\<lambda>r. g r = k) rs)) (remdups ks))"
    by (intro arg_cong [where f = sum_list] map_cong) auto
  also have "\<dots> = (if g r \<in> set ks then case f r of Some x \<Rightarrow> x | None \<Rightarrow> 0 else 0) +
      sum_list (map (\<lambda>k. sum_costs f (filter (\<lambda>r. g r = k) rs)) (remdups ks))"
    by (simp add: sum_list_addf sum_list_distinct_conv_sum_set)
  finally show ?case using Cons by simp
qed (simp add: sum_list_0)

lemma count_groups:
  "set (map g rs) \<subseteq> set ks \<Longrightarrow> sum_list (map (\<lambda>k. length (filter (\<lambda>r. g r = k) rs)) (remdups ks)) = length rs"
proof (induction rs)
  case (Cons r rs)
  have "sum_list (map (\<lambda>k. length (filter (\<lambda>r. g r = k) (r # rs))) (remdups ks)) =
      sum_list (map (\<lambda>k. (if g r = k then 1 else 0) + length (filter (\<lambda>r. g r = k) rs)) (remdups ks))"
    by (intro arg_cong [where f = sum_list] map_cong) auto
  also have "\<dots> = 1 + sum_list (map (\<lambda>k. length (filter (\<lambda>r. g r = k) rs)) (remdups ks))"
    using Cons.prems by (simp add: sum_list_addf sum_list_distinct_conv_sum_set)
  finally show ?case using Cons by simp
qed simp

lemma spend_groups_total:
  "sum_list (map sp_CostUSD (spend_groups text by' hits)) = sum_costs lr_ActualCostUSD hits"
proof -
  have "filter (\<lambda>r. breakdownColumn by' r \<in> set (map (breakdownColumn by') hits)) hits = hits" by (simp add: filter_id_conv)
  then show ?thesis
    using sum_costs_group [of lr_ActualCostUSD "breakdownColumn by'" hits "map (breakdownColumn by') hits"]
    by (simp add: spend_groups_def comp_def Let_def)
qed

lemma sum_sort_key: "sum_list (map f (sort_key k xs)) = sum_list (map f xs)" for f :: "'a \<Rightarrow> 'b :: comm_monoid_add"
proof -
  have "mset (map f (sort_key k xs)) = mset (map f xs)" by simp
  then show ?thesis by (metis sum_mset_sum_list)
qed

text \<open>
  A breakdown accounts for the spend: with at most 500 groups the total is all the spend of the window (never
  counted twice), and shares of a positive total add up to 100.
\<close>

theorem breakdown_accounts:
  assumes "queryBreakdown E cid by' since s = Ok (rows, tot)"
  shows "tot = sum_list (map sp_CostUSD rows)"
    and "0 < tot \<Longrightarrow> sum_list (map sp_SharePct rows) = 100"
    and "length (remdups (map (breakdownColumn by') (spend_hits cid since (cd_log s)))) \<le> 500 \<Longrightarrow>
      tot = sum_costs lr_ActualCostUSD (spend_hits cid since (cd_log s)) \<and>
      sum_list (map sp_QueryCount rows) = length (spend_hits cid since (cd_log s))"
proof -
  let ?hits = "spend_hits cid since (cd_log s)"
  define out where "out = take 500 (sort_key (\<lambda>x. - sp_CostUSD x) (spend_groups (ae_uuid_String E) by' ?hits))"
  have tot: "tot = sum_list (map sp_CostUSD out)"
    and rows: "rows = (if tot > 0 then map (\<lambda>x. x\<lparr>sp_SharePct := sp_CostUSD x / tot * 100\<rparr>) out else out)"
    using assms by (auto simp: queryBreakdown_def out_def Let_def split: option.splits)
  show "tot = sum_list (map sp_CostUSD rows)" using tot rows by (simp add: comp_def)
  show "sum_list (map sp_SharePct rows) = 100" if "0 < tot"
  proof -
    have "sum_list (map (\<lambda>x. sp_CostUSD x / tot * 100) out) = sum_list (map sp_CostUSD out) / tot * 100"
      by (induction out) (simp_all add: add_divide_distrib)
    with that tot rows show ?thesis by (simp add: comp_def)
  qed
  assume "length (remdups (map (breakdownColumn by') ?hits)) \<le> 500"
  then have out: "out = sort_key (\<lambda>x. - sp_CostUSD x) (spend_groups (ae_uuid_String E) by' ?hits)"
    by (simp add: out_def spend_groups_def)
  have "sum_list (map sp_QueryCount rows) = sum_list (map sp_QueryCount (spend_groups (ae_uuid_String E) by' ?hits))"
    using rows out by (simp add: comp_def sum_sort_key)
  also have "\<dots> = length ?hits"
    using count_groups [of "breakdownColumn by'" ?hits "map (breakdownColumn by') ?hits"] by (simp add: spend_groups_def comp_def Let_def)
  finally show "tot = sum_costs lr_ActualCostUSD ?hits \<and> sum_list (map sp_QueryCount rows) = length ?hits"
    using tot by (simp add: out sum_sort_key spend_groups_total)
qed

end
