(* ===== verification/Schema_Diff.thy ===== *)
theory Schema_Diff
  imports Api_Server Connectors "HOL-Library.AList"
begin

text \<open>
  Schema snapshots and their differences, \<^verbatim>\<open>internal/api/schema_diff.go\<close>. Go's maps are association lists in
  the order of iteration. The JSON of a snapshot is a parameter with its two directions. A capture asks the
  connector for its tables; that is the parameter \<open>introspecter\<close>, \<open>None\<close> for a connector type without the method.
\<close>

section \<open>Snapshots\<close>

record snapshot_column =
  sc_Name :: string
  sc_Type :: string
  sc_Null :: bool

record snapshot_table =
  st_Schema :: string
  st_Name :: string
  st_RowCount :: int
  st_Columns :: "snapshot_column list"

record schema_snapshot =
  ss_ID :: uuid
  ss_CustomerID :: uuid
  ss_ConnectionID :: uuid
  ss_CapturedAt :: int
  ss_Payload :: bytes

record schema_col =
  cf_Table :: string
  cf_Column :: string
  cf_Type :: string

record type_change =
  tc_Table :: string
  tc_Column :: string
  tc_OldType :: string
  tc_NewType :: string

record schema_diff =
  sd_AddedTables :: "string list"
  sd_DroppedTables :: "string list"
  sd_AddedColumns :: "schema_col list"
  sd_DroppedColumns :: "schema_col list"
  sd_TypeChanges :: "type_change list"

section \<open>The difference\<close>

text \<open>A map filled by assignments in the order of a list.\<close>

definition index_by :: "('a \<Rightarrow> 'k) \<Rightarrow> 'a list \<Rightarrow> ('k \<times> 'a) list" where
  "index_by key xs = foldl (\<lambda>m x. AList.update (key x) x m) [] xs"

definition snapshot_fqn :: "snapshot_table \<Rightarrow> string" where
  "snapshot_fqn t = (if st_Schema t \<noteq> [] then st_Schema t @ ''.'' @ st_Name t else st_Name t)"

definition indexSnapshot :: "snapshot_table list \<Rightarrow> (string \<times> snapshot_table) list" where
  "indexSnapshot s = index_by snapshot_fqn s"

definition colMap :: "snapshot_column list \<Rightarrow> (string \<times> snapshot_column) list" where
  "colMap cols = index_by sc_Name cols"

text \<open>The entries of a map whose key another map lacks.\<close>

definition missing_in :: "('k \<times> 'a) list \<Rightarrow> ('k \<times> 'b) list \<Rightarrow> ('k \<times> 'a) list" where
  "missing_in xs ys = filter (\<lambda>(k, _). map_of ys k = None) xs"

definition column_refs :: "string \<Rightarrow> (string \<times> snapshot_column) list \<Rightarrow> schema_col list" where
  "column_refs fqn cs = map (\<lambda>(name, c). \<lparr>cf_Table = fqn, cf_Column = name, cf_Type = sc_Type c\<rparr>) cs"

definition type_changes :: "string \<Rightarrow> (string \<times> snapshot_column) list \<Rightarrow> (string \<times> snapshot_column) list \<Rightarrow> type_change list" where
  "type_changes fqn aCols bCols =
     concat (map (\<lambda>(name, ac).
       case map_of bCols name of
         Some bc \<Rightarrow> if sc_Type ac \<noteq> sc_Type bc
           then [\<lparr>tc_Table = fqn, tc_Column = name, tc_OldType = sc_Type ac, tc_NewType = sc_Type bc\<rparr>] else []
       | None \<Rightarrow> []) aCols)"

definition diffSnapshots :: "snapshot_table list \<Rightarrow> snapshot_table list \<Rightarrow> schema_diff" where
  "diffSnapshots a b =
     (let ai = indexSnapshot a; bi = indexSnapshot b;
          both = concat (map (\<lambda>(fqn, ta). case map_of bi fqn of None \<Rightarrow> [] | Some tb \<Rightarrow> [(fqn, colMap (st_Columns ta), colMap (st_Columns tb))]) ai)
      in \<lparr>sd_AddedTables = map fst (missing_in bi ai),
          sd_DroppedTables = map fst (missing_in ai bi),
          sd_AddedColumns = concat (map (\<lambda>(fqn, ac, bc). column_refs fqn (missing_in bc ac)) both),
          sd_DroppedColumns = concat (map (\<lambda>(fqn, ac, bc). column_refs fqn (missing_in ac bc)) both),
          sd_TypeChanges = concat (map (\<lambda>(fqn, ac, bc). type_changes fqn ac bc) both)\<rparr>)"

section \<open>The handlers\<close>

record snapshot_json =
  sj_Marshal :: "snapshot_table list \<Rightarrow> bytes go"
  sj_Unmarshal :: "bytes \<Rightarrow> snapshot_table list go"

record schema_db =
  sx_db :: db
  sx_snapshots :: "schema_snapshot list"

definition new_snapshot_id :: "schema_db \<Rightarrow> uuid" where
  "new_snapshot_id s = Suc (foldr max (map ss_ID (sx_snapshots s)) 0)"

definition captureSchema ::
  "api_env \<Rightarrow> sf_libs \<Rightarrow> bq_libs \<Rightarrow> aead \<Rightarrow> snapshot_json \<Rightarrow> (connector \<Rightarrow> snapshot_table list go option) \<Rightarrow> string \<Rightarrow> schema_db \<Rightarrow>
   (response + uuid \<times> int \<times> nat) \<times> schema_db" where
  "captureSchema E S B enc J introspecter i s =
     (case parseUUID E ''id'' i of
        Err e \<Rightarrow> (Inl (writeErr 400 e), s)
      | Panic \<Rightarrow> (Inl (writeJSON 500 NoBody), s)
      | Ok connID \<Rightarrow>
          (case db_fail (sx_db s) of
             Some e \<Rightarrow> (Inl (writeErr 500 e), s)
           | None \<Rightarrow>
               (case find (\<lambda>c. cn_ID c = connID) (connections (sx_db s)) of
                  None \<Rightarrow> (Inl (writeErr 404 (Errorf ''connection not found'')), s)
                | Some c \<Rightarrow>
                    (case factory_For S B enc (cn_CustomerID c) (cn_WarehouseType c) (sx_db s) of
                       Err e \<Rightarrow> (Inl (writeErr 500 e), s)
                     | Panic \<Rightarrow> (Inl (writeJSON 500 NoBody), s)
                     | Ok conn \<Rightarrow>
                         (case introspecter conn of
                            None \<Rightarrow> (Inl (writeErr 501 (Errorf (''connector '' @ Quote (cn_WarehouseType c) @ '' does not support introspection''))), s)
                          | Some (Err e) \<Rightarrow> (Inl (writeErr 502 (ErrorfW (''introspect: '' @ Error e) e)), s)
                          | Some Panic \<Rightarrow> (Inl (writeJSON 500 NoBody), s)
                          | Some (Ok tables) \<Rightarrow>
                              (case sj_Marshal J tables of
                                 Err e \<Rightarrow> (Inl (writeErr 500 e), s)
                               | Panic \<Rightarrow> (Inl (writeJSON 500 NoBody), s)
                               | Ok encoded \<Rightarrow>
                                   (let now = db_now (sx_db s);
                                        row = \<lparr>ss_ID = new_snapshot_id s, ss_CustomerID = cn_CustomerID c, ss_ConnectionID = connID,
                                               ss_CapturedAt = now, ss_Payload = encoded\<rparr> in
                                    if \<exists>x \<in> set (sx_snapshots s). ss_ConnectionID x = connID \<and> ss_CapturedAt x = now
                                    then (Inl (writeErr 500 constraint_violation), s)
                                    else (Inr (ss_ID row, now, length tables), s\<lparr>sx_snapshots := sx_snapshots s @ [row]\<rparr>))))))))"

text \<open>The error beside its status.\<close>

definition loadSnapshot :: "api_env \<Rightarrow> snapshot_json \<Rightarrow> uuid \<Rightarrow> uuid \<Rightarrow> schema_db \<Rightarrow> response + snapshot_table list" where
  "loadSnapshot E J connID snapID s =
     (case db_fail (sx_db s) of
        Some e \<Rightarrow> Inl (writeErr 500 e)
      | None \<Rightarrow>
          (case find (\<lambda>x. ss_ID x = snapID \<and> ss_ConnectionID x = connID) (sx_snapshots s) of
             None \<Rightarrow> Inl (writeErr 404 (Errorf (''snapshot '' @ ae_uuid_String E snapID @ '' not found'')))
           | Some x \<Rightarrow>
               (case sj_Unmarshal J (ss_Payload x) of
                  Ok out \<Rightarrow> Inr out
                | Err e \<Rightarrow> Inl (writeErr 500 (ErrorfW (''decode snapshot '' @ ae_uuid_String E snapID @ '': '' @ Error e) e))
                | Panic \<Rightarrow> Inl (writeJSON 500 NoBody))))"

definition query_uuid :: "api_env \<Rightarrow> http_request \<Rightarrow> string \<Rightarrow> uuid go" where
  "query_uuid E r key =
     (case ae_uuid_Parse E (rq_Query r key) of
        Ok u \<Rightarrow> Ok u
      | Err e \<Rightarrow> Err (ErrorfW (key @ '' uuid: '' @ Error e) e)
      | Panic \<Rightarrow> Panic)"

definition diffSchema :: "api_env \<Rightarrow> snapshot_json \<Rightarrow> string \<Rightarrow> http_request \<Rightarrow> schema_db \<Rightarrow> response + schema_diff" where
  "diffSchema E J i r s =
     (case (parseUUID E ''id'' i, query_uuid E r ''snapshot_a'', query_uuid E r ''snapshot_b'') of
        (Ok connID, Ok aID, Ok bID) \<Rightarrow>
          (case loadSnapshot E J connID aID s of
             Inl e \<Rightarrow> Inl e
           | Inr a \<Rightarrow> (case loadSnapshot E J connID bID s of Inl e \<Rightarrow> Inl e | Inr b \<Rightarrow> Inr (diffSnapshots a b)))
      | (Ok _, Ok _, Err e) \<Rightarrow> Inl (writeErr 400 e)
      | (Ok _, Err e, _) \<Rightarrow> Inl (writeErr 400 e)
      | (Err e, _, _) \<Rightarrow> Inl (writeErr 400 e)
      | _ \<Rightarrow> Inl (writeJSON 500 NoBody))"

section \<open>Lemmas\<close>

lemma index_by_snoc: "index_by key (xs @ [x]) = AList.update (key x) x (index_by key xs)"
  by (simp add: index_by_def)

lemma index_by_distinct: "distinct (map fst (index_by key xs))"
  by (induction xs rule: rev_induct) (simp_all add: index_by_snoc distinct_update, simp add: index_by_def)

lemma index_by_find: "map_of (index_by key xs) k = find (\<lambda>x. key x = k) (rev xs)"
  by (induction xs rule: rev_induct) (simp_all add: index_by_snoc update_conv', simp add: index_by_def)

lemma missing_in_iff: "distinct (map fst xs) \<Longrightarrow> (k, x) \<in> set (missing_in xs ys) \<longleftrightarrow> map_of xs k = Some x \<and> map_of ys k = None"
  by (auto simp: missing_in_def)

lemma missing_in_keys: "fst ` set (missing_in xs ys) = dom (map_of xs) - dom (map_of ys)"
  by (force simp: missing_in_def dom_map_of_conv_image_fst map_of_eq_None_iff image_iff)

text \<open>The last table of a name, and the last column of a name in a table: what a snapshot says.\<close>

definition table_at :: "snapshot_table list \<Rightarrow> string \<Rightarrow> snapshot_table option" where
  "table_at s f = find (\<lambda>t. snapshot_fqn t = f) (rev s)"

definition column_types :: "snapshot_table \<Rightarrow> string \<Rightarrow> string option" where
  "column_types t c = map_option sc_Type (find (\<lambda>x. sc_Name x = c) (rev (st_Columns t)))"

definition schema_of :: "snapshot_table list \<Rightarrow> string \<Rightarrow> (string \<Rightarrow> string option) option" where
  "schema_of s f = map_option column_types (table_at s f)"

lemma map_of_indexSnapshot: "map_of (indexSnapshot s) = table_at s"
  by (simp add: fun_eq_iff indexSnapshot_def index_by_find table_at_def)

lemma map_of_colMap: "map_option sc_Type (map_of (colMap (st_Columns t)) c) = column_types t c"
  by (simp add: colMap_def index_by_find column_types_def)

lemma colMap_distinct: "distinct (map fst (colMap cs))"
  by (simp add: colMap_def index_by_distinct)

lemma indexSnapshot_distinct: "distinct (map fst (indexSnapshot s))"
  by (simp add: indexSnapshot_def index_by_distinct)

lemma column_refs_iff:
  "distinct (map fst ac) \<Longrightarrow> r \<in> set (column_refs f (missing_in ac bc)) \<longleftrightarrow>
     cf_Table r = f \<and> map_option sc_Type (map_of ac (cf_Column r)) = Some (cf_Type r) \<and> map_of bc (cf_Column r) = None"
  by (cases r) (fastforce simp: column_refs_def missing_in_def image_iff)

lemma type_changes_iff:
  "distinct (map fst ac) \<Longrightarrow> r \<in> set (type_changes f ac bc) \<longleftrightarrow>
     tc_Table r = f \<and> map_option sc_Type (map_of ac (tc_Column r)) = Some (tc_OldType r) \<and>
     map_option sc_Type (map_of bc (tc_Column r)) = Some (tc_NewType r) \<and> tc_OldType r \<noteq> tc_NewType r"
proof -
  assume d: "distinct (map fst ac)"
  have "r \<in> set (type_changes f ac bc) \<longleftrightarrow> (\<exists>n x y. (n, x) \<in> set ac \<and> map_of bc n = Some y \<and> sc_Type x \<noteq> sc_Type y \<and>
      r = \<lparr>tc_Table = f, tc_Column = n, tc_OldType = sc_Type x, tc_NewType = sc_Type y\<rparr>)"
    by (force simp: type_changes_def split: option.splits if_splits)
  then show ?thesis by (cases r) (auto simp: map_of_eq_Some_iff [OF d, symmetric])
qed

lemma both_iff:
  "(f, ac, bc) \<in> set (concat (map (\<lambda>(fqn, ta). case map_of (indexSnapshot b) fqn of None \<Rightarrow> [] | Some tb \<Rightarrow>
       [(fqn, colMap (st_Columns ta), colMap (st_Columns tb))]) (indexSnapshot a))) \<longleftrightarrow>
     (\<exists>ta tb. table_at a f = Some ta \<and> table_at b f = Some tb \<and> ac = colMap (st_Columns ta) \<and> bc = colMap (st_Columns tb))"
  using map_of_eq_Some_iff [OF indexSnapshot_distinct, of a]
  by (force simp: map_of_indexSnapshot split: option.splits)

text \<open>The members of each list of a difference.\<close>

lemma diff_tables:
  "set (sd_AddedTables (diffSnapshots a b)) = dom (schema_of b) - dom (schema_of a)"
  "set (sd_DroppedTables (diffSnapshots a b)) = dom (schema_of a) - dom (schema_of b)"
  by (simp_all add: diffSnapshots_def Let_def missing_in_keys map_of_indexSnapshot schema_of_def dom_def)

lemma diff_member:
  "r \<in> set (concat (map (\<lambda>(fqn, ac, bc). F fqn ac bc) (concat (map (\<lambda>(fqn, ta). case map_of (indexSnapshot b) fqn of
       None \<Rightarrow> [] | Some tb \<Rightarrow> [(fqn, colMap (st_Columns ta), colMap (st_Columns tb))]) (indexSnapshot a))))) \<longleftrightarrow>
     (\<exists>f ta tb. table_at a f = Some ta \<and> table_at b f = Some tb \<and> r \<in> set (F f (colMap (st_Columns ta)) (colMap (st_Columns tb))))"
  unfolding set_concat [of "map (\<lambda>(fqn, ac, bc). F fqn ac bc) _"] set_map by (force simp del: set_concat simp: both_iff)

lemma map_of_colMap_None: "map_of (colMap (st_Columns t)) c = None \<longleftrightarrow> column_types t c = None"
  by (simp flip: map_of_colMap)

lemma added_column_iff:
  "r \<in> set (sd_AddedColumns (diffSnapshots a b)) \<longleftrightarrow>
     (\<exists>A B. schema_of a (cf_Table r) = Some A \<and> schema_of b (cf_Table r) = Some B \<and>
        B (cf_Column r) = Some (cf_Type r) \<and> A (cf_Column r) = None)"
  by (auto simp: diffSnapshots_def Let_def diff_member column_refs_iff colMap_distinct map_of_colMap map_of_colMap_None schema_of_def
      simp del: set_concat)

lemma dropped_column_iff:
  "r \<in> set (sd_DroppedColumns (diffSnapshots a b)) \<longleftrightarrow>
     (\<exists>A B. schema_of a (cf_Table r) = Some A \<and> schema_of b (cf_Table r) = Some B \<and>
        A (cf_Column r) = Some (cf_Type r) \<and> B (cf_Column r) = None)"
  by (auto simp: diffSnapshots_def Let_def diff_member column_refs_iff colMap_distinct map_of_colMap map_of_colMap_None schema_of_def
      simp del: set_concat)

lemma type_change_iff:
  "r \<in> set (sd_TypeChanges (diffSnapshots a b)) \<longleftrightarrow>
     (\<exists>A B. schema_of a (tc_Table r) = Some A \<and> schema_of b (tc_Table r) = Some B \<and>
        A (tc_Column r) = Some (tc_OldType r) \<and> B (tc_Column r) = Some (tc_NewType r) \<and> tc_OldType r \<noteq> tc_NewType r)"
  by (auto simp: diffSnapshots_def Let_def diff_member type_changes_iff colMap_distinct map_of_colMap schema_of_def simp del: set_concat)

section \<open>Theorems\<close>

text \<open>A schema after the changes that a difference lists; the columns of an added table are not in it.\<close>

definition patch_column :: "schema_diff \<Rightarrow> string \<Rightarrow> (string \<Rightarrow> string option) \<Rightarrow> string \<Rightarrow> string option" where
  "patch_column d f A c =
     (case find (\<lambda>r. cf_Table r = f \<and> cf_Column r = c) (sd_AddedColumns d) of
        Some r \<Rightarrow> Some (cf_Type r)
      | None \<Rightarrow>
          if \<exists>r \<in> set (sd_DroppedColumns d). cf_Table r = f \<and> cf_Column r = c then None
          else (case find (\<lambda>r. tc_Table r = f \<and> tc_Column r = c) (sd_TypeChanges d) of
                  Some r \<Rightarrow> Some (tc_NewType r)
                | None \<Rightarrow> A c))"

lemma find_Some_iff': "find P xs = Some x \<Longrightarrow> P x \<and> x \<in> set xs"
  by (auto simp: find_Some_iff)

lemma patch_column_exact:
  assumes "schema_of a f = Some A" and "schema_of b f = Some B"
  shows "patch_column (diffSnapshots a b) f A c = B c"
proof -
  let ?d = "diffSnapshots a b"
  show ?thesis
  proof (cases "find (\<lambda>r. cf_Table r = f \<and> cf_Column r = c) (sd_AddedColumns ?d)")
    case (Some r)
    then show ?thesis using find_Some_iff' [OF Some] assms by (auto simp: patch_column_def added_column_iff)
  next
    case None
    have na: "B c = None" if "A c = None"
    proof (rule ccontr)
      assume "B c \<noteq> None"
      then have "\<lparr>cf_Table = f, cf_Column = c, cf_Type = the (B c)\<rparr> \<in> set (sd_AddedColumns ?d)"
        using that assms by (auto simp: added_column_iff)
      with None show False by (auto simp: find_None_iff dest!: spec [of _ "\<lparr>cf_Table = f, cf_Column = c, cf_Type = the (B c)\<rparr>"])
    qed
    show ?thesis
    proof (cases "\<exists>r \<in> set (sd_DroppedColumns ?d). cf_Table r = f \<and> cf_Column r = c")
      case True
      with None assms show ?thesis by (auto simp: patch_column_def dropped_column_iff)
    next
      case False
      then have nd: "B c = None \<Longrightarrow> A c = None"
        using dropped_column_iff [of "\<lparr>cf_Table = f, cf_Column = c, cf_Type = the (A c)\<rparr>" a b] assms by fastforce
      show ?thesis
      proof (cases "find (\<lambda>r. tc_Table r = f \<and> tc_Column r = c) (sd_TypeChanges ?d)")
        case (Some r)
        then show ?thesis using find_Some_iff' [OF Some] None False assms by (auto simp: patch_column_def type_change_iff)
      next
        case n: None
        let ?r = "\<lparr>tc_Table = f, tc_Column = c, tc_OldType = the (A c), tc_NewType = the (B c)\<rparr>"
        have "A c = B c" if "A c \<noteq> None"
        proof (rule ccontr)
          assume "A c \<noteq> B c"
          then have "?r \<in> set (sd_TypeChanges ?d)" using that nd assms by (cases "B c") (auto simp: type_change_iff)
          with n show False by (auto simp: find_None_iff dest!: spec [of _ ?r])
        qed
        then show ?thesis using na n None False by (cases "A c") (auto simp: patch_column_def)
      qed
    qed
  qed
qed

lemma diff_empty_iff:
  "diffSnapshots a b = \<lparr>sd_AddedTables = [], sd_DroppedTables = [], sd_AddedColumns = [], sd_DroppedColumns = [], sd_TypeChanges = []\<rparr> \<longleftrightarrow>
     schema_of a = schema_of b" (is "_ = ?e \<longleftrightarrow> _")
proof
  assume e: "diffSnapshots a b = ?e"
  show "schema_of a = schema_of b"
  proof
    fix f
    have "schema_of a f = None \<longleftrightarrow> schema_of b f = None" using diff_tables [of a b] e by auto
    moreover have "A = B" if "schema_of a f = Some A" "schema_of b f = Some B" for A B
    proof
      fix c
      have "A c = patch_column ?e f A c" by (simp add: patch_column_def)
      also have "patch_column ?e f A c = B c" unfolding e [symmetric] by (rule patch_column_exact [OF that])
      finally show "A c = B c" .
    qed
    ultimately show "schema_of a f = schema_of b f" by (metis option.exhaust)
  qed
next
  assume "schema_of a = schema_of b"
  then have "r \<notin> set (sd_AddedTables (diffSnapshots a b))" "r \<notin> set (sd_DroppedTables (diffSnapshots a b))"
    "x \<notin> set (sd_AddedColumns (diffSnapshots a b))" "x \<notin> set (sd_DroppedColumns (diffSnapshots a b))"
    "y \<notin> set (sd_TypeChanges (diffSnapshots a b))" for r x y
    by (auto simp: diff_tables added_column_iff dropped_column_iff type_change_iff)
  then have "sd_AddedTables (diffSnapshots a b) = []" "sd_DroppedTables (diffSnapshots a b) = []"
    "sd_AddedColumns (diffSnapshots a b) = []" "sd_DroppedColumns (diffSnapshots a b) = []" "sd_TypeChanges (diffSnapshots a b) = []"
    by (metis list.set_intros(1) neq_Nil_conv)+
  then show "diffSnapshots a b = ?e" by (cases "diffSnapshots a b") simp
qed

lemma diff_reverse:
  "set (sd_AddedTables (diffSnapshots b a)) = set (sd_DroppedTables (diffSnapshots a b)) \<and>
   set (sd_AddedColumns (diffSnapshots b a)) = set (sd_DroppedColumns (diffSnapshots a b)) \<and>
   set (sd_TypeChanges (diffSnapshots b a)) = (\<lambda>r. r\<lparr>tc_OldType := tc_NewType r, tc_NewType := tc_OldType r\<rparr>) ` set (sd_TypeChanges (diffSnapshots a b))"
proof -
  have "r \<in> set (sd_TypeChanges (diffSnapshots b a)) \<longleftrightarrow>
      r\<lparr>tc_OldType := tc_NewType r, tc_NewType := tc_OldType r\<rparr> \<in> set (sd_TypeChanges (diffSnapshots a b))" for r
    by (auto simp: type_change_iff)
  then have "set (sd_TypeChanges (diffSnapshots b a)) =
      (\<lambda>r. r\<lparr>tc_OldType := tc_NewType r, tc_NewType := tc_OldType r\<rparr>) ` set (sd_TypeChanges (diffSnapshots a b))"
    by (force simp: image_iff)
  moreover have "set (sd_AddedColumns (diffSnapshots b a)) = set (sd_DroppedColumns (diffSnapshots a b))"
    by (auto simp: added_column_iff dropped_column_iff)
  ultimately show ?thesis by (simp add: diff_tables)
qed

text \<open>
  C32: a difference is complete and reversible: it leads from the tables of the first snapshot to those of the second, on every
  table that both have it leads from the column types of the first to those of the second, it is empty exactly when the
  two schemas agree, and the difference the other way round is the same with both directions exchanged.
\<close>

theorem schema_diff_patches:
  "dom (schema_of b) = (dom (schema_of a) - set (sd_DroppedTables (diffSnapshots a b))) \<union> set (sd_AddedTables (diffSnapshots a b)) \<and>
   (\<forall>f A B. schema_of a f = Some A \<longrightarrow> schema_of b f = Some B \<longrightarrow> patch_column (diffSnapshots a b) f A = B) \<and>
   (diffSnapshots a b = \<lparr>sd_AddedTables = [], sd_DroppedTables = [], sd_AddedColumns = [], sd_DroppedColumns = [], sd_TypeChanges = []\<rparr> \<longleftrightarrow>
     schema_of a = schema_of b) \<and>
   set (sd_AddedTables (diffSnapshots b a)) = set (sd_DroppedTables (diffSnapshots a b)) \<and>
   set (sd_AddedColumns (diffSnapshots b a)) = set (sd_DroppedColumns (diffSnapshots a b)) \<and>
   set (sd_TypeChanges (diffSnapshots b a)) = (\<lambda>r. r\<lparr>tc_OldType := tc_NewType r, tc_NewType := tc_OldType r\<rparr>) ` set (sd_TypeChanges (diffSnapshots a b))"
proof -
  have "dom (schema_of b) = (dom (schema_of a) - set (sd_DroppedTables (diffSnapshots a b))) \<union> set (sd_AddedTables (diffSnapshots a b))"
    by (auto simp: diff_tables)
  moreover have "\<forall>f A B. schema_of a f = Some A \<longrightarrow> schema_of b f = Some B \<longrightarrow> patch_column (diffSnapshots a b) f A = B"
    using patch_column_exact by blast
  ultimately show ?thesis using diff_empty_iff [of a b] diff_reverse [of b a] by blast
qed

definition old_snapshot :: "snapshot_table list" where
  "old_snapshot = [\<lparr>st_Schema = ''s'', st_Name = ''t'', st_RowCount = 0,
     st_Columns = [\<lparr>sc_Name = ''a'', sc_Type = ''INT'', sc_Null = False\<rparr>, \<lparr>sc_Name = ''b'', sc_Type = ''TEXT'', sc_Null = True\<rparr>]\<rparr>]"

definition new_snapshot :: "snapshot_table list" where
  "new_snapshot = [\<lparr>st_Schema = [], st_Name = ''u'', st_RowCount = 0, st_Columns = []\<rparr>,
     \<lparr>st_Schema = ''s'', st_Name = ''t'', st_RowCount = 9,
      st_Columns = [\<lparr>sc_Name = ''a'', sc_Type = ''BIGINT'', sc_Null = False\<rparr>, \<lparr>sc_Name = ''c'', sc_Type = ''DATE'', sc_Null = True\<rparr>]\<rparr>]"

theorem schema_diff_patches_witness:
  "\<exists>A B. schema_of old_snapshot ''s.t'' = Some A \<and> schema_of new_snapshot ''s.t'' = Some B \<and>
     patch_column (diffSnapshots old_snapshot new_snapshot) ''s.t'' A = B \<and> B ''a'' = Some ''BIGINT'' \<and> B ''b'' = None \<and>
     sd_AddedTables (diffSnapshots old_snapshot new_snapshot) = [''u'']"
proof -
  let ?A = "column_types (old_snapshot ! 0)" and ?B = "column_types (new_snapshot ! 1)"
  have s: "schema_of old_snapshot ''s.t'' = Some ?A" "schema_of new_snapshot ''s.t'' = Some ?B"
    by (simp_all add: schema_of_def table_at_def snapshot_fqn_def old_snapshot_def new_snapshot_def)
  have "sd_AddedTables (diffSnapshots old_snapshot new_snapshot) = [''u'']"
    by (simp add: diffSnapshots_def indexSnapshot_def index_by_def snapshot_fqn_def missing_in_def old_snapshot_def new_snapshot_def Let_def)
  moreover have "?B ''a'' = Some ''BIGINT''" "?B ''b'' = None" by (simp_all add: column_types_def new_snapshot_def)
  moreover have "patch_column (diffSnapshots old_snapshot new_snapshot) ''s.t'' ?A = ?B"
    using schema_diff_patches [of new_snapshot old_snapshot, THEN conjunct2, THEN conjunct1] s by blast
  ultimately show ?thesis using s by blast
qed

text \<open>
  No connector of the repository has the method Introspect, so the type assertion fails for all of them: with the
  connectors as they are a capture never stores a snapshot, and on a connection that the factory can open it answers 501.
\<close>

definition connector_introspecter :: "connector \<Rightarrow> snapshot_table list go option" where
  "connector_introspecter k = (case k of BigQuery _ _ \<Rightarrow> None | Snowflake _ _ \<Rightarrow> None | Stub _ _ \<Rightarrow> None)"

theorem capture_never_stores:
  "snd (captureSchema E S B enc J connector_introspecter i s) = s"
  "db_fail (sx_db s) = None \<Longrightarrow> parseUUID E ''id'' i = Ok u \<Longrightarrow> find (\<lambda>c. cn_ID c = u) (connections (sx_db s)) = Some c \<Longrightarrow>
     factory_For S B enc (cn_CustomerID c) (cn_WarehouseType c) (sx_db s) = Ok k \<Longrightarrow>
     \<exists>msg. fst (captureSchema E S B enc J connector_introspecter i s) = Inl (writeErr 501 msg)"
  by (auto simp: captureSchema_def connector_introspecter_def split: go.split option.split connector.split)

lemma find_snoc: "find P (xs @ [x]) = (case find P xs of Some y \<Rightarrow> Some y | None \<Rightarrow> if P x then Some x else None)"
  by (induction xs) auto

text \<open>With a connector that can list its tables, what a capture stores is what a later load returns.\<close>

lemma new_snapshot_id_fresh: "x \<in> set (sx_snapshots s) \<Longrightarrow> ss_ID x < new_snapshot_id s"
proof -
  have "x \<in> set xs \<Longrightarrow> ss_ID x \<le> foldr max (map ss_ID xs) 0" for xs by (induction xs) auto
  then show "x \<in> set (sx_snapshots s) \<Longrightarrow> ss_ID x < new_snapshot_id s" by (force simp: new_snapshot_id_def less_Suc_eq_le)
qed

theorem capture_then_load:
  assumes "captureSchema E S B enc J intro i s = (Inr (snapID, ts, n), s')" and "parseUUID E ''id'' i = Ok connID"
    and "\<And>x bs. sj_Marshal J x = Ok bs \<Longrightarrow> sj_Unmarshal J bs = Ok x"
  shows "\<exists>k tables. intro k = Some (Ok tables) \<and> n = length tables \<and> loadSnapshot E J connID snapID s' = Inr tables"
proof -
  from assms(1,2) obtain c :: connection and k tables bs where r: "db_fail (sx_db s) = None" "intro k = Some (Ok tables)" "n = length tables" "sj_Marshal J tables = Ok bs"
    "snapID = new_snapshot_id s"
    "s' = s\<lparr>sx_snapshots := sx_snapshots s @ [\<lparr>ss_ID = new_snapshot_id s, ss_CustomerID = cn_CustomerID c, ss_ConnectionID = connID,
                                               ss_CapturedAt = db_now (sx_db s), ss_Payload = bs\<rparr>]\<rparr>"
    by (clarsimp simp: captureSchema_def Let_def split: go.splits option.splits if_splits)
  have "find (\<lambda>x. ss_ID x = snapID \<and> ss_ConnectionID x = connID) (sx_snapshots s) = None"
    using r(5) by (auto simp: find_None_iff dest: new_snapshot_id_fresh)
  then have "find (\<lambda>x. ss_ID x = snapID \<and> ss_ConnectionID x = connID) (sx_snapshots s') =
      Some \<lparr>ss_ID = new_snapshot_id s, ss_CustomerID = cn_CustomerID c, ss_ConnectionID = connID,
            ss_CapturedAt = db_now (sx_db s), ss_Payload = bs\<rparr>"
    using r(5,6) by (simp add: find_snoc)
  with r assms(3) [OF r(4)] show ?thesis by (intro exI [of _ k] exI [of _ tables]) (simp add: loadSnapshot_def)
qed

end
