(* ===== verification/Impact.thy ===== *)
theory Impact
  imports Lineage
begin

text \<open>
  What a schema change breaks, \<^verbatim>\<open>internal/impact/impact.go\<close>: a breadth-first walk of the lineage edges of one
  granularity. The map \<open>seen\<close> is an association list. The walk finds exactly the nodes within the depth bound, each once
  and at its shortest distance.
\<close>

section \<open>The walk\<close>

record change =
  ch_Kind :: string
  ch_FQN :: string
  ch_Detail :: string

record hit =
  ht_FQN :: string
  ht_Hops :: nat
  ht_Why :: string
  ht_Severity :: string

definition granularityForKind :: "string \<Rightarrow> string" where
  "granularityForKind kind =
     (if kind \<in> set [''drop_column'', ''rename_column'', ''type_change''] then ''column'' else ''table'')"

definition severityForKind :: "string \<Rightarrow> string" where
  "severityForKind kind =
     (if kind \<in> set [''drop_column'', ''drop_table'', ''rename_column'', ''rename_table'', ''type_change'']
      then ''breaking'' else ''warning'')"

text \<open>The arrow is U+2192 in UTF-8.\<close>

definition arrow :: string where
  "arrow = [CHR '' '', CHR 0xE2, CHR 0x86, CHR 0x92, CHR '' '']"

type_synonym walk = "(string \<times> nat) list \<times> hit list \<times> string list"

fun visit_edges :: "string \<Rightarrow> string \<Rightarrow> nat \<Rightarrow> string \<Rightarrow> edge list \<Rightarrow> walk \<Rightarrow> walk" where
  "visit_edges gran sev depth node [] w = w"
| "visit_edges gran sev depth node (e # es) (seen, hits, next) =
     (if EdgeType e \<noteq> gran \<or> map_of seen (DownstreamFQN e) \<noteq> None then visit_edges gran sev depth node es (seen, hits, next)
      else visit_edges gran sev depth node es
             (seen @ [(DownstreamFQN e, depth + 1)],
              hits @ [\<lparr>ht_FQN = DownstreamFQN e, ht_Hops = depth + 1, ht_Why = node @ arrow @ DownstreamFQN e, ht_Severity = sev\<rparr>],
              next @ [DownstreamFQN e]))"

fun visit_level :: "go_error option \<Rightarrow> uuid \<Rightarrow> lineage_row list \<Rightarrow> string \<Rightarrow> string \<Rightarrow> nat \<Rightarrow> string list \<Rightarrow> walk \<Rightarrow> walk go" where
  "visit_level fail cid rs gran sev depth [] w = Ok w"
| "visit_level fail cid rs gran sev depth (node # queue) w =
     bind_go (Downstream fail cid node rs) (\<lambda>edges.
       visit_level fail cid rs gran sev depth queue (visit_edges gran sev depth node edges w))"

text \<open>The loop on the depth, with the number of levels left.\<close>

fun walk_levels :: "nat \<Rightarrow> go_error option \<Rightarrow> uuid \<Rightarrow> lineage_row list \<Rightarrow> string \<Rightarrow> string \<Rightarrow> nat \<Rightarrow> walk \<Rightarrow> hit list go" where
  "walk_levels 0 fail cid rs gran sev depth (seen, hits, queue) = Ok hits"
| "walk_levels (Suc n) fail cid rs gran sev depth (seen, hits, queue) =
     (if queue = [] then Ok hits
      else bind_go (visit_level fail cid rs gran sev depth queue (seen, hits, [])) (\<lambda>w.
        walk_levels n fail cid rs gran sev (depth + 1) w))"

definition Preview :: "go_error option \<Rightarrow> uuid \<Rightarrow> change \<Rightarrow> int \<Rightarrow> lineage_row list \<Rightarrow> hit list go" where
  "Preview fail customerID ch maxDepth rs =
     walk_levels (nat (if maxDepth \<le> 0 then 5 else maxDepth)) fail customerID rs
       (granularityForKind (ch_Kind ch)) (severityForKind (ch_Kind ch)) 0 ([(ch_FQN ch, 0)], [], [ch_FQN ch])"

section \<open>Levels\<close>

text \<open>The edges that a walk follows, and the nodes at a distance.\<close>

definition follows :: "uuid \<Rightarrow> string \<Rightarrow> lineage_row list \<Rightarrow> (string \<times> string) set" where
  "follows cid gran rs = {(le_upstream r, le_downstream r) | r. r \<in> set rs \<and> le_customer r = cid \<and> le_type r = gran}"

definition at_distance :: "(string \<times> string) set \<Rightarrow> string \<Rightarrow> nat \<Rightarrow> string set" where
  "at_distance R s n = {v. (s, v) \<in> R ^^ n \<and> (\<forall>m<n. (s, v) \<notin> R ^^ m)}"

lemma visit_edges_spec:
  "\<exists>ns hs. visit_edges gran sev d f es (seen, hits, next) = (seen @ map (\<lambda>v. (v, d + 1)) ns, hits @ hs, next @ ns) \<and> distinct ns \<and>
     set ns = {DownstreamFQN e | e. e \<in> set es \<and> EdgeType e = gran} - fst ` set seen \<and>
     map ht_FQN hs = ns \<and> (\<forall>h \<in> set hs. ht_Hops h = d + 1 \<and> ht_Severity h = sev)"
proof (induction es arbitrary: seen hits "next")
  case Nil
  then show ?case by (intro exI [of _ "[]"]) simp
next
  case (Cons e es)
  show ?case
  proof (cases "EdgeType e \<noteq> gran \<or> map_of seen (DownstreamFQN e) \<noteq> None")
    case True
    then have "{DownstreamFQN x | x. x \<in> set (e # es) \<and> EdgeType x = gran} - fst ` set seen =
        {DownstreamFQN x | x. x \<in> set es \<and> EdgeType x = gran} - fst ` set seen"
      by (auto simp: map_of_eq_None_iff)
    with True Cons.IH [of seen hits "next"] show ?thesis by simp
  next
    case False
    let ?v = "DownstreamFQN e"
    let ?h = "\<lparr>ht_FQN = ?v, ht_Hops = d + 1, ht_Why = f @ arrow @ ?v, ht_Severity = sev\<rparr>"
    from Cons.IH [of "seen @ [(?v, d + 1)]" "hits @ [?h]" "next @ [?v]"] obtain ns hs where
      IH: "visit_edges gran sev d f es (seen @ [(?v, d + 1)], hits @ [?h], next @ [?v]) =
          ((seen @ [(?v, d + 1)]) @ map (\<lambda>v. (v, d + 1)) ns, (hits @ [?h]) @ hs, (next @ [?v]) @ ns)" "distinct ns"
        "set ns = {DownstreamFQN e | e. e \<in> set es \<and> EdgeType e = gran} - fst ` set (seen @ [(?v, d + 1)])"
        "map ht_FQN hs = ns" "\<forall>h \<in> set hs. ht_Hops h = d + 1 \<and> ht_Severity h = sev" by blast
    have "set (?v # ns) = {DownstreamFQN x | x. x \<in> set (e # es) \<and> EdgeType x = gran} - fst ` set seen"
      using IH(3) False by (auto simp: map_of_eq_None_iff)
    with IH False show ?thesis by (intro exI [of _ "?v # ns"] exI [of _ "?h # hs"]) auto
  qed
qed

lemma visit_level_spec:
  "\<exists>ns hs. visit_level None cid rs gran sev d queue (seen, hits, next) = Ok (seen @ map (\<lambda>v. (v, d + 1)) ns, hits @ hs, next @ ns) \<and>
     distinct ns \<and> set ns = follows cid gran rs `` set queue - fst ` set seen \<and>
     map ht_FQN hs = ns \<and> (\<forall>h \<in> set hs. ht_Hops h = d + 1 \<and> ht_Severity h = sev)"
proof (induction queue arbitrary: seen hits "next")
  case Nil
  then show ?case by (intro exI [of _ "[]"]) simp
next
  case (Cons f queue)
  define es where "es = map row_edge (filter (\<lambda>r. le_customer r = cid \<and> le_upstream r = f) rs)"
  have es: "{DownstreamFQN e | e. e \<in> set es \<and> EdgeType e = gran} = follows cid gran rs `` {f}"
  proof (intro set_eqI iffI)
    fix v assume "v \<in> follows cid gran rs `` {f}"
    then obtain x where "x \<in> set rs" "le_customer x = cid" "le_upstream x = f" "le_type x = gran" "le_downstream x = v"
      by (auto simp: follows_def)
    then have "row_edge x \<in> set es" "EdgeType (row_edge x) = gran" "DownstreamFQN (row_edge x) = v"
      by (auto simp: es_def row_edge_def)
    then show "v \<in> {DownstreamFQN e | e. e \<in> set es \<and> EdgeType e = gran}" by blast
  qed (auto simp: es_def row_edge_def follows_def)
  obtain ns hs where 1: "visit_edges gran sev d f es (seen, hits, next) = (seen @ map (\<lambda>v. (v, d + 1)) ns, hits @ hs, next @ ns)"
    "distinct ns" "set ns = follows cid gran rs `` {f} - fst ` set seen" "map ht_FQN hs = ns"
    "\<forall>h \<in> set hs. ht_Hops h = d + 1 \<and> ht_Severity h = sev"
    using visit_edges_spec [of gran sev d f es seen hits "next"] unfolding es by blast
  from Cons.IH [of "seen @ map (\<lambda>v. (v, d + 1)) ns" "hits @ hs" "next @ ns"] obtain ns' hs' where
    2: "visit_level None cid rs gran sev d queue (seen @ map (\<lambda>v. (v, d + 1)) ns, hits @ hs, next @ ns) =
        Ok ((seen @ map (\<lambda>v. (v, d + 1)) ns) @ map (\<lambda>v. (v, d + 1)) ns', (hits @ hs) @ hs', (next @ ns) @ ns')" "distinct ns'"
      "set ns' = follows cid gran rs `` set queue - fst ` set (seen @ map (\<lambda>v. (v, d + 1)) ns)" "map ht_FQN hs' = ns'"
      "\<forall>h \<in> set hs'. ht_Hops h = d + 1 \<and> ht_Severity h = sev"
    by blast
  have new: "set ns' = follows cid gran rs `` set queue - (fst ` set seen \<union> set ns)" using 2(3) by (simp add: image_Un image_image)
  have "set (ns @ ns') = follows cid gran rs `` set (f # queue) - fst ` set seen" using 1(3) new by auto
  moreover have "distinct (ns @ ns')" using 1(2) 2(2) new by auto
  ultimately show ?case using 1 2
    by (intro exI [of _ "ns @ ns'"] exI [of _ "hs @ hs'"]) (auto simp: Downstream_def es_def [symmetric])
qed

lemma at_distance_Suc:
  "at_distance R s (Suc n) = R `` at_distance R s n - (\<Union>m\<le>n. at_distance R s m)"
proof (intro set_eqI iffI)
  fix v assume v: "v \<in> at_distance R s (Suc n)"
  then obtain u where u: "(s, u) \<in> R ^^ n" "(u, v) \<in> R" by (auto simp: at_distance_def)
  have "(s, u) \<notin> R ^^ m" if "m < n" for m
    using v u(2) that by (auto simp: at_distance_def relcomp_unfold dest!: spec [of _ "Suc m"])
  with u v show "v \<in> R `` at_distance R s n - (\<Union>m\<le>n. at_distance R s m)" by (auto simp: at_distance_def)
next
  fix v assume v: "v \<in> R `` at_distance R s n - (\<Union>m\<le>n. at_distance R s m)"
  have least: "v \<in> at_distance R s (LEAST k. (s, v) \<in> R ^^ k)" if "(s, v) \<in> R ^^ m" for m
    using LeastI [of "\<lambda>k. (s, v) \<in> R ^^ k", OF that] not_less_Least [of _ "\<lambda>k. (s, v) \<in> R ^^ k"] by (auto simp: at_distance_def)
  have "(s, v) \<notin> R ^^ m" if "m \<le> n" for m
    using v least [of m] Least_le [of "\<lambda>k. (s, v) \<in> R ^^ k" m] that by (metis DiffE UN_I atMost_iff order_trans)
  with v show "v \<in> at_distance R s (Suc n)" by (auto simp: at_distance_def less_Suc_eq_le)
qed

lemma at_distance_empty: "at_distance R s n = {} \<Longrightarrow> n \<le> m \<Longrightarrow> at_distance R s m = {}"
proof (induction m)
  case (Suc m)
  then show ?case using at_distance_Suc [of R s m] by (cases "n = Suc m") auto
qed simp

lemma at_distance_unique: "v \<in> at_distance R s n \<Longrightarrow> v \<in> at_distance R s m \<Longrightarrow> n = m"
  by (metis (mono_tags, lifting) at_distance_def linorder_neqE_nat mem_Collect_eq)

text \<open>The state of the walk after a number of levels.\<close>

definition walked :: "uuid \<Rightarrow> string \<Rightarrow> string \<Rightarrow> lineage_row list \<Rightarrow> string \<Rightarrow> nat \<Rightarrow> hit list \<Rightarrow> bool" where
  "walked cid gran sev rs s d hits \<longleftrightarrow> distinct (map ht_FQN hits) \<and> (\<forall>h \<in> set hits. ht_Severity h = sev) \<and>
     (\<forall>v n. (\<exists>h \<in> set hits. ht_FQN h = v \<and> ht_Hops h = n) \<longleftrightarrow> 0 < n \<and> n \<le> d \<and> v \<in> at_distance (follows cid gran rs) s n)"

lemma walked_snoc:
  assumes "walked cid gran sev rs s d hits" and "set ns = at_distance (follows cid gran rs) s (Suc d)" and "distinct ns"
    and "map ht_FQN hs = ns" and "\<forall>h \<in> set hs. ht_Hops h = d + 1 \<and> ht_Severity h = sev"
  shows "walked cid gran sev rs s (Suc d) (hits @ hs)"
proof -
  let ?D = "at_distance (follows cid gran rs) s"
  have old: "(\<exists>h \<in> set hits. ht_FQN h = v \<and> ht_Hops h = n) \<longleftrightarrow> 0 < n \<and> n \<le> d \<and> v \<in> ?D n" for v n
    using assms(1) unfolding walked_def by blast
  have "set (map ht_FQN hs) = ?D (Suc d)" using assms(2,4) by simp
  then have new: "(\<exists>h \<in> set hs. ht_FQN h = v \<and> ht_Hops h = n) \<longleftrightarrow> n = Suc d \<and> v \<in> ?D (Suc d)" for v n
    using assms(5) unfolding set_map set_eq_iff image_iff by (metis Suc_eq_plus1)
  have "ht_FQN h \<notin> set ns" if "h \<in> set hits" for h
    using old [of "ht_FQN h" "ht_Hops h"] that at_distance_unique [of "ht_FQN h" _ s "ht_Hops h" "Suc d"] assms(2) by fastforce
  then have "distinct (map ht_FQN (hits @ hs))" using assms(1,3,4) unfolding walked_def by auto
  moreover have "\<forall>h \<in> set (hits @ hs). ht_Severity h = sev" using assms(1,5) unfolding walked_def by auto
  moreover have "(\<exists>h \<in> set (hits @ hs). ht_FQN h = v \<and> ht_Hops h = n) \<longleftrightarrow> 0 < n \<and> n \<le> Suc d \<and> v \<in> ?D n" for v n
    using old [of v n] new [of v n] by (auto simp: le_Suc_eq)
  ultimately show ?thesis unfolding walked_def by blast
qed

lemma walk_levels_spec:
  assumes "walked cid gran sev rs s d hits" and "set queue = at_distance (follows cid gran rs) s d"
    and "fst ` set seen = (\<Union>m\<le>d. at_distance (follows cid gran rs) s m)"
  shows "\<exists>hits'. walk_levels n None cid rs gran sev d (seen, hits, queue) = Ok hits' \<and> walked cid gran sev rs s (d + n) hits'"
  using assms
proof (induction n arbitrary: d seen hits queue)
  case (Suc n)
  let ?R = "follows cid gran rs"
  show ?case
  proof (cases "queue = []")
    case True
    then have "at_distance ?R s m = {}" if "d \<le> m" for m using at_distance_empty [OF _ that] Suc.prems(2) by simp
    then have "m \<le> d \<and> v \<in> at_distance ?R s m \<longleftrightarrow> m \<le> d + Suc n \<and> v \<in> at_distance ?R s m" for m v
      by (cases "d \<le> m") auto
    then have "walked cid gran sev rs s (d + Suc n) hits" using Suc.prems(1) unfolding walked_def by simp
    with True show ?thesis by simp
  next
    case False
    obtain ns hs where l: "visit_level None cid rs gran sev d queue (seen, hits, []) = Ok (seen @ map (\<lambda>v. (v, d + 1)) ns, hits @ hs, ns)"
      "distinct ns" "set ns = ?R `` set queue - fst ` set seen" "map ht_FQN hs = ns"
      "\<forall>h \<in> set hs. ht_Hops h = d + 1 \<and> ht_Severity h = sev"
      using visit_level_spec [of cid rs gran sev d queue seen hits "[]"] unfolding append_Nil by blast
    have ns: "set ns = at_distance ?R s (Suc d)" using l(3) Suc.prems(2,3) by (simp add: at_distance_Suc)
    have walked: "walked cid gran sev rs s (Suc d) (hits @ hs)" by (rule walked_snoc [OF Suc.prems(1) ns l(2,4,5)])
    have seen: "fst ` set (seen @ map (\<lambda>v. (v, d + 1)) ns) = (\<Union>m\<le>Suc d. at_distance ?R s m)"
      using Suc.prems(3) ns by (auto simp: atMost_Suc image_Un image_image)
    from Suc.IH [OF walked ns seen] l(1) False show ?thesis by (simp add: add.commute)
  qed
qed simp

section \<open>Theorem\<close>

text \<open>
  C24: the preview finds exactly the nodes that depend on the changed one within the depth bound: it always returns when the
  database answers, lists each such node once, with its shortest distance over the edges of the customer and of the
  change's granularity, and never the changed node itself.
\<close>

theorem Preview_shortest_distances:
  "\<exists>hits. Preview None cid ch depth rs = Ok hits \<and> distinct (map ht_FQN hits) \<and>
     ht_Severity ` set hits \<subseteq> {severityForKind (ch_Kind ch)} \<and>
     (\<forall>v n. (\<exists>h \<in> set hits. ht_FQN h = v \<and> ht_Hops h = n) \<longleftrightarrow>
        0 < n \<and> int n \<le> (if depth \<le> 0 then 5 else depth) \<and>
        v \<in> at_distance (follows cid (granularityForKind (ch_Kind ch)) rs) (ch_FQN ch) n)"
proof -
  let ?D = "nat (if depth \<le> 0 then 5 else depth)" and ?g = "granularityForKind (ch_Kind ch)" and ?s = "severityForKind (ch_Kind ch)"
  have "walked cid ?g ?s rs (ch_FQN ch) 0 []" by (auto simp: walked_def)
  from walk_levels_spec [OF this, of "[ch_FQN ch]" "[(ch_FQN ch, 0)]" ?D] obtain hits where
    "Preview None cid ch depth rs = Ok hits" "walked cid ?g ?s rs (ch_FQN ch) ?D hits"
    by (auto simp: Preview_def at_distance_def)
  moreover have "n \<le> ?D \<longleftrightarrow> int n \<le> (if depth \<le> 0 then 5 else depth)" for n by (simp add: le_nat_iff)
  ultimately show ?thesis unfolding walked_def by auto
qed

end
