(* ===== verification/Pr_Report.thy ===== *)
theory Pr_Report
  imports Impact Go_Time
begin

text \<open>
  From the diff of a pull request to the report on it: \<^verbatim>\<open>internal/githubapp/diff.go\<close> and \<^verbatim>\<open>report.go\<close>. The one
  regular expression of diff.go is a list of items for a small backtracking matcher that returns its matches in order of
  preference; character classes and case folding are those of ASCII.
\<close>

section \<open>Regular expressions\<close>

text \<open>\<open>Many\<close> is a greedy repetition of a class at least once, \<open>Capture\<close> one that is returned as a submatch.\<close>

datatype re = Class "char \<Rightarrow> bool" | Many "char \<Rightarrow> bool" | Capture "char \<Rightarrow> bool" | Maybe "re list"

definition lengths :: "(char \<Rightarrow> bool) \<Rightarrow> string \<Rightarrow> nat list" where
  "lengths p s = rev [1..<Suc (length (takeWhile p s))]"

function re_match :: "re list \<Rightarrow> string \<Rightarrow> (string list \<times> string) list" where
  "re_match [] s = [([], s)]"
| "re_match (Class p # k) s = (case s of [] \<Rightarrow> [] | c # cs \<Rightarrow> if p c then re_match k cs else [])"
| "re_match (Many p # k) s = concat (map (\<lambda>n. re_match k (drop n s)) (lengths p s))"
| "re_match (Capture p # k) s =
     concat (map (\<lambda>n. map (\<lambda>(caps, rest). (take n s # caps, rest)) (re_match k (drop n s))) (lengths p s))"
| "re_match (Maybe rs # k) s = re_match (rs @ k) s @ re_match k s"
  by pat_completeness auto
termination
  by (relation "measure (\<lambda>(k, _). size_list size k)") (auto simp: size_list_append)

text \<open>All matches from left to right, without overlap.\<close>

function re_find_all :: "re list \<Rightarrow> string \<Rightarrow> string list list" where
  "re_find_all k s =
     (case re_match k s of
        (caps, rest) # _ \<Rightarrow>
          caps # (if length rest < length s then re_find_all k rest else if s = [] then [] else re_find_all k (tl s))
      | [] \<Rightarrow> if s = [] then [] else re_find_all k (tl s))"
  by pat_completeness auto
termination
  by (relation "measure (\<lambda>(_, s). length s)") auto

declare re_find_all.simps [simp del]

definition is_word :: "char \<Rightarrow> bool" where
  "is_word c \<longleftrightarrow> (let n = of_char c :: nat in (48 \<le> n \<and> n \<le> 57) \<or> (65 \<le> n \<and> n \<le> 90) \<or> (97 \<le> n \<and> n \<le> 122) \<or> n = 95)"

definition is_re_space :: "char \<Rightarrow> bool" where
  "is_re_space c \<longleftrightarrow> c \<in> {CHR '' '', CHR 0x09, CHR 0x0A, CHR 0x0C, CHR 0x0D}"

definition fold_case :: "string \<Rightarrow> re list" where
  "fold_case s = map (\<lambda>c. Class (\<lambda>x. lower_char x = lower_char c)) s"

definition quotes :: "re list" where
  "quotes = [Maybe [Class (\<lambda>x. x = CHR ''`'')], Maybe [Class (\<lambda>x. x = CHR 0x22)]]"

definition if_exists :: "re list" where
  "if_exists = [Maybe (fold_case ''IF'' @ [Many is_re_space] @ fold_case ''EXISTS'' @ [Many is_re_space])]"

definition dropColRe :: "re list" where
  "dropColRe =
     fold_case ''ALTER'' @ [Many is_re_space] @ fold_case ''TABLE'' @ [Many is_re_space] @ if_exists @ quotes @
     [Capture (\<lambda>c. is_word c \<or> c = CHR ''.'')] @ quotes @ [Many is_re_space] @ fold_case ''DROP'' @ [Many is_re_space] @
     fold_case ''COLUMN'' @ [Many is_re_space] @ if_exists @ quotes @ [Capture is_word]"

section \<open>Diffs\<close>

record file_change =
  fc_Path :: string
  fc_OldPath :: string
  fc_Status :: string
  fc_Added :: "string list"
  fc_Removed :: "string list"

definition new_file :: "string \<Rightarrow> file_change" where
  "new_file line =
     (let parts = Fields line; f = \<lparr>fc_Path = [], fc_OldPath = [], fc_Status = ''modified'', fc_Added = [], fc_Removed = []\<rparr> in
      if 4 \<le> length parts
      then f\<lparr>fc_OldPath := TrimPrefix (parts ! 2) ''a/'', fc_Path := TrimPrefix (parts ! 3) ''b/''\<rparr>
      else f)"

definition change_line :: "string \<Rightarrow> file_change \<Rightarrow> file_change" where
  "change_line line cur =
     (if HasPrefix line ''new file mode'' then cur\<lparr>fc_Status := ''added''\<rparr>
      else if HasPrefix line ''deleted file mode'' then cur\<lparr>fc_Status := ''removed''\<rparr>
      else if HasPrefix line ''rename from ''
      then cur\<lparr>fc_Status := ''renamed'', fc_OldPath := TrimPrefix line ''rename from ''\<rparr>
      else if HasPrefix line ''rename to '' then cur\<lparr>fc_Path := TrimPrefix line ''rename to ''\<rparr>
      else if HasPrefix line ''+++ '' \<or> HasPrefix line ''--- '' then cur
      else if HasPrefix line ''+'' then cur\<lparr>fc_Added := fc_Added cur @ [drop 1 line]\<rparr>
      else if HasPrefix line ''-'' then cur\<lparr>fc_Removed := fc_Removed cur @ [drop 1 line]\<rparr>
      else cur)"

definition flush_file :: "file_change list \<Rightarrow> file_change option \<Rightarrow> file_change list" where
  "flush_file files cur = (case cur of None \<Rightarrow> files | Some f \<Rightarrow> files @ [f])"

definition diff_line :: "file_change list \<times> file_change option \<Rightarrow> string \<Rightarrow> file_change list \<times> file_change option" where
  "diff_line st line =
     (case st of (files, cur) \<Rightarrow>
        if HasPrefix line ''diff --git '' then (flush_file files cur, Some (new_file line))
        else (files, map_option (change_line line) cur))"

definition ParseDiff :: "string \<Rightarrow> file_change list" where
  "ParseDiff diff = (let (files, cur) = foldl diff_line ([], None) (Split diff (CHR 0x0A)) in flush_file files cur)"

section \<open>Changes\<close>

definition Base_dirless :: "string \<Rightarrow> string" where
  "Base_dirless p = (case LastIndexByte p (CHR ''/'') of Some i \<Rightarrow> drop (Suc i) p | None \<Rightarrow> p)"

definition filepath_Ext :: "string \<Rightarrow> string" where
  "filepath_Ext p =
     (let b = Base_dirless p in case LastIndexByte b (CHR ''.'') of Some i \<Rightarrow> drop i b | None \<Rightarrow> [])"

definition filepath_Base :: "string \<Rightarrow> string" where
  "filepath_Base p =
     (if p = [] then ''.''
      else (let b = Base_dirless (TrimRight p ''/'') in if b = [] then ''/'' else b))"

definition isSQL :: "string \<Rightarrow> bool" where
  "isSQL p \<longleftrightarrow> EqualFold (filepath_Ext p) ''.sql''"

definition isModel :: "string \<Rightarrow> bool" where
  "isModel p \<longleftrightarrow> isSQL p \<and> Contains (CHR ''/'' # ToLower p) ''/models/''"

definition modelName :: "string \<Rightarrow> string" where
  "modelName p = (let b = filepath_Base p in TrimSuffix b (filepath_Ext b))"

definition dropped_columns :: "file_change \<Rightarrow> change list" where
  "dropped_columns f =
     map (\<lambda>m. \<lparr>ch_Kind = ''drop_column'', ch_FQN = m ! 0 @ ''.'' @ m ! 1, ch_Detail = fc_Path f\<rparr>)
       (concat (map (re_find_all dropColRe) (fc_Added f)))"

definition model_change :: "file_change \<Rightarrow> change list" where
  "model_change f =
     (if fc_Status f = ''removed''
      then (if isModel (fc_Path f)
            then [\<lparr>ch_Kind = ''drop_table'', ch_FQN = modelName (fc_Path f), ch_Detail = fc_Path f\<rparr>] else [])
      else if fc_Status f = ''renamed''
      then (if isModel (fc_OldPath f)
            then [\<lparr>ch_Kind = ''rename_table'', ch_FQN = modelName (fc_OldPath f), ch_Detail = fc_Path f\<rparr>] else [])
      else [])"

definition DetectChanges :: "file_change list \<Rightarrow> change list" where
  "DetectChanges files =
     concat (map (\<lambda>f. if \<not> isSQL (fc_Path f) \<and> \<not> isSQL (fc_OldPath f) then [] else dropped_columns f @ model_change f) files)"

section \<open>The report\<close>

record dq_ref =
  dr_TableFQN :: string
  dr_Status :: string

definition dq_failing :: "dq_ref \<Rightarrow> bool" where
  "dq_failing d \<longleftrightarrow> dr_Status d = ''fail'' \<or> dr_Status d = ''error''"

definition Conclusion :: "hit list \<Rightarrow> dq_ref list \<Rightarrow> string" where
  "Conclusion hits dq =
     (if list_ex dq_failing dq then ''action_required''
      else (let breaking = list_ex (\<lambda>h. ht_Severity h = ''breaking'') hits in
            if hits = [] then ''success''
            else if breaking \<or> 3 \<le> length hits then ''action_required''
            else ''neutral''))"

definition CommentMarker :: string where
  "CommentMarker = ''<!-- uv-lineage-bot:v1 -->''"

definition shortSHA :: "string \<Rightarrow> string" where
  "shortSHA s = (if 7 < length s then take 7 s else s)"

definition tableOf :: "string \<Rightarrow> string" where
  "tableOf name = (let parts = Split name (CHR ''.'') in if 3 \<le> length parts then Join (butlast parts) ''.'' else name)"

text \<open>The characters of the report outside ASCII, in UTF-8.\<close>

definition nl1 :: string where "nl1 = [CHR 0x0A]"

definition dash :: string where "dash = [CHR 0xE2, CHR 0x80, CHR 0x94]"

definition lens :: string where "lens = [CHR 0xF0, CHR 0x9F, CHR 0x94, CHR 0x8E]"

definition check_mark :: string where "check_mark = [CHR 0xE2, CHR 0x9C, CHR 0x85]"

definition cross_mark :: string where "cross_mark = [CHR 0xE2, CHR 0x9D, CHR 0x8C]"

definition warning_sign :: string where "warning_sign = [CHR 0xE2, CHR 0x9A, CHR 0xA0]"

definition right_arrow :: string where "right_arrow = [CHR 0xE2, CHR 0x86, CHR 0x92]"

definition dqEmoji :: "string \<Rightarrow> string" where
  "dqEmoji status =
     (if status = ''fail'' \<or> status = ''error'' then cross_mark @ '' '' @ status
      else if status = ''pass'' then check_mark @ '' pass''
      else if status = dash \<or> status = [] then dash
      else status)"

definition dqFailures :: "dq_ref list \<Rightarrow> dq_ref list" where
  "dqFailures dq = filter dq_failing dq"

definition hit_line :: "dq_ref list \<Rightarrow> hit \<Rightarrow> string" where
  "hit_line dq h =
     (let status = (case find (\<lambda>d. dr_TableFQN d = tableOf (ht_FQN h)) (rev dq) of Some d \<Rightarrow> dr_Status d | None \<Rightarrow> []);
          status = (if status = [] then dash else status)
      in ''| `'' @ ht_FQN h @ ''` | '' @ Itoa (int (ht_Hops h)) @ '' | '' @ dqEmoji status @ '' | '' @ ht_Severity h @ '' |'' @ nl1)"

definition RenderComment :: "change list \<Rightarrow> hit list \<Rightarrow> dq_ref list \<Rightarrow> string \<Rightarrow> string" where
  "RenderComment changes hits dq sha =
     CommentMarker @ nl1 @ ''## '' @ lens @ '' Ultraviolet impact analysis'' @ nl1 @ nl1 @
     (if sha \<noteq> [] then ''_Last analyzed commit: `'' @ shortSHA sha @ ''`_'' @ nl1 @ nl1 else []) @
     (if changes \<noteq> []
      then ''**Detected changes**'' @ nl1 @ nl1 @
           concat (map (\<lambda>c. ''- `'' @ ch_FQN c @ ''` '' @ dash @ '' '' @ ch_Kind c @ nl1) changes) @ nl1
      else []) @
     (if hits = [] then check_mark @ '' **No downstream consumers detected.** Safe to merge.'' @ nl1
      else warning_sign @ '' This change touches **'' @ Itoa (int (length hits)) @ ''** downstream node(s):'' @ nl1 @ nl1 @
           ''| Downstream | Hops | DQ status | Severity |'' @ nl1 @ ''|---|---|---|---|'' @ nl1 @ concat (map (hit_line dq) hits)) @
     (if dqFailures dq \<noteq> []
      then nl1 @ ''**Data-quality impact** '' @ dash @ '' impacted tables with failing tests:'' @ nl1 @ nl1 @
           concat (map (\<lambda>d. ''- `'' @ dr_TableFQN d @ ''` '' @ right_arrow @ '' **'' @ dr_Status d @ ''**'' @ nl1) (dqFailures dq))
      else []) @
     nl1 @ ''---'' @ nl1 @ ''<sub>Rewritten on every push. Reply `/uv suppress` to silence this PR.</sub>'' @ nl1"

text \<open>The object that the check run marshals.\<close>

record check_run =
  cr_head_sha :: string
  cr_conclusion :: string
  cr_completed_at :: string
  cr_summary :: string
  cr_text :: string

definition CheckRunPayload :: "int \<Rightarrow> change list \<Rightarrow> hit list \<Rightarrow> dq_ref list \<Rightarrow> string \<Rightarrow> check_run" where
  "CheckRunPayload now changes hits dq sha =
     \<lparr>cr_head_sha = sha, cr_conclusion = Conclusion hits dq, cr_completed_at = FormatRFC3339 now,
      cr_summary = (if hits = [] then ''No downstream consumers detected.''
                    else Itoa (int (length hits)) @ '' downstream node(s) impacted.''),
      cr_text = RenderComment changes hits dq sha\<rparr>"

section \<open>Round trip of diffs\<close>

text \<open>The lines of a file in a diff as git prints them, its changes in one hunk.\<close>

definition status_lines :: "file_change \<Rightarrow> string list" where
  "status_lines f =
     (if fc_Status f = ''added'' then [''new file mode 100644'']
      else if fc_Status f = ''removed'' then [''deleted file mode 100644'']
      else if fc_Status f = ''renamed'' then [''similarity index 90%'', ''rename from '' @ fc_OldPath f, ''rename to '' @ fc_Path f]
      else [''index 83db48f..bf269f4 100644''])"

definition render_file :: "file_change \<Rightarrow> string list" where
  "render_file f =
     [''diff --git a/'' @ fc_OldPath f @ '' b/'' @ fc_Path f] @ status_lines f @
     [''--- a/'' @ fc_OldPath f, ''+++ b/'' @ fc_Path f, ''@@ -1,9 +1,9 @@''] @
     map (\<lambda>l. CHR ''+'' # l) (fc_Added f) @ map (\<lambda>l. CHR ''-'' # l) (fc_Removed f)"

definition render_diff :: "file_change list \<Rightarrow> string" where
  "render_diff fs = Join (concat (map render_file fs)) [CHR 0x0A]"

definition file_ok :: "file_change \<Rightarrow> bool" where
  "file_ok f \<longleftrightarrow> list_all (\<lambda>c. \<not> is_space c) (fc_Path f) \<and> list_all (\<lambda>c. \<not> is_space c) (fc_OldPath f) \<and>
     fc_Status f \<in> set [''added'', ''removed'', ''renamed'', ''modified''] \<and>
     list_all (\<lambda>l. CHR 0x0A \<notin> set l \<and> \<not> HasPrefix l ''++ '') (fc_Added f) \<and>
     list_all (\<lambda>l. CHR 0x0A \<notin> set l \<and> \<not> HasPrefix l ''-- '') (fc_Removed f)"

lemma Fields_word: "w \<noteq> [] \<Longrightarrow> list_all (\<lambda>c. \<not> is_space c) w \<Longrightarrow> s = [] \<or> is_space (hd s) \<Longrightarrow> Fields (w @ s) = w # Fields s"
proof -
  assume w: "w \<noteq> []" "list_all (\<lambda>c. \<not> is_space c) w" and s: "s = [] \<or> is_space (hd s)"
  have "dropWhile is_space (w @ s) = w @ s" using w by (cases w) auto
  moreover have "dropWhile (\<lambda>c. \<not> is_space c) (w @ s) = s" using w s by (cases s) (auto simp: list_all_iff dropWhile_append)
  moreover have "takeWhile (\<lambda>c. \<not> is_space c) (w @ s) = w" using w s by (cases s) (auto simp: list_all_iff takeWhile_append)
  ultimately show ?thesis using w(1) by (subst Fields.simps) (simp add: Let_def)
qed

lemma Fields_Nil: "Fields [] = []"
  by (subst Fields.simps) simp

lemma no_newline: "list_all (\<lambda>c. \<not> is_space c) p \<Longrightarrow> CHR 0x0A \<notin> set p"
  by (auto simp: list_all_iff is_space_def)

lemma Fields_space: "is_space c \<Longrightarrow> Fields (c # s) = Fields s"
  by (subst (1 2) Fields.simps) simp

lemma new_file_header:
  assumes "list_all (\<lambda>c. \<not> is_space c) p" and "list_all (\<lambda>c. \<not> is_space c) q"
  shows "new_file (''diff --git a/'' @ q @ '' b/'' @ p) =
    \<lparr>fc_Path = p, fc_OldPath = q, fc_Status = ''modified'', fc_Added = [], fc_Removed = []\<rparr>"
proof -
  have b: "Fields (''b/'' @ p) = [''b/'' @ p]"
    using Fields_word [of "''b/'' @ p" "[]"] assms(1) by (simp add: Fields_Nil) (simp add: is_space_def)
  have a: "Fields ((''a/'' @ q) @ '' b/'' @ p) = [''a/'' @ q, ''b/'' @ p]"
    using b assms(2) by (subst Fields_word) (simp_all add: Fields_space is_space_def)
  have g: "Fields (''--git'' @ CHR '' '' # (''a/'' @ q) @ '' b/'' @ p) = [''--git'', ''a/'' @ q, ''b/'' @ p]"
    using a by (subst Fields_word) (auto simp: is_space_def Fields_space)
  have "Fields (''diff'' @ CHR '' '' # ''--git'' @ CHR '' '' # (''a/'' @ q) @ '' b/'' @ p) = [''diff'', ''--git'', ''a/'' @ q, ''b/'' @ p]"
    using g by (subst Fields_word) (auto simp: is_space_def Fields_space)
  then show ?thesis by (simp add: new_file_def Let_def TrimPrefix_def HasPrefix_def)
qed

lemma diff_lines_of_file:
  "list_all (\<lambda>l. \<not> HasPrefix l ''diff --git '') ls \<Longrightarrow>
     foldl diff_line (files, Some f) ls = (files, Some (foldl (\<lambda>c l. change_line l c) f ls))"
  by (induction ls arbitrary: f) (simp_all add: diff_line_def)

lemma change_added:
  "list_all (\<lambda>l. \<not> HasPrefix l ''++ '') ls \<Longrightarrow>
     foldl (\<lambda>c l. change_line l c) f (map (\<lambda>l. CHR ''+'' # l) ls) = f\<lparr>fc_Added := fc_Added f @ ls\<rparr>"
  by (induction ls arbitrary: f) (simp_all add: change_line_def HasPrefix_def)

lemma change_removed:
  "list_all (\<lambda>l. \<not> HasPrefix l ''-- '') ls \<Longrightarrow>
     foldl (\<lambda>c l. change_line l c) f (map (\<lambda>l. CHR ''-'' # l) ls) = f\<lparr>fc_Removed := fc_Removed f @ ls\<rparr>"
  by (induction ls arbitrary: f) (simp_all add: change_line_def HasPrefix_def)

lemma change_status:
  assumes "fc_Status f \<in> set [''added'', ''removed'', ''renamed'', ''modified'']"
  shows "foldl (\<lambda>c l. change_line l c)
      \<lparr>fc_Path = fc_Path f, fc_OldPath = fc_OldPath f, fc_Status = ''modified'', fc_Added = [], fc_Removed = []\<rparr>
      (status_lines f @ [''--- a/'' @ fc_OldPath f, ''+++ b/'' @ fc_Path f, ''@@ -1,9 +1,9 @@'']) =
    f\<lparr>fc_Added := [], fc_Removed := []\<rparr>"
  using assms by (cases f) (auto simp: status_lines_def change_line_def HasPrefix_def TrimPrefix_def)

lemma parse_file:
  assumes "file_ok f"
  shows "foldl diff_line (files, cur) (render_file f) = (flush_file files cur, Some f)"
proof -
  let ?h = "''diff --git a/'' @ fc_OldPath f @ '' b/'' @ fc_Path f"
  let ?ls = "status_lines f @ [''--- a/'' @ fc_OldPath f, ''+++ b/'' @ fc_Path f, ''@@ -1,9 +1,9 @@''] @
     map (\<lambda>l. CHR ''+'' # l) (fc_Added f) @ map (\<lambda>l. CHR ''-'' # l) (fc_Removed f)"
  have ok: "list_all (\<lambda>c. \<not> is_space c) (fc_Path f)" "list_all (\<lambda>c. \<not> is_space c) (fc_OldPath f)"
    "fc_Status f \<in> set [''added'', ''removed'', ''renamed'', ''modified'']"
    "list_all (\<lambda>l. \<not> HasPrefix l ''++ '') (fc_Added f)" "list_all (\<lambda>l. \<not> HasPrefix l ''-- '') (fc_Removed f)"
    using assms by (auto simp: file_ok_def list_all_iff)
  have "diff_line (files, cur) ?h = (flush_file files cur, Some (new_file ?h))" by (simp add: diff_line_def HasPrefix_def)
  moreover have "list_all (\<lambda>l. \<not> HasPrefix l ''diff --git '') ?ls"
    by (auto simp: status_lines_def HasPrefix_def list_all_iff)
  ultimately have "foldl diff_line (files, cur) (render_file f) =
      (flush_file files cur, Some (foldl (\<lambda>c l. change_line l c) (new_file ?h) ?ls))"
    by (simp only: render_file_def append_Cons append_Nil foldl_Cons diff_lines_of_file)
  also have "foldl (\<lambda>c l. change_line l c) (new_file ?h) ?ls = f"
    using change_status [OF ok(3)] ok(4,5) by (simp add: new_file_header [OF ok(1,2)] change_added change_removed del: append_Cons)
  finally show ?thesis .
qed

lemma parse_files:
  "list_all file_ok fs \<Longrightarrow> (case foldl diff_line (files, cur) (concat (map render_file fs)) of (a, b) \<Rightarrow> flush_file a b) = flush_file files cur @ fs"
  by (induction fs arbitrary: files cur) (auto simp: parse_file flush_file_def split: option.split)


definition renamed_model :: file_change where
  "renamed_model = \<lparr>fc_Path = ''models/b.sql'', fc_OldPath = ''models/a.sql'', fc_Status = ''renamed'', fc_Added = [''select 2''],
     fc_Removed = [''select 1'', [], ''--comment'']\<rparr>"


text \<open>A removed SQL comment is lost: its line in the diff looks like a path marker.\<close>

lemma removed_comment_lost: "change_line (CHR ''-'' # ''-- '' @ text) f = f"
  by (simp add: change_line_def HasPrefix_def)

section \<open>Detection of dropped columns\<close>

definition re_first :: "re list \<Rightarrow> string \<Rightarrow> (string list \<times> string) option" where
  "re_first k s = (case re_match k s of [] \<Rightarrow> None | m # _ \<Rightarrow> Some m)"

lemma re_match_Nil_iff: "re_match k s = [] \<longleftrightarrow> re_first k s = None"
  by (simp add: re_first_def split: list.split)

lemma first_word: "re_first (fold_case w @ k) (w' @ s) = (if ToLower w' = ToLower w then re_first k s else None)" if "length w' = length w"
  using that by (induction w' w rule: list_induct2) (auto simp: fold_case_def re_first_def ToLower_def)

lemma first_word_short: "length s < length w \<Longrightarrow> re_first (fold_case w @ k) s = None"
proof (induction w arbitrary: s)
  case (Cons c w)
  then show ?case by (cases s) (auto simp: fold_case_def re_first_def)
qed simp

lemma first_concat: "f n \<noteq> [] \<Longrightarrow> (case concat (map f (n # ns)) of [] \<Rightarrow> None | m # _ \<Rightarrow> Some m) = Some (hd (f n))"
  by (cases "f n") auto

lemma lengths_run:
  assumes "w \<noteq> []" and "list_all p w" and "s = [] \<or> \<not> p (hd s)"
  shows "\<exists>ns. lengths p (w @ s) = length w # ns"
proof -
  have "takeWhile p (w @ s) = w" using assms by (cases s) (auto simp: list_all_iff takeWhile_append)
  then have "lengths p (w @ s) = rev [1..<Suc (length w)]" by (simp add: lengths_def)
  also have "\<dots> = length w # rev [1..<length w]" using assms(1) by (cases "length w") auto
  finally show ?thesis by blast
qed

lemma first_many:
  assumes "w \<noteq> []" and "list_all p w" and "s = [] \<or> \<not> p (hd s)" and "re_first k s = Some m"
  shows "re_first (Many p # k) (w @ s) = Some m"
proof -
  obtain ns where ns: "lengths p (w @ s) = length w # ns" using lengths_run [OF assms(1-3)] by blast
  have "re_match k s \<noteq> []" "hd (re_match k s) = m" using assms(4) by (auto simp: re_first_def split: list.splits)
  then show ?thesis using first_concat [of "\<lambda>n. re_match k (drop n (w @ s))" "length w" ns] by (simp add: re_first_def ns)
qed

lemma first_capture:
  assumes "w \<noteq> []" and "list_all p w" and "s = [] \<or> \<not> p (hd s)" and "re_first k s = Some (caps, rest)"
  shows "re_first (Capture p # k) (w @ s) = Some (w # caps, rest)"
proof -
  obtain ns where ns: "lengths p (w @ s) = length w # ns" using lengths_run [OF assms(1-3)] by blast
  let ?f = "\<lambda>n. map (\<lambda>(caps, rest). (take n (w @ s) # caps, rest)) (re_match k (drop n (w @ s)))"
  have "?f (length w) \<noteq> []" "hd (?f (length w)) = (w # caps, rest)" using assms(4) by (auto simp: re_first_def split: list.splits)
  then show ?thesis using first_concat [of ?f "length w" ns] by (simp add: re_first_def ns)
qed

lemma many_none: "s = [] \<or> \<not> p (hd s) \<Longrightarrow> re_first (Many p # k) s = None"
  by (cases s) (auto simp: re_first_def lengths_def)

lemma first_maybe: "re_first (rs @ k) s = None \<Longrightarrow> re_first (Maybe rs # k) s = re_first k s"
  by (auto simp: re_first_def split: list.splits)

lemma first_quotes: "s \<noteq> [] \<Longrightarrow> hd s \<notin> {CHR ''`'', CHR 0x22} \<Longrightarrow> re_first (quotes @ k) s = re_first k s"
  by (cases s) (auto simp: quotes_def re_first_def split: list.splits)

lemma lower_examples: "lower_char (CHR '' '') = CHR '' ''" "lower_char (CHR ''F'') = CHR ''f''" "lower_char (CHR ''E'') = CHR ''e''"
  "lower_char (CHR ''D'') = CHR ''d''"
  by code_simp+

text \<open>The optional IF EXISTS does not match at an identifier that ends the text or is followed by another word.\<close>

lemma first_if_exists:
  assumes "w \<noteq> []" and "list_all (\<lambda>c. \<not> is_re_space c) w" and "s = [] \<or> (\<exists>c s'. s = CHR '' '' # c # s' \<and> \<not> is_re_space c \<and> lower_char c \<noteq> CHR ''e'')"
  shows "re_first (if_exists @ k) (w @ s) = re_first k (w @ s)"
proof -
  let ?rest = "fold_case ''EXISTS'' @ Many is_re_space # k"
  have "re_first (fold_case ''IF'' @ Many is_re_space # ?rest) (w @ s) = None"
  proof (cases "length (w @ s) < 2")
    case True
    then show ?thesis by (intro first_word_short) simp
  next
    case False
    then obtain a b r where ws: "w @ s = [a, b] @ r" by (cases "w @ s"; cases "tl (w @ s)") auto
    show ?thesis
    proof (cases "ToLower [a, b] = ToLower ''IF''")
      case True
      then have "b \<noteq> CHR '' ''" using lower_examples by (auto simp: ToLower_def)
      then obtain w' where w': "w = [a, b] @ w'" "r = w' @ s"
        using ws assms(1,3) by (cases w; cases "tl w") auto
      have "re_first (Many is_re_space # ?rest) r = None"
      proof (cases "w' = [] \<and> s \<noteq> []")
        case True
        then obtain c s' where s: "r = CHR '' '' # c # s'" "\<not> is_re_space c" "lower_char c \<noteq> CHR ''e''" using assms(3) w'(2) by auto
        then have "lengths is_re_space r = [1]" by (simp add: lengths_def is_re_space_def)
        then show ?thesis using s by (simp add: re_first_def fold_case_def lower_examples)
      next
        case False
        then have "r = [] \<or> \<not> is_re_space (hd r)" using w' assms(2) by (cases w') auto
        then show ?thesis by (rule many_none)
      qed
      then show ?thesis unfolding ws by (subst first_word) simp_all
    qed (unfold ws, subst first_word, simp_all)
  qed
  then show ?thesis by (simp add: if_exists_def first_maybe)
qed

lemma ident_start:
  assumes "w \<noteq> []" and "list_all (\<lambda>c. is_word c \<or> c = CHR ''.'') w"
  shows "hd w \<notin> {CHR ''`'', CHR 0x22}" and "\<not> is_re_space (hd w)" and "list_all (\<lambda>c. \<not> is_re_space c) w"
proof -
  have "x \<notin> {CHR ''`'', CHR 0x22} \<and> \<not> is_re_space x" if "x \<in> set w" for x
    using assms(2) that by (auto simp: list_all_iff is_word_def is_re_space_def)
  then show "hd w \<notin> {CHR ''`'', CHR 0x22}" "\<not> is_re_space (hd w)" "list_all (\<lambda>c. \<not> is_re_space c) w"
    using hd_in_set [OF assms(1)] by (auto simp: list_all_iff)
qed

text \<open>
  Every statement that drops a column of a named table is found, with the table and the column as written.
\<close>

theorem dropColRe_detects:
  assumes "t \<noteq> []" and "list_all (\<lambda>c. is_word c \<or> c = CHR ''.'') t" and "c \<noteq> []" and "list_all is_word c"
  shows "re_find_all dropColRe (''ALTER TABLE '' @ t @ '' DROP COLUMN '' @ c) = [[t, c]]"
proof -
  let ?ident = "\<lambda>c. is_word c \<or> c = CHR ''.''"
  note tq = ident_start [OF assms(1,2)]
  have "list_all ?ident c" using assms(4) by (simp add: list_all_iff)
  note cq = ident_start [OF assms(3) this]
  have "re_first [Capture is_word] (c @ []) = Some ([c], [])"
    by (rule first_capture) (use assms(3,4) in \<open>simp_all add: re_first_def\<close>)
  then have 1: "re_first (if_exists @ quotes @ [Capture is_word]) c = Some ([c], [])"
    using first_if_exists [of c "[]" "quotes @ [Capture is_word]"] first_quotes [of c "[Capture is_word]"] cq assms(3) by simp
  have 2: "re_first (Many is_re_space # if_exists @ quotes @ [Capture is_word]) (CHR '' '' # c) = Some ([c], [])"
    using first_many [of "'' ''" is_re_space c] 1 cq(2) by (simp add: is_re_space_def)
  let ?k2 = "fold_case ''COLUMN'' @ Many is_re_space # if_exists @ quotes @ [Capture is_word]"
  have "re_first ?k2 (''COLUMN'' @ CHR '' '' # c) = Some ([c], [])" using 2 by (subst first_word) simp_all
  then have "re_first (Many is_re_space # ?k2) ('' '' @ ''COLUMN '' @ c) = Some ([c], [])"
    by (intro first_many) (simp_all add: is_re_space_def)
  then have "re_first (fold_case ''DROP'' @ Many is_re_space # ?k2) (''DROP'' @ '' COLUMN '' @ c) = Some ([c], [])"
    by (subst first_word) simp_all
  then have "re_first (Many is_re_space # fold_case ''DROP'' @ Many is_re_space # ?k2) ('' '' @ ''DROP COLUMN '' @ c) = Some ([c], [])"
    by (intro first_many) (simp_all add: is_re_space_def)
  then have "re_first (quotes @ Many is_re_space # fold_case ''DROP'' @ Many is_re_space # ?k2) ('' DROP COLUMN '' @ c) = Some ([c], [])"
    by (subst first_quotes) simp_all
  then have 3: "re_first (Capture ?ident # quotes @ Many is_re_space # fold_case ''DROP'' @ Many is_re_space # ?k2) (t @ '' DROP COLUMN '' @ c) = Some ([t, c], [])"
    by (intro first_capture) (use assms(1,2) in \<open>simp_all add: is_word_def\<close>)
  let ?k1 = "quotes @ Capture ?ident # quotes @ Many is_re_space # fold_case ''DROP'' @ Many is_re_space # ?k2"
  have "re_first ?k1 (t @ '' DROP COLUMN '' @ c) = Some ([t, c], [])"
    using 3 tq assms(1) by (subst first_quotes) (auto simp: hd_append)
  then have "re_first (if_exists @ ?k1) (t @ '' DROP COLUMN '' @ c) = Some ([t, c], [])"
    by (subst first_if_exists) (use assms(1) tq(3) in \<open>auto simp: is_re_space_def lower_examples\<close>)
  then have "re_first (Many is_re_space # if_exists @ ?k1) ('' '' @ t @ '' DROP COLUMN '' @ c) = Some ([t, c], [])"
    by (intro first_many) (use assms(1) tq(2) in \<open>auto simp: is_re_space_def hd_append\<close>)
  then have "re_first (fold_case ''TABLE'' @ Many is_re_space # if_exists @ ?k1) (''TABLE'' @ '' '' @ t @ '' DROP COLUMN '' @ c) = Some ([t, c], [])"
    by (subst first_word) simp_all
  then have "re_first (Many is_re_space # fold_case ''TABLE'' @ Many is_re_space # if_exists @ ?k1) ('' '' @ ''TABLE '' @ t @ '' DROP COLUMN '' @ c) = Some ([t, c], [])"
    by (intro first_many) (simp_all add: is_re_space_def)
  then have "re_first dropColRe (''ALTER'' @ '' TABLE '' @ t @ '' DROP COLUMN '' @ c) = Some ([t, c], [])"
    unfolding dropColRe_def by (subst first_word) simp_all
  then obtain ms where "re_match dropColRe (''ALTER TABLE '' @ t @ '' DROP COLUMN '' @ c) = ([t, c], []) # ms"
    by (auto simp: re_first_def split: list.splits)
  moreover have "re_find_all dropColRe [] = []"
    by (subst re_find_all.simps) (simp add: dropColRe_def fold_case_def)
  ultimately show ?thesis by (subst re_find_all.simps) simp
qed

end
