(* ===== verification/Github_App.thy ===== *)
theory Github_App
  imports Pr_Report Api_Server
begin

text \<open>
  The GitHub app, \<^verbatim>\<open>internal/githubapp\<close> (app.go, client.go, store.go, analysis.go, webhook.go), the data-quality
  recorder (\<^verbatim>\<open>internal/dq/dq.go\<close>) and the settings of a customer (\<^verbatim>\<open>api/github_app.go\<close>).

  The tables are lists of rows; the database is up or down for the whole of a request. GitHub is a world of type \<open>'w\<close> that
  every HTTP call may change. JSON decoding, the signing of tokens, HMAC and the hook for push events are parameters.
\<close>

section \<open>State\<close>

record installation =
  in_ID :: int
  in_AccountLogin :: string
  in_AccountType :: string
  in_CustomerID :: "uuid option"
  in_SuspendedAt :: "int option"
  in_CreatedAt :: int

record gh_repo =
  gr_ID :: int
  gr_InstallationID :: int
  gr_FullName :: string
  gr_CustomerID :: "uuid option"
  gr_Connected :: bool

record pr_analysis =
  pa_CustomerID :: uuid
  pa_InstallationID :: int
  pa_RepoFullName :: string
  pa_PRNumber :: int
  pa_HeadSHA :: string
  pa_PullRequestURL :: string
  pa_Changes :: "change list"
  pa_Hits :: "hit list"
  pa_DQRefs :: "dq_ref list"
  pa_Conclusion :: string

record pr_suppression =
  pz_CustomerID :: uuid
  pz_Repo :: string
  pz_RepoID :: int
  pz_PRNumber :: int
  pz_FindingFP :: string
  pz_By :: string

record dq_row =
  dq_CustomerID :: uuid
  dq_TableFQN :: string
  dq_TestName :: string
  dq_Status :: string

record cached_token =
  ct_token :: string
  ct_expires :: int

text \<open>The rows of \<open>g_dq\<close> are in the order of insertion.\<close>

record 'w gh =
  g_db :: db
  g_installations :: "installation list"
  g_repos :: "gh_repo list"
  g_deliveries :: "(string \<times> string) list"
  g_analyses :: "pr_analysis list"
  g_suppressions :: "pr_suppression list"
  g_lineage :: "lineage_row list"
  g_dq :: "dq_row list"
  g_tokens :: "(int \<times> cached_token) list"
  g_world :: 'w

abbreviation g_fail :: "'w gh \<Rightarrow> go_error option" where
  "g_fail s \<equiv> db_fail (g_db s)"

abbreviation g_now :: "'w gh \<Rightarrow> int" where
  "g_now s \<equiv> db_now (g_db s)"

section \<open>Events\<close>

record pr_event =
  ev_Action :: string
  ev_Number :: int
  ev_HTMLURL :: string
  ev_HeadSHA :: string
  ev_RepoID :: int
  ev_RepoFullName :: string
  ev_InstallationID :: int

record comment_event =
  ce_Action :: string
  ce_Number :: int
  ce_IsPullRequest :: bool
  ce_Body :: string
  ce_Login :: string
  ce_RepoID :: int
  ce_RepoFullName :: string
  ce_InstallationID :: int

record installation_event =
  ie_Action :: string
  ie_InstallationID :: int
  ie_Login :: string
  ie_Type :: string
  ie_Repositories :: "(int \<times> string) list"

record repos_event =
  re_InstallationID :: int
  re_Added :: "(int \<times> string) list"
  re_Removed :: "int list"

record repository_event =
  rv_Action :: string
  rv_RepoID :: int
  rv_FullName :: string
  rv_InstallationID :: int

record http_call =
  hc_Method :: string
  hc_Path :: string
  hc_Accept :: string
  hc_Token :: string
  hc_Body :: "string option"

record 'w gh_libs =
  gl_hmac :: "bytes \<Rightarrow> bytes \<Rightarrow> bytes"
  gl_sign :: "int \<Rightarrow> int \<Rightarrow> string go"
  gl_http :: "http_call \<Rightarrow> 'w \<Rightarrow> (nat \<times> string) go \<times> 'w"
  gl_token :: "string \<Rightarrow> (string \<times> int) go"
  gl_comments :: "string \<Rightarrow> (int \<times> string) list go"
  gl_repos :: "string \<Rightarrow> (int \<times> string \<times> bool) list go"
  gl_marshal_body :: "string \<Rightarrow> string"
  gl_marshal_check :: "check_run \<Rightarrow> string"
  gl_pr :: "bytes \<Rightarrow> pr_event go"
  gl_comment :: "bytes \<Rightarrow> comment_event go"
  gl_installation :: "bytes \<Rightarrow> installation_event go"
  gl_repositories :: "bytes \<Rightarrow> repos_event go"
  gl_repository :: "bytes \<Rightarrow> repository_event go"
  gl_OnPush :: "(bytes \<Rightarrow> 'w \<Rightarrow> 'w) option"
  gl_app :: bool

section \<open>The store\<close>

definition ErrNoCustomer :: go_error where
  "ErrNoCustomer = Errorf ''no customer mapping for installation/repo''"

definition installation_customer :: "int \<Rightarrow> 'w gh \<Rightarrow> uuid go" where
  "installation_customer installationID s =
     (case find (\<lambda>x. in_ID x = installationID) (g_installations s) of
        None \<Rightarrow> Err ErrNoCustomer
      | Some x \<Rightarrow> (case in_CustomerID x of None \<Rightarrow> Err ErrNoCustomer | Some cid \<Rightarrow> Ok cid))"

definition ResolveCustomer :: "int \<Rightarrow> int \<Rightarrow> 'w gh \<Rightarrow> uuid go" where
  "ResolveCustomer installationID repoID s =
     (case g_fail s of
        Some e \<Rightarrow> Err e
      | None \<Rightarrow>
          (case find (\<lambda>r. gr_ID r = repoID \<and> gr_Connected r) (g_repos s) of
             Some r \<Rightarrow> (case gr_CustomerID r of Some cid \<Rightarrow> Ok cid | None \<Rightarrow> installation_customer installationID s)
           | None \<Rightarrow> installation_customer installationID s))"

definition WebhookSeen :: "string \<Rightarrow> string \<Rightarrow> 'w gh \<Rightarrow> bool go \<times> 'w gh" where
  "WebhookSeen deliveryID event s =
     (if deliveryID = [] then (Ok True, s)
      else (case g_fail s of
              Some e \<Rightarrow> (Err e, s)
            | None \<Rightarrow>
                if deliveryID \<in> fst ` set (g_deliveries s) then (Ok False, s)
                else (Ok True, s\<lparr>g_deliveries := g_deliveries s @ [(deliveryID, event)]\<rparr>)))"

text \<open>A statement without a result, unless the database is down.\<close>

definition exec_gh :: "('w gh \<Rightarrow> unit go \<times> 'w gh) \<Rightarrow> 'w gh \<Rightarrow> unit go \<times> 'w gh" where
  "exec_gh f s = (case g_fail s of Some e \<Rightarrow> (Err e, s) | None \<Rightarrow> f s)"

definition UpsertInstallation :: "int \<Rightarrow> string \<Rightarrow> string \<Rightarrow> 'w gh \<Rightarrow> unit go \<times> 'w gh" where
  "UpsertInstallation installationID acct accountType =
     exec_gh (\<lambda>s. (Ok (), s\<lparr>g_installations :=
       (if installationID \<in> in_ID ` set (g_installations s)
        then map (\<lambda>x. if in_ID x = installationID then x\<lparr>in_AccountLogin := acct, in_SuspendedAt := None\<rparr> else x) (g_installations s)
        else g_installations s @ [\<lparr>in_ID = installationID, in_AccountLogin = acct, in_AccountType = accountType,
               in_CustomerID = None, in_SuspendedAt = None, in_CreatedAt = g_now s\<rparr>])\<rparr>))"

definition DeleteInstallation :: "int \<Rightarrow> 'w gh \<Rightarrow> unit go \<times> 'w gh" where
  "DeleteInstallation installationID =
     exec_gh (\<lambda>s. (Ok (), s\<lparr>g_installations := filter (\<lambda>x. in_ID x \<noteq> installationID) (g_installations s),
                             g_repos := filter (\<lambda>r. gr_InstallationID r \<noteq> installationID) (g_repos s)\<rparr>))"

definition SuspendInstallation :: "int \<Rightarrow> bool \<Rightarrow> 'w gh \<Rightarrow> unit go \<times> 'w gh" where
  "SuspendInstallation installationID suspended =
     exec_gh (\<lambda>s. (Ok (), s\<lparr>g_installations := map (\<lambda>x. if in_ID x = installationID
       then x\<lparr>in_SuspendedAt := (if suspended then Some (g_now s) else None)\<rparr> else x) (g_installations s)\<rparr>))"

definition UpsertRepo :: "int \<Rightarrow> int \<Rightarrow> string \<Rightarrow> 'w gh \<Rightarrow> unit go \<times> 'w gh" where
  "UpsertRepo repoID installationID fullName =
     exec_gh (\<lambda>s.
       if installationID \<notin> in_ID ` set (g_installations s) then (Err constraint_violation, s)
       else (Ok (), s\<lparr>g_repos :=
         (if repoID \<in> gr_ID ` set (g_repos s)
          then map (\<lambda>r. if gr_ID r = repoID then r\<lparr>gr_FullName := fullName, gr_InstallationID := installationID\<rparr> else r) (g_repos s)
          else g_repos s @ [\<lparr>gr_ID = repoID, gr_InstallationID = installationID, gr_FullName = fullName,
                 gr_CustomerID = None, gr_Connected = False\<rparr>])\<rparr>))"

definition RemoveRepo :: "int \<Rightarrow> 'w gh \<Rightarrow> unit go \<times> 'w gh" where
  "RemoveRepo repoID = exec_gh (\<lambda>s. (Ok (), s\<lparr>g_repos := filter (\<lambda>r. gr_ID r \<noteq> repoID) (g_repos s)\<rparr>))"

definition pa_key :: "pr_analysis \<Rightarrow> string \<times> int \<times> string" where
  "pa_key a = (pa_RepoFullName a, pa_PRNumber a, pa_HeadSHA a)"

definition UpsertPRAnalysis :: "pr_analysis \<Rightarrow> 'w gh \<Rightarrow> unit go \<times> 'w gh" where
  "UpsertPRAnalysis row =
     exec_gh (\<lambda>s.
       if pa_CustomerID row \<notin> c_ID ` set (customers (g_db s)) then (Err constraint_violation, s)
       else (Ok (), s\<lparr>g_analyses :=
         (if pa_key row \<in> pa_key ` set (g_analyses s)
          then map (\<lambda>a. if pa_key a = pa_key row
                 then a\<lparr>pa_Changes := pa_Changes row, pa_Hits := pa_Hits row, pa_DQRefs := pa_DQRefs row,
                        pa_Conclusion := pa_Conclusion row, pa_CustomerID := pa_CustomerID row\<rparr> else a) (g_analyses s)
          else g_analyses s @ [row])\<rparr>))"

definition IsSuppressed :: "uuid \<Rightarrow> string \<Rightarrow> int \<Rightarrow> 'w gh \<Rightarrow> bool" where
  "IsSuppressed customerID repo pr s \<longleftrightarrow> g_fail s = None \<and>
     list_ex (\<lambda>z. pz_CustomerID z = customerID \<and> pz_Repo z = repo \<and> pz_PRNumber z = pr \<and> pz_FindingFP z = []) (g_suppressions s)"

definition RecordSuppression :: "uuid \<Rightarrow> string \<Rightarrow> int \<Rightarrow> int \<Rightarrow> string \<Rightarrow> string \<Rightarrow> 'w gh \<Rightarrow> unit go \<times> 'w gh" where
  "RecordSuppression customerID repo repoID pr fp by' =
     exec_gh (\<lambda>s.
       if customerID \<notin> c_ID ` set (customers (g_db s)) then (Err constraint_violation, s)
       else if list_ex (\<lambda>z. pz_CustomerID z = customerID \<and> pz_Repo z = repo \<and> pz_PRNumber z = pr \<and> pz_FindingFP z = fp) (g_suppressions s)
       then (Ok (), s)
       else (Ok (), s\<lparr>g_suppressions := g_suppressions s @ [\<lparr>pz_CustomerID = customerID, pz_Repo = repo, pz_RepoID = repoID,
               pz_PRNumber = pr, pz_FindingFP = fp, pz_By = by'\<rparr>]\<rparr>))"

text \<open>The status of the newest result of a table, whatever its test; an error of the database counts as a pass.\<close>

definition LatestStatus :: "uuid \<Rightarrow> string \<Rightarrow> 'w gh \<Rightarrow> string" where
  "LatestStatus customerID tableFQN s =
     (case (if g_fail s = None then find (\<lambda>d. dq_CustomerID d = customerID \<and> dq_TableFQN d = tableFQN) (rev (g_dq s)) else None) of
        Some d \<Rightarrow> dq_Status d
      | None \<Rightarrow> ''pass'')"

definition dq_Record :: "dq_row \<Rightarrow> 'w gh \<Rightarrow> unit go \<times> 'w gh" where
  "dq_Record res =
     exec_gh (\<lambda>s.
       if dq_CustomerID res \<notin> c_ID ` set (customers (g_db s)) \<or> dq_Status res \<notin> set [''pass'', ''fail'', ''skip'', ''error'']
       then (Err constraint_violation, s)
       else (Ok (), s\<lparr>g_dq := g_dq s @ [res]\<rparr>))"

section \<open>The client\<close>

definition then_st :: "'a go \<times> 's \<Rightarrow> ('a \<Rightarrow> 's \<Rightarrow> 'b go \<times> 's) \<Rightarrow> 'b go \<times> 's" where
  "then_st r f = (case r of (Ok x, s) \<Rightarrow> f x s | (Err e, s) \<Rightarrow> (Err e, s) | (Panic, s) \<Rightarrow> (Panic, s))"

definition http_gh :: "'w gh_libs \<Rightarrow> http_call \<Rightarrow> 'w gh \<Rightarrow> (nat \<times> string) go \<times> 'w gh" where
  "http_gh L call s = (case gl_http L call (g_world s) of (r, w) \<Rightarrow> (r, s\<lparr>g_world := w\<rparr>))"

definition minute :: int where
  "minute = 60 * second"

definition github_json :: string where
  "github_json = ''application/vnd.github+json''"

definition mint_token :: "'w gh_libs \<Rightarrow> int \<Rightarrow> 'w gh \<Rightarrow> string go \<times> 'w gh" where
  "mint_token L installationID s =
     (case gl_sign L (g_now s - minute) (g_now s + 9 * minute) of
        Err e \<Rightarrow> (Err e, s)
      | Panic \<Rightarrow> (Panic, s)
      | Ok jwtStr \<Rightarrow>
          then_st (http_gh L \<lparr>hc_Method = ''POST'', hc_Path = ''/app/installations/'' @ Itoa installationID @ ''/access_tokens'',
                     hc_Accept = github_json, hc_Token = jwtStr, hc_Body = None\<rparr> s) (\<lambda>(status, body) s1.
            if 400 \<le> status then (Err (Errorf (''installation token http '' @ Itoa (int status) @ '': '' @ take 512 body)), s1)
            else (case gl_token L body of
                    Err e \<Rightarrow> (Err e, s1)
                  | Panic \<Rightarrow> (Panic, s1)
                  | Ok (tok, expiry) \<Rightarrow> (Ok tok, s1\<lparr>g_tokens := put installationID \<lparr>ct_token = tok, ct_expires = expiry\<rparr> (g_tokens s1)\<rparr>))))"

definition InstallationToken :: "'w gh_libs \<Rightarrow> int \<Rightarrow> 'w gh \<Rightarrow> string go \<times> 'w gh" where
  "InstallationToken L installationID s =
     (case map_of (g_tokens s) installationID of
        Some t \<Rightarrow> if ct_expires t - g_now s > 5 * minute then (Ok (ct_token t), s) else mint_token L installationID s
      | None \<Rightarrow> mint_token L installationID s)"


definition client_do :: "'w gh_libs \<Rightarrow> int \<Rightarrow> string \<Rightarrow> string \<Rightarrow> string \<Rightarrow> string option \<Rightarrow> 'w gh \<Rightarrow> (nat \<times> string) go \<times> 'w gh" where
  "client_do L installationID method path accept body s =
     (if \<not> gl_app L then (Err (Errorf ''github app not configured''), s)
      else then_st (InstallationToken L installationID s) (\<lambda>tok s1.
        http_gh L \<lparr>hc_Method = method, hc_Path = path, hc_Accept = (if accept = [] then github_json else accept), hc_Token = tok,
                   hc_Body = body\<rparr> s1))"

definition repo_char :: "char \<Rightarrow> bool" where
  "repo_char c \<longleftrightarrow> is_word c \<or> c = CHR ''.'' \<or> c = CHR ''-''"

definition ValidRepo :: "string \<Rightarrow> bool" where
  "ValidRepo full =
     (case Split full (CHR ''/'') of
        [owner, name] \<Rightarrow> owner \<noteq> [] \<and> name \<noteq> [] \<and> list_all repo_char owner \<and> list_all repo_char name
      | _ \<Rightarrow> False)"

definition with_repo :: "string \<Rightarrow> ('w gh \<Rightarrow> 'b go \<times> 'w gh) \<Rightarrow> 'w gh \<Rightarrow> 'b go \<times> 'w gh" where
  "with_repo repo f s = (if ValidRepo repo then f s else (Err (Errorf (''invalid repo '' @ Quote repo)), s))"

definition http_fail :: "string \<Rightarrow> nat \<Rightarrow> go_error" where
  "http_fail what status = Errorf (what @ '' http '' @ Itoa (int status))"

definition PRDiff :: "'w gh_libs \<Rightarrow> int \<Rightarrow> string \<Rightarrow> int \<Rightarrow> 'w gh \<Rightarrow> string go \<times> 'w gh" where
  "PRDiff L installationID repo pr = with_repo repo (\<lambda>s.
     then_st (client_do L installationID ''GET'' (''/repos/'' @ repo @ ''/pulls/'' @ Itoa pr) ''application/vnd.github.v3.diff'' None s)
       (\<lambda>(status, body) s1. if 400 \<le> status then (Err (http_fail ''pr diff'' status), s1) else (Ok (take (2 * 2 ^ 20) body), s1)))"

definition FileAtRef :: "'w gh_libs \<Rightarrow> int \<Rightarrow> string \<Rightarrow> string \<Rightarrow> string \<Rightarrow> 'w gh \<Rightarrow> string go \<times> 'w gh" where
  "FileAtRef L installationID repo path ref = with_repo repo (\<lambda>s.
     then_st (client_do L installationID ''GET'' (''/repos/'' @ repo @ ''/contents/'' @ path @ ''?ref='' @ ref) ''application/vnd.github.raw'' None s)
       (\<lambda>(status, body) s1. if status = 404 then (Ok [], s1)
         else if 400 \<le> status then (Err (http_fail ''contents'' status), s1) else (Ok (take (2 ^ 20) body), s1)))"

definition FindComment :: "'w gh_libs \<Rightarrow> int \<Rightarrow> string \<Rightarrow> int \<Rightarrow> string \<Rightarrow> 'w gh \<Rightarrow> int go \<times> 'w gh" where
  "FindComment L installationID repo pr marker = with_repo repo (\<lambda>s.
     then_st (client_do L installationID ''GET'' (''/repos/'' @ repo @ ''/issues/'' @ Itoa pr @ ''/comments?per_page=100'') [] None s)
       (\<lambda>(status, body) s1. if 400 \<le> status then (Err (http_fail ''list comments'' status), s1)
         else (bind_go (gl_comments L body) (\<lambda>comments.
           case find (\<lambda>(_, b). Contains b marker) comments of Some (i, _) \<Rightarrow> Ok i | None \<Rightarrow> Ok 0), s1)))"

definition UpsertComment :: "'w gh_libs \<Rightarrow> int \<Rightarrow> string \<Rightarrow> int \<Rightarrow> string \<Rightarrow> string \<Rightarrow> 'w gh \<Rightarrow> unit go \<times> 'w gh" where
  "UpsertComment L installationID repo pr marker body s =
     then_st (FindComment L installationID repo pr marker s) (\<lambda>i s1.
       then_st (if i \<noteq> 0 then client_do L installationID ''PATCH'' (''/repos/'' @ repo @ ''/issues/comments/'' @ Itoa i) [] (Some (gl_marshal_body L body)) s1
                else client_do L installationID ''POST'' (''/repos/'' @ repo @ ''/issues/'' @ Itoa pr @ ''/comments'') [] (Some (gl_marshal_body L body)) s1)
         (\<lambda>(status, _) s2. if 400 \<le> status then (Err (http_fail ''upsert comment'' status), s2) else (Ok (), s2)))"

definition CreateCheckRun :: "'w gh_libs \<Rightarrow> int \<Rightarrow> string \<Rightarrow> string \<Rightarrow> string \<Rightarrow> 'w gh \<Rightarrow> unit go \<times> 'w gh" where
  "CreateCheckRun L installationID repo sha payload = with_repo repo (\<lambda>s.
     then_st (client_do L installationID ''POST'' (''/repos/'' @ repo @ ''/check-runs'') [] (Some payload) s)
       (\<lambda>(status, _) s1. if 400 \<le> status then (Err (http_fail ''check-run'' status), s1) else (Ok (), s1)))"

definition ListInstallationRepos :: "'w gh_libs \<Rightarrow> int \<Rightarrow> 'w gh \<Rightarrow> (int \<times> string \<times> bool) list go \<times> 'w gh" where
  "ListInstallationRepos L installationID s =
     then_st (client_do L installationID ''GET'' ''/installation/repositories?per_page=100'' [] None s)
       (\<lambda>(status, body) s1. if 400 \<le> status then (Err (http_fail ''list repos'' status), s1) else (gl_repos L body, s1))"

section \<open>The analysis of a pull request\<close>

definition merge_hit :: "(string \<times> hit) list \<Rightarrow> hit \<Rightarrow> (string \<times> hit) list" where
  "merge_hit merged h =
     (case map_of merged (ht_FQN h) of
        Some prev \<Rightarrow>
          put (ht_FQN h) (prev\<lparr>ht_Hops := (if ht_Hops h < ht_Hops prev then ht_Hops h else ht_Hops prev),
                               ht_Severity := (if ht_Severity h = ''breaking'' then ''breaking'' else ht_Severity prev)\<rparr>) merged
      | None \<Rightarrow> put (ht_FQN h) h merged)"

fun merge_changes :: "go_error option \<Rightarrow> uuid \<Rightarrow> lineage_row list \<Rightarrow> change list \<Rightarrow> (string \<times> hit) list \<Rightarrow> (string \<times> hit) list go" where
  "merge_changes fail customerID rs [] merged = Ok merged"
| "merge_changes fail customerID rs (ch # chs) merged =
     bind_go (Preview fail customerID ch 5 rs) (\<lambda>hits. merge_changes fail customerID rs chs (foldl merge_hit merged hits))"

record pr_report =
  pp_Changes :: "change list"
  pp_Hits :: "hit list"
  pp_DQRefs :: "dq_ref list"
  pp_Conclusion :: string

definition dq_refs :: "uuid \<Rightarrow> hit list \<Rightarrow> change list \<Rightarrow> 'w gh \<Rightarrow> dq_ref list" where
  "dq_refs customerID hits changes s =
     concat (map (\<lambda>t. let status = LatestStatus customerID t s in if status = [] then [] else [\<lparr>dr_TableFQN = t, dr_Status = status\<rparr>])
       (remdups (map (\<lambda>h. tableOf (ht_FQN h)) hits @ map (\<lambda>c. tableOf (ch_FQN c)) changes)))"

definition AnalyzePR :: "'w gh_libs \<Rightarrow> uuid \<Rightarrow> int \<Rightarrow> string \<Rightarrow> int \<Rightarrow> string \<Rightarrow> string \<Rightarrow> 'w gh \<Rightarrow> pr_report go \<times> 'w gh" where
  "AnalyzePR L customerID installationID repo pr headSHA prURL s =
     then_st (PRDiff L installationID repo pr s) (\<lambda>diff s1.
       let changes = DetectChanges (ParseDiff diff) in
       case merge_changes (g_fail s1) customerID (g_lineage s1) changes [] of
         Err e \<Rightarrow> (Err e, s1)
       | Panic \<Rightarrow> (Panic, s1)
       | Ok merged \<Rightarrow>
           (let hits = map snd merged; refs = dq_refs customerID hits changes s1; c = Conclusion hits refs in
            then_st (UpsertPRAnalysis
                \<lparr>pa_CustomerID = customerID, pa_InstallationID = installationID, pa_RepoFullName = repo, pa_PRNumber = pr,
                 pa_HeadSHA = headSHA, pa_PullRequestURL = prURL, pa_Changes = changes, pa_Hits = hits, pa_DQRefs = refs,
                 pa_Conclusion = c\<rparr> s1) (\<lambda>_ s2.
              (Ok \<lparr>pp_Changes = changes, pp_Hits = hits, pp_DQRefs = refs, pp_Conclusion = c\<rparr>, s2))))"

section \<open>The webhook\<close>

definition VerifySignature :: "'w gh_libs \<Rightarrow> bytes \<Rightarrow> bytes \<Rightarrow> string \<Rightarrow> bool" where
  "VerifySignature L secret body sig \<longleftrightarrow>
     secret \<noteq> [] \<and> HasPrefix sig ''sha256='' \<and> hexEncode (gl_hmac L secret body) = TrimPrefix sig ''sha256=''"

definition hasSuppressDirective :: "string \<Rightarrow> bool" where
  "hasSuppressDirective body \<longleftrightarrow> list_ex (\<lambda>line. HasPrefix (TrimSpace line) ''/uv suppress'') (Split body (CHR 0x0A))"

text \<open>The decoded event, or the decoding error.\<close>

definition on_event :: "'a go \<Rightarrow> ('a \<Rightarrow> 'w gh \<Rightarrow> unit go \<times> 'w gh) \<Rightarrow> 'w gh \<Rightarrow> unit go \<times> 'w gh" where
  "on_event ev f s = then_st (ev, s) f"

text \<open>The rest of a handler for the tenant of an event; without one the event is skipped.\<close>

definition for_tenant :: "int \<Rightarrow> int \<Rightarrow> (uuid \<Rightarrow> 'w gh \<Rightarrow> unit go \<times> 'w gh) \<Rightarrow> 'w gh \<Rightarrow> unit go \<times> 'w gh" where
  "for_tenant installationID repoID f s =
     (case ResolveCustomer installationID repoID s of
        Ok cid \<Rightarrow> f cid s
      | Err e \<Rightarrow> if e = ErrNoCustomer then (Ok (), s) else (Err e, s)
      | Panic \<Rightarrow> (Panic, s))"

text \<open>A call whose error is only log_and_continue.\<close>

definition log_and_continue :: "unit go \<times> 's \<Rightarrow> ('s \<Rightarrow> unit go \<times> 's) \<Rightarrow> unit go \<times> 's" where
  "log_and_continue r f = (case r of (Panic, s) \<Rightarrow> (Panic, s) | (_, s) \<Rightarrow> f s)"

definition onPullRequest :: "'w gh_libs \<Rightarrow> bytes \<Rightarrow> 'w gh \<Rightarrow> unit go \<times> 'w gh" where
  "onPullRequest L body = on_event (gl_pr L body) (\<lambda>ev s.
     if ev_Action ev \<notin> set [''opened'', ''synchronize'', ''reopened'', ''edited''] then (Ok (), s)
     else for_tenant (ev_InstallationID ev) (ev_RepoID ev) (\<lambda>cid s.
       if IsSuppressed cid (ev_RepoFullName ev) (ev_Number ev) s then (Ok (), s)
       else then_st (AnalyzePR L cid (ev_InstallationID ev) (ev_RepoFullName ev) (ev_Number ev) (ev_HeadSHA ev) (ev_HTMLURL ev) s) (\<lambda>rep s1.
         log_and_continue (UpsertComment L (ev_InstallationID ev) (ev_RepoFullName ev) (ev_Number ev) CommentMarker
             (RenderComment (pp_Changes rep) (pp_Hits rep) (pp_DQRefs rep) (ev_HeadSHA ev)) s1) (\<lambda>s2.
           log_and_continue (CreateCheckRun L (ev_InstallationID ev) (ev_RepoFullName ev) (ev_HeadSHA ev)
               (gl_marshal_check L (CheckRunPayload (g_now s2) (pp_Changes rep) (pp_Hits rep) (pp_DQRefs rep) (ev_HeadSHA ev))) s2) (\<lambda>s3.
             (Ok (), s3))))) s)"

definition onIssueComment :: "'w gh_libs \<Rightarrow> bytes \<Rightarrow> 'w gh \<Rightarrow> unit go \<times> 'w gh" where
  "onIssueComment L body = on_event (gl_comment L body) (\<lambda>ev s.
     if ce_Action ev \<noteq> ''created'' \<or> \<not> ce_IsPullRequest ev \<or> \<not> hasSuppressDirective (ce_Body ev) then (Ok (), s)
     else for_tenant (ce_InstallationID ev) (ce_RepoID ev) (\<lambda>cid.
       RecordSuppression cid (ce_RepoFullName ev) (ce_RepoID ev) (ce_Number ev) [] (ce_Login ev)) s)"

fun upsert_repos :: "int \<Rightarrow> (int \<times> string) list \<Rightarrow> 'w gh \<Rightarrow> unit go \<times> 'w gh" where
  "upsert_repos installationID [] s = (Ok (), s)"
| "upsert_repos installationID ((i, name) # rs) s =
     then_st (UpsertRepo i installationID name s) (\<lambda>_ s1. upsert_repos installationID rs s1)"

fun remove_repos :: "int list \<Rightarrow> 'w gh \<Rightarrow> unit go \<times> 'w gh" where
  "remove_repos [] s = (Ok (), s)"
| "remove_repos (i # is) s = then_st (RemoveRepo i s) (\<lambda>_ s1. remove_repos is s1)"

definition onInstallation :: "'w gh_libs \<Rightarrow> bytes \<Rightarrow> 'w gh \<Rightarrow> unit go \<times> 'w gh" where
  "onInstallation L body = on_event (gl_installation L body) (\<lambda>ev s.
     if ie_Action ev = ''created''
     then then_st (UpsertInstallation (ie_InstallationID ev) (ie_Login ev) (ie_Type ev) s) (\<lambda>_ s1.
            upsert_repos (ie_InstallationID ev) (ie_Repositories ev) s1)
     else if ie_Action ev = ''deleted'' then DeleteInstallation (ie_InstallationID ev) s
     else if ie_Action ev = ''suspend'' then SuspendInstallation (ie_InstallationID ev) True s
     else if ie_Action ev = ''unsuspend'' then SuspendInstallation (ie_InstallationID ev) False s
     else (Ok (), s))"

definition onInstallationRepos :: "'w gh_libs \<Rightarrow> bytes \<Rightarrow> 'w gh \<Rightarrow> unit go \<times> 'w gh" where
  "onInstallationRepos L body = on_event (gl_repositories L body) (\<lambda>ev s.
     then_st (upsert_repos (re_InstallationID ev) (re_Added ev) s) (\<lambda>_ s1. remove_repos (re_Removed ev) s1))"

definition onRepository :: "'w gh_libs \<Rightarrow> bytes \<Rightarrow> 'w gh \<Rightarrow> unit go \<times> 'w gh" where
  "onRepository L body = on_event (gl_repository L body) (\<lambda>ev s.
     if rv_Action ev = ''renamed'' \<or> rv_Action ev = ''transferred''
     then UpsertRepo (rv_RepoID ev) (rv_InstallationID ev) (rv_FullName ev) s else (Ok (), s))"

definition gh_dispatch :: "'w gh_libs \<Rightarrow> string \<Rightarrow> bytes \<Rightarrow> 'w gh \<Rightarrow> unit go \<times> 'w gh" where
  "gh_dispatch L event body s =
     (if event = ''pull_request'' then onPullRequest L body s
      else if event = ''issue_comment'' then onIssueComment L body s
      else if event = ''installation'' then onInstallation L body s
      else if event = ''installation_repositories'' then onInstallationRepos L body s
      else if event = ''repository'' then onRepository L body s
      else if event = ''push''
      then (case gl_OnPush L of None \<Rightarrow> (Ok (), s) | Some f \<Rightarrow> (Ok (), s\<lparr>g_world := f body (g_world s)\<rparr>))
      else (Ok (), s))"

definition maxWebhookBody :: nat where
  "maxWebhookBody = 2 * 2 ^ 20"

text \<open>The status of the answer; a panic ends the connection.\<close>

definition ServeWebhook :: "'w gh_libs \<Rightarrow> bytes \<Rightarrow> http_request \<Rightarrow> 'w gh \<Rightarrow> nat go \<times> 'w gh" where
  "ServeWebhook L secret r s =
     (let body = take maxWebhookBody (rq_Body r); event = rq_Header r ''X-GitHub-Event''; delivery = rq_Header r ''X-GitHub-Delivery'' in
      if \<not> VerifySignature L secret body (rq_Header r ''X-Hub-Signature-256'') then (Ok 401, s)
      else (case WebhookSeen delivery event s of
              (Err _, s1) \<Rightarrow> (Ok 500, s1)
            | (Panic, s1) \<Rightarrow> (Panic, s1)
            | (Ok first, s1) \<Rightarrow>
                if \<not> first then (Ok 200, s1)
                else (case gh_dispatch L event body s1 of (Panic, s2) \<Rightarrow> (Panic, s2) | (_, s2) \<Rightarrow> (Ok 200, s2))))"

section \<open>Settings\<close>

definition gh_respond :: "('a go) \<Rightarrow> ('a \<Rightarrow> (response + 'b) \<times> 'w gh) \<Rightarrow> 'w gh \<Rightarrow> (response + 'b) \<times> 'w gh" where
  "gh_respond r f s = (case r of Ok x \<Rightarrow> f x | Err e \<Rightarrow> (Inl (writeErr 400 e), s) | Panic \<Rightarrow> (Inl (writeJSON 500 NoBody), s))"

definition githubInstallInfo :: "string \<Rightarrow> http_request \<Rightarrow> 'w gh \<Rightarrow> (response + string \<times> bool) \<times> 'w gh" where
  "githubInstallInfo appSlug r s = gh_respond (activeCustomer r (g_db s)) (\<lambda>cid.
     (Inr (if appSlug \<noteq> [] then ''https://github.com/apps/'' @ appSlug @ ''/installations/new'' else [],
           g_fail s = None \<and> list_ex (\<lambda>x. in_CustomerID x = Some cid) (g_installations s)), s)) s"

definition claim_installation :: "int \<Rightarrow> uuid \<Rightarrow> 'w gh \<Rightarrow> 'w gh" where
  "claim_installation i cid s =
     (if g_fail s \<noteq> None \<or> cid \<notin> c_ID ` set (customers (g_db s)) then s
      else s\<lparr>g_installations :=
        (if i \<in> in_ID ` set (g_installations s)
         then map (\<lambda>x. if in_ID x = i then x\<lparr>in_CustomerID := Some cid\<rparr> else x) (g_installations s)
         else g_installations s @ [\<lparr>in_ID = i, in_AccountLogin = [], in_AccountType = ''Organization'', in_CustomerID = Some cid,
                in_SuspendedAt = None, in_CreatedAt = g_now s\<rparr>])\<rparr>)"

text \<open>The right-hand result is the target of the redirect.\<close>

definition githubSetupCallback :: "string \<Rightarrow> http_request \<Rightarrow> 'w gh \<Rightarrow> (response + string) \<times> 'w gh" where
  "githubSetupCallback redirect r s = gh_respond (activeCustomer r (g_db s)) (\<lambda>cid.
     (Inr (if redirect = [] then ''/'' else redirect),
      case Atoi (rq_Query r ''installation_id'') of Some i \<Rightarrow> claim_installation i cid s | None \<Rightarrow> s)) s"

definition listGitHubInstallations :: "http_request \<Rightarrow> 'w gh \<Rightarrow> (response + installation list) \<times> 'w gh" where
  "listGitHubInstallations r s = gh_respond (activeCustomer r (g_db s)) (\<lambda>cid.
     (case g_fail s of
        Some e \<Rightarrow> Inl (writeErr 500 e)
      | None \<Rightarrow> Inr (sort_key (\<lambda>x. - in_CreatedAt x) (filter (\<lambda>x. in_CustomerID x = Some cid) (g_installations s))), s)) s"

fun insert_repo :: "gh_repo \<Rightarrow> gh_repo list \<Rightarrow> gh_repo list" where
  "insert_repo q [] = [q]"
| "insert_repo q (x # xs) = (if lex_le (str_key (gr_FullName q)) (str_key (gr_FullName x)) then q # x # xs else x # insert_repo q xs)"

definition of_customer :: "uuid \<Rightarrow> 'w gh \<Rightarrow> gh_repo \<Rightarrow> bool" where
  "of_customer cid s r \<longleftrightarrow> list_ex (\<lambda>x. in_ID x = gr_InstallationID r \<and> in_CustomerID x = Some cid) (g_installations s)"

definition listGitHubRepos :: "http_request \<Rightarrow> 'w gh \<Rightarrow> (response + gh_repo list) \<times> 'w gh" where
  "listGitHubRepos r s = gh_respond (activeCustomer r (g_db s)) (\<lambda>cid.
     (case g_fail s of
        Some e \<Rightarrow> Inl (writeErr 500 e)
      | None \<Rightarrow> Inr (foldr insert_repo (filter (of_customer cid s) (g_repos s)) []), s)) s"

definition setGitHubRepoConnected :: "bool \<Rightarrow> string go \<Rightarrow> http_request \<Rightarrow> 'w gh \<Rightarrow> (response + bool) \<times> 'w gh" where
  "setGitHubRepoConnected on body r s = gh_respond (activeCustomer r (g_db s)) (\<lambda>cid.
     case body of
       Panic \<Rightarrow> (Inl (writeJSON 500 NoBody), s)
     | Err e \<Rightarrow> (Inl (writeErr 400 (Errorf ''repo_full_name required'')), s)
     | Ok name \<Rightarrow>
         if name = [] then (Inl (writeErr 400 (Errorf ''repo_full_name required'')), s)
         else (case g_fail s of
                 Some e \<Rightarrow> (Inl (writeErr 500 e), s)
               | None \<Rightarrow>
                   (let hit = (\<lambda>x. of_customer cid s x \<and> gr_FullName x = name) in
                    if \<not> list_ex hit (g_repos s) then (Inl (writeErr 404 (Errorf ''repo not found under your installations'')), s)
                    else if cid \<notin> c_ID ` set (customers (g_db s)) then (Inl (writeErr 500 constraint_violation), s)
                    else (Inr on, s\<lparr>g_repos := map (\<lambda>x. if hit x then x\<lparr>gr_Connected := on, gr_CustomerID := Some cid\<rparr> else x) (g_repos s)\<rparr>)))) s"

section \<open>Frames\<close>

text \<open>A call of the client changes the token cache and GitHub, nothing else.\<close>

definition net :: "'w gh \<Rightarrow> 'w gh \<Rightarrow> bool" where
  "net s s' \<longleftrightarrow> s' = s\<lparr>g_tokens := g_tokens s', g_world := g_world s'\<rparr>"

lemma net_refl [simp]: "net s s"
  by (simp add: net_def)

lemma net_upd [simp]: "net s (s\<lparr>g_tokens := a\<rparr>)" "net s (s\<lparr>g_world := w\<rparr>)"
  by (simp_all add: net_def)

lemma net_trans: "net s s1 \<Longrightarrow> net s1 s2 \<Longrightarrow> net s s2"
  unfolding net_def by (cases s; cases s1; cases s2) simp

lemma then_st_net:
  "net s (snd r) \<Longrightarrow> (\<And>x s1. net s s1 \<Longrightarrow> net s (snd (f x s1))) \<Longrightarrow> net s (snd (then_st r f))"
  by (auto simp: then_st_def split: prod.splits go.splits)

lemma http_net: "net s (snd (http_gh L call s))"
  by (simp add: http_gh_def split: prod.split)

lemma mint_token_net: "net s (snd (mint_token L i s))"
proof -
  have "net s (s1\<lparr>g_tokens := a\<rparr>)" if "net s s1" for s1 a using net_trans [OF that] by simp
  then show ?thesis
    by (auto simp: mint_token_def http_net split: go.split prod.splits intro!: then_st_net)
qed

lemma InstallationToken_net: "net s (snd (InstallationToken L i s))"
  by (simp add: InstallationToken_def mint_token_net split: option.split)

lemma client_do_net: "net s (snd (client_do L i m path accept body s))"
  by (auto simp: client_do_def InstallationToken_net intro!: then_st_net intro: net_trans [OF _ http_net])

lemma with_repo_net: "(\<And>s. net s (snd (f s))) \<Longrightarrow> net s (snd (with_repo repo f s))"
  by (simp add: with_repo_def)

lemma PRDiff_net: "net s (snd (PRDiff L i repo pr s))"
  by (auto simp: PRDiff_def client_do_net intro!: with_repo_net then_st_net split: prod.split)

lemma FindComment_net: "net s (snd (FindComment L i repo pr m s))"
  by (auto simp: FindComment_def client_do_net intro!: with_repo_net then_st_net split: prod.split)

lemma UpsertComment_net: "net s (snd (UpsertComment L i repo pr m b s))"
  by (auto simp: UpsertComment_def FindComment_net intro!: then_st_net split: prod.split intro: net_trans [OF _ client_do_net])

lemma CreateCheckRun_net: "net s (snd (CreateCheckRun L i repo sha p s))"
  by (auto simp: CreateCheckRun_def client_do_net intro!: with_repo_net then_st_net split: prod.split)

text \<open>
  What one event may do to the tables: the control store, the lineage, the data-quality results and the deliveries stay,
  and a new analysis or suppression belongs to a tenant that some installation or repository resolves to.
\<close>

definition tenants :: "'w gh \<Rightarrow> uuid set" where
  "tenants s = {c. \<exists>i r. ResolveCustomer i r s = Ok c}"

definition gh_step :: "uuid set \<Rightarrow> 'w gh \<Rightarrow> 'w gh \<Rightarrow> bool" where
  "gh_step C s s' \<longleftrightarrow> g_db s' = g_db s \<and> g_lineage s' = g_lineage s \<and> g_dq s' = g_dq s \<and> g_deliveries s' = g_deliveries s \<and>
     (\<forall>a \<in> set (g_analyses s'). a \<in> set (g_analyses s) \<or> pa_CustomerID a \<in> C) \<and>
     (\<forall>z \<in> set (g_suppressions s'). z \<in> set (g_suppressions s) \<or> pz_CustomerID z \<in> C)"

lemma gh_step_refl [simp]: "gh_step C s s"
  by (simp add: gh_step_def)

lemma gh_step_trans: "gh_step C s s1 \<Longrightarrow> gh_step C s1 s2 \<Longrightarrow> gh_step C s s2"
  unfolding gh_step_def by auto

lemma net_step: "net s s' \<Longrightarrow> gh_step C s s'"
  unfolding net_def gh_step_def by (metis (no_types, lifting) gh.ext_inject gh.surjective gh.update_convs(9) gh.update_convs(10))

lemma then_st_step:
  "gh_step C s (snd r) \<Longrightarrow> (\<And>x s1. gh_step C s1 (snd (f x s1))) \<Longrightarrow> gh_step C s (snd (then_st r f))"
  by (auto simp: then_st_def split: prod.splits go.splits intro: gh_step_trans)

lemma log_and_continue_step: "gh_step C s (snd r) \<Longrightarrow> (\<And>s1. gh_step C s1 (snd (f s1))) \<Longrightarrow> gh_step C s (snd (log_and_continue r f))"
  by (auto simp: log_and_continue_def split: prod.splits go.splits intro: gh_step_trans)

lemma store_steps:
  "gh_step C s (snd (UpsertInstallation i l a s))" "gh_step C s (snd (DeleteInstallation i s))" "gh_step C s (snd (SuspendInstallation i b s))"
  "gh_step C s (snd (UpsertRepo rid i n s))" "gh_step C s (snd (RemoveRepo rid s))"
  by (simp_all add: UpsertInstallation_def DeleteInstallation_def SuspendInstallation_def UpsertRepo_def RemoveRepo_def exec_gh_def
      gh_step_def split: option.split)

lemma UpsertPRAnalysis_step: "pa_CustomerID row \<in> C \<Longrightarrow> gh_step C s (snd (UpsertPRAnalysis row s))"
  by (auto simp: UpsertPRAnalysis_def exec_gh_def gh_step_def split: option.split)

lemma RecordSuppression_step: "cid \<in> C \<Longrightarrow> gh_step C s (snd (RecordSuppression cid repo rid pr fp b s))"
  by (auto simp: RecordSuppression_def exec_gh_def gh_step_def split: option.split)

lemma upsert_repos_step: "gh_step C s (snd (upsert_repos i rs s))"
  by (induction rs arbitrary: s) (auto intro!: then_st_step store_steps)

lemma remove_repos_step: "gh_step C s (snd (remove_repos is s))"
  by (induction "is" arbitrary: s) (auto intro!: then_st_step store_steps)

lemma for_tenant_step: "(\<And>cid. cid \<in> tenants s \<Longrightarrow> gh_step (tenants s) s (snd (f cid s))) \<Longrightarrow> gh_step (tenants s) s (snd (for_tenant i r f s))"
  by (auto simp: for_tenant_def tenants_def split: go.split)

lemma AnalyzePR_step: "cid \<in> C \<Longrightarrow> gh_step C s (snd (AnalyzePR L cid i repo pr sha url s))"
  unfolding AnalyzePR_def
  by (intro then_st_step net_step [OF PRDiff_net])
    (auto simp: Let_def intro!: then_st_step UpsertPRAnalysis_step split: go.split)

lemma on_event_step: "(\<And>ev. gh_step C s (snd (f ev s))) \<Longrightarrow> gh_step C s (snd (on_event r f s))"
  by (auto simp: on_event_def then_st_def split: go.split)

lemma gh_dispatch_step: "gh_step (tenants s) s (snd (gh_dispatch L event body s))"
proof -
  have pr: "gh_step (tenants s) s (snd (onPullRequest L body s))"
    unfolding onPullRequest_def
    by (intro on_event_step)
      (auto intro!: for_tenant_step then_st_step AnalyzePR_step log_and_continue_step net_step [OF UpsertComment_net] net_step [OF CreateCheckRun_net])
  have "gh_step (tenants s) s (snd (onIssueComment L body s))"
    unfolding onIssueComment_def by (intro on_event_step) (auto intro!: for_tenant_step RecordSuppression_step)
  moreover have "gh_step (tenants s) s (snd (onInstallation L body s))" "gh_step (tenants s) s (snd (onInstallationRepos L body s))"
    "gh_step (tenants s) s (snd (onRepository L body s))"
    unfolding onInstallation_def onInstallationRepos_def onRepository_def
    by (intro on_event_step; auto intro!: then_st_step store_steps upsert_repos_step remove_repos_step)+
  moreover have "gh_step (tenants s) s (s\<lparr>g_world := w\<rparr>)" for w by (rule net_step) simp
  ultimately show ?thesis using pr by (simp add: gh_dispatch_def split: option.split)
qed

section \<open>Theorems\<close>

text \<open>Requests in order; between two of them the control store may change in any way, and be down.\<close>

definition serve_all :: "'w gh_libs \<Rightarrow> bytes \<Rightarrow> (db \<times> http_request) list \<Rightarrow> 'w gh \<Rightarrow> 'w gh" where
  "serve_all L secret qs s = foldl (\<lambda>s (d, q). snd (ServeWebhook L secret q (s\<lparr>g_db := d\<rparr>))) s qs"

abbreviation delivery :: "http_request \<Rightarrow> string" where
  "delivery r \<equiv> rq_Header r ''X-GitHub-Delivery''"

abbreviation signed :: "'w gh_libs \<Rightarrow> bytes \<Rightarrow> http_request \<Rightarrow> bool" where
  "signed L secret r \<equiv> VerifySignature L secret (take maxWebhookBody (rq_Body r)) (rq_Header r ''X-Hub-Signature-256'')"

lemma WebhookSeen_cases:
  "WebhookSeen d ev s = (r, s1) \<Longrightarrow>
     r = Ok True \<and> (s1 = s\<lparr>g_deliveries := g_deliveries s @ [(d, ev)]\<rparr> \<and> d \<notin> fst ` set (g_deliveries s) \<or> s1 = s \<and> d = []) \<or>
     r = Ok False \<and> s1 = s \<and> d \<in> fst ` set (g_deliveries s) \<or> (\<exists>e. r = Err e \<and> s1 = s)"
  by (auto simp: WebhookSeen_def split: if_splits option.splits)

lemma ServeWebhook_deliveries: "set (g_deliveries s) \<subseteq> set (g_deliveries (snd (ServeWebhook L secret r s)))"
proof -
  have "set (g_deliveries s) \<subseteq> set (g_deliveries s2)"
    if "WebhookSeen (delivery r) ev s = (x, s1)" "gh_dispatch L ev body s1 = (y, s2)" for x y s1 s2 ev body
    using WebhookSeen_cases [OF that(1)] gh_dispatch_step [of s1 L ev body] that(2) by (auto simp: gh_step_def)
  moreover have "set (g_deliveries s) \<subseteq> set (g_deliveries s1)" if "WebhookSeen (delivery r) ev s = (x, s1)" for x s1 ev
    using WebhookSeen_cases [OF that] by auto
  ultimately show ?thesis by (auto simp: ServeWebhook_def Let_def split: prod.splits go.splits)
qed

lemma serve_all_deliveries: "set (g_deliveries s) \<subseteq> set (g_deliveries (serve_all L secret qs s))"
proof (induction qs arbitrary: s)
  case (Cons q qs)
  obtain d r where q: "q = (d, r)" by force
  have "set (g_deliveries s) \<subseteq> set (g_deliveries (snd (ServeWebhook L secret r (s\<lparr>g_db := d\<rparr>))))"
    using ServeWebhook_deliveries [of "s\<lparr>g_db := d\<rparr>" L secret r] by simp
  with Cons.IH show ?case by (fastforce simp: serve_all_def q)
qed (simp add: serve_all_def)

text \<open>The answer is 200 even when handling the event failed.\<close>

lemma failed_delivery_accepted:
  "signed L secret r \<Longrightarrow> WebhookSeen (delivery r) (rq_Header r ''X-GitHub-Event'') s = (Ok True, s0) \<Longrightarrow> delivery r \<noteq> [] \<Longrightarrow>
     gh_dispatch L (rq_Header r ''X-GitHub-Event'') (take maxWebhookBody (rq_Body r)) s0 = (Err e, s2) \<Longrightarrow>
     ServeWebhook L secret r s = (Ok 200, s2)"
  by (simp add: ServeWebhook_def Let_def)


text \<open>An app that is told of its installation twice.\<close>

definition small_gh_libs :: "unit gh_libs" where
  "small_gh_libs =
     \<lparr>gl_hmac = (\<lambda>_ _. []), gl_sign = (\<lambda>_ _. Ok []), gl_http = (\<lambda>_ w. (Err (Errorf ''unreachable''), w)), gl_token = (\<lambda>_. Ok ([], 0)),
      gl_comments = (\<lambda>_. Ok []), gl_repos = (\<lambda>_. Ok []), gl_marshal_body = id, gl_marshal_check = (\<lambda>_. []),
      gl_pr = (\<lambda>_. Err (Errorf ''bad json'')), gl_comment = (\<lambda>_. Err (Errorf ''bad json'')),
      gl_installation = (\<lambda>_. Ok \<lparr>ie_Action = ''created'', ie_InstallationID = 7, ie_Login = ''acme'', ie_Type = ''User'', ie_Repositories = [(5, ''acme/dw'')]\<rparr>),
      gl_repositories = (\<lambda>_. Err (Errorf ''bad json'')), gl_repository = (\<lambda>_. Err (Errorf ''bad json'')), gl_OnPush = None, gl_app = False\<rparr>"

definition small_gh :: "unit gh" where
  "small_gh =
     \<lparr>g_db = snd (CreateCustomer ''beta'' ''Beta'' (snd (CreateCustomer ''acme'' ''Acme'' (empty_db 0)))),
      g_installations = [\<lparr>in_ID = 9, in_AccountLogin = ''acme'', in_AccountType = ''User'', in_CustomerID = Some 1, in_SuspendedAt = None, in_CreatedAt = 0\<rparr>],
      g_repos = [\<lparr>gr_ID = 4, gr_InstallationID = 9, gr_FullName = ''acme/etl'', gr_CustomerID = None, gr_Connected = False\<rparr>],
      g_deliveries = [], g_analyses = [], g_suppressions = [], g_lineage = [], g_dq = [], g_tokens = [], g_world = ()\<rparr>"

definition installation_request :: http_request where
  "installation_request =
     \<lparr>rq_Method = ''POST'', rq_Path = ''/webhook'',
      rq_Header = (\<lambda>h. if h = ''X-Hub-Signature-256'' then ''sha256='' else if h = ''X-GitHub-Event'' then ''installation''
        else if h = ''X-GitHub-Delivery'' then ''d1'' else []),
      rq_Query = (\<lambda>q. if q = ''installation_id'' then ''9'' else []), rq_Body = [], rq_RemoteAddr = [], rq_UserID = 2\<rparr>"

lemmas small_gh_defs = small_gh_libs_def small_gh_def installation_request_def CreateCustomer_def empty_db_def Let_def


lemma tenants_deliveries: "tenants (s\<lparr>g_deliveries := ds\<rparr>) = tenants s"
proof -
  have "installation_customer i (s\<lparr>g_deliveries := ds\<rparr>) = installation_customer i s" for i
    by (simp add: installation_customer_def)
  then have "ResolveCustomer i r (s\<lparr>g_deliveries := ds\<rparr>) = ResolveCustomer i r s" for i r
    by (simp add: ResolveCustomer_def split: option.split)
  then show ?thesis by (simp add: tenants_def)
qed

text \<open>
  Tenancy of the webhook: an unsigned request changes nothing and is answered with 401; a signed one leaves the control
  store, the lineage and the data-quality results alone, and every analysis or suppression that it adds or changes belongs
  to a customer that a connected repository or an installation resolves to.
\<close>

theorem webhook_tenancy:
  shows "\<not> signed L secret r \<Longrightarrow> ServeWebhook L secret r s = (Ok 401, s)"
    and "ServeWebhook L secret r s = (x, s') \<Longrightarrow> g_db s' = g_db s \<and> g_lineage s' = g_lineage s \<and> g_dq s' = g_dq s \<and>
      pa_CustomerID ` (set (g_analyses s') - set (g_analyses s)) \<subseteq> tenants s \<and>
      pz_CustomerID ` (set (g_suppressions s') - set (g_suppressions s)) \<subseteq> tenants s"
proof -
  show "\<not> signed L secret r \<Longrightarrow> ServeWebhook L secret r s = (Ok 401, s)" by (simp add: ServeWebhook_def Let_def)
  assume s': "ServeWebhook L secret r s = (x, s')"
  have rows: "gh_step (tenants s) (s\<lparr>g_deliveries := g_deliveries s'\<rparr>) s'"
  proof -
    have d: "gh_step (tenants s) (s\<lparr>g_deliveries := g_deliveries (snd (gh_dispatch L ev b s1))\<rparr>) (snd (gh_dispatch L ev b s1))"
      if "s1 = s \<or> s1 = s\<lparr>g_deliveries := ds\<rparr>" for ev b s1 ds
    proof -
      have "tenants s1 = tenants s" using that by (auto simp: tenants_deliveries)
      then have "gh_step (tenants s) s1 (snd (gh_dispatch L ev b s1))" using gh_dispatch_step [of s1 L ev b] by simp
      then show ?thesis using that by (auto simp: gh_step_def)
    qed
    let ?ev = "rq_Header r ''X-GitHub-Event''" and ?b = "take maxWebhookBody (rq_Body r)"
    obtain y s1 where w: "WebhookSeen (delivery r) ?ev s = (y, s1)" by force
    have seen: "s1 = s \<or> s1 = s\<lparr>g_deliveries := g_deliveries s @ [(delivery r, ?ev)]\<rparr>" using WebhookSeen_cases [OF w] by auto
    have "s' = s \<or> s' = s1 \<or> s' = snd (gh_dispatch L ?ev ?b s1)"
      using s' w by (auto simp: ServeWebhook_def Let_def split: if_splits prod.splits go.splits)
    then show ?thesis using d [OF seen] seen by (auto simp: gh_step_def)
  qed
  then show "g_db s' = g_db s \<and> g_lineage s' = g_lineage s \<and> g_dq s' = g_dq s \<and>
      pa_CustomerID ` (set (g_analyses s') - set (g_analyses s)) \<subseteq> tenants s \<and>
      pz_CustomerID ` (set (g_suppressions s') - set (g_suppressions s)) \<subseteq> tenants s"
    unfolding gh_step_def by auto
qed



lemma find_unique: "distinct (map f xs) \<Longrightarrow> z \<in> set xs \<Longrightarrow> f z = k \<Longrightarrow> find (\<lambda>y. f y = k) xs = Some z"
  by (induction xs) auto

text \<open>
  Disconnecting a repository does not stop its analysis: the installation's default still resolves to the customer.
\<close>

theorem disconnect_keeps_tenant:
  assumes "setGitHubRepoConnected False (Ok name) r s = (Inr False, s')" and "activeCustomer r (g_db s) = Ok cid"
    and "distinct (map in_ID (g_installations s))" and "distinct (map gr_ID (g_repos s))"
    and "x \<in> set (g_repos s)" and "gr_FullName x = name" and "of_customer cid s x"
  shows "ResolveCustomer (gr_InstallationID x) (gr_ID x) s' = Ok cid"
proof -
  let ?hit = "\<lambda>y. of_customer cid s y \<and> gr_FullName y = name"
  have s': "g_fail s = None" "s' = s\<lparr>g_repos := map (\<lambda>y. if ?hit y then y\<lparr>gr_Connected := False, gr_CustomerID := Some cid\<rparr> else y) (g_repos s)\<rparr>"
    using assms(1,2) by (auto simp: setGitHubRepoConnected_def gh_respond_def Let_def split: option.splits if_splits)
  have "y = x" if "y \<in> set (g_repos s)" "gr_ID y = gr_ID x" for y
    using assms(4,5) that by (auto simp: distinct_map dest: inj_onD)
  then have "find (\<lambda>y. gr_ID y = gr_ID x \<and> gr_Connected y) (g_repos s') = None"
    using s'(2) assms(6,7) by (auto simp: find_None_iff split: if_splits)
  moreover from assms(7) obtain z where z: "z \<in> set (g_installations s)" "in_ID z = gr_InstallationID x" "in_CustomerID z = Some cid"
    by (auto simp: of_customer_def list_ex_iff)
  then have "find (\<lambda>y. in_ID y = gr_InstallationID x) (g_installations s) = Some z"
    using assms(3) by (metis find_unique)
  ultimately show ?thesis using s' z(3) by (simp add: ResolveCustomer_def installation_customer_def)
qed

text \<open>The check against hostile names of repositories lets dots through, so a name may climb out of the path.\<close>

lemma dots_are_valid: "ValidRepo ''../user''"
  by code_simp

text \<open>The comment that the bot writes carries its marker, so the next run finds and edits it.\<close>

lemma Contains_prefix: "Contains (p @ s) p"
proof (cases "p @ s")
  case (Cons c cs)
  then have "HasPrefix (c # cs) p" by (metis HasPrefix_def append_eq_conv_conj)
  then show ?thesis by (simp add: Contains_def Cons)
qed (simp add: Contains_def)

lemma comment_is_found: "Contains (RenderComment changes hits dq sha) CommentMarker"
  unfolding RenderComment_def by (rule Contains_prefix)

end
