(* ===== verification/Api_Reply.thy ===== *)
theory Api_Reply
  imports Api_Gateway
begin

text \<open>
  The replies of the feature handlers of \<^verbatim>\<open>internal/api\<close>: a status with an error or a body of a type of the feature's own,
  as \<^verbatim>\<open>writeErr\<close> and \<^verbatim>\<open>writeJSON\<close> send them, and the early return on an error.
\<close>

type_synonym 'b reply = "nat \<times> (go_error + 'b)"

definition reply_ok :: "nat \<Rightarrow> 's \<Rightarrow> 'b \<Rightarrow> 'b reply \<times> 's" where
  "reply_ok status s b = ((status, Inr b), s)"

definition reply_err :: "nat \<Rightarrow> 's \<Rightarrow> go_error \<Rightarrow> 'b reply \<times> 's" where
  "reply_err status s e = ((status, Inl e), s)"

text \<open>A panic, which the server's recovery answers with 500.\<close>

definition reply_crash :: "'s \<Rightarrow> 'b reply \<times> 's" where
  "reply_crash s = ((500, Inl (Errorf [])), s)"

fun or_fail :: "'a go \<Rightarrow> nat \<Rightarrow> 's \<Rightarrow> ('a \<Rightarrow> 'b reply \<times> 's) \<Rightarrow> 'b reply \<times> 's" where
  "or_fail (Ok x) status s f = f x"
| "or_fail (Err e) status s f = reply_err status s e"
| "or_fail Panic status s f = reply_crash s"

lemmas reply_defs = reply_ok_def reply_err_def reply_crash_def

text \<open>A handler whose early returns leave the state alone changes it only in its last part.\<close>

lemma or_fail_snd: "(\<And>x. r = Ok x \<Longrightarrow> P (snd (f x))) \<Longrightarrow> P s \<Longrightarrow> P (snd (or_fail r status s f))"
  by (cases r) (auto simp: reply_defs)

lemma or_fail_last: "P s' \<Longrightarrow> P (snd (or_fail r status s' (\<lambda>x. reply_ok c s' (b x))))"
  by (cases r) (auto simp: reply_defs)

lemma reply_snd [simp]: "snd (reply_ok c s b) = s" "snd (reply_err c s e) = s" "snd (reply_crash s) = s"
  by (simp_all add: reply_defs)

lemma or_fail_Inr [simp]: "or_fail r status s f = ((c, Inr b), s') \<longleftrightarrow> (\<exists>x. r = Ok x \<and> f x = ((c, Inr b), s'))"
  by (cases r) (auto simp: reply_defs)

lemma reply_ok_eq [simp]: "reply_ok status s b = ((c, Inr b'), s') \<longleftrightarrow> c = status \<and> b' = b \<and> s' = s"
  by (auto simp: reply_ok_def)

lemma reply_err_eq [simp]: "reply_err status s e \<noteq> ((c, Inr b), s')" "reply_crash s \<noteq> ((c, Inr b), s')"
  by (auto simp: reply_defs)

end
