(* ===== verification/Dashboards.thy ===== *)
theory Dashboards
  imports Proxy_Handler Api_Server Go_Time Api_Reply
begin

text \<open>
  Dashboards with their share links, point-in-time snapshots and version history: \<^verbatim>\<open>internal/dashboards\<close>,
  \<^verbatim>\<open>internal/sharing\<close>, \<^verbatim>\<open>api/dashboard_share.go\<close>, \<^verbatim>\<open>dashboard_snapshots.go\<close>, \<^verbatim>\<open>dashboard_versions.go\<close>,
  \<^verbatim>\<open>dashboard_ai_edit.go\<close>, \<^verbatim>\<open>dashboards_auto.go\<close>, the share handlers of \<^verbatim>\<open>phase6_handlers.go\<close> and the
  dashboards-as-code hook of \<^verbatim>\<open>cmd/lineage-bot\<close>.

  The tables are lists of rows with the constraints of the migrations 0003, 0005 and 0013; each SQL statement is atomic.
  Appending a version is two statements in a transaction of the default isolation level: a read of the largest version
  and an insert. Other requests can run between them, and the step relation has them as two steps.
\<close>

section \<open>State\<close>

datatype json_value = JNull | JBool bool | JNumber string | JString string | JArray "json_value list" | JObject "(string \<times> json_value) list"

record tile =
  tl_ID :: string
  tl_Title :: string
  tl_ChartType :: string
  tl_SemanticRef :: string
  tl_SQL :: string
  tl_X :: int
  tl_Y :: int
  tl_W :: int
  tl_H :: int
  tl_Config :: "(string \<times> json_value) list"

record dashboard =
  d_ID :: uuid
  d_CustomerID :: uuid
  d_Name :: string
  d_Tiles :: "tile list"
  d_IsPublic :: bool

text \<open>A row of the table: the tiles are the text of the JSONB column.\<close>

record dashboard_row =
  dw_ID :: uuid
  dw_CustomerID :: uuid
  dw_Name :: string
  dw_Tiles :: bytes
  dw_IsPublic :: bool
  dw_UpdatedAt :: int

record share =
  sh_Token :: string
  sh_CustomerID :: uuid
  sh_TargetType :: string
  sh_TargetID :: uuid
  sh_ExpiresAt :: "int option"

record share_row =
  sk_Share :: share
  sk_RevokedAt :: "int option"

record dash_version =
  vr_DashboardID :: uuid
  vr_Version :: int
  vr_Payload :: bytes
  vr_Author :: "string option"
  vr_Message :: "string option"
  vr_CreatedAt :: int

record dash_snapshot =
  zn_ID :: uuid
  zn_DashboardID :: uuid
  zn_IcebergSnapshotID :: string
  zn_ShareToken :: string

record dash =
  ds_db :: db
  ds_dashboards :: "dashboard_row list"
  ds_shares :: "share_row list"
  ds_versions :: "dash_version list"
  ds_snapshots :: "dash_snapshot list"
  ds_next :: uuid

abbreviation ds_now :: "dash \<Rightarrow> int" where
  "ds_now s \<equiv> db_now (ds_db s)"

abbreviation ds_fail :: "dash \<Rightarrow> go_error option" where
  "ds_fail s \<equiv> db_fail (ds_db s)"

abbreviation ErrNoRows :: go_error where
  "ErrNoRows \<equiv> Errorf ''no rows in result set''"

abbreviation invalid_json :: go_error where
  "invalid_json \<equiv> Errorf ''invalid input syntax for type json''"

definition customer_exists :: "uuid \<Rightarrow> dash \<Rightarrow> bool" where
  "customer_exists cid s \<longleftrightarrow> cid \<in> c_ID ` set (customers (ds_db s))"

text \<open>
  JSON is a parameter: the two directions for tiles, the text PostgreSQL keeps of a JSONB value (\<open>None\<close> when the input
  is not JSON), the name and tiles found in a version's payload, and the encodings of an edit and of a dashboard. A
  decoding whose error the code ignores gives what it left in the destination.
\<close>

record dash_json =
  dj_tiles :: "tile list \<Rightarrow> bytes"
  dj_read :: "bytes \<Rightarrow> tile list"
  dj_jsonb :: "bytes \<Rightarrow> bytes option"
  dj_payload :: "bytes \<Rightarrow> string option \<times> bytes option"
  dj_edit :: "string \<Rightarrow> tile list \<Rightarrow> bytes"
  dj_dashboard :: "dashboard \<Rightarrow> bytes"
  dj_parse :: "bytes \<Rightarrow> dashboard go"
  dj_uuid :: "uuid \<Rightarrow> string"

datatype dash_body =
    DNone
  | DID uuid
  | DDashboard dashboard
  | DDashboards "dashboard list"
  | DShare string uuid bool "int option"
  | DToken string
  | DResolved share
  | DPublic string dashboard "int option"
  | DSnapshot uuid uuid string string
  | DFrozen dashboard string string
  | DVersions "dash_version list"
  | DVersion dash_version
  | DRestored uuid int int string
  | DEdited dashboard int
  | DAuto uuid string nat string

type_synonym dash_reply = "dash_body reply"

section \<open>The dashboard table\<close>

definition dashboard_of :: "dash_json \<Rightarrow> dashboard_row \<Rightarrow> dashboard" where
  "dashboard_of J w = \<lparr>d_ID = dw_ID w, d_CustomerID = dw_CustomerID w, d_Name = dw_Name w, d_Tiles = dj_read J (dw_Tiles w), d_IsPublic = dw_IsPublic w\<rparr>"

definition dashboards_Create :: "dash_json \<Rightarrow> dashboard \<Rightarrow> dash \<Rightarrow> uuid go \<times> dash" where
  "dashboards_Create J d s =
     (case ds_fail s of
        Some e \<Rightarrow> (Err e, s)
      | None \<Rightarrow>
          (case dj_jsonb J (dj_tiles J (d_Tiles d)) of
             None \<Rightarrow> (Err invalid_json, s)
           | Some t \<Rightarrow>
               if \<not> customer_exists (d_CustomerID d) s then (Err constraint_violation, s)
               else (Ok (ds_next s),
                     s\<lparr>ds_dashboards := ds_dashboards s @ [\<lparr>dw_ID = ds_next s, dw_CustomerID = d_CustomerID d, dw_Name = d_Name d,
                         dw_Tiles = t, dw_IsPublic = d_IsPublic d, dw_UpdatedAt = ds_now s\<rparr>],
                       ds_next := ds_next s + 1\<rparr>)))"

definition dashboards_Get :: "dash_json \<Rightarrow> uuid \<Rightarrow> dash \<Rightarrow> dashboard go" where
  "dashboards_Get J i s =
     (case ds_fail s of
        Some e \<Rightarrow> Err e
      | None \<Rightarrow> (case find (\<lambda>w. dw_ID w = i) (ds_dashboards s) of None \<Rightarrow> Err ErrNoRows | Some w \<Rightarrow> Ok (dashboard_of J w)))"

definition dashboards_List :: "dash_json \<Rightarrow> uuid \<Rightarrow> dash \<Rightarrow> dashboard list go" where
  "dashboards_List J cid s =
     (case ds_fail s of
        Some e \<Rightarrow> Err e
      | None \<Rightarrow> Ok (map (dashboard_of J) (sort_key (\<lambda>w. - dw_UpdatedAt w) (filter (\<lambda>w. dw_CustomerID w = cid) (ds_dashboards s)))))"

text \<open>The versions and snapshots of a dashboard are deleted with it, its share tokens are not.\<close>

definition dashboards_Delete :: "uuid \<Rightarrow> dash \<Rightarrow> unit go \<times> dash" where
  "dashboards_Delete i s =
     (case ds_fail s of
        Some e \<Rightarrow> (Err e, s)
      | None \<Rightarrow> (Ok (), s\<lparr>ds_dashboards := filter (\<lambda>w. dw_ID w \<noteq> i) (ds_dashboards s),
                         ds_versions := filter (\<lambda>v. vr_DashboardID v \<noteq> i) (ds_versions s),
                         ds_snapshots := filter (\<lambda>z. zn_DashboardID z \<noteq> i) (ds_snapshots s)\<rparr>))"

definition listDashboards :: "api_env \<Rightarrow> dash_json \<Rightarrow> string \<Rightarrow> dash \<Rightarrow> dash_reply \<times> dash" where
  "listDashboards E J i s =
     or_fail (parseUUID E ''id'' i) 400 s (\<lambda>cid. or_fail (dashboards_List J cid s) 500 s (\<lambda>out. reply_ok 200 s (DDashboards out)))"

text \<open>The audit row that follows is best effort and is not modelled.\<close>

definition createDashboard :: "api_env \<Rightarrow> dash_json \<Rightarrow> string \<Rightarrow> dashboard go \<Rightarrow> dash \<Rightarrow> dash_reply \<times> dash" where
  "createDashboard E J i body s =
     or_fail (parseUUID E ''id'' i) 400 s (\<lambda>cid. or_fail body 400 s (\<lambda>d.
       let (r, s') = dashboards_Create J (d\<lparr>d_CustomerID := cid\<rparr>) s in or_fail r 500 s' (\<lambda>newID. reply_ok 201 s' (DID newID))))"

section \<open>Share tokens\<close>

abbreviation ErrTokenInvalid :: go_error where
  "ErrTokenInvalid \<equiv> Errorf ''share token: invalid or revoked''"

text \<open>\<open>now\<close> is the clock of the process, \<open>ds_now\<close> the clock of the database.\<close>

definition Mint :: "int \<Rightarrow> bytes go \<Rightarrow> share \<Rightarrow> int \<Rightarrow> dash \<Rightarrow> string go \<times> dash" where
  "Mint now rnd t ttl s =
     (case rnd of
        Err e \<Rightarrow> (Err e, s)
      | Panic \<Rightarrow> (Panic, s)
      | Ok buf \<Rightarrow>
          (let tok = hexEncode buf;
               row = \<lparr>sk_Share = t\<lparr>sh_Token := tok, sh_ExpiresAt := (if 0 < ttl then Some (now + ttl) else None)\<rparr>, sk_RevokedAt = None\<rparr>
           in case ds_fail s of
                Some e \<Rightarrow> (Err e, s)
              | None \<Rightarrow>
                  if (\<exists>k \<in> set (ds_shares s). sh_Token (sk_Share k) = tok) \<or> \<not> customer_exists (sh_CustomerID t) s \<or>
                     sh_TargetType t \<notin> {''dashboard'', ''saved_query''}
                  then (Err constraint_violation, s)
                  else (Ok tok, s\<lparr>ds_shares := ds_shares s @ [row]\<rparr>)))"

definition share_live :: "int \<Rightarrow> share_row \<Rightarrow> bool" where
  "share_live now k \<longleftrightarrow> sk_RevokedAt k = None \<and> (case sh_ExpiresAt (sk_Share k) of None \<Rightarrow> True | Some x \<Rightarrow> now < x)"

definition Resolve :: "string \<Rightarrow> dash \<Rightarrow> share go" where
  "Resolve tok s =
     (case ds_fail s of
        Some _ \<Rightarrow> Err ErrTokenInvalid
      | None \<Rightarrow>
          (case find (\<lambda>k. sh_Token (sk_Share k) = tok \<and> share_live (ds_now s) k) (ds_shares s) of
             None \<Rightarrow> Err ErrTokenInvalid
           | Some k \<Rightarrow> Ok (sk_Share k)))"

definition share_Revoke :: "string \<Rightarrow> dash \<Rightarrow> unit go \<times> dash" where
  "share_Revoke tok s =
     (case ds_fail s of
        Some e \<Rightarrow> (Err e, s)
      | None \<Rightarrow> (Ok (), s\<lparr>ds_shares := map (\<lambda>k. if sh_Token (sk_Share k) = tok then k\<lparr>sk_RevokedAt := Some (ds_now s)\<rparr> else k) (ds_shares s)\<rparr>))"

text \<open>The body of a share request is read without looking at the error: the seconds (a 64-bit integer) and the flag found.\<close>

definition createDashboardShare ::
  "api_env \<Rightarrow> dash_json \<Rightarrow> int \<Rightarrow> int \<Rightarrow> bytes go \<Rightarrow> string \<Rightarrow> int \<times> bool \<Rightarrow> dash \<Rightarrow> dash_reply \<times> dash" where
  "createDashboardShare E J now later rnd i body s =
     or_fail (parseUUID E ''id'' i) 400 s (\<lambda>did. or_fail (dashboards_Get J did s) 404 s (\<lambda>d.
       let (expires, override) = body;
           ttl = duration expires second;
           (r, s') = Mint now rnd \<lparr>sh_Token = [], sh_CustomerID = d_CustomerID d, sh_TargetType = ''dashboard'', sh_TargetID = did, sh_ExpiresAt = None\<rparr> ttl s
       in or_fail r 500 s' (\<lambda>tok. reply_ok 201 s' (DShare tok did override (if 0 < ttl then Some (later + ttl) else None)))))"

definition publicDashboard :: "dash_json \<Rightarrow> string \<Rightarrow> dash \<Rightarrow> dash_reply" where
  "publicDashboard J tok s =
     (if tok = [] then (400, Inl (Errorf ''token required''))
      else fst (or_fail (Resolve tok s) 404 s (\<lambda>t.
        if sh_TargetType t \<noteq> ''dashboard'' then reply_err 400 s (Errorf ''token is not for a dashboard'')
        else or_fail (dashboards_Get J (sh_TargetID t) s) 404 s (\<lambda>d. reply_ok 200 s (DPublic tok d (sh_ExpiresAt t))))))"

definition revokeDashboardShare :: "string \<Rightarrow> dash \<Rightarrow> dash_reply \<times> dash" where
  "revokeDashboardShare tok s =
     (if tok = [] then reply_err 400 s (Errorf ''token required'')
      else (let (r, s') = share_Revoke tok s in or_fail r 500 s' (\<lambda>_. reply_ok 204 s' DNone)))"

text \<open>The handlers of \<^verbatim>\<open>phase6_handlers.go\<close>, which no route reaches. The body holds a type, the text of an id and a number of days.\<close>

definition mintShareToken :: "api_env \<Rightarrow> int \<Rightarrow> bytes go \<Rightarrow> http_request \<Rightarrow> (string \<times> string \<times> int) go \<Rightarrow> dash \<Rightarrow> dash_reply \<times> dash" where
  "mintShareToken E now rnd r body s =
     or_fail (activeCustomer r (ds_db s)) 400 s (\<lambda>cid. or_fail body 400 s (\<lambda>(target_type, target, days).
       or_fail (ae_uuid_Parse E target) 400 s (\<lambda>tid.
         let (r, s') = Mint now rnd \<lparr>sh_Token = [], sh_CustomerID = cid, sh_TargetType = target_type, sh_TargetID = tid, sh_ExpiresAt = None\<rparr>
                         (duration days (24 * 3600 * second)) s
         in or_fail r 500 s' (\<lambda>tok. reply_ok 201 s' (DToken tok)))))"

definition resolveShareToken :: "dash_json \<Rightarrow> string \<Rightarrow> dash \<Rightarrow> dash_reply" where
  "resolveShareToken J tok s =
     fst (or_fail (Resolve tok s) 404 s (\<lambda>t.
       if sh_TargetType t = ''dashboard'' then or_fail (dashboards_Get J (sh_TargetID t) s) 404 s (\<lambda>d. reply_ok 200 s (DDashboard d))
       else reply_ok 200 s (DResolved t)))"

definition revokeShareToken :: "string \<Rightarrow> dash \<Rightarrow> dash_reply \<times> dash" where
  "revokeShareToken tok s = (let (r, s') = share_Revoke tok s in or_fail r 500 s' (\<lambda>_. reply_ok 204 s' DNone))"

section \<open>Snapshots\<close>

definition insert_snapshot :: "uuid \<Rightarrow> string \<Rightarrow> string \<Rightarrow> dash \<Rightarrow> uuid go \<times> dash" where
  "insert_snapshot did iceberg tok s =
     (case ds_fail s of
        Some e \<Rightarrow> (Err e, s)
      | None \<Rightarrow>
          if did \<notin> dw_ID ` set (ds_dashboards s) \<or> tok \<in> zn_ShareToken ` set (ds_snapshots s) then (Err constraint_violation, s)
          else (Ok (ds_next s),
                s\<lparr>ds_snapshots := ds_snapshots s @ [\<lparr>zn_ID = ds_next s, zn_DashboardID = did, zn_IcebergSnapshotID = iceberg, zn_ShareToken = tok\<rparr>],
                  ds_next := ds_next s + 1\<rparr>))"

definition createDashboardSnapshot :: "api_env \<Rightarrow> dash_json \<Rightarrow> bytes go \<Rightarrow> string \<Rightarrow> string go \<Rightarrow> dash \<Rightarrow> dash_reply \<times> dash" where
  "createDashboardSnapshot E J rnd i body s =
     or_fail (parseUUID E ''id'' i) 400 s (\<lambda>did. or_fail body 400 s (\<lambda>iceberg.
       if iceberg = [] then reply_err 400 s (Errorf ''at_iceberg_snapshot_id required'')
       else (case dashboards_Get J did s of
               Panic \<Rightarrow> reply_crash s
             | Err e \<Rightarrow> if e = ErrNoRows then reply_err 404 s (Errorf ''dashboard not found'') else reply_err 500 s e
             | Ok _ \<Rightarrow> or_fail rnd 500 s (\<lambda>buf.
                 let (r, s') = insert_snapshot did iceberg (hexEncode buf) s
                 in or_fail r 500 s' (\<lambda>zid. reply_ok 201 s' (DSnapshot zid did iceberg (hexEncode buf)))))))"

definition getDashboardSnapshot :: "dash_json \<Rightarrow> string \<Rightarrow> dash \<Rightarrow> dash_reply" where
  "getDashboardSnapshot J tok s =
     (if tok = [] then (400, Inl (Errorf ''token required''))
      else (case ds_fail s of
              Some e \<Rightarrow> (500, Inl e)
            | None \<Rightarrow>
                (case find (\<lambda>z. zn_ShareToken z = tok) (ds_snapshots s) of
                   None \<Rightarrow> (404, Inl (Errorf ''snapshot not found''))
                 | Some z \<Rightarrow> fst (or_fail (dashboards_Get J (zn_DashboardID z) s) 500 s (\<lambda>d. reply_ok 200 s (DFrozen d (zn_IcebergSnapshotID z) tok))))))"

section \<open>Versions\<close>

text \<open>The statements of \<^verbatim>\<open>insertDashboardVersion\<close>: the next version, and the insert with its unique index and foreign key.\<close>

definition next_version :: "uuid \<Rightarrow> dash \<Rightarrow> int" where
  "next_version did s = foldr max (map vr_Version (filter (\<lambda>v. vr_DashboardID v = did) (ds_versions s))) 0 + 1"

definition null_if_empty :: "string \<Rightarrow> string option" where
  "null_if_empty x = (if x = [] then None else Some x)"

record pending_version =
  pv_DashboardID :: uuid
  pv_Next :: int
  pv_Payload :: bytes
  pv_Author :: string
  pv_Message :: string

definition write_version :: "dash_json \<Rightarrow> pending_version \<Rightarrow> dash \<Rightarrow> int go \<times> dash" where
  "write_version J p s =
     (case ds_fail s of
        Some e \<Rightarrow> (Err (ErrorfW (''insert version: '' @ Error e) e), s)
      | None \<Rightarrow>
          (case dj_jsonb J (pv_Payload p) of
             None \<Rightarrow> (Err (ErrorfW (''insert version: '' @ Error invalid_json) invalid_json), s)
           | Some t \<Rightarrow>
               if pv_DashboardID p \<notin> dw_ID ` set (ds_dashboards s) \<or>
                  (\<exists>v \<in> set (ds_versions s). vr_DashboardID v = pv_DashboardID p \<and> vr_Version v = pv_Next p)
               then (Err (ErrorfW (''insert version: '' @ Error constraint_violation) constraint_violation), s)
               else (Ok (pv_Next p),
                     s\<lparr>ds_versions := ds_versions s @ [\<lparr>vr_DashboardID = pv_DashboardID p, vr_Version = pv_Next p, vr_Payload = t,
                         vr_Author = null_if_empty (pv_Author p), vr_Message = null_if_empty (pv_Message p), vr_CreatedAt = ds_now s\<rparr>]\<rparr>)))"

definition read_version :: "uuid \<Rightarrow> bytes \<Rightarrow> string \<Rightarrow> string \<Rightarrow> dash \<Rightarrow> pending_version" where
  "read_version did payload author message s =
     \<lparr>pv_DashboardID = did, pv_Next = next_version did s, pv_Payload = payload, pv_Author = author, pv_Message = message\<rparr>"

definition insertDashboardVersion :: "dash_json \<Rightarrow> uuid \<Rightarrow> bytes \<Rightarrow> string \<Rightarrow> string \<Rightarrow> dash \<Rightarrow> int go \<times> dash" where
  "insertDashboardVersion J did payload author message s =
     (case ds_fail s of
        Some e \<Rightarrow> (Err e, s)
      | None \<Rightarrow> write_version J (read_version did payload author message s) s)"

definition listDashboardVersions :: "api_env \<Rightarrow> string \<Rightarrow> dash \<Rightarrow> dash_reply" where
  "listDashboardVersions E i s =
     fst (or_fail (parseUUID E ''id'' i) 400 s (\<lambda>did.
       case ds_fail s of
         Some e \<Rightarrow> reply_err 500 s e
       | None \<Rightarrow> reply_ok 200 s (DVersions (map (vr_Payload_update (\<lambda>_. [])) (sort_key (\<lambda>v. - vr_Version v) (filter (\<lambda>v. vr_DashboardID v = did) (ds_versions s)))))))"

text \<open>A version as it is in the path. The column has 32 bits; a larger number is an error of the driver.\<close>

definition version_param :: "string \<Rightarrow> int option" where
  "version_param x = (case Atoi x of None \<Rightarrow> None | Some v \<Rightarrow> if v \<le> 0 then None else Some v)"

definition find_version :: "uuid \<Rightarrow> int \<Rightarrow> dash \<Rightarrow> dash_version go" where
  "find_version did v s =
     (case ds_fail s of
        Some e \<Rightarrow> Err e
      | None \<Rightarrow>
          if 2 ^ 31 \<le> v then Err (Errorf ''value out of range for int4'')
          else (case find (\<lambda>x. vr_DashboardID x = did \<and> vr_Version x = v) (ds_versions s) of None \<Rightarrow> Err ErrNoRows | Some x \<Rightarrow> Ok x))"

definition with_version :: "api_env \<Rightarrow> string \<Rightarrow> string \<Rightarrow> dash \<Rightarrow> (uuid \<Rightarrow> dash_version \<Rightarrow> dash_reply \<times> dash) \<Rightarrow> dash_reply \<times> dash" where
  "with_version E i x s f =
     or_fail (parseUUID E ''id'' i) 400 s (\<lambda>did.
       case version_param x of
         None \<Rightarrow> reply_err 400 s (Errorf ''invalid version'')
       | Some v \<Rightarrow>
           (case find_version did v s of
              Panic \<Rightarrow> reply_crash s
            | Err e \<Rightarrow> if e = ErrNoRows then reply_err 404 s (Errorf ''version not found'') else reply_err 500 s e
            | Ok row \<Rightarrow> f did row))"

definition getDashboardVersion :: "api_env \<Rightarrow> string \<Rightarrow> string \<Rightarrow> dash \<Rightarrow> dash_reply" where
  "getDashboardVersion E i x s = fst (with_version E i x s (\<lambda>_ row. reply_ok 200 s (DVersion row)))"

text \<open>The update of the live row: a name and tiles that are missing leave the columns alone.\<close>

definition mirror :: "dash_json \<Rightarrow> uuid \<Rightarrow> string option \<Rightarrow> bytes option \<Rightarrow> dash \<Rightarrow> unit go \<times> dash" where
  "mirror J did name tiles s =
     (case ds_fail s of
        Some e \<Rightarrow> (Err e, s)
      | None \<Rightarrow>
          (case (case tiles of None \<Rightarrow> Some None | Some b \<Rightarrow> (case dj_jsonb J b of None \<Rightarrow> None | Some t \<Rightarrow> Some (Some t))) of
             None \<Rightarrow> (Err invalid_json, s)
           | Some t \<Rightarrow>
               (Ok (), s\<lparr>ds_dashboards := map (\<lambda>w. if dw_ID w = did
                   then w\<lparr>dw_Name := (case name of None \<Rightarrow> dw_Name w | Some n \<Rightarrow> n), dw_Tiles := (case t of None \<Rightarrow> dw_Tiles w | Some x \<Rightarrow> x), dw_UpdatedAt := ds_now s\<rparr>
                   else w) (ds_dashboards s)\<rparr>)))"

text \<open>The author and message of the body, empty when it cannot be decoded.\<close>

definition restoreDashboardVersion :: "api_env \<Rightarrow> dash_json \<Rightarrow> string \<Rightarrow> string \<Rightarrow> string \<times> string \<Rightarrow> dash \<Rightarrow> dash_reply \<times> dash" where
  "restoreDashboardVersion E J i x body s = with_version E i x s (\<lambda>did row.
     let (author, message) = body;
         message = (if message = [] then ''restore v'' @ Itoa (vr_Version row) else message);
         (r, s1) = insertDashboardVersion J did (vr_Payload row) author message s
     in or_fail r 500 s1 (\<lambda>newVersion.
          let (name, tiles) = dj_payload J (vr_Payload row);
              (m, s2) = mirror J did name tiles s1
          in case m of
               Err e \<Rightarrow> reply_err 500 s2 (ErrorfW (''mirror restore to dashboard: '' @ Error e) e)
             | Panic \<Rightarrow> reply_crash s2
             | Ok _ \<Rightarrow> reply_ok 200 s2 (DRestored did (vr_Version row) newVersion message)))"

section \<open>Edits by a language model\<close>

definition em_dash :: string where
  "em_dash = map char_of [0xE2, 0x80, 0x94 :: nat]"

abbreviation newline :: string where
  "newline \<equiv> [CHR 0x0A]"

definition buildDashboardEditPrompt :: "string \<Rightarrow> bytes \<Rightarrow> string" where
  "buildDashboardEditPrompt instruction currentJSON =
     ''Apply this edit to the dashboard JSON, return only the modified JSON.'' @ newline @
     ''The dashboard schema is {id, customer_id, name, tiles:[{id,title,chart_type,sql,x,y,w,h,config?}], is_public}.'' @ newline @
     ''Preserve id and customer_id verbatim. Output JSON only '' @ em_dash @ '' no commentary, no markdown fences.'' @ newline @ newline @
     ''Instruction: '' @ instruction @ newline @ newline @ ''Current dashboard:'' @ newline @ currentJSON"

fun check_tiles :: "nat \<Rightarrow> tile list \<Rightarrow> go_error option" where
  "check_tiles i [] = None"
| "check_tiles i (t # ts) =
     (if TrimSpace (tl_Title t) = [] \<or> TrimSpace (tl_ChartType t) = []
      then Some (Errorf (''tile '' @ Itoa (int i) @ '' missing title or chart_type''))
      else check_tiles (i + 1) ts)"

definition strip_fences :: "string \<Rightarrow> string" where
  "strip_fences out = TrimSpace (TrimSuffix (TrimPrefix (TrimPrefix (TrimSpace out) ''```json'') ''```'') ''```'')"

definition parseDashboardEdit :: "dash_json \<Rightarrow> string \<Rightarrow> uuid \<Rightarrow> uuid \<Rightarrow> dashboard go" where
  "parseDashboardEdit J out did cid =
     (if \<not> HasPrefix (strip_fences out) ''{'' then Err (Errorf ''expected JSON object'')
      else bind_go (dj_parse J (strip_fences out)) (\<lambda>d.
        if TrimSpace (d_Name d) = [] then Err (Errorf ''missing name'')
        else if d_Tiles d = [] then Err (Errorf ''missing tiles'')
        else (case check_tiles 0 (d_Tiles d) of
                Some e \<Rightarrow> Err e
              | None \<Rightarrow> Ok (d\<lparr>d_ID := did, d_CustomerID := cid\<rparr>))))"

definition is_no_provider :: "go_error \<Rightarrow> bool" where
  "is_no_provider e \<longleftrightarrow> e = Errorf ''no external provider configured''"

text \<open>Storing an edit: the new version, then the live row.\<close>

definition persist_edit :: "dash_json \<Rightarrow> dashboard \<Rightarrow> string \<Rightarrow> string \<Rightarrow> dash \<Rightarrow> dash_reply \<times> dash" where
  "persist_edit J updated author instruction s =
     (case insertDashboardVersion J (d_ID updated) (dj_edit J (d_Name updated) (d_Tiles updated)) author instruction s of
        (Panic, s1) \<Rightarrow> reply_crash s1
      | (Err e, s1) \<Rightarrow> reply_err 500 s1 (ErrorfW (''insert version: '' @ Error e) e)
      | (Ok newVersion, s1) \<Rightarrow>
          (case mirror J (d_ID updated) (Some (d_Name updated)) (Some (dj_tiles J (d_Tiles updated))) s1 of
             (Panic, s2) \<Rightarrow> reply_crash s2
           | (Err e, s2) \<Rightarrow> reply_err 500 s2 (ErrorfW (''mirror: '' @ Error e) e)
           | (Ok _, s2) \<Rightarrow> reply_ok 200 s2 (DEdited updated newVersion)))"

text \<open>The rewriter, if there is one, with its call budget; \<open>provider\<close> is the external model.\<close>

definition dashboardAIEdit ::
  "api_env \<Rightarrow> dash_json \<Rightarrow> (string \<Rightarrow> string \<Rightarrow> string go) \<Rightarrow> string \<Rightarrow> http_request \<Rightarrow> string \<Rightarrow> string go \<Rightarrow>
   rewriter option \<Rightarrow> dash \<Rightarrow> (dash_reply \<times> dash) \<times> rewriter option" where
  "dashboardAIEdit E J provider model r i body rw s =
     (case rw of
        None \<Rightarrow> (reply_err 503 s (Errorf ''ai-edit: ai provider not configured''), None)
      | Some w \<Rightarrow>
          (case (parseUUID E ''id'' i, body) of
             (Ok did, Ok instruction) \<Rightarrow>
               if TrimSpace instruction = [] then (reply_err 400 s (Errorf ''instruction required''), rw)
               else (case dashboards_Get J did s of
                       Panic \<Rightarrow> (reply_crash s, rw)
                     | Err e \<Rightarrow> (reply_err 404 s (ErrorfW (''dashboard not found: '' @ Error e) e), rw)
                     | Ok current \<Rightarrow>
                         (let (out, w') = CompleteOne provider model (buildDashboardEditPrompt instruction (dj_dashboard J current))
                                            (dj_uuid J (d_CustomerID current)) w
                          in (case out of
                                Panic \<Rightarrow> reply_crash s
                              | Err e \<Rightarrow> reply_err (if is_no_provider e then 503 else 502) s (ErrorfW (''ai-edit: '' @ Error e) e)
                              | Ok text \<Rightarrow>
                                  (case parseDashboardEdit J text did (d_CustomerID current) of
                                     Panic \<Rightarrow> reply_crash s
                                   | Err e \<Rightarrow> reply_err 502 s (ErrorfW (''ai-edit: malformed LLM output: '' @ Error e) e)
                                   | Ok updated \<Rightarrow>
                                       persist_edit J updated (if rq_UserID r \<noteq> 0 then dj_uuid J (rq_UserID r) else ''ai-edit'') instruction s),
                              Some w')))
           | (Err e, _) \<Rightarrow> (reply_err 400 s e, rw)
           | (Ok _, Err e) \<Rightarrow> (reply_err 400 s e, rw)
           | _ \<Rightarrow> (reply_crash s, rw)))"

text \<open>A generated dashboard: the model's tiles in two columns. \<open>generate\<close> is the call of \<^verbatim>\<open>ai.AutoDash\<close>.\<close>

record auto_tile =
  at_Title :: string
  at_ChartType :: string
  at_SQL :: string

definition auto_layout :: "auto_tile list \<Rightarrow> tile list" where
  "auto_layout ts = map (\<lambda>(i, t). \<lparr>tl_ID = ''tile-'' @ Itoa (int (i + 1)), tl_Title = at_Title t, tl_ChartType = at_ChartType t, tl_SemanticRef = [],
       tl_SQL = at_SQL t, tl_X = int (i mod 2) * 6, tl_Y = int (i div 2) * 4, tl_W = 6, tl_H = 4, tl_Config = []\<rparr>) (enumerate 0 ts)"

definition dashboardsAuto ::
  "api_env \<Rightarrow> dash_json \<Rightarrow> bool \<Rightarrow> (uuid \<Rightarrow> string \<Rightarrow> (string \<times> auto_tile list) go) \<Rightarrow> http_request \<Rightarrow> string \<Rightarrow> dash \<Rightarrow> dash_reply \<times> dash" where
  "dashboardsAuto E J rewriter_set generate r i s =
     (if \<not> rewriter_set then reply_err 503 s (Errorf ''autodash: ai provider not configured'')
      else or_fail (parseUUID E ''id'' i) 400 s (\<lambda>cid.
        let fqn = rq_Query r ''fqn'' in
        if TrimSpace fqn = [] then reply_err 400 s (Errorf ''fqn required'')
        else (case generate cid fqn of
                Panic \<Rightarrow> reply_crash s
              | Err e \<Rightarrow> reply_err (if is_no_provider e then 503 else 502) s (ErrorfW (''autodash: '' @ Error e) e)
              | Ok (title, ts) \<Rightarrow>
                  (let (r, s') = dashboards_Create J \<lparr>d_ID = 0, d_CustomerID = cid, d_Name = title, d_Tiles = auto_layout ts, d_IsPublic = False\<rparr> s
                   in or_fail r 500 s' (\<lambda>newID. reply_ok 201 s' (DAuto newID title (length ts) fqn))))))"

section \<open>Dashboards as code\<close>

record push_commit =
  pc_Added :: "string list"
  pc_Modified :: "string list"

record push_event =
  pu_After :: string
  pu_Commits :: "push_commit list"
  pu_FullName :: string

record dashboard_yaml =
  dy_Name :: string
  dy_IsPublic :: bool
  dy_Tiles :: "tile list"

definition collectDashboardPaths :: "push_event \<Rightarrow> string list" where
  "collectDashboardPaths ev =
     foldl (\<lambda>out p. if HasPrefix p ''dashboards/'' \<and> (HasSuffix p ''.yaml'' \<or> HasSuffix p ''.yml'') \<and> p \<notin> set out then out @ [p] else out) []
       (concat (map (\<lambda>c. pc_Added c @ pc_Modified c) (pu_Commits ev)))"

fun check_yaml_tiles :: "nat \<Rightarrow> tile list \<Rightarrow> go_error option" where
  "check_yaml_tiles i [] = None"
| "check_yaml_tiles i (t # ts) =
     (if tl_ChartType t = [] then Some (Errorf (''tile['' @ Itoa (int i) @ ''].chart_type required'')) else check_yaml_tiles (i + 1) ts)"

definition parseDashboardYAML :: "(bytes \<Rightarrow> dashboard_yaml go) \<Rightarrow> bytes \<Rightarrow> dashboard_yaml go" where
  "parseDashboardYAML yaml raw =
     (case yaml raw of
        Panic \<Rightarrow> Panic
      | Err e \<Rightarrow> Err (ErrorfW (''yaml: '' @ Error e) e)
      | Ok spec \<Rightarrow>
          if TrimSpace (dy_Name spec) = [] then Err (Errorf ''dashboard.name required'')
          else (case check_yaml_tiles 0 (dy_Tiles spec) of Some e \<Rightarrow> Err e | None \<Rightarrow> Ok spec))"

definition pushEventCustomerID :: "string \<Rightarrow> uuid" where
  "pushEventCustomerID _ = 0"

text \<open>\<open>fetch\<close> is the GitHub contents API; a file that fails is skipped.\<close>

definition apply_dashboard :: "dash_json \<Rightarrow> (bytes \<Rightarrow> dashboard_yaml go) \<Rightarrow> (string \<Rightarrow> string \<Rightarrow> string \<Rightarrow> bytes go) \<Rightarrow> push_event \<Rightarrow> string \<Rightarrow> dash \<Rightarrow> dash" where
  "apply_dashboard J yaml fetch ev p s =
     (case bind_go (fetch (pu_FullName ev) (pu_After ev) p) (parseDashboardYAML yaml) of
        Ok spec \<Rightarrow> snd (dashboards_Create J \<lparr>d_ID = 0, d_CustomerID = pushEventCustomerID (pu_FullName ev), d_Name = dy_Name spec,
                          d_Tiles = dy_Tiles spec, d_IsPublic = dy_IsPublic spec\<rparr> s)
      | _ \<Rightarrow> s)"

definition handleDashboardsAsCodePush ::
  "dash_json \<Rightarrow> (bytes \<Rightarrow> dashboard_yaml go) \<Rightarrow> (string \<Rightarrow> string \<Rightarrow> string \<Rightarrow> bytes go) \<Rightarrow> push_event \<Rightarrow> dash \<Rightarrow> dash" where
  "handleDashboardsAsCodePush J yaml fetch ev s = fold (apply_dashboard J yaml fetch ev) (collectDashboardPaths ev) s"

section \<open>Runs\<close>

text \<open>
  A step is one statement of a handler, or a change of what is around the tables: customers, the clock, the availability
  of the database. The list holds the versions whose number was read and whose row is not yet inserted.
\<close>

type_synonym dash_sys = "dash \<times> pending_version list"

inductive dash_step :: "dash_json \<Rightarrow> dash_sys \<Rightarrow> dash_sys \<Rightarrow> bool" for J where
  outside: "ds_now s \<le> db_now d \<Longrightarrow> dash_step J (s, ps) (s\<lparr>ds_db := d\<rparr>, ps)"
| create: "dash_step J (s, ps) (snd (dashboards_Create J d s), ps)"
| delete: "dash_step J (s, ps) (snd (dashboards_Delete i s), ps)"
| mint: "dash_step J (s, ps) (snd (Mint now rnd sh ttl s), ps)"
| revoke: "dash_step J (s, ps) (snd (share_Revoke tok s), ps)"
| snapshot: "dash_step J (s, ps) (snd (insert_snapshot i iceberg tok s), ps)"
| number: "dash_step J (s, ps) (s, read_version i payload author message s # ps)"
| append: "p \<in> set ps \<Longrightarrow> dash_step J (s, ps) (snd (write_version J p s), remove1 p ps)"
| mirror: "dash_step J (s, ps) (snd (mirror J i name tiles s), ps)"

abbreviation dash_steps :: "dash_json \<Rightarrow> dash_sys \<Rightarrow> dash_sys \<Rightarrow> bool" where
  "dash_steps J \<equiv> (dash_step J)\<^sup>*\<^sup>*"

text \<open>The statements, each by its outcome.\<close>

lemmas statement_defs = dashboards_Create_def dashboards_Delete_def Mint_def share_Revoke_def insert_snapshot_def write_version_def mirror_def

definition no_dashboards :: "db \<Rightarrow> uuid \<Rightarrow> dash" where
  "no_dashboards d n = \<lparr>ds_db = d, ds_dashboards = [], ds_shares = [], ds_versions = [], ds_snapshots = [], ds_next = n\<rparr>"

definition history :: "uuid \<Rightarrow> dash \<Rightarrow> int list" where
  "history i s = map vr_Version (filter (\<lambda>v. vr_DashboardID v = i) (ds_versions s))"

text \<open>Keys: ids of dashboards are used once, tokens are distinct, versions and snapshots have their dashboard.\<close>

definition dash_ids :: "dash \<Rightarrow> uuid list" where
  "dash_ids s = map dw_ID (ds_dashboards s)"

definition share_tokens :: "dash \<Rightarrow> string list" where
  "share_tokens s = map (\<lambda>k. sh_Token (sk_Share k)) (ds_shares s)"

definition keys_ok :: "dash \<Rightarrow> bool" where
  "keys_ok s \<longleftrightarrow> distinct (dash_ids s) \<and> (\<forall>i \<in> set (dash_ids s). i < ds_next s) \<and>
     distinct (share_tokens s) \<and> distinct (map zn_ShareToken (ds_snapshots s)) \<and>
     vr_DashboardID ` set (ds_versions s) \<subseteq> set (dash_ids s) \<and> zn_DashboardID ` set (ds_snapshots s) \<subseteq> set (dash_ids s)"

text \<open>
  The versions of a dashboard are numbered from 1 without gaps, and a number that was read is at most the next one, or
  its dashboard is gone for good.
\<close>

definition pending_ok :: "dash \<Rightarrow> pending_version \<Rightarrow> bool" where
  "pending_ok s p \<longleftrightarrow> 1 \<le> pv_Next p \<and>
     (pv_Next p \<le> int (length (history (pv_DashboardID p) s)) + 1 \<or>
      pv_DashboardID p < ds_next s \<and> pv_DashboardID p \<notin> set (dash_ids s))"

definition history_ok :: "dash_sys \<Rightarrow> bool" where
  "history_ok x \<longleftrightarrow> (\<forall>i. history i (fst x) = [1..int (length (history i (fst x)))]) \<and> (\<forall>p \<in> set (snd x). pending_ok (fst x) p)"

definition dash_ok :: "dash_sys \<Rightarrow> bool" where
  "dash_ok x \<longleftrightarrow> keys_ok (fst x) \<and> history_ok x"

text \<open>What the statements do to ids, tokens and histories.\<close>

lemma dash_ids_statement [simp]:
  "dash_ids (s\<lparr>ds_db := d'\<rparr>) = dash_ids s"
  "dash_ids (snd (dashboards_Create J d s)) =
     dash_ids s @ (if fst (dashboards_Create J d s) = Ok (ds_next s) then [ds_next s] else [])"
  "dash_ids (snd (dashboards_Delete i s)) = (if ds_fail s = None then filter (\<lambda>j. j \<noteq> i) (dash_ids s) else dash_ids s)"
  "dash_ids (snd (Mint now rnd sh ttl s)) = dash_ids s"
  "dash_ids (snd (share_Revoke tok s)) = dash_ids s"
  "dash_ids (snd (insert_snapshot i iceberg tok s)) = dash_ids s"
  "dash_ids (snd (write_version J p s)) = dash_ids s"
  "dash_ids (snd (mirror J i name tiles s)) = dash_ids s"
  by (auto simp: dash_ids_def statement_defs Let_def filter_map o_def split: option.split go.split)

lemma ds_next_statement [simp]:
  "ds_next (snd (dashboards_Create J d s)) = ds_next s + (if fst (dashboards_Create J d s) = Ok (ds_next s) then 1 else 0)"
  "ds_next (snd (dashboards_Delete i s)) = ds_next s"
  "ds_next (snd (Mint now rnd sh ttl s)) = ds_next s"
  "ds_next (snd (share_Revoke tok s)) = ds_next s"
  "ds_next s \<le> ds_next (snd (insert_snapshot i iceberg tok s))"
  "ds_next (snd (write_version J p s)) = ds_next s"
  "ds_next (snd (mirror J i name tiles s)) = ds_next s"
  by (auto simp: statement_defs Let_def split: option.split go.split)

lemma share_tokens_statement [simp]:
  "share_tokens (s\<lparr>ds_db := d'\<rparr>) = share_tokens s"
  "share_tokens (snd (dashboards_Create J d s)) = share_tokens s"
  "share_tokens (snd (dashboards_Delete i s)) = share_tokens s"
  "share_tokens (snd (share_Revoke tok s)) = share_tokens s"
  "share_tokens (snd (insert_snapshot i iceberg tok s)) = share_tokens s"
  "share_tokens (snd (write_version J p s)) = share_tokens s"
  "share_tokens (snd (mirror J i name tiles s)) = share_tokens s"
  by (auto simp: share_tokens_def statement_defs split: option.split)

lemma share_tokens_Mint: "distinct (share_tokens s) \<Longrightarrow> distinct (share_tokens (snd (Mint now rnd sh ttl s)))"
  by (auto simp: share_tokens_def Mint_def Let_def split: option.split go.split)

lemma statement_frame [simp]:
  "ds_versions (snd (dashboards_Create J d s)) = ds_versions s"
  "ds_snapshots (snd (dashboards_Create J d s)) = ds_snapshots s"
  "ds_versions (snd (Mint now rnd sh ttl s)) = ds_versions s"
  "ds_snapshots (snd (Mint now rnd sh ttl s)) = ds_snapshots s"
  "ds_versions (snd (share_Revoke tok s)) = ds_versions s"
  "ds_snapshots (snd (share_Revoke tok s)) = ds_snapshots s"
  "ds_versions (snd (insert_snapshot i iceberg tok s)) = ds_versions s"
  "ds_snapshots (snd (write_version J p s)) = ds_snapshots s"
  "ds_versions (snd (mirror J i name tiles s)) = ds_versions s"
  "ds_snapshots (snd (mirror J i name tiles s)) = ds_snapshots s"
  by (auto simp: statement_defs Let_def split: option.split go.split)

lemma keys_ok_step: "dash_step J x y \<Longrightarrow> keys_ok (fst x) \<Longrightarrow> keys_ok (fst y)"
proof (induction rule: dash_step.induct)
  case (create s ps d)
  then show ?case by (auto simp: keys_ok_def less_Suc_eq)
next
  case (delete s ps i)
  have "vr_DashboardID ` set (ds_versions (snd (dashboards_Delete i s))) = vr_DashboardID ` set (ds_versions s) - (if ds_fail s = None then {i} else {})"
    "zn_DashboardID ` set (ds_snapshots (snd (dashboards_Delete i s))) = zn_DashboardID ` set (ds_snapshots s) - (if ds_fail s = None then {i} else {})"
    "distinct (map zn_ShareToken (ds_snapshots s)) \<Longrightarrow> distinct (map zn_ShareToken (ds_snapshots (snd (dashboards_Delete i s))))"
    by (auto simp: dashboards_Delete_def distinct_map_filter split: option.split)
  with delete show ?case by (auto simp: keys_ok_def)
next
  case (mint s ps now rnd sh ttl)
  then show ?case by (simp add: keys_ok_def share_tokens_Mint)
next
  case (snapshot s ps i iceberg tok)
  have "\<forall>j \<in> set (dash_ids s). j < ds_next (snd (insert_snapshot i iceberg tok s))" if "keys_ok s"
    using that ds_next_statement(5) [of s i iceberg tok] unfolding keys_ok_def by (blast intro: less_le_trans)
  with snapshot show ?case
    by (simp add: keys_ok_def) (auto simp: insert_snapshot_def dash_ids_def split: option.splits)
next
  case (append p ps s)
  then show ?case by (simp add: keys_ok_def) (auto simp: write_version_def dash_ids_def split: option.splits)
qed (simp_all add: keys_ok_def)

lemma foldr_max_upto: "foldr max [1..int n] 0 = int n"
proof (induction n)
  case (Suc n)
  have max0: "foldr max xs (a :: int) = max a (foldr max xs 0)" if "0 \<le> a" for xs a
    using that by (induction xs) auto
  have "[1..int (Suc n)] = [1..int n] @ [int (Suc n)]"
    by (subst upto_rec2) simp_all
  then show ?case using max0 [of "int (Suc n)" "[1..int n]"] Suc by (simp del: of_nat_Suc)
qed simp

lemma next_version_history: "history i s = [1..int (length (history i s))] \<Longrightarrow> next_version i s = int (length (history i s)) + 1"
  using foldr_max_upto [of "length (history i s)"] by (simp add: next_version_def flip: history_def)

lemma history_statement [simp]:
  "history i (s\<lparr>ds_db := d'\<rparr>) = history i s"
  "history i (snd (dashboards_Create J d s)) = history i s"
  "history i (snd (dashboards_Delete j s)) = (if i = j \<and> ds_fail s = None then [] else history i s)"
  "history i (snd (Mint now rnd sh ttl s)) = history i s"
  "history i (snd (share_Revoke tok s)) = history i s"
  "history i (snd (insert_snapshot j iceberg tok s)) = history i s"
  "history i (snd (mirror J j name tiles s)) = history i s"
proof -
  have "filter (\<lambda>v. vr_DashboardID v \<noteq> j \<and> vr_DashboardID v = i) vs = (if i = j then [] else filter (\<lambda>v. vr_DashboardID v = i) vs)" for vs :: "dash_version list"
    by (induction vs) auto
  then show "history i (snd (dashboards_Delete j s)) = (if i = j \<and> ds_fail s = None then [] else history i s)"
    by (auto simp: dashboards_Delete_def history_def split: option.split)
qed (auto simp: history_def statement_defs Let_def split: option.split go.split)

lemma history_append_version:
  "history i (snd (write_version J p s)) = history i s @ (if fst (write_version J p s) = Ok (pv_Next p) \<and> pv_DashboardID p = i then [pv_Next p] else [])"
  by (auto simp: history_def write_version_def split: option.split)

text \<open>An insert that the unique index lets through has the next number.\<close>

lemma write_version_next:
  assumes "history_ok (s, ps)" and "p \<in> set ps" and "fst (write_version J p s) = Ok (pv_Next p)"
  shows "pv_Next p = int (length (history (pv_DashboardID p) s)) + 1"
proof -
  have h: "history (pv_DashboardID p) s = [1..int (length (history (pv_DashboardID p) s))]" and p: "pending_ok s p"
    using assms(1,2) by (auto simp: history_ok_def)
  have new: "pv_DashboardID p \<in> set (dash_ids s)" "pv_Next p \<notin> set (history (pv_DashboardID p) s)"
    using assms(3) by (auto simp: write_version_def dash_ids_def history_def split: option.splits if_splits)
  from new(2) have "\<not> (1 \<le> pv_Next p \<and> pv_Next p \<le> int (length (history (pv_DashboardID p) s)))"
    by (subst (asm) h) simp
  with p new(1) show ?thesis by (auto simp: pending_ok_def)
qed

lemma pending_ok_mono:
  assumes "pending_ok s p" and "ds_next s \<le> ds_next s'" and "length (history (pv_DashboardID p) s) \<le> length (history (pv_DashboardID p) s')"
    and "pv_DashboardID p < ds_next s \<Longrightarrow> pv_DashboardID p \<notin> set (dash_ids s) \<Longrightarrow> pv_DashboardID p \<notin> set (dash_ids s')"
  shows "pending_ok s' p"
  using assms by (auto simp: pending_ok_def)

lemma pending_ok_frame:
  "pending_ok s p \<Longrightarrow> ds_next s \<le> ds_next s' \<Longrightarrow> history (pv_DashboardID p) s' = history (pv_DashboardID p) s \<Longrightarrow>
     (\<forall>i \<in> set (dash_ids s'). i \<in> set (dash_ids s) \<or> ds_next s \<le> i) \<Longrightarrow> pending_ok s' p"
  by (force simp: pending_ok_def)

lemma history_ok_frame:
  "history_ok (s, ps) \<Longrightarrow> ds_next s \<le> ds_next s' \<Longrightarrow> (\<And>i. history i s' = history i s) \<Longrightarrow>
     (\<forall>i \<in> set (dash_ids s'). i \<in> set (dash_ids s) \<or> ds_next s \<le> i) \<Longrightarrow> history_ok (s', ps)"
  using pending_ok_frame [of s _ s'] by (auto simp: history_ok_def)

lemma history_ok_step: "dash_step J x y \<Longrightarrow> keys_ok (fst x) \<Longrightarrow> history_ok x \<Longrightarrow> history_ok y"
proof (induction rule: dash_step.induct)
  case (delete s ps i)
  have "pending_ok (snd (dashboards_Delete i s)) p" if "p \<in> set ps" for p
  proof (cases "pv_DashboardID p = i \<and> ds_fail s = None")
    case True
    have "1 \<le> pv_Next p" using delete that by (auto simp: history_ok_def pending_ok_def)
    moreover have "i < ds_next s" if "2 \<le> pv_Next p"
    proof -
      have "pv_Next p \<le> int (length (history i s)) + 1 \<or> i < ds_next s"
        using delete(2) \<open>p \<in> set ps\<close> True by (auto simp: history_ok_def pending_ok_def)
      moreover have "i \<in> set (dash_ids s)" if "history i s \<noteq> []"
        using that delete(1) by (auto simp: history_def keys_ok_def filter_empty_conv)
      ultimately show ?thesis using \<open>2 \<le> pv_Next p\<close> delete(1) by (cases "history i s") (auto simp: keys_ok_def)
    qed
    ultimately show ?thesis using True by (cases "2 \<le> pv_Next p") (auto simp: pending_ok_def)
  next
    case False
    have "pending_ok s p" using delete(2) that by (simp add: history_ok_def)
    then show ?thesis by (rule pending_ok_frame) (use False in auto)
  qed
  with delete show ?case by (auto simp: history_ok_def)
next
  case (number s ps i payload author message)
  then show ?case
    using next_version_history [of i s] by (auto simp: history_ok_def pending_ok_def read_version_def)
next
  case (append p ps s)
  have next': "pv_Next p = int (length (history (pv_DashboardID p) s)) + 1" if "fst (write_version J p s) = Ok (pv_Next p)"
    using write_version_next append that by simp
  have "pending_ok (snd (write_version J p s)) q" if "q \<in> set (remove1 p ps)" for q
  proof (rule pending_ok_mono)
    show "pending_ok s q" using append(3) that set_remove1_subset [of p ps] by (auto simp: history_ok_def)
    show "length (history (pv_DashboardID q) s) \<le> length (history (pv_DashboardID q) (snd (write_version J p s)))"
      by (simp add: history_append_version)
  qed simp_all
  moreover have "history i (snd (write_version J p s)) = [1..int (length (history i (snd (write_version J p s))))]" for i
  proof -
    have h: "history i s = [1..int (length (history i s))]" using append by (simp add: history_ok_def)
    have "[1..int (length (history i s)) + 1] = history i s @ [int (length (history i s)) + 1]"
      by (subst upto_rec2) (use h in auto)
    with h next' show ?thesis by (auto simp: history_append_version add.commute)
  qed
  ultimately show ?case by (simp add: history_ok_def)
qed (erule history_ok_frame; auto)+

lemma dash_ok_step: "dash_step J x y \<Longrightarrow> dash_ok x \<Longrightarrow> dash_ok y"
  using keys_ok_step history_ok_step unfolding dash_ok_def by blast

lemma dash_ok_steps: "dash_steps J x y \<Longrightarrow> dash_ok x \<Longrightarrow> dash_ok y"
  by (induction rule: rtranclp_induct) (auto intro: dash_ok_step)

lemma dash_ok_initial: "dash_ok (no_dashboards d n, [])"
  by (simp add: dash_ok_def keys_ok_def history_ok_def no_dashboards_def dash_ids_def share_tokens_def history_def)

section \<open>The version history\<close>

definition versions_of :: "uuid \<Rightarrow> dash \<Rightarrow> dash_version list" where
  "versions_of i s = filter (\<lambda>v. vr_DashboardID v = i) (ds_versions s)"

lemma history_versions_of: "history i s = map vr_Version (versions_of i s)"
  by (simp add: history_def versions_of_def)

lemma versions_step:
  assumes "dash_step J x y" and "i \<in> set (dash_ids (fst y))" and "i < ds_next (fst x)"
  shows "i \<in> set (dash_ids (fst x)) \<and> ds_next (fst x) \<le> ds_next (fst y) \<and> (\<exists>more. versions_of i (fst y) = versions_of i (fst x) @ more)"
  using assms
proof (induction rule: dash_step.induct)
  case (delete s ps j)
  have "filter (\<lambda>v. vr_DashboardID v \<noteq> j \<and> vr_DashboardID v = i) vs = filter (\<lambda>v. vr_DashboardID v = i) vs" if "i \<noteq> j" for vs :: "dash_version list"
    using that by (induction vs) auto
  then have "versions_of i (snd (dashboards_Delete j s)) = versions_of i s" if "i \<noteq> j \<or> ds_fail s \<noteq> None"
    using that by (auto simp: versions_of_def dashboards_Delete_def split: option.split)
  with delete show ?case by (auto split: if_splits)
next
  case (append p ps s)
  have "\<exists>more. versions_of i (snd (write_version J p s)) = versions_of i s @ more"
    by (auto simp: versions_of_def write_version_def split: option.split)
  with append show ?case by auto
qed (auto simp: versions_of_def split: if_splits)

lemma versions_steps:
  assumes "dash_steps J x y" and "i < ds_next (fst x)"
  shows "ds_next (fst x) \<le> ds_next (fst y) \<and>
    (i \<in> set (dash_ids (fst y)) \<longrightarrow> i \<in> set (dash_ids (fst x)) \<and> (\<exists>more. versions_of i (fst y) = versions_of i (fst x) @ more))"
  using assms(1)
proof (induction rule: rtranclp_induct)
  case (step y z)
  have "ds_next (fst y) \<le> ds_next (fst z)"
    using step(2) by (induction rule: dash_step.induct) auto
  then show ?case using step versions_step [OF step(2), of i] assms(2) by fastforce
qed simp

text \<open>
  C31. The history of a dashboard: in every reachable state, however the reads and inserts of concurrent requests are
  interleaved, its versions are numbered 1, 2, 3 and so on without a gap, and from then on they are only appended to as
  long as the dashboard exists: no version is ever changed, dropped or numbered twice.
\<close>

theorem version_history_grows:
  assumes "dash_steps J (no_dashboards d n, []) (s, ps)" and "dash_steps J (s, ps) (t, qs)"
    and "i \<in> set (dash_ids s)" and "i \<in> set (dash_ids t)"
  shows "map vr_Version (versions_of i s) = [1..int (length (versions_of i s))] \<and> (\<exists>more. versions_of i t = versions_of i s @ more) \<and>
    map vr_Version (versions_of i t) = [1..int (length (versions_of i t))]"
proof -
  have s: "dash_ok (s, ps)" and t: "dash_ok (t, qs)"
    using dash_ok_steps [OF assms(1) dash_ok_initial] dash_ok_steps [OF assms(2)] by auto
  have "i < ds_next s" using s assms(3) by (simp add: dash_ok_def keys_ok_def)
  then show ?thesis
    using s t assms(4) versions_steps [OF assms(2), of i] by (simp add: dash_ok_def history_ok_def history_versions_of)
qed

section \<open>Share links\<close>

definition revoked :: "string \<Rightarrow> dash \<Rightarrow> bool" where
  "revoked tok s \<longleftrightarrow> (\<exists>k \<in> set (ds_shares s). sh_Token (sk_Share k) = tok \<and> sk_RevokedAt k \<noteq> None)"

lemma shares_step:
  assumes "dash_step J x y" and "k \<in> set (ds_shares (fst x))"
  shows "\<exists>k' \<in> set (ds_shares (fst y)). sk_Share k' = sk_Share k \<and> (sk_RevokedAt k \<noteq> None \<longrightarrow> sk_RevokedAt k' \<noteq> None)"
  using assms
proof (induction rule: dash_step.induct)
  case (mint s ps now rnd sh ttl)
  then have "k \<in> set (ds_shares (snd (Mint now rnd sh ttl s)))"
    by (auto simp: Mint_def Let_def split: option.split go.split)
  then show ?case by auto
next
  case (revoke s ps tok)
  let ?k = "if ds_fail s = None \<and> sh_Token (sk_Share k) = tok then k\<lparr>sk_RevokedAt := Some (ds_now s)\<rparr> else k"
  have "?k \<in> set (ds_shares (snd (share_Revoke tok s)))"
    using revoke by (auto simp: share_Revoke_def image_iff split: option.split)
  then show ?case by (intro bexI [of _ ?k]) auto
qed (auto simp: statement_defs split: option.split)

lemma shares_steps:
  assumes "dash_steps J x y" and "k \<in> set (ds_shares (fst x))"
  shows "\<exists>k' \<in> set (ds_shares (fst y)). sk_Share k' = sk_Share k \<and> (sk_RevokedAt k \<noteq> None \<longrightarrow> sk_RevokedAt k' \<noteq> None)"
  using assms(1)
proof (induction rule: rtranclp_induct)
  case (step y z)
  then obtain k' where "k' \<in> set (ds_shares (fst y))" "sk_Share k' = sk_Share k" "sk_RevokedAt k \<noteq> None \<longrightarrow> sk_RevokedAt k' \<noteq> None" by blast
  with shares_step [OF step(2)] show ?case by metis
qed (use assms(2) in blast)

lemma share_unique:
  "keys_ok s \<Longrightarrow> k \<in> set (ds_shares s) \<Longrightarrow> k' \<in> set (ds_shares s) \<Longrightarrow> sh_Token (sk_Share k) = sh_Token (sk_Share k') \<Longrightarrow> k = k'"
  by (auto simp: keys_ok_def share_tokens_def distinct_map dest: inj_onD)

text \<open>Resolving the token of a row.\<close>

lemma Resolve_row:
  assumes "keys_ok s" and "k \<in> set (ds_shares s)" and "ds_fail s = None"
  shows "Resolve (sh_Token (sk_Share k)) s = (if share_live (ds_now s) k then Ok (sk_Share k) else Err ErrTokenInvalid)"
proof -
  let ?P = "\<lambda>x. sh_Token (sk_Share x) = sh_Token (sk_Share k) \<and> share_live (ds_now s) x"
  show ?thesis
  proof (cases "find ?P (ds_shares s)")
    case None
    then have "\<not> share_live (ds_now s) k" using assms(2) by (auto simp: find_None_iff)
    with None show ?thesis by (simp add: Resolve_def assms(3))
  next
    case (Some x)
    then have "x \<in> set (ds_shares s)" "?P x" by (auto simp: find_Some_iff)
    then have "x = k" using share_unique [OF assms(1) _ assms(2)] by blast
    with Some \<open>?P x\<close> show ?thesis using assms(3) by (simp add: Resolve_def)
  qed
qed

lemma revoked_row: "keys_ok s \<Longrightarrow> k \<in> set (ds_shares s) \<Longrightarrow> revoked (sh_Token (sk_Share k)) s \<longleftrightarrow> sk_RevokedAt k \<noteq> None"
  using share_unique unfolding revoked_def by metis

lemma hexEncode_eq_Nil: "hexEncode b = [] \<longleftrightarrow> b = []"
  by (cases b) (auto simp: hexEncode_def Let_def)

lemma createDashboardShare_ok:
  assumes "createDashboardShare E J now later rnd i body s = ((201, Inr (DShare tok did override until)), s')"
  shows "\<exists>buf d. rnd = Ok buf \<and> tok = hexEncode buf \<and> parseUUID E ''id'' i = Ok did \<and> dashboards_Get J did s = Ok d \<and>
    s' = snd (Mint now rnd \<lparr>sh_Token = [], sh_CustomerID = d_CustomerID d, sh_TargetType = ''dashboard'', sh_TargetID = did, sh_ExpiresAt = None\<rparr>
                (duration (fst body) second) s) \<and>
    \<lparr>sk_Share = \<lparr>sh_Token = tok, sh_CustomerID = d_CustomerID d, sh_TargetType = ''dashboard'', sh_TargetID = did,
        sh_ExpiresAt = (if 0 < duration (fst body) second then Some (now + duration (fst body) second) else None)\<rparr>, sk_RevokedAt = None\<rparr>
      \<in> set (ds_shares s')"
proof -
  obtain d where "parseUUID E ''id'' i = Ok did" "dashboards_Get J did s = Ok d"
    using assms by (auto simp: createDashboardShare_def Let_def case_prod_unfold)
  then show ?thesis using assms
    by (auto simp: createDashboardShare_def Mint_def Let_def case_prod_unfold split: go.splits option.splits if_splits)
qed

text \<open>
  C7. A share link: from the moment it is handed out, and whatever the handlers do afterwards, it shows the current state of
  its dashboard, whose row is looked up at every visit; and it does so exactly until it is revoked or its time is over, or
  the dashboard is deleted. A time that overflows or is not positive makes a link without an end.
\<close>

theorem share_link_lifetime:
  assumes "dash_ok (s, ps)" and "createDashboardShare E J now later (Ok buf) i body s = ((201, Inr (DShare tok did override until)), s')"
    and "buf \<noteq> []" and "dash_steps J (s', ps) (t, qs)" and "ds_fail t = None"
    and "ttl = duration (fst body) second" and "expiry = (if 0 < ttl then Some (now + ttl) else None)"
  shows "publicDashboard J tok t =
    (if revoked tok t \<or> (\<exists>x. expiry = Some x \<and> x \<le> ds_now t) then (404, Inl ErrTokenInvalid)
     else (case find (\<lambda>w. dw_ID w = did) (ds_dashboards t) of
             None \<Rightarrow> (404, Inl ErrNoRows)
           | Some w \<Rightarrow> (200, Inr (DPublic tok (dashboard_of J w) expiry))))"
proof -
  from createDashboardShare_ok [OF assms(2)] obtain d :: dashboard where tok: "tok = hexEncode buf"
    and s': "s' = snd (Mint now (Ok buf) \<lparr>sh_Token = [], sh_CustomerID = d_CustomerID d, sh_TargetType = ''dashboard'', sh_TargetID = did, sh_ExpiresAt = None\<rparr> ttl s)"
    and row: "\<lparr>sk_Share = \<lparr>sh_Token = tok, sh_CustomerID = d_CustomerID d, sh_TargetType = ''dashboard'', sh_TargetID = did, sh_ExpiresAt = expiry\<rparr>,
      sk_RevokedAt = None\<rparr> \<in> set (ds_shares s')" (is "?k \<in> _")
    unfolding assms(6,7) by auto
  have "dash_ok (t, qs)"
    using dash_ok_steps [OF assms(4)] dash_ok_step [OF dash_step.mint assms(1)] s' by blast
  then have keys: "keys_ok t" by (simp add: dash_ok_def)
  from shares_steps [OF assms(4)] row obtain k' where k': "k' \<in> set (ds_shares t)" "sk_Share k' = sk_Share ?k" by fastforce
  have t: "sh_Token (sk_Share k') = tok" using k' by simp
  have "share_live (ds_now t) k' \<longleftrightarrow> \<not> (revoked tok t \<or> (\<exists>x. expiry = Some x \<and> x \<le> ds_now t))"
    using revoked_row [OF keys k'(1)] t k'(2) by (auto simp: share_live_def not_le split: option.split)
  moreover have "tok \<noteq> []" using tok assms(3) by (simp add: hexEncode_eq_Nil)
  ultimately show ?thesis
    using Resolve_row [OF keys k'(1) assms(5)] t k'(2) assms(5)
    by (auto simp: publicDashboard_def dashboards_Get_def reply_defs split: option.split)
qed

text \<open>
  Revocation is final: after a revocation of an existing link was acknowledged, no later state shows a dashboard under
  its token, not even when the token generator returns the same bytes again.
\<close>

theorem revocation_final:
  assumes "dash_ok (s, ps)" and "revokeDashboardShare tok s = ((204, Inr DNone), s')" and "tok \<in> set (share_tokens s)"
    and "dash_steps J (s', ps) (t, qs)"
  shows "revoked tok t \<and> fst (publicDashboard J tok t) \<noteq> 200"
proof -
  have s': "s' = snd (share_Revoke tok s)" and up: "ds_fail s = None"
    using assms(2) by (auto simp: revokeDashboardShare_def Let_def case_prod_unfold share_Revoke_def split: if_splits option.splits)
  obtain k where k: "k \<in> set (ds_shares s')" "sh_Token (sk_Share k) = tok" "sk_RevokedAt k \<noteq> None"
    using assms(3) up by (force simp: s' share_tokens_def share_Revoke_def image_iff)
  from shares_steps [OF assms(4), of k] k obtain k' where k': "k' \<in> set (ds_shares t)" "sh_Token (sk_Share k') = tok" "sk_RevokedAt k' \<noteq> None" by auto
  have "dash_ok (t, qs)"
    using dash_ok_steps [OF assms(4)] dash_ok_step [OF dash_step.revoke assms(1)] s' by blast
  then have keys: "keys_ok t" by (simp add: dash_ok_def)
  have "Resolve tok t = Err ErrTokenInvalid"
  proof (cases "ds_fail t")
    case None
    show ?thesis using Resolve_row [OF keys k'(1) None] k' by (simp add: share_live_def)
  qed (simp add: Resolve_def)
  then show ?thesis using k' by (auto simp: revoked_def publicDashboard_def reply_defs)
qed

section \<open>Snapshots and edits\<close>

lemma snapshots_step:
  assumes "dash_step J x y" and "z \<in> set (ds_snapshots (fst x))" and "zn_DashboardID z \<in> set (dash_ids (fst y))"
  shows "z \<in> set (ds_snapshots (fst y))"
  using assms
proof (induction rule: dash_step.induct)
  case (delete s ps i)
  then show ?case by (auto simp: dash_ids_def dashboards_Delete_def split: option.splits)
next
  case (snapshot s ps i iceberg tok)
  then show ?case by (auto simp: insert_snapshot_def split: option.split)
qed auto

text \<open>
  A snapshot keeps its Iceberg snapshot id, and the dashboard it shows is the live one: its tiles are those of the last
  edit, not those at the time of the snapshot.
\<close>

theorem snapshot_shows_live_dashboard:
  assumes "keys_ok t" and "z \<in> set (ds_snapshots t)" and "ds_fail t = None" and "zn_ShareToken z \<noteq> []"
  shows "\<exists>w. find (\<lambda>w. dw_ID w = zn_DashboardID z) (ds_dashboards t) = Some w \<and>
    getDashboardSnapshot J (zn_ShareToken z) t = (200, Inr (DFrozen (dashboard_of J w) (zn_IcebergSnapshotID z) (zn_ShareToken z)))"
proof -
  have "find (\<lambda>x. zn_ShareToken x = zn_ShareToken z) (ds_snapshots t) = Some z"
  proof (cases "find (\<lambda>x. zn_ShareToken x = zn_ShareToken z) (ds_snapshots t)")
    case (Some x)
    then have "x \<in> set (ds_snapshots t)" "zn_ShareToken x = zn_ShareToken z" by (auto simp: find_Some_iff)
    then have "x = z" using assms(1,2) by (auto simp: keys_ok_def distinct_map dest: inj_onD)
    with Some show ?thesis by simp
  qed (use assms(2) in \<open>auto simp: find_None_iff\<close>)
  moreover have "zn_DashboardID z \<in> set (dash_ids t)" using assms(1,2) by (auto simp: keys_ok_def)
  then obtain w where "find (\<lambda>w. dw_ID w = zn_DashboardID z) (ds_dashboards t) = Some w"
    by (cases "find (\<lambda>w. dw_ID w = zn_DashboardID z) (ds_dashboards t)") (auto simp: dash_ids_def find_None_iff)
  ultimately show ?thesis using assms(3,4) by (auto simp: getDashboardSnapshot_def dashboards_Get_def reply_defs)
qed

text \<open>A new dashboard has no version, so the state before its first edit cannot be restored.\<close>

theorem create_leaves_no_version:
  assumes "keys_ok s" and "createDashboard E J i body s = ((201, Inr (DID did)), s')"
  shows "versions_of did s' = [] \<and> (\<forall>x b. fst (fst (restoreDashboardVersion E J y x b s')) \<noteq> 200 \<or> parseUUID E ''id'' y \<noteq> Ok did)"
proof -
  obtain cid d where c: "dashboards_Create J (d\<lparr>d_CustomerID := cid\<rparr>) s = (Ok did, s')"
    using assms(2) by (auto simp: createDashboard_def Let_def case_prod_unfold) (metis prod.collapse)
  then have did: "did = ds_next s" and v: "ds_versions s' = ds_versions s"
    using statement_frame(1) [of J "d\<lparr>d_CustomerID := cid\<rparr>" s] by (auto simp: dashboards_Create_def split: option.splits if_splits)
  have none: "versions_of did s' = []"
    using assms(1) v did by (force simp: versions_of_def keys_ok_def filter_empty_conv)
  have "find_version did n s' \<noteq> Ok row" for n row
    using none by (auto simp: find_version_def versions_of_def filter_empty_conv find_None_iff split: option.split dest!: find_Some_iff [THEN iffD1])
  then have "fst (fst (restoreDashboardVersion E J y x b s')) \<noteq> 200" if "parseUUID E ''id'' y = Ok did" for x b
    using that by (auto simp: restoreDashboardVersion_def with_version_def reply_defs split: option.split go.split)
  with none show ?thesis by blast
qed

text \<open>
  Dashboards as code: the customer of every push is the nil id, which no customer has, so the insert violates the foreign
  key and a push never stores a dashboard.
\<close>

theorem push_never_stores:
  assumes "\<forall>c \<in> set (customers (ds_db s)). c_ID c \<noteq> 0"
  shows "handleDashboardsAsCodePush J yaml fetch ev s = s"
proof -
  have "apply_dashboard J yaml fetch ev p s = s" for p
    using assms by (auto simp: apply_dashboard_def dashboards_Create_def pushEventCustomerID_def customer_exists_def split: go.split option.split)
  then have "fold (apply_dashboard J yaml fetch ev) ps s = s" for ps by (induction ps) auto
  then show ?thesis by (simp add: handleDashboardsAsCodePush_def)
qed

section \<open>Handlers as steps\<close>

lemma insertDashboardVersion_steps: "dash_steps J (s, ps) (snd (insertDashboardVersion J did payload author message s), ps)"
proof (cases "ds_fail s")
  case None
  let ?p = "read_version did payload author message s"
  have "dash_step J (s, ps) (s, ?p # ps)" by (rule dash_step.number)
  moreover have "dash_step J (s, ?p # ps) (snd (write_version J ?p s), remove1 ?p (?p # ps))" by (rule dash_step.append) simp
  ultimately show ?thesis by (simp add: insertDashboardVersion_def None)
qed (simp add: insertDashboardVersion_def)

lemma mirror_steps: "dash_steps J (s, ps) (snd (mirror J did name tiles s), ps)"
  by (blast intro: dash_step.mirror)

text \<open>A restore and an edit are an insert followed by an update of the live row.\<close>

lemma insert_mirror_steps:
  assumes "insertDashboardVersion J did payload author message s = (v, s1)" and "mirror J did name tiles s1 = (m, s2)"
  shows "dash_steps J (s, ps) (s1, ps)" and "dash_steps J (s, ps) (s2, ps)"
proof -
  show one: "dash_steps J (s, ps) (s1, ps)" using insertDashboardVersion_steps assms(1) by (metis snd_conv)
  have "dash_steps J (s1, ps) (s2, ps)" using mirror_steps assms(2) by (metis snd_conv)
  with one show "dash_steps J (s, ps) (s2, ps)" by (rule rtranclp_trans)
qed

lemma with_version_snd: "(\<And>did row. P (snd (f did row))) \<Longrightarrow> P s \<Longrightarrow> P (snd (with_version E i x s f))"
  unfolding with_version_def by (rule or_fail_snd) (simp_all add: reply_defs split: option.split go.split)

lemma restore_steps: "dash_steps J (s, ps) (snd (restoreDashboardVersion E J i x body s), ps)"
  unfolding restoreDashboardVersion_def
proof (rule with_version_snd [where P = "\<lambda>t. dash_steps J (s, ps) (t, ps)"])
  fix did row
  obtain author m where b: "body = (author, m)" by force
  define msg where "msg = (if m = [] then ''restore v'' @ Itoa (vr_Version row) else m)"
  obtain name tiles where p: "dj_payload J (vr_Payload row) = (name, tiles)" by force
  obtain v s1 where ins: "insertDashboardVersion J did (vr_Payload row) author msg s = (v, s1)" by force
  obtain r s2 where mir: "mirror J did name tiles s1 = (r, s2)" by force
  from insert_mirror_steps [OF ins mir] show "dash_steps J (s, ps) (snd (let (author, message) = body;
         message = (if message = [] then ''restore v'' @ Itoa (vr_Version row) else message);
         (r, s1) = insertDashboardVersion J did (vr_Payload row) author message s
     in or_fail r 500 s1 (\<lambda>newVersion.
          let (name, tiles) = dj_payload J (vr_Payload row);
              (m, s2) = mirror J did name tiles s1
          in case m of
               Err e \<Rightarrow> reply_err 500 s2 (ErrorfW (''mirror restore to dashboard: '' @ Error e) e)
             | Panic \<Rightarrow> reply_crash s2
             | Ok _ \<Rightarrow> reply_ok 200 s2 (DRestored did (vr_Version row) newVersion message))), ps)"
    unfolding Let_def b prod.case msg_def [symmetric] ins p mir by (cases v; cases r) (simp_all add: reply_defs)
qed simp

lemma persist_edit_steps: "dash_steps J (s, ps) (snd (persist_edit J d author instruction s), ps)"
proof -
  obtain v s1 where ins: "insertDashboardVersion J (d_ID d) (dj_edit J (d_Name d) (d_Tiles d)) author instruction s = (v, s1)" by force
  obtain m s2 where mir: "mirror J (d_ID d) (Some (d_Name d)) (Some (dj_tiles J (d_Tiles d))) s1 = (m, s2)" by force
  from insert_mirror_steps [OF ins mir] show ?thesis
    by (cases v; cases m) (simp_all add: persist_edit_def ins mir reply_defs)
qed

lemma edit_steps: "dash_steps J (s, ps) (snd (fst (dashboardAIEdit E J provider model r i body rw s)), ps)"
  unfolding dashboardAIEdit_def Let_def
  by (auto simp: reply_defs persist_edit_steps split: option.split go.split prod.split)

lemma one_step: "dash_step J x y \<Longrightarrow> dash_steps J x y"
  by (rule r_into_rtranclp)

lemma handler_steps:
  "dash_steps J (s, ps) (snd (createDashboard E J i d s), ps)"
  "dash_steps J (s, ps) (snd (createDashboardShare E J now later rnd i share_body s), ps)"
  "dash_steps J (s, ps) (snd (revokeDashboardShare tok s), ps)"
  "dash_steps J (s, ps) (snd (mintShareToken E now rnd r mint_body s), ps)"
  "dash_steps J (s, ps) (snd (revokeShareToken tok s), ps)"
  "dash_steps J (s, ps) (snd (createDashboardSnapshot E J rnd i iceberg s), ps)"
  "dash_steps J (s, ps) (snd (dashboardsAuto E J rw generate r i s), ps)"
proof -
  note steps = dash_step.create [THEN one_step] dash_step.mint [THEN one_step]
    dash_step.revoke [THEN one_step] dash_step.snapshot [THEN one_step]
  note early = or_fail_last [where P = "\<lambda>t. dash_steps J (s, ps) (t, ps)"] or_fail_snd [where P = "\<lambda>t. dash_steps J (s, ps) (t, ps)"]
  show "dash_steps J (s, ps) (snd (createDashboard E J i d s), ps)"
    unfolding createDashboard_def Let_def case_prod_unfold by (rule early steps rtranclp.rtrancl_refl)+
  show "dash_steps J (s, ps) (snd (createDashboardShare E J now later rnd i share_body s), ps)"
    unfolding createDashboardShare_def Let_def case_prod_unfold by (rule early steps rtranclp.rtrancl_refl)+
  show "dash_steps J (s, ps) (snd (revokeShareToken tok s), ps)"
    unfolding revokeShareToken_def Let_def case_prod_unfold by (rule early steps rtranclp.rtrancl_refl)+
  show "dash_steps J (s, ps) (snd (revokeDashboardShare tok s), ps)"
    unfolding revokeDashboardShare_def Let_def case_prod_unfold
    by (cases "tok = []") (simp, simp only: if_False, (rule early steps rtranclp.rtrancl_refl)+)
  show "dash_steps J (s, ps) (snd (mintShareToken E now rnd r mint_body s), ps)"
    unfolding mintShareToken_def Let_def case_prod_unfold by (rule early steps rtranclp.rtrancl_refl)+
  have "dash_steps J (s, ps) (snd (or_fail rnd 500 s (\<lambda>buf. or_fail (fst (insert_snapshot did ice (hexEncode buf) s)) 500 (snd (insert_snapshot did ice (hexEncode buf) s))
      (\<lambda>zid. reply_ok 201 (snd (insert_snapshot did ice (hexEncode buf) s)) (DSnapshot zid did ice (hexEncode buf))))), ps)" for did ice
    by (rule early steps rtranclp.rtrancl_refl)+
  then have snap: "dash_steps J (s, ps) (snd (if ice = [] then reply_err 400 s (Errorf ''at_iceberg_snapshot_id required'')
       else (case dashboards_Get J did s of
               Panic \<Rightarrow> reply_crash s
             | Err e \<Rightarrow> if e = ErrNoRows then reply_err 404 s (Errorf ''dashboard not found'') else reply_err 500 s e
             | Ok _ \<Rightarrow> or_fail rnd 500 s (\<lambda>buf. or_fail (fst (insert_snapshot did ice (hexEncode buf) s)) 500 (snd (insert_snapshot did ice (hexEncode buf) s))
      (\<lambda>zid. reply_ok 201 (snd (insert_snapshot did ice (hexEncode buf) s)) (DSnapshot zid did ice (hexEncode buf)))))), ps)" for did ice
    by (simp split: go.split)
  show "dash_steps J (s, ps) (snd (createDashboardSnapshot E J rnd i iceberg s), ps)"
    unfolding createDashboardSnapshot_def Let_def case_prod_unfold by (rule early snap rtranclp.rtrancl_refl)+
  have auto: "dash_steps J (s, ps) (snd (or_fail (fst (dashboards_Create J d s)) 500 (snd (dashboards_Create J d s)) (\<lambda>newID. reply_ok 201 (snd (dashboards_Create J d s)) (b newID))), ps)" for d b
    by (rule early steps)+
  show "dash_steps J (s, ps) (snd (dashboardsAuto E J rw generate r i s), ps)"
    unfolding dashboardsAuto_def Let_def case_prod_unfold
    by (cases rw; cases "parseUUID E ''id'' i") (simp_all add: auto split: go.split)
qed

section \<open>Editing and restoring\<close>

lemma insertDashboardVersion_ok:
  assumes "dash_ok (s, ps)" and "ds_fail s = None" and "did \<in> set (dash_ids s)" and "dj_jsonb J payload = Some p"
  shows "insertDashboardVersion J did payload author message s =
    (Ok (int (length (versions_of did s)) + 1),
     s\<lparr>ds_versions := ds_versions s @ [\<lparr>vr_DashboardID = did, vr_Version = int (length (versions_of did s)) + 1, vr_Payload = p,
         vr_Author = null_if_empty author, vr_Message = null_if_empty message, vr_CreatedAt = ds_now s\<rparr>]\<rparr>)"
proof -
  have h: "history did s = [1..int (length (versions_of did s))]"
    using assms(1) by (simp add: dash_ok_def history_ok_def history_versions_of)
  then have n: "next_version did s = int (length (versions_of did s)) + 1"
    using next_version_history [of did s] by (simp add: history_versions_of)
  have "int (length (versions_of did s)) + 1 \<notin> set (history did s)" by (simp add: h)
  then have "\<not> (\<exists>v \<in> set (ds_versions s). vr_DashboardID v = did \<and> vr_Version v = int (length (versions_of did s)) + 1)"
    by (force simp: history_def)
  with assms n show ?thesis
    by (simp add: insertDashboardVersion_def write_version_def read_version_def dash_ids_def)
qed

lemma Get_mirror:
  assumes "ds_fail s = None" and "did \<in> set (dash_ids s)" and "dj_jsonb J b = Some x"
  shows "\<exists>d s'. mirror J did (Some name) (Some b) s = (Ok (), s') \<and> dashboards_Get J did s' = Ok d \<and> d_ID d = did \<and>
    d_Name d = name \<and> d_Tiles d = dj_read J x \<and> ds_versions s' = ds_versions s"
proof -
  let ?g = "\<lambda>w. if dw_ID w = did then w\<lparr>dw_Name := name, dw_Tiles := x, dw_UpdatedAt := ds_now s\<rparr> else w"
  have "\<exists>w. find (\<lambda>w. dw_ID w = did) (map ?g ws) = Some w \<and> dw_ID w = did \<and> dw_Name w = name \<and> dw_Tiles w = x"
    if "did \<in> dw_ID ` set ws" for ws :: "dashboard_row list"
    using that by (induction ws) auto
  then obtain w where "find (\<lambda>w. dw_ID w = did) (map ?g (ds_dashboards s)) = Some w" "dw_ID w = did" "dw_Name w = name" "dw_Tiles w = x"
    using assms(2) unfolding dash_ids_def by force
  moreover have "mirror J did (Some name) (Some b) s = (Ok (), s\<lparr>ds_dashboards := map ?g (ds_dashboards s)\<rparr>)"
    using assms by (simp add: mirror_def cong: if_cong)
  ultimately show ?thesis using assms(1) by (simp add: dashboards_Get_def dashboard_of_def)
qed

lemma find_version_row:
  assumes "dash_ok (s, ps)" and "v \<in> set (ds_versions s)" and "ds_fail s = None" and "vr_Version v < 2 ^ 31"
  shows "find_version (vr_DashboardID v) (vr_Version v) s = Ok v"
proof -
  let ?P = "\<lambda>x. vr_DashboardID x = vr_DashboardID v \<and> vr_Version x = vr_Version v"
  have "map vr_Version (versions_of (vr_DashboardID v) s) = [1..int (length (versions_of (vr_DashboardID v) s))]"
    using assms(1) by (simp add: dash_ok_def history_ok_def history_versions_of)
  then have "distinct (map vr_Version (versions_of (vr_DashboardID v) s))" by simp
  then have unique: "x = v" if "x \<in> set (ds_versions s)" "?P x" for x
    using that assms(2) by (auto simp: versions_of_def distinct_map inj_on_def)
  show ?thesis
  proof (cases "find ?P (ds_versions s)")
    case (Some x)
    then have "x = v" using unique by (auto simp: find_Some_iff)
    with Some show ?thesis using assms(3,4) by (simp add: find_version_def)
  qed (use assms(2) in \<open>auto simp: find_None_iff\<close>)
qed

text \<open>The JSON of an edit keeps its name and tiles when it goes through the JSONB column.\<close>

definition json_keeps :: "dash_json \<Rightarrow> string \<Rightarrow> tile list \<Rightarrow> bool" where
  "json_keeps J name ts \<longleftrightarrow>
     (\<exists>p. dj_jsonb J (dj_edit J name ts) = Some p \<and> dj_jsonb J p = Some p \<and>
        (\<exists>b x. dj_payload J p = (Some name, Some b) \<and> dj_jsonb J b = Some x \<and> dj_read J x = ts))"

lemma parse_keeps_id: "parseDashboardEdit J text did cid = Ok d \<Longrightarrow> d_ID d = did"
  by (auto simp: parseDashboardEdit_def bind_go_eq_Ok split: if_splits option.splits)

lemma edit_persists:
  assumes "dashboardAIEdit E J provider model r i body rw s = (((200, Inr (DEdited d n)), s1), rw')"
  shows "\<exists>author instruction. persist_edit J d author instruction s = ((200, Inr (DEdited d n)), s1) \<and> parseUUID E ''id'' i = Ok (d_ID d)"
proof -
  from assms obtain did out cid d' author instruction where
    h: "parseUUID E ''id'' i = Ok did" "parseDashboardEdit J out did cid = Ok d'" "persist_edit J d' author instruction s = ((200, Inr (DEdited d n)), s1)"
    by (auto simp: dashboardAIEdit_def Let_def case_prod_unfold split: option.splits go.splits if_splits)
  then have "d' = d" by (auto simp: persist_edit_def split: prod.splits go.splits)
  with h parse_keeps_id [OF h(2)] show ?thesis by blast
qed

lemma edit_stores_version:
  assumes "persist_edit J d author instruction s = ((200, Inr (DEdited d' n)), s1)"
    and "dj_jsonb J (dj_edit J (d_Name d) (d_Tiles d)) = Some p"
  shows "d_ID d \<in> set (dash_ids s1) \<and> (\<exists>v \<in> set (ds_versions s1). vr_DashboardID v = d_ID d \<and> vr_Version v = n \<and> vr_Payload v = p)"
proof -
  obtain s0 where ins: "insertDashboardVersion J (d_ID d) (dj_edit J (d_Name d) (d_Tiles d)) author instruction s = (Ok n, s0)"
    and s1: "s1 = snd (mirror J (d_ID d) (Some (d_Name d)) (Some (dj_tiles J (d_Tiles d))) s0)"
    using assms(1) by (auto simp: persist_edit_def split: prod.splits go.splits)
  have "d_ID d \<in> set (dash_ids s0) \<and> (\<exists>v \<in> set (ds_versions s0). vr_DashboardID v = d_ID d \<and> vr_Version v = n \<and> vr_Payload v = p)"
    using ins assms(2) by (auto simp: insertDashboardVersion_def write_version_def read_version_def dash_ids_def split: option.splits if_splits)
  then show ?thesis using s1 by simp
qed

text \<open>
  C15. Editing and restoring: a version that an edit recorded can be restored at any later time, whatever other edits,
  restores, shares and deletions of other dashboards ran in between. The restore succeeds, records a new version after all others,
  and the live dashboard has the name and the tiles of that edit again.
\<close>

theorem edit_restore_roundtrip:
  assumes "dash_ok (s, ps)" and "dashboardAIEdit E J provider model r i body rw s = (((200, Inr (DEdited d n)), s1), rw')"
    and "dash_steps J (s1, ps) (t, qs)" and "d_ID d \<in> set (dash_ids t)" and "ds_fail t = None"
    and "json_keeps J (d_Name d) (d_Tiles d)" and "version_param x = Some n" and "n < 2 ^ 31"
  shows "\<exists>msg t' d'. restoreDashboardVersion E J i x b t = ((200, Inr (DRestored (d_ID d) n (int (length (versions_of (d_ID d) t)) + 1) msg)), t') \<and>
    dashboards_Get J (d_ID d) t' = Ok d' \<and> d_Name d' = d_Name d \<and> d_Tiles d' = d_Tiles d"
proof -
  from assms(6) obtain p bs y where js: "dj_jsonb J (dj_edit J (d_Name d) (d_Tiles d)) = Some p" "dj_jsonb J p = Some p"
    "dj_payload J p = (Some (d_Name d), Some bs)" "dj_jsonb J bs = Some y" "dj_read J y = d_Tiles d"
    by (auto simp: json_keeps_def)
  from edit_persists [OF assms(2)] obtain author instruction where
    e: "persist_edit J d author instruction s = ((200, Inr (DEdited d n)), s1)" "parseUUID E ''id'' i = Ok (d_ID d)" by blast
  from edit_stores_version [OF e(1) js(1)] obtain v where
    v: "d_ID d \<in> set (dash_ids s1)" "v \<in> set (ds_versions s1)" "vr_DashboardID v = d_ID d" "vr_Version v = n" "vr_Payload v = p" by blast
  have s1: "dash_ok (s1, ps)" using dash_ok_steps [OF persist_edit_steps assms(1)] e(1) by (metis snd_conv)
  have t: "dash_ok (t, qs)" using dash_ok_steps [OF assms(3) s1] .
  have "d_ID d < ds_next s1" using s1 v(1) by (simp add: dash_ok_def keys_ok_def)
  then obtain more where "versions_of (d_ID d) t = versions_of (d_ID d) s1 @ more"
    using versions_steps [OF assms(3), of "d_ID d"] assms(4) by auto
  moreover have "v \<in> set (versions_of (d_ID d) s1)" using v by (simp add: versions_of_def)
  ultimately have "v \<in> set (versions_of (d_ID d) t)" by simp
  then have "v \<in> set (ds_versions t)" by (simp add: versions_of_def)
  then have fv: "find_version (d_ID d) n t = Ok v" using find_version_row [OF t _ assms(5)] v(3,4) assms(8) by metis
  obtain a m where b: "b = (a, m)" by force
  define msg where "msg = (if m = [] then ''restore v'' @ Itoa n else m)"
  note ins = insertDashboardVersion_ok [OF t assms(5,4) js(2), of a msg]
  let ?t1 = "snd (insertDashboardVersion J (d_ID d) p a msg t)"
  have "ds_fail ?t1 = None" "d_ID d \<in> set (dash_ids ?t1)" using ins assms(4,5) by (simp_all add: dash_ids_def)
  from Get_mirror [OF this js(4), of "d_Name d"] obtain d' t' where
    m: "mirror J (d_ID d) (Some (d_Name d)) (Some bs) ?t1 = (Ok (), t')" and
    g: "dashboards_Get J (d_ID d) t' = Ok d'" "d_Name d' = d_Name d" "d_Tiles d' = d_Tiles d" using js(5) by auto
  have "restoreDashboardVersion E J i x b t = ((200, Inr (DRestored (d_ID d) n (int (length (versions_of (d_ID d) t)) + 1) msg)), t')"
    using e(2) assms(7) fv v(4,5) js(3) ins m
    by (cases "m = []") (simp_all add: restoreDashboardVersion_def with_version_def b Let_def msg_def)
  with g show ?thesis by blast
qed

section \<open>Examples\<close>

text \<open>A workspace with one customer; the JSON library writes and reads one name and one tile.\<close>

definition example_tile :: tile where
  "example_tile = \<lparr>tl_ID = ''t'', tl_Title = ''Revenue'', tl_ChartType = ''line'', tl_SemanticRef = [], tl_SQL = ''SELECT 1'',
     tl_X = 0, tl_Y = 0, tl_W = 6, tl_H = 4, tl_Config = []\<rparr>"

definition example_dashboard :: dashboard where
  "example_dashboard = \<lparr>d_ID = 1, d_CustomerID = 1, d_Name = ''Sales'', d_Tiles = [example_tile], d_IsPublic = False\<rparr>"

definition example_dash_json :: dash_json where
  "example_dash_json = \<lparr>dj_tiles = (\<lambda>_. ''[]''), dj_read = (\<lambda>_. [example_tile]), dj_jsonb = Some, dj_payload = (\<lambda>_. (Some ''Sales'', Some ''[]'')),
     dj_edit = (\<lambda>_ _. ''{}''), dj_dashboard = (\<lambda>_. ''{}''), dj_parse = (\<lambda>_. Ok example_dashboard), dj_uuid = (\<lambda>_. ''u'')\<rparr>"

definition example_workspace :: dash where
  "example_workspace = no_dashboards ((empty_db 5)\<lparr>customers := [\<lparr>c_ID = 1, c_Slug = ''acme'', c_DisplayName = ''Acme'', c_CreatedAt = 0\<rparr>]\<rparr>) 1"

definition example_dash :: dash where
  "example_dash = snd (dashboards_Create example_dash_json example_dashboard example_workspace)"

lemmas example_dash_defs = example_dash_def example_workspace_def example_dash_json_def example_dashboard_def example_tile_def no_dashboards_def
  empty_db_def customer_exists_def dashboards_Create_def

lemma example_dash_row: "example_dash = no_dashboards (ds_db example_workspace) 2 \<lparr>ds_dashboards :=
    [\<lparr>dw_ID = 1, dw_CustomerID = 1, dw_Name = ''Sales'', dw_Tiles = ''[]'', dw_IsPublic = False, dw_UpdatedAt = 5\<rparr>]\<rparr>"
  by (simp add: example_dash_defs)

lemma example_dash_steps: "dash_steps example_dash_json (example_workspace, []) (example_dash, [])"
  unfolding example_dash_def by (blast intro: dash_step.create)

lemma example_dash_ok: "dash_ok (example_dash, [])"
  using dash_ok_steps [OF example_dash_steps] dash_ok_initial by (simp add: example_workspace_def)

text \<open>Two requests read the same next number; the second insert fails.\<close>

theorem version_history_grows_witness:
  "\<exists>t. dash_steps example_dash_json (example_dash, []) (t, []) \<and> map vr_Version (versions_of 1 t) = [1..1] \<and> length (versions_of 1 t) = 1"
proof -
  let ?J = example_dash_json and ?p = "\<lambda>a. read_version 1 ''{}'' a ''m'' example_dash"
  let ?t = "snd (write_version ?J (?p ''b'') example_dash)"
  let ?u = "snd (write_version ?J (?p ''a'') ?t)"
  have "?p ''a'' \<noteq> ?p ''b''" by (simp add: read_version_def)
  then have "dash_step ?J (example_dash, [?p ''b'', ?p ''a'']) (?t, [?p ''a''])" "dash_step ?J (?t, [?p ''a'']) (?u, [])"
    using dash_step.append [of "?p ''b''" "[?p ''b'', ?p ''a'']" ?J example_dash] dash_step.append [of "?p ''a''" "[?p ''a'']" ?J ?t] by simp_all
  moreover have "dash_step ?J (example_dash, []) (example_dash, [?p ''a''])" "dash_step ?J (example_dash, [?p ''a'']) (example_dash, [?p ''b'', ?p ''a''])"
    by (rule dash_step.number)+
  ultimately have steps: "dash_steps ?J (example_dash, []) (?u, [])" by (meson converse_rtranclp_into_rtranclp rtranclp.rtrancl_refl)
  have v: "versions_of 1 (snd (write_version ?J (?p ''a'') ?t)) =
      [\<lparr>vr_DashboardID = 1, vr_Version = 1, vr_Payload = ''{}'', vr_Author = Some ''b'', vr_Message = Some ''m'', vr_CreatedAt = 5\<rparr>]"
    by (simp add: versions_of_def write_version_def read_version_def next_version_def example_dash_row no_dashboards_def example_workspace_def
        empty_db_def example_dash_json_def null_if_empty_def)
  have id: "1 \<in> set (dash_ids example_dash)" by (simp add: example_dash_row dash_ids_def no_dashboards_def)
  then have "1 \<in> set (dash_ids ?u)" by simp
  note id this
  from version_history_grows [OF example_dash_steps [unfolded example_workspace_def] steps this] v steps show ?thesis
    by (intro exI [of _ "snd (write_version ?J (?p ''a'') ?t)"]) simp
qed

text \<open>A link of a minute is visited in time, after its end, and after its revocation.\<close>

definition example_token :: string where
  "example_token = hexEncode ''ab''"

lemma example_share:
  "\<exists>s'. createDashboardShare example_api_env example_dash_json 5 6 (Ok ''ab'') ''u'' (60, False) example_dash =
     ((201, Inr (DShare example_token 1 False (Some (6 + 60 * second)))), s') \<and> ds_db s' = ds_db example_workspace \<and> share_tokens s' = [example_token] \<and>
     ds_dashboards s' = ds_dashboards example_dash \<and> \<not> revoked example_token s'"
proof -
  have "duration 60 second = 60 * second" by (rule duration_exact) (simp_all add: second_def)
  moreover have "0 < 60 * second" by (simp add: second_def)
  ultimately show ?thesis
    by (simp add: createDashboardShare_def parseUUID_def example_api_env_def dashboards_Get_def Mint_def example_dash_row no_dashboards_def
        example_workspace_def empty_db_def customer_exists_def dashboard_of_def share_tokens_def revoked_def Let_def example_token_def)
qed

theorem share_link_lifetime_witness:
  "\<exists>s'. fst (publicDashboard example_dash_json example_token s') = 200"
proof -
  from example_share obtain s' where s': "createDashboardShare example_api_env example_dash_json 5 6 (Ok ''ab'') ''u'' (60, False) example_dash =
     ((201, Inr (DShare example_token 1 False (Some (6 + 60 * second)))), s')" "ds_db s' = ds_db example_workspace"
     "ds_dashboards s' = ds_dashboards example_dash" "\<not> revoked example_token s'" by blast
  have d: "duration 60 second = 60 * second" by (rule duration_exact) (simp_all add: second_def)
  have up: "ds_fail s' = None" "ds_now s' = 5" using s'(2) by (simp_all add: example_workspace_def no_dashboards_def empty_db_def)
  from share_link_lifetime [OF example_dash_ok s'(1) _ rtranclp.rtrancl_refl up(1) refl refl] s'(3,4) up(2) d
  have "fst (publicDashboard example_dash_json example_token s') = 200"
    by (simp add: second_def example_dash_row no_dashboards_def)
  then show ?thesis by blast
qed

theorem revocation_final_witness:
  "\<exists>t. revoked example_token t \<and> fst (publicDashboard example_dash_json example_token t) \<noteq> 200"
proof -
  from example_share obtain s' where s': "createDashboardShare example_api_env example_dash_json 5 6 (Ok ''ab'') ''u'' (60, False) example_dash =
     ((201, Inr (DShare example_token 1 False (Some (6 + 60 * second)))), s')" "ds_db s' = ds_db example_workspace" "share_tokens s' = [example_token]" by blast
  have ok: "dash_ok (s', [])" using dash_ok_steps [OF handler_steps(2) example_dash_ok] s'(1) by (metis snd_conv)
  have "example_token \<noteq> []" by (simp add: example_token_def hexEncode_eq_Nil)
  then have "revokeDashboardShare example_token s' = ((204, Inr DNone), snd (share_Revoke example_token s'))"
    using s'(2) by (simp add: revokeDashboardShare_def share_Revoke_def Let_def example_workspace_def no_dashboards_def empty_db_def)
  from revocation_final [OF ok this _ rtranclp.rtrancl_refl] s'(3) show ?thesis by auto
qed

lemma example_edit:
  "\<exists>s1. dashboardAIEdit example_api_env example_dash_json (\<lambda>_ _. Ok ''{}'') ''m'' login_request ''u'' (Ok ''rename'')
     (Some \<lparr>AICallsPerCustomer = 0, rw_provider = True, rw_callCount = (\<lambda>_. 0)\<rparr>) example_dash =
     (((200, Inr (DEdited example_dashboard 1)), s1), Some \<lparr>AICallsPerCustomer = 0, rw_provider = True, rw_callCount = (\<lambda>_. 0)\<rparr>) \<and>
     dash_ids s1 = [1] \<and> ds_db s1 = ds_db example_workspace \<and> length (versions_of 1 s1) = 1"
  by (simp add: dashboardAIEdit_def parseUUID_def example_api_env_def login_request_def dashboards_Get_def example_dash_row no_dashboards_def
      example_workspace_def empty_db_def dashboard_of_def TrimSpace_def Trim_def TrimLeft_def TrimRight_def is_space_def CompleteOne_def takeBudget_def
      parseDashboardEdit_def strip_fences_def TrimPrefix_def TrimSuffix_def HasPrefix_def HasSuffix_def example_dash_json_def example_dashboard_def
      example_tile_def persist_edit_def insertDashboardVersion_def write_version_def read_version_def next_version_def mirror_def dash_ids_def versions_of_def Let_def)

theorem edit_restore_roundtrip_witness:
  "\<exists>t msg t'. restoreDashboardVersion example_api_env example_dash_json ''u'' ''1'' ([], []) t = ((200, Inr (DRestored 1 1 2 msg)), t')"
proof -
  from example_edit obtain s1 where e: "dashboardAIEdit example_api_env example_dash_json (\<lambda>_ _. Ok ''{}'') ''m'' login_request ''u'' (Ok ''rename'')
     (Some \<lparr>AICallsPerCustomer = 0, rw_provider = True, rw_callCount = (\<lambda>_. 0)\<rparr>) example_dash =
     (((200, Inr (DEdited example_dashboard 1)), s1), Some \<lparr>AICallsPerCustomer = 0, rw_provider = True, rw_callCount = (\<lambda>_. 0)\<rparr>)"
     "dash_ids s1 = [1]" "ds_db s1 = ds_db example_workspace" "length (versions_of 1 s1) = 1" by blast
  have "d_ID example_dashboard \<in> set (dash_ids s1)" "ds_fail s1 = None"
    using e(2,3) by (simp_all add: example_dashboard_def example_workspace_def no_dashboards_def empty_db_def)
  moreover have "json_keeps example_dash_json (d_Name example_dashboard) (d_Tiles example_dashboard)"
    by (simp add: json_keeps_def example_dash_json_def example_dashboard_def)
  moreover have "version_param ''1'' = Some 1" by (simp add: version_param_def Atoi_def Let_def)
  ultimately show ?thesis
    using edit_restore_roundtrip [OF example_dash_ok e(1) rtranclp.rtrancl_refl, of "''1''" "([], [])"] e(4)
    by (simp add: example_dashboard_def) blast
qed

end
