(* ===== verification/Scheduler.thy ===== *)
theory Scheduler
  imports Sync Api_Reply Api_Server
begin

text \<open>
  Saved and scheduled queries: \<^verbatim>\<open>internal/savedqueries\<close> with its handlers in \<^verbatim>\<open>api/phase6_handlers.go\<close>,
  \<^verbatim>\<open>api/scheduled_queries.go\<close>, and the runner of \<^verbatim>\<open>internal/scheduler\<close>; and the two handlers that
  write the tables of the sync service, \<^verbatim>\<open>api/sync_replay.go\<close> and \<^verbatim>\<open>api/promote.go\<close>.

  What happens around one run of the runner (the clock at each statement, whether the statement fails, whether the context
  is cancelled during the pause) is an argument, so every outcome is covered.
\<close>

section \<open>Parameters of a query\<close>

definition name_start :: "char \<Rightarrow> bool" where
  "name_start c \<longleftrightarrow> (let n = of_char c :: nat in (65 \<le> n \<and> n \<le> 90) \<or> (97 \<le> n \<and> n \<le> 122) \<or> n = 95)"

definition name_char :: "char \<Rightarrow> bool" where
  "name_char c \<longleftrightarrow> name_start c \<or> (let n = of_char c :: nat in 48 \<le> n \<and> n \<le> 57)"

text \<open>A match of \<^verbatim>\<open>paramRE\<close> at the start of a string: the name and the rest.\<close>

definition param_at :: "string \<Rightarrow> (string \<times> string) option" where
  "param_at s =
     (if HasPrefix s ''${'' then
        (let name = takeWhile name_char (drop 2 s); r = dropWhile name_char (drop 2 s) in
         if name \<noteq> [] \<and> name_start (hd name) \<and> r \<noteq> [] \<and> hd r = CHR ''}'' then Some (name, tl r) else None)
      else None)"

definition placeholder :: "string \<Rightarrow> string" where
  "placeholder name = ''${'' @ name @ ''}''"

lemma param_at_shorter: "param_at s = Some (name, r) \<Longrightarrow> length r < length s"
proof -
  assume a: "param_at s = Some (name, r)"
  then have "r = tl (dropWhile name_char (drop 2 s))" "HasPrefix s ''${''"
    by (auto simp: param_at_def Let_def split: if_splits)
  moreover have "length (dropWhile name_char (drop 2 s)) \<le> length (drop 2 s)" by (rule length_dropWhile_le)
  ultimately show ?thesis by (auto simp: HasPrefix_iff)
qed

function SubstituteParams :: "string \<Rightarrow> (string \<Rightarrow> string option) \<Rightarrow> string" where
  "SubstituteParams sql params =
     (case param_at sql of
        Some (name, r) \<Rightarrow> (case params name of Some v \<Rightarrow> v | None \<Rightarrow> placeholder name) @ SubstituteParams r params
      | None \<Rightarrow> (case sql of [] \<Rightarrow> [] | c # cs \<Rightarrow> c # SubstituteParams cs params))"
  by pat_completeness auto
termination
  by (relation "measure (\<lambda>(sql, _). length sql)") (auto dest: param_at_shorter)

declare SubstituteParams.simps [simp del]

section \<open>State\<close>

text \<open>The parameters of a saved query are kept as JSON text.\<close>

record saved_query =
  vq_ID :: uuid
  vq_CustomerID :: uuid
  vq_UserID :: "uuid option"
  vq_Name :: string
  vq_Description :: "string option"
  vq_SQL :: string
  vq_Params :: bytes
  vq_Favorite :: bool
  vq_LastRunAt :: "int option"
  vq_UpdatedAt :: int

record scheduled_query =
  sq_ID :: uuid
  sq_CustomerID :: uuid
  sq_Name :: string
  sq_SQL :: string
  sq_ScheduleCron :: string
  sq_TargetTable :: "string option"
  sq_Enabled :: bool
  sq_LastRunAt :: "int option"
  sq_LastRunStatus :: "string option"
  sq_CreatedAt :: int
  sq_NextRunAt :: int

record query_run =
  qn_ID :: uuid
  qn_QueryID :: uuid
  qn_StartedAt :: int
  qn_FinishedAt :: "int option"
  qn_Status :: string
  qn_RowsReturned :: "int option"

record jobs =
  jb_db :: db
  jb_saved :: "saved_query list"
  jb_queries :: "scheduled_query list"
  jb_runs :: "query_run list"
  jb_next :: uuid

abbreviation jb_fail :: "jobs \<Rightarrow> go_error option" where
  "jb_fail s \<equiv> db_fail (jb_db s)"

abbreviation jb_now :: "jobs \<Rightarrow> int" where
  "jb_now s \<equiv> db_now (jb_db s)"

definition jb_customer :: "uuid \<Rightarrow> jobs \<Rightarrow> bool" where
  "jb_customer cid s \<longleftrightarrow> cid \<in> c_ID ` set (customers (jb_db s))"

datatype job_body =
    JNone
  | JID uuid
  | JSQL string
  | JSaved "saved_query list"
  | JScheduled "scheduled_query list"

type_synonym job_reply = "job_body reply"

section \<open>Saved queries\<close>

text \<open>The unique key is customer, user and name; rows without a user are never equal in it.\<close>

definition saved_conflict :: "saved_query \<Rightarrow> saved_query \<Rightarrow> bool" where
  "saved_conflict q x \<longleftrightarrow> vq_CustomerID x = vq_CustomerID q \<and> vq_UserID x = vq_UserID q \<and> vq_UserID q \<noteq> None \<and> vq_Name x = vq_Name q"

definition saved_Upsert :: "saved_query \<Rightarrow> jobs \<Rightarrow> uuid go \<times> jobs" where
  "saved_Upsert q s =
     (case jb_fail s of
        Some e \<Rightarrow> (Err e, s)
      | None \<Rightarrow>
          if \<not> jb_customer (vq_CustomerID q) s then (Err constraint_violation, s)
          else (case find (saved_conflict q) (jb_saved s) of
                  Some x \<Rightarrow>
                    (Ok (vq_ID x), s\<lparr>jb_saved := map (\<lambda>y. if saved_conflict q y
                       then y\<lparr>vq_Description := vq_Description q, vq_SQL := vq_SQL q, vq_Params := vq_Params q, vq_Favorite := vq_Favorite q, vq_UpdatedAt := jb_now s\<rparr>
                       else y) (jb_saved s)\<rparr>)
                | None \<Rightarrow>
                    (Ok (jb_next s), s\<lparr>jb_saved := jb_saved s @ [q\<lparr>vq_ID := jb_next s, vq_LastRunAt := None, vq_UpdatedAt := jb_now s\<rparr>],
                                       jb_next := jb_next s + 1\<rparr>)))"

definition saved_List :: "uuid \<Rightarrow> bool \<Rightarrow> jobs \<Rightarrow> saved_query list go" where
  "saved_List cid favoritesOnly s =
     (case jb_fail s of
        Some e \<Rightarrow> Err e
      | None \<Rightarrow> Ok (take 200 (sort_key (\<lambda>q. if vq_Favorite q then 0 else 1 :: nat) (sort_key (\<lambda>q. - vq_UpdatedAt q)
                   (filter (\<lambda>q. vq_CustomerID q = cid \<and> (favoritesOnly \<longrightarrow> vq_Favorite q)) (jb_saved s))))))"

definition saved_Delete :: "uuid \<Rightarrow> jobs \<Rightarrow> unit go \<times> jobs" where
  "saved_Delete i s =
     (case jb_fail s of Some e \<Rightarrow> (Err e, s) | None \<Rightarrow> (Ok (), s\<lparr>jb_saved := filter (\<lambda>q. vq_ID q \<noteq> i) (jb_saved s)\<rparr>))"

definition saved_MarkRun :: "uuid \<Rightarrow> jobs \<Rightarrow> unit go \<times> jobs" where
  "saved_MarkRun i s =
     (case jb_fail s of
        Some e \<Rightarrow> (Err e, s)
      | None \<Rightarrow> (Ok (), s\<lparr>jb_saved := map (\<lambda>q. if vq_ID q = i then q\<lparr>vq_LastRunAt := Some (jb_now s)\<rparr> else q) (jb_saved s)\<rparr>))"

definition listSavedQueries :: "http_request \<Rightarrow> jobs \<Rightarrow> job_reply \<times> jobs" where
  "listSavedQueries r s =
     or_fail (activeCustomer r (jb_db s)) 400 s (\<lambda>cid.
       or_fail (saved_List cid (rq_Query r ''favorite'' = ''true'') s) 500 s (\<lambda>out. reply_ok 200 s (JSaved out)))"

definition upsertSavedQuery :: "http_request \<Rightarrow> saved_query go \<Rightarrow> jobs \<Rightarrow> job_reply \<times> jobs" where
  "upsertSavedQuery r body s =
     or_fail (activeCustomer r (jb_db s)) 400 s (\<lambda>cid. or_fail body 400 s (\<lambda>q.
       let (x, s') = saved_Upsert (q\<lparr>vq_CustomerID := cid\<rparr>) s in or_fail x 500 s' (\<lambda>i. reply_ok 201 s' (JID i))))"

definition deleteSavedQuery :: "api_env \<Rightarrow> string \<Rightarrow> jobs \<Rightarrow> job_reply \<times> jobs" where
  "deleteSavedQuery E i s =
     or_fail (parseUUID E ''id'' i) 400 s (\<lambda>u. let (x, s') = saved_Delete u s in or_fail x 500 s' (\<lambda>_. reply_ok 204 s' JNone))"

definition runSavedQuery :: "api_env \<Rightarrow> string \<Rightarrow> (string \<Rightarrow> string option) go \<Rightarrow> jobs \<Rightarrow> job_reply \<times> jobs" where
  "runSavedQuery E i body s =
     or_fail (parseUUID E ''id'' i) 400 s (\<lambda>u. or_fail body 400 s (\<lambda>params.
       case jb_fail s of
         Some e \<Rightarrow> reply_err 404 s e
       | None \<Rightarrow>
           (case find (\<lambda>q. vq_ID q = u) (jb_saved s) of
              None \<Rightarrow> reply_err 404 s (Errorf ''no rows in result set'')
            | Some q \<Rightarrow> reply_ok 200 s (JSQL (SubstituteParams (vq_SQL q) params)))))"

section \<open>Scheduled queries\<close>

record schedule_body =
  sb_Customer :: uuid
  sb_Name :: string
  sb_Query :: string
  sb_Cron :: string
  sb_Target :: "string option"

text \<open>A new row is due at once: \<^verbatim>\<open>next_run_at\<close> defaults to now, and the schedule is not looked at.\<close>

definition createScheduledQuery :: "schedule_body go \<Rightarrow> jobs \<Rightarrow> job_reply \<times> jobs" where
  "createScheduledQuery body s =
     or_fail body 400 s (\<lambda>b.
       if sb_Customer b = 0 \<or> sb_Name b = [] \<or> sb_Query b = [] \<or> sb_Cron b = []
       then reply_err 400 s (Errorf ''customer_id, name, sql, schedule_cron required'')
       else (case jb_fail s of
               Some e \<Rightarrow> reply_err 500 s e
             | None \<Rightarrow>
                 if \<not> jb_customer (sb_Customer b) s then reply_err 500 s constraint_violation
                 else reply_ok 201
                   (s\<lparr>jb_queries := jb_queries s @ [\<lparr>sq_ID = jb_next s, sq_CustomerID = sb_Customer b, sq_Name = sb_Name b, sq_SQL = sb_Query b,
                         sq_ScheduleCron = sb_Cron b, sq_TargetTable = sb_Target b, sq_Enabled = True, sq_LastRunAt = None, sq_LastRunStatus = None,
                         sq_CreatedAt = jb_now s, sq_NextRunAt = jb_now s\<rparr>],
                      jb_next := jb_next s + 1\<rparr>) (JID (jb_next s))))"

definition listScheduledQueries :: "api_env \<Rightarrow> string \<Rightarrow> jobs \<Rightarrow> job_reply \<times> jobs" where
  "listScheduledQueries E i s =
     or_fail (parseUUID E ''id'' i) 400 s (\<lambda>cid.
       case jb_fail s of
         Some e \<Rightarrow> reply_err 500 s e
       | None \<Rightarrow> reply_ok 200 s (JScheduled (take 200 (sort_key (\<lambda>q. - sq_CreatedAt q) (filter (\<lambda>q. sq_CustomerID q = cid) (jb_queries s))))))"

text \<open>The runs of a query are deleted with it.\<close>

definition deleteScheduledQuery :: "api_env \<Rightarrow> string \<Rightarrow> jobs \<Rightarrow> job_reply \<times> jobs" where
  "deleteScheduledQuery E i s =
     or_fail (parseUUID E ''id'' i) 400 s (\<lambda>u.
       case jb_fail s of
         Some e \<Rightarrow> reply_err 500 s e
       | None \<Rightarrow> reply_ok 204 (s\<lparr>jb_queries := filter (\<lambda>q. sq_ID q \<noteq> u) (jb_queries s), jb_runs := filter (\<lambda>r. qn_QueryID r \<noteq> u) (jb_runs s)\<rparr>) JNone)"

section \<open>The runner\<close>

text \<open>Around one run: the failure of each statement with the clock at that statement, and whether the context ends during the pause.\<close>

record run_env =
  rn_insert :: "go_error option"
  rn_started :: int
  rn_cancelled :: bool
  rn_finish :: "go_error option"
  rn_finished :: int
  rn_advance :: "go_error option"
  rn_advanced :: int

definition insert_run :: "int \<Rightarrow> uuid \<Rightarrow> jobs \<Rightarrow> jobs" where
  "insert_run now i s =
     s\<lparr>jb_runs := jb_runs s @ [\<lparr>qn_ID = jb_next s, qn_QueryID = i, qn_StartedAt = now, qn_FinishedAt = None, qn_Status = ''running'', qn_RowsReturned = None\<rparr>],
       jb_next := jb_next s + 1\<rparr>"

definition finish_run :: "int \<Rightarrow> uuid \<Rightarrow> jobs \<Rightarrow> jobs" where
  "finish_run now run s =
     s\<lparr>jb_runs := map (\<lambda>r. if qn_ID r = run then r\<lparr>qn_FinishedAt := Some now, qn_Status := ''success'', qn_RowsReturned := Some 0\<rparr> else r) (jb_runs s)\<rparr>"

definition advance_query :: "int \<Rightarrow> uuid \<Rightarrow> jobs \<Rightarrow> jobs" where
  "advance_query now i s =
     s\<lparr>jb_queries := map (\<lambda>q. if sq_ID q = i
         then q\<lparr>sq_LastRunAt := Some now, sq_LastRunStatus := Some ''success'', sq_NextRunAt := now + hour\<rparr> else q) (jb_queries s)\<rparr>"

definition runOne :: "run_env \<Rightarrow> uuid \<Rightarrow> jobs \<Rightarrow> jobs" where
  "runOne e i s =
     (if rn_insert e \<noteq> None \<or> i \<notin> sq_ID ` set (jb_queries s) then s
      else (let run = jb_next s; s1 = insert_run (rn_started e) i s in
            if rn_cancelled e then s1
            else if rn_finish e \<noteq> None then s1
            else (let s2 = finish_run (rn_finished e) run s1 in
                  if rn_advance e \<noteq> None then s2 else advance_query (rn_advanced e) i s2)))"

definition due_rows :: "int \<Rightarrow> jobs \<Rightarrow> scheduled_query list" where
  "due_rows now s = take 100 (sort_key sq_NextRunAt (filter (\<lambda>q. sq_Enabled q \<and> sq_NextRunAt q \<le> now) (jb_queries s)))"

text \<open>\<open>fail\<close> is the error of the query for the due rows, \<open>W k\<close> what is around the run of the k-th of them.\<close>

definition Tick :: "go_error option \<Rightarrow> int \<Rightarrow> (nat \<Rightarrow> run_env) \<Rightarrow> jobs \<Rightarrow> unit go \<times> jobs" where
  "Tick fail now W s =
     (case fail of
        Some e \<Rightarrow> (Err e, s)
      | None \<Rightarrow> (Ok (), fold (\<lambda>(k, d) s. runOne (W k) (sq_ID d) s) (enumerate 0 (due_rows now s)) s))"

section \<open>Replaying a sync\<close>

definition hintsTemporal :: "string \<Rightarrow> bool" where
  "hintsTemporal col =
     (let c = ToLower col in
      Contains c ''date'' \<or> Contains c ''time'' \<or> HasSuffix c ''_at'' \<or> HasSuffix c ''_ts'' \<or> c = ''ts'')"

datatype sync_body = Replayed uuid string string | Promoted uuid string string

text \<open>The audit row that follows is best effort and is not modelled.\<close>

definition syncReplay :: "api_env \<Rightarrow> string \<Rightarrow> string go \<Rightarrow> db \<Rightarrow> sync_body reply \<times> db" where
  "syncReplay E i body d =
     or_fail (parseUUID E ''id'' i) 400 d (\<lambda>u. or_fail body 400 d (\<lambda>raw.
       let wm = TrimSpace raw in
       if wm = [] then reply_err 400 d (Errorf ''from_watermark required'')
       else (case db_fail d of
               Some e \<Rightarrow> reply_err 500 d e
             | None \<Rightarrow>
                 (case find (\<lambda>t. t_ID t = u) (synced_tables d) of
                    None \<Rightarrow> reply_err 404 d (Errorf ''synced table not found'')
                  | Some t \<Rightarrow>
                      if t_WatermarkColumn t = None \<or> t_WatermarkColumn t = Some []
                      then reply_err 400 d (Errorf ''table has no watermark column; replay not applicable'')
                      else if hintsTemporal (the (t_WatermarkColumn t)) \<and> time_Parse RFC3339 wm = None \<and> time_Parse date_items wm = None
                      then reply_err 400 d (Errorf (''from_watermark must be RFC3339 or YYYY-MM-DD for column '' @ Quote (the (t_WatermarkColumn t))))
                      else reply_ok 200
                        (d\<lparr>synced_tables := map (\<lambda>x. if t_ID x = u then x\<lparr>t_LastWatermark := Some wm, t_State := ''pending'', t_LastError := None\<rparr> else x)
                             (synced_tables d)\<rparr>) (Replayed u wm ''pending'')))))"

section \<open>Promoting a query\<close>

record promote_body =
  pb_CustomerID :: uuid
  pb_ConnectionID :: uuid
  pb_SQL :: string
  pb_TargetSchema :: string
  pb_TargetTable :: string

text \<open>The column \<^verbatim>\<open>source_query\<close> is beside the table, by the id of its row.\<close>

definition workbenchPromote :: "promote_body go \<Rightarrow> db \<times> (uuid \<rightharpoonup> string) \<Rightarrow> sync_body reply \<times> db \<times> (uuid \<rightharpoonup> string)" where
  "workbenchPromote body st =
     (let (d, src) = st in
      or_fail body 400 st (\<lambda>b.
        let sql = TrimSpace (pb_SQL b); schema = TrimSpace (pb_TargetSchema b); table = TrimSpace (pb_TargetTable b) in
        if sql = [] \<or> schema = [] \<or> table = [] \<or> pb_CustomerID b = 0 \<or> pb_ConnectionID b = 0
        then reply_err 400 st (Errorf ''customer_id, connection_id, sql, target_schema, target_table required'')
        else (case db_fail d of
                Some e \<Rightarrow> reply_err 404 st (ErrorfW (''connection not found: '' @ Error e) e)
              | None \<Rightarrow>
                  (case find (\<lambda>c. cn_ID c = pb_ConnectionID b) (connections d) of
                     None \<Rightarrow> reply_err 404 st (Errorf ''connection not found: no rows in result set'')
                   | Some c \<Rightarrow>
                       if cn_CustomerID c \<noteq> pb_CustomerID b then reply_err 403 st (Errorf ''connection does not belong to customer'')
                       else (let cleanSQL = TrimRight sql ([CHR '';'', CHR '' ''] @ [CHR 0x09, CHR 0x0D, CHR 0x0A]);
                                 ctas = ''CREATE TABLE '' @ Quote schema @ ''.'' @ Quote table @ '' AS '' @ cleanSQL;
                                 same = (\<lambda>x. t_ConnectionID x = pb_ConnectionID b \<and> t_SchemaName x = schema \<and> t_TableName x = table)
                             in case find same (synced_tables d) of
                                  Some x \<Rightarrow>
                                    reply_ok 201
                                      (d\<lparr>synced_tables := map (\<lambda>y. if same y then y\<lparr>t_SyncMode := ''watermark'', t_State := ''pending''\<rparr> else y) (synced_tables d)\<rparr>,
                                       src(t_ID x \<mapsto> cleanSQL)) (Promoted (t_ID x) ctas ''pending'')
                                | None \<Rightarrow>
                                    reply_ok 201
                                      (d\<lparr>synced_tables := synced_tables d @ [\<lparr>t_ID = db_next d, t_ConnectionID = pb_ConnectionID b, t_SchemaName = schema,
                                            t_TableName = table, t_SyncMode = ''watermark'', t_WatermarkColumn = None, t_LastSyncAt = None, t_LastSnapshotID = None,
                                            t_LastWatermark = None, t_IcebergPath = None, t_RowCount = 0, t_State = ''pending'', t_LastError = None\<rparr>],
                                         db_next := db_next d + 1\<rparr>,
                                       src(db_next d \<mapsto> cleanSQL)) (Promoted (db_next d) ctas ''pending''))))))"

section \<open>Templates\<close>

text \<open>A template is made of plain text and parameters.\<close>

datatype segment = Text string | Param string

fun render :: "segment \<Rightarrow> string" where
  "render (Text t) = t"
| "render (Param name) = placeholder name"

fun fill :: "(string \<Rightarrow> string option) \<Rightarrow> segment \<Rightarrow> string" where
  "fill params (Text t) = t"
| "fill params (Param name) = (case params name of Some v \<Rightarrow> v | None \<Rightarrow> placeholder name)"

fun well_formed :: "segment \<Rightarrow> bool" where
  "well_formed (Text t) \<longleftrightarrow> CHR ''$'' \<notin> set t"
| "well_formed (Param name) \<longleftrightarrow> name \<noteq> [] \<and> name_start (hd name) \<and> list_all name_char name"

lemma param_at_placeholder:
  assumes "well_formed (Param name)"
  shows "param_at (placeholder name @ r) = Some (name, r)"
proof -
  have stop: "\<not> name_char (CHR ''}'')" by (simp add: name_char_def name_start_def)
  have "takeWhile name_char (name @ CHR ''}'' # r) = name" "dropWhile name_char (name @ CHR ''}'' # r) = CHR ''}'' # r"
    using assms stop by (auto simp: list_all_iff takeWhile_append dropWhile_append)
  then show ?thesis using assms by (simp add: param_at_def placeholder_def HasPrefix_def)
qed

lemma param_at_text: "c \<noteq> CHR ''$'' \<Longrightarrow> param_at (c # s) = None"
  by (simp add: param_at_def HasPrefix_def)

lemma SubstituteParams_Nil: "SubstituteParams [] params = []"
  by (subst SubstituteParams.simps) (simp add: param_at_def HasPrefix_def)

lemma SubstituteParams_text: "CHR ''$'' \<notin> set t \<Longrightarrow> SubstituteParams (t @ r) params = t @ SubstituteParams r params"
proof (induction t)
  case (Cons c t)
  then show ?case by (subst SubstituteParams.simps) (auto simp: param_at_text)
qed simp

lemma SubstituteParams_placeholder:
  "well_formed (Param name) \<Longrightarrow> SubstituteParams (placeholder name @ r) params = fill params (Param name) @ SubstituteParams r params"
  by (subst SubstituteParams.simps) (simp add: param_at_placeholder)

text \<open>
  Substitution is segment by segment: a template is filled by putting the given value, verbatim and once, in the place of
  each parameter that has one; text and parameters without a value stay as they are. A value that itself looks like a
  parameter is not expanded again, whatever follows it.
\<close>

theorem SubstituteParams_fills:
  assumes "\<forall>g \<in> set gs. well_formed g"
  shows "SubstituteParams (concat (map render gs)) params = concat (map (fill params) gs)"
  using assms
proof (induction gs)
  case (Cons g gs)
  then show ?case
    by (cases g) (simp_all add: SubstituteParams_text SubstituteParams_placeholder del: fill.simps(2) well_formed.simps(2))
qed (simp add: SubstituteParams_Nil)

theorem SubstituteParams_fills_witness:
  "SubstituteParams ''SELECT ${a}, ${b} FROM t'' [''a'' \<mapsto> ''${b}''] = ''SELECT ${b}, ${b} FROM t''"
proof -
  let ?gs = "[Text ''SELECT '', Param ''a'', Text '', '', Param ''b'', Text '' FROM t'']"
  have "\<forall>g \<in> set ?gs. well_formed g" by (simp add: name_start_def name_char_def)
  from SubstituteParams_fills [OF this, of "[''a'' \<mapsto> ''${b}'']"] show ?thesis by (simp add: placeholder_def)
qed

section \<open>No query is forgotten\<close>

definition runs_of :: "uuid \<Rightarrow> jobs \<Rightarrow> nat" where
  "runs_of i s = length (filter (\<lambda>r. qn_QueryID r = i) (jb_runs s))"

text \<open>The rows that are at least as late as a given time.\<close>

definition overdue :: "int \<Rightarrow> jobs \<Rightarrow> nat" where
  "overdue n s = length (filter (\<lambda>p. sq_Enabled p \<and> sq_NextRunAt p \<le> n) (jb_queries s))"

text \<open>An undisturbed run: no statement fails, no cancellation, and its end is not before \<open>t\<close>.\<close>

definition calm :: "int \<Rightarrow> run_env \<Rightarrow> bool" where
  "calm t e \<longleftrightarrow> rn_insert e = None \<and> \<not> rn_cancelled e \<and> rn_finish e = None \<and> rn_advance e = None \<and> t \<le> rn_advanced e"

definition job_ids :: "jobs \<Rightarrow> uuid list" where
  "job_ids s = map sq_ID (jb_queries s)"

lemma runOne_calm:
  assumes "calm t e" and "i \<in> set (job_ids s)"
  shows "jb_queries (runOne e i s) = jb_queries (advance_query (rn_advanced e) i s) \<and> runs_of j (runOne e i s) = runs_of j s + (if j = i then 1 else 0)"
proof -
  have "length (filter (\<lambda>r. qn_QueryID r = j) (map (\<lambda>r. if qn_ID r = run then r\<lparr>qn_FinishedAt := a, qn_Status := b, qn_RowsReturned := c\<rparr> else r) rs))
      = length (filter (\<lambda>r. qn_QueryID r = j) rs)" for run a b c and rs :: "query_run list"
    by (induction rs) auto
  with assms show ?thesis
    by (simp add: runOne_def calm_def job_ids_def Let_def runs_of_def insert_run_def finish_run_def advance_query_def)
qed

text \<open>What a series of undisturbed runs makes of the rows and the run history.\<close>

definition moved :: "int \<Rightarrow> uuid set \<Rightarrow> (scheduled_query \<Rightarrow> scheduled_query) \<Rightarrow> bool" where
  "moved t is f \<longleftrightarrow> (\<forall>p. sq_ID (f p) = sq_ID p \<and> sq_Enabled (f p) = sq_Enabled p \<and> (sq_ID p \<notin> is \<longrightarrow> f p = p) \<and>
     (sq_ID p \<in> is \<longrightarrow> t + hour \<le> sq_NextRunAt (f p) \<and> sq_LastRunStatus (f p) = Some ''success''))"

definition ran :: "int \<Rightarrow> uuid set \<Rightarrow> jobs \<Rightarrow> jobs \<Rightarrow> bool" where
  "ran t is s s' \<longleftrightarrow> (\<exists>f. jb_queries s' = map f (jb_queries s) \<and> moved t is f) \<and>
     (\<forall>j. runs_of j s' = runs_of j s + (if j \<in> is then 1 else 0))"

lemma movedD: "moved t is f \<Longrightarrow> sq_ID (f p) = sq_ID p \<and> sq_Enabled (f p) = sq_Enabled p \<and> (sq_ID p \<notin> is \<longrightarrow> f p = p) \<and>
     (sq_ID p \<in> is \<longrightarrow> t + hour \<le> sq_NextRunAt (f p) \<and> sq_LastRunStatus (f p) = Some ''success'')"
  by (simp add: moved_def)

lemma runs_calm:
  assumes "distinct (map sq_ID ds)" and "set (map sq_ID ds) \<subseteq> set (job_ids s)" and "\<forall>k. calm t (W k)"
  shows "ran t (set (map sq_ID ds)) s (fold (\<lambda>(k, d) s. runOne (W k) (sq_ID d) s) (enumerate n ds) s)"
  using assms(1,2)
proof (induction ds arbitrary: n s)
  case Nil
  have "moved t {} id" by (simp add: moved_def)
  then show ?case unfolding ran_def by (intro conjI exI [of _ id]) auto
next
  case (Cons d ds)
  let ?s = "runOne (W n) (sq_ID d) s"
  let ?g = "\<lambda>q. if sq_ID q = sq_ID d then q\<lparr>sq_LastRunAt := Some (rn_advanced (W n)), sq_LastRunStatus := Some ''success'', sq_NextRunAt := rn_advanced (W n) + hour\<rparr> else q"
  have one: "jb_queries ?s = map ?g (jb_queries s)" "runs_of j ?s = runs_of j s + (if j = sq_ID d then 1 else 0)" for j
    using runOne_calm [of t "W n" "sq_ID d" s] assms(3) Cons.prems(2) by (auto simp: advance_query_def)
  have "map sq_ID (map ?g (jb_queries s)) = job_ids s" by (simp add: job_ids_def)
  then have "job_ids ?s = job_ids s" using one(1) by (simp add: job_ids_def)
  then have "ran t (set (map sq_ID ds)) ?s (fold (\<lambda>(k, d) s. runOne (W k) (sq_ID d) s) (enumerate (Suc n) ds) ?s)" (is "ran _ _ _ ?s'")
    using Cons.IH [of ?s "Suc n"] Cons.prems by simp
  then obtain f where f: "jb_queries ?s' = map f (jb_queries ?s)" "moved t (set (map sq_ID ds)) f"
    and r: "\<And>j. runs_of j ?s' = runs_of j ?s + (if j \<in> set (map sq_ID ds) then 1 else 0)"
    unfolding ran_def by blast
  have new: "sq_ID d \<notin> set (map sq_ID ds)" "t \<le> rn_advanced (W n)" using Cons.prems(1) assms(3) by (auto simp: calm_def)
  have "moved t (set (map sq_ID (d # ds))) (\<lambda>p. f (?g p))"
    unfolding moved_def
  proof (intro allI)
    fix p
    show "sq_ID (f (?g p)) = sq_ID p \<and> sq_Enabled (f (?g p)) = sq_Enabled p \<and> (sq_ID p \<notin> set (map sq_ID (d # ds)) \<longrightarrow> f (?g p) = p) \<and>
        (sq_ID p \<in> set (map sq_ID (d # ds)) \<longrightarrow> t + hour \<le> sq_NextRunAt (f (?g p)) \<and> sq_LastRunStatus (f (?g p)) = Some ''success'')"
      using movedD [OF f(2), of "?g p"] new by auto
  qed
  moreover have "jb_queries ?s' = map (\<lambda>p. f (?g p)) (jb_queries s)" using f(1) one(1) by simp
  moreover have "runs_of j ?s' = runs_of j s + (if j \<in> set (map sq_ID (d # ds)) then 1 else 0)" for j using r one(2) new by auto
  ultimately have "ran t (set (map sq_ID (d # ds))) s ?s'" unfolding ran_def by blast
  then show ?case by simp
qed

lemma due_rows_ids:
  assumes "distinct (job_ids s)"
  shows "distinct (map sq_ID (due_rows now s)) \<and> set (due_rows now s) \<subseteq> set (jb_queries s)"
proof -
  let ?L = "sort_key sq_NextRunAt (filter (\<lambda>q. sq_Enabled q \<and> sq_NextRunAt q \<le> now) (jb_queries s))"
  have "distinct (filter (\<lambda>q. sq_Enabled q \<and> sq_NextRunAt q \<le> now) (jb_queries s))" "inj_on sq_ID (set (jb_queries s))"
    using assms by (auto simp: job_ids_def distinct_map)
  then have "distinct (map sq_ID ?L)" by (auto simp: distinct_map intro: inj_on_subset)
  then have "distinct (map sq_ID (take 100 ?L))" by (metis distinct_take take_map)
  then show ?thesis using set_take_subset [of 100 ?L] by (auto simp: due_rows_def)
qed

lemma Tick_ran:
  assumes "distinct (job_ids s)" and "\<forall>k. calm t (W k)"
  shows "ran t (sq_ID ` set (due_rows now s)) s (snd (Tick None now W s))"
proof -
  have "set (map sq_ID (due_rows now s)) \<subseteq> set (job_ids s)"
    using due_rows_ids [OF assms(1), of now] by (auto simp: job_ids_def)
  from runs_calm [OF due_rows_ids [OF assms(1), THEN conjunct1] this assms(2), of 0] show ?thesis
    by (simp add: Tick_def)
qed

lemma ran_ids: "ran t is s s' \<Longrightarrow> job_ids s' = job_ids s"
  by (auto simp: ran_def job_ids_def dest: movedD)

text \<open>A row that is not due at a tick because it was run is left alone.\<close>

lemma due_rows_due: "d \<in> set (due_rows now s) \<Longrightarrow> sq_Enabled d \<and> sq_NextRunAt d \<le> now"
  unfolding due_rows_def by (drule in_set_takeD) auto

lemma same_row: "distinct (job_ids s) \<Longrightarrow> p \<in> set (jb_queries s) \<Longrightarrow> q \<in> set (jb_queries s) \<Longrightarrow> sq_ID p = sq_ID q \<Longrightarrow> p = q"
  by (auto simp: job_ids_def distinct_map dest: inj_onD)

lemma not_due_kept:
  assumes "distinct (job_ids s)" and "\<forall>k. calm t (W k)" and "p \<in> set (jb_queries s)" and "now < sq_NextRunAt p"
  shows "p \<in> set (jb_queries (snd (Tick None now W s))) \<and> runs_of (sq_ID p) (snd (Tick None now W s)) = runs_of (sq_ID p) s"
proof -
  have "sq_ID p \<notin> sq_ID ` set (due_rows now s)"
    using same_row [OF assms(1,3)] due_rows_ids [OF assms(1), of now] due_rows_due [of _ now s] assms(4) by (metis imageE linorder_not_le subsetD)
  moreover from Tick_ran [OF assms(1,2), of now] obtain f where f: "jb_queries (snd (Tick None now W s)) = map f (jb_queries s)"
    "moved t (sq_ID ` set (due_rows now s)) f" unfolding ran_def by blast
  ultimately have "f p = p" using movedD [OF f(2), of p] by blast
  then have "p \<in> set (jb_queries (snd (Tick None now W s)))" using f(1) assms(3) by (metis image_eqI image_set)
  moreover have "runs_of (sq_ID p) (snd (Tick None now W s)) = runs_of (sq_ID p) s"
    using Tick_ran [OF assms(1,2), of now] \<open>sq_ID p \<notin> sq_ID ` set (due_rows now s)\<close> by (simp add: ran_def)
  ultimately show ?thesis by blast
qed

text \<open>A full tick takes its hundred rows from those that are at least as late as any row it leaves out.\<close>

lemma full_tick:
  assumes "distinct (job_ids s)" and "q \<in> set (jb_queries s)" and "sq_Enabled q" and "sq_NextRunAt q \<le> now" and "q \<notin> set (due_rows now s)"
  shows "length (due_rows now s) = 100 \<and> (\<forall>d \<in> set (due_rows now s). sq_NextRunAt d \<le> sq_NextRunAt q)"
proof -
  let ?L = "sort_key sq_NextRunAt (filter (\<lambda>q. sq_Enabled q \<and> sq_NextRunAt q \<le> now) (jb_queries s))"
  have "q \<in> set ?L" using assms by simp
  then have q: "q \<in> set (drop 100 ?L)" using assms(5) unfolding due_rows_def by (metis Un_iff append_take_drop_id set_append)
  then have "100 < length ?L" by (cases "100 < length ?L") auto
  moreover have "sorted (map sq_NextRunAt (take 100 ?L @ drop 100 ?L))" by simp
  then have "\<forall>d \<in> set (take 100 ?L). sq_NextRunAt d \<le> sq_NextRunAt q"
    using q unfolding map_append sorted_append by auto
  ultimately show ?thesis by (simp add: due_rows_def)
qed

lemma tick_progress:
  assumes "distinct (job_ids s)" and "\<forall>k. calm t (W k)" and "q \<in> set (jb_queries s)" and "sq_Enabled q" and "sq_NextRunAt q \<le> now"
    and "sq_NextRunAt q < t + hour" and "q \<notin> set (due_rows now s)"
  shows "q \<in> set (jb_queries (snd (Tick None now W s))) \<and> runs_of (sq_ID q) (snd (Tick None now W s)) = runs_of (sq_ID q) s \<and>
    overdue (sq_NextRunAt q) (snd (Tick None now W s)) + 100 = overdue (sq_NextRunAt q) s"
proof -
  let ?s = "snd (Tick None now W s)" and ?n = "sq_NextRunAt q" and ?D = "due_rows now s"
  let ?C = "\<lambda>p. sq_Enabled p \<and> sq_NextRunAt p \<le> ?n"
  note full = full_tick [OF assms(1,3,4,5,7)] and ids = due_rows_ids [OF assms(1), of now]
  have out: "sq_ID q \<notin> sq_ID ` set ?D" using same_row [OF assms(1,3)] ids assms(7) by blast
  from Tick_ran [OF assms(1,2), of now] obtain f where f: "jb_queries ?s = map f (jb_queries s)" "moved t (sq_ID ` set ?D) f"
    unfolding ran_def by blast
  have r: "runs_of (sq_ID q) ?s = runs_of (sq_ID q) s" using Tick_ran [OF assms(1,2), of now] out by (simp add: ran_def)
  have "f q = q" using movedD [OF f(2), of q] out by blast
  then have "q \<in> set (jb_queries ?s)" using f(1) assms(3) by (metis image_eqI image_set)
  have C: "?C (f p) \<longleftrightarrow> ?C p \<and> sq_ID p \<notin> sq_ID ` set ?D" for p
    using movedD [OF f(2), of p] assms(6) by (cases "sq_ID p \<in> sq_ID ` set ?D") auto
  have ran: "filter (\<lambda>p. ?C p \<and> sq_ID p \<in> sq_ID ` set ?D) (jb_queries s) = filter (\<lambda>p. p \<in> set ?D) (jb_queries s)"
  proof (rule filter_cong [OF refl])
    fix p assume "p \<in> set (jb_queries s)"
    then show "?C p \<and> sq_ID p \<in> sq_ID ` set ?D \<longleftrightarrow> p \<in> set ?D"
      using same_row [OF assms(1)] ids full due_rows_due [of _ now s] by blast
  qed
  have "distinct ?D" "distinct (jb_queries s)" using ids assms(1) by (auto simp: job_ids_def distinct_map)
  moreover have "set (filter (\<lambda>p. p \<in> set ?D) (jb_queries s)) = set ?D" using ids by auto
  ultimately have "length (filter (\<lambda>p. p \<in> set ?D) (jb_queries s)) = card (set ?D)"
    by (metis distinct_card distinct_filter)
  with \<open>distinct ?D\<close> full ran have hundred: "length (filter (\<lambda>p. ?C p \<and> sq_ID p \<in> sq_ID ` set ?D) (jb_queries s)) = 100"
    by (simp add: distinct_card)
  have split: "length (filter ?C ps) = length (filter (\<lambda>p. ?C p \<and> sq_ID p \<notin> sq_ID ` set ?D) ps) + length (filter (\<lambda>p. ?C p \<and> sq_ID p \<in> sq_ID ` set ?D) ps)" for ps
    by (induction ps) auto
  have "overdue ?n ?s = length (filter (\<lambda>p. ?C p \<and> sq_ID p \<notin> sq_ID ` set ?D) (jb_queries s))"
    unfolding overdue_def f(1) filter_map length_map o_def C ..
  with split [of "jb_queries s"] hundred \<open>q \<in> set (jb_queries ?s)\<close> r show ?thesis by (simp add: overdue_def)
qed

text \<open>Ticks in sequence, each with its clock and what is around its runs.\<close>

fun ticks :: "(int \<times> (nat \<Rightarrow> run_env)) list \<Rightarrow> jobs \<Rightarrow> jobs" where
  "ticks [] s = s"
| "ticks ((now, W) # ts) s = ticks ts (snd (Tick None now W s))"

definition undisturbed :: "int \<Rightarrow> (int \<times> (nat \<Rightarrow> run_env)) list \<Rightarrow> bool" where
  "undisturbed t ts \<longleftrightarrow> (\<forall>(now, W) \<in> set ts. t \<le> now \<and> now < t + hour \<and> (\<forall>k. calm t (W k)))"

lemma kept_ticks:
  assumes "undisturbed t ts" and "distinct (job_ids s)" and "p \<in> set (jb_queries s)" and "t + hour \<le> sq_NextRunAt p"
  shows "p \<in> set (jb_queries (ticks ts s)) \<and> runs_of (sq_ID p) (ticks ts s) = runs_of (sq_ID p) s"
  using assms
proof (induction ts arbitrary: s)
  case (Cons x ts)
  obtain now W where x: "x = (now, W)" by force
  from Cons.prems(1) have h: "now < t + hour" "\<forall>k. calm t (W k)" "undisturbed t ts" by (auto simp: undisturbed_def x)
  have "now < sq_NextRunAt p" using h(1) Cons.prems(4) by simp
  note kept = not_due_kept [OF Cons.prems(2) h(2) Cons.prems(3) this]
  have "distinct (job_ids (snd (Tick None now W s)))" using ran_ids [OF Tick_ran [OF Cons.prems(2) h(2)]] Cons.prems(2) by metis
  with Cons.IH [OF h(3) this] kept Cons.prems(4) show ?case by (simp add: x)
qed simp

text \<open>
  C14. No scheduled query is forgotten and none runs twice: of ticks within an hour of \<open>t\<close> that are not disturbed, an enabled
  query that is due at \<open>t\<close> is run exactly once and successfully, as soon as there are enough ticks for the queries that are at
  least as late as it, at a hundred a tick, however many other queries come due in the meantime.
\<close>

theorem scheduler_no_starvation:
  assumes "distinct (job_ids s)" and "q \<in> set (jb_queries s)" and "sq_Enabled q" and "sq_NextRunAt q \<le> t"
    and "undisturbed t ts" and "overdue (sq_NextRunAt q) s \<le> 100 * length ts"
  shows "runs_of (sq_ID q) (ticks ts s) = runs_of (sq_ID q) s + 1 \<and>
    (\<exists>p \<in> set (jb_queries (ticks ts s)). sq_ID p = sq_ID q \<and> sq_LastRunStatus p = Some ''success'' \<and> t + hour \<le> sq_NextRunAt p)"
  using assms
proof (induction ts arbitrary: s)
  case Nil
  have "q \<in> set (filter (\<lambda>p. sq_Enabled p \<and> sq_NextRunAt p \<le> sq_NextRunAt q) (jb_queries s))" using Nil.prems(2,3) by simp
  then have "0 < overdue (sq_NextRunAt q) s" unfolding overdue_def by (rule length_pos_if_in_set)
  with Nil.prems(6) show ?case by simp
next
  case (Cons x ts)
  obtain now W where x: "x = (now, W)" by force
  let ?s = "snd (Tick None now W s)"
  from Cons.prems(5) have h: "t \<le> now" "now < t + hour" "\<forall>k. calm t (W k)" "undisturbed t ts" by (auto simp: undisturbed_def x)
  note ran = Tick_ran [OF Cons.prems(1) h(3), of now]
  have ids: "distinct (job_ids ?s)" using ran_ids [OF ran] Cons.prems(1) by metis
  show ?case
  proof (cases "q \<in> set (due_rows now s)")
    case True
    then have i: "sq_ID q \<in> sq_ID ` set (due_rows now s)" by blast
    from ran obtain f where f: "jb_queries ?s = map f (jb_queries s)" "moved t (sq_ID ` set (due_rows now s)) f" unfolding ran_def by blast
    have fq: "sq_ID (f q) = sq_ID q" "t + hour \<le> sq_NextRunAt (f q)" "sq_LastRunStatus (f q) = Some ''success''"
      using movedD [OF f(2), of q] i by auto
    have "f q \<in> set (jb_queries ?s)" using f(1) Cons.prems(2) by simp
    from kept_ticks [OF h(4) ids this fq(2)] have "f q \<in> set (jb_queries (ticks ts ?s))" "runs_of (sq_ID q) (ticks ts ?s) = runs_of (sq_ID q) ?s"
      using fq(1) by simp_all
    moreover have "runs_of (sq_ID q) ?s = runs_of (sq_ID q) s + 1" using ran i by (simp add: ran_def)
    ultimately show ?thesis using fq by (auto simp: x)
  next
    case False
    have "sq_NextRunAt q \<le> now" "sq_NextRunAt q < t + hour" using Cons.prems(4) h(1,2) by simp_all
    note p = tick_progress [OF Cons.prems(1) h(3) Cons.prems(2,3) this False]
    then have "overdue (sq_NextRunAt q) ?s \<le> 100 * length ts" using Cons.prems(6) by simp
    with Cons.IH [OF ids _ Cons.prems(3,4) h(4)] p show ?thesis by (simp add: x)
  qed
qed

definition example_schedule :: "uuid \<Rightarrow> int \<Rightarrow> scheduled_query" where
  "example_schedule i next_run = \<lparr>sq_ID = i, sq_CustomerID = 1, sq_Name = ''daily'', sq_SQL = ''SELECT 1'', sq_ScheduleCron = ''0 6 * * *'', sq_TargetTable = None,
     sq_Enabled = True, sq_LastRunAt = None, sq_LastRunStatus = None, sq_CreatedAt = 0, sq_NextRunAt = next_run\<rparr>"

definition example_run :: run_env where
  "example_run = \<lparr>rn_insert = None, rn_started = 10, rn_cancelled = False, rn_finish = None, rn_finished = 11, rn_advance = None, rn_advanced = 12\<rparr>"

definition example_jobs :: jobs where
  "example_jobs = \<lparr>jb_db = empty_db 5, jb_saved = [], jb_queries = [example_schedule 1 7, example_schedule 2 3, example_schedule 3 9], jb_runs = [], jb_next = 4\<rparr>"

theorem scheduler_no_starvation_witness:
  "runs_of 2 (ticks [(8, \<lambda>_. example_run), (9, \<lambda>_. example_run)] example_jobs) = 1"
proof -
  let ?ts = "[(8, \<lambda>_. example_run), (9, \<lambda>_. example_run)]"
  have "distinct (job_ids example_jobs)" "example_schedule 2 3 \<in> set (jb_queries example_jobs)" "sq_Enabled (example_schedule 2 3)"
    "sq_NextRunAt (example_schedule 2 3) \<le> 8" "undisturbed 8 ?ts" "overdue (sq_NextRunAt (example_schedule 2 3)) example_jobs \<le> 100 * length ?ts"
    by (simp_all add: job_ids_def example_jobs_def example_schedule_def undisturbed_def calm_def example_run_def hour_def second_def overdue_def)
  from scheduler_no_starvation [OF this] show ?thesis
    by (simp add: example_schedule_def example_jobs_def runs_of_def)
qed

text \<open>
  Two runners that read the due rows before either has advanced them run a query twice; a run whose context is cancelled
  stays in the state running, and its query stays due.
\<close>

lemma two_runners_run_twice:
  assumes "calm t e" and "calm t e'" and "i \<in> set (job_ids s)"
  shows "runs_of i (runOne e' i (runOne e i s)) = runs_of i s + 2"
proof -
  have "job_ids (runOne e i s) = job_ids s"
    using runOne_calm [OF assms(1,3)] by (simp add: job_ids_def advance_query_def)
  then show ?thesis using runOne_calm [OF assms(1,3), of i] runOne_calm [OF assms(2), of i "runOne e i s" i] assms(3) by simp
qed

lemma cancelled_run_stays:
  assumes "rn_insert e = None" and "rn_cancelled e" and "i \<in> set (job_ids s)"
  shows "jb_queries (runOne e i s) = jb_queries s \<and> (\<exists>r \<in> set (jb_runs (runOne e i s)). qn_QueryID r = i \<and> qn_Status r = ''running'' \<and> qn_FinishedAt r = None)"
  using assms by (auto simp: runOne_def insert_run_def job_ids_def Let_def)

text \<open>An upsert without a user never finds the row of an earlier one: it adds a row of the same name.\<close>

lemma upsert_without_user_adds:
  "jb_fail s = None \<Longrightarrow> jb_customer (vq_CustomerID q) s \<Longrightarrow> vq_UserID q = None \<Longrightarrow> length (jb_saved (snd (saved_Upsert q s))) = length (jb_saved s) + 1"
  using find_None_iff [of "saved_conflict q" "jb_saved s"] by (simp add: saved_Upsert_def saved_conflict_def)

section \<open>Replay and the sync service\<close>

text \<open>
  A replay that is accepted for a column whose name looks temporal gives the sync service a watermark that it can read.
  For any other column every text is accepted, and a load from one that is not a time fails before it asks the warehouse.
\<close>

theorem replay_watermark_readable:
  assumes "syncReplay E i body d = ((200, Inr (Replayed u wm st)), d')"
  shows "\<exists>x \<in> set (synced_tables d'). t_ID x = u \<and> t_LastWatermark x = Some wm \<and> t_State x = ''pending'' \<and>
    (hintsTemporal (the (t_WatermarkColumn x)) \<longrightarrow> (\<exists>v. parseWatermark wm = Ok v))"
proof -
  from assms obtain t where t: "find (\<lambda>t. t_ID t = u) (synced_tables d) = Some t"
    and ok: "\<not> (hintsTemporal (the (t_WatermarkColumn t)) \<and> time_Parse RFC3339 wm = None \<and> time_Parse date_items wm = None)"
    and d': "d' = d\<lparr>synced_tables := map (\<lambda>x. if t_ID x = u then x\<lparr>t_LastWatermark := Some wm, t_State := ''pending'', t_LastError := None\<rparr> else x) (synced_tables d)\<rparr>"
    by (auto simp: syncReplay_def Let_def split: option.splits if_splits)
  have "\<exists>v. parseWatermark wm = Ok v" if "time_Parse RFC3339 wm \<noteq> None \<or> time_Parse date_items wm \<noteq> None"
    using that by (auto simp: parseWatermark_def watermark_layouts_def split: option.split)
  moreover have "t \<in> set (synced_tables d)" "t_ID t = u" using t by (auto simp: find_Some_iff)
  ultimately show ?thesis using ok unfolding d'
    by (intro bexI [of _ "t\<lparr>t_LastWatermark := Some wm, t_State := ''pending'', t_LastError := None\<rparr>"]) (auto simp: image_iff)
qed

lemma unreadable_watermark_fails:
  assumes "t_LastWatermark x = Some wm" and "wm \<noteq> []" and "\<nexists>v. parseWatermark wm = Ok v"
  shows "\<exists>e. bqWatermarkLoad X project x loc slug w = (Err e, w)"
proof -
  have "\<exists>e. parseWatermark wm = Err e"
  proof -
    have "first_parse ls wm \<noteq> Panic" for ls by (induction ls) (auto split: option.split)
    then show ?thesis using assms(3) by (cases "parseWatermark wm") (auto simp: parseWatermark_def)
  qed
  then show ?thesis using assms(1,2) by (auto simp: bqWatermarkLoad_def then_do_def wrap_err_def value_of_def non_empty_or_def map_err_def Let_def)
qed

text \<open>
  A promotion is refused for a connection of another customer and changes nothing then; a successful one marks one table
  of a connection of the customer as pending and leaves the tables of every other connection alone.
\<close>

theorem promote_checks_owner:
  assumes "workbenchPromote (Ok b) (d, src) = ((201, Inr (Promoted i ctas st)), d', src')"
  shows "(\<exists>c \<in> set (connections d). cn_ID c = pb_ConnectionID b \<and> cn_CustomerID c = pb_CustomerID b) \<and>
    (\<exists>x \<in> set (synced_tables d'). t_ID x = i \<and> t_ConnectionID x = pb_ConnectionID b \<and> t_State x = ''pending'') \<and>
    filter (\<lambda>x. t_ConnectionID x \<noteq> pb_ConnectionID b) (synced_tables d') = filter (\<lambda>x. t_ConnectionID x \<noteq> pb_ConnectionID b) (synced_tables d)"
proof -
  have keep: "filter (\<lambda>x. t_ConnectionID x \<noteq> n) (map (\<lambda>y. if t_ConnectionID y = n \<and> Q y then y\<lparr>t_SyncMode := a, t_State := b\<rparr> else y) xs) =
      filter (\<lambda>x. t_ConnectionID x \<noteq> n) xs" for n Q a b and xs :: "synced_table list"
    by (induction xs) auto
  let ?same = "\<lambda>x :: synced_table. t_ConnectionID x = pb_ConnectionID b \<and> t_SchemaName x = TrimSpace (pb_TargetSchema b) \<and> t_TableName x = TrimSpace (pb_TargetTable b)"
  note promote = assms [unfolded workbenchPromote_def Let_def prod.case]
  from promote obtain c where c: "find (\<lambda>c. cn_ID c = pb_ConnectionID b) (connections d) = Some c" "cn_CustomerID c = pb_CustomerID b"
    by (simp split: option.splits if_splits)
  then have owner: "\<exists>c \<in> set (connections d). cn_ID c = pb_ConnectionID b \<and> cn_CustomerID c = pb_CustomerID b"
    by (auto simp: find_Some_iff)
  show ?thesis
  proof (cases "find ?same (synced_tables d)")
    case None
    with promote c obtain x where "synced_tables d' = synced_tables d @ [x]" "t_ID x = i" "t_ConnectionID x = pb_ConnectionID b" "t_State x = ''pending''"
      by (auto split: option.splits if_splits)
    with owner show ?thesis by simp
  next
    case (Some x)
    then have x: "x \<in> set (synced_tables d)" "?same x" by (auto simp: find_Some_iff)
    let ?g = "\<lambda>y. if ?same y then y\<lparr>t_SyncMode := ''watermark'', t_State := ''pending''\<rparr> else y"
    from promote c Some have d': "synced_tables d' = map ?g (synced_tables d)" and i: "i = t_ID x" by (auto split: option.splits if_splits)
    have "?g x \<in> set (synced_tables d')" using x(1) d' by simp
    moreover have "t_ID (?g x) = i" "t_ConnectionID (?g x) = pb_ConnectionID b" "t_State (?g x) = ''pending''" using x(2) i by simp_all
    moreover have "filter (\<lambda>x. t_ConnectionID x \<noteq> pb_ConnectionID b) (synced_tables d') = filter (\<lambda>x. t_ConnectionID x \<noteq> pb_ConnectionID b) (synced_tables d)"
      using keep [of "pb_ConnectionID b" "\<lambda>x. t_SchemaName x = TrimSpace (pb_TargetSchema b) \<and> t_TableName x = TrimSpace (pb_TargetTable b)"] by (simp add: d')
    ultimately show ?thesis using owner by blast
  qed
qed

end
