(* ===== verification/Spec2Isabelle.thy ===== *)
theory Spec2Isabelle
  imports Scram Lineage_Capture Access_Control Query_Diff Governance Sync_Freshness Cost_Reports Schema_Diff Github_App Dashboards Scheduler
begin

text \<open>
  Ultraviolet is a proxy between BI tools and a data warehouse. Clients speak the PostgreSQL wire
  protocol to it; the proxy authenticates them by API key, routes a query to a local DuckDB pool when all
  its tables have fresh copies and to the customer's warehouse otherwise, logs it, and records lineage
  from it in the background. A sync service keeps the local copies fresh: it streams tables from the
  warehouse into Iceberg files and marks them in the control database. A REST control API administers
  customers, connections, keys and synced tables over the same control database, and carries the product's
  features: dashboards, schedules, governance, cost reports, schema and pull-request checks.

  \<^bold>\<open>How the code is modelled.\<close> Go values are HOL values: structs are records, enums and
  tagged unions datatypes, byte slices and strings lists of \<open>char\<close>, wire integers 16- and 32-bit words,
  other integers \<open>int\<close> or \<open>nat\<close>. A function that may fail returns \<open>'a go\<close>: a value, an error, or a
  panic, so every early return, returned error and out-of-range index is a branch. State is passed
  explicitly: readers consume byte lists, writers are records with a buffer and what was sent, tables are
  lists of rows with the constraints of the migrations, the servers are records of their fields.
  Goroutines and concurrent handlers are interleaved steps or events; a handler that reads and later
  inserts is two steps. Code that is not in the repository is a parameter (a function or a record of
  functions): the SQL parser and deparser, AES-GCM, SHA-256, HMAC and PBKDF2, the random source, the
  warehouse clients, DuckDB, Redis, the object store and the Parquet writer, the JWT library, JSON, UUID
  parsing, GitHub behind HTTP, the TLS handshake. What the theorems need of them are named hypotheses, and
  each has a witness with concrete parameters.

  \<^bold>\<open>The theories.\<close>

  \<^item> \<open>Go_Prelude\<close>: bytes, results, the parts of Go's \<^verbatim>\<open>strings\<close>, \<^verbatim>\<open>strconv\<close> and
    \<^verbatim>\<open>encoding/binary\<close> that the code uses, with their lemmas. \<open>Go_Time\<close>: the calendar, time layouts and
    64-bit durations.
  \<^item> \<open>Wire_Codec\<close> (\<^verbatim>\<open>internal/protocols/pgwire/protocol.go\<close>): frames, startup packets, row
    descriptions, data rows and errors. Frames and rows round-trip (C1).
  \<^item> \<open>Control_Store\<close> (\<^verbatim>\<open>internal/store\<close>): the tables and statements of the control database and the
    credential encryption; its invariant over all steps (C6), revocation, credential round trip.
  \<^item> \<open>Pg_Auth\<close> and \<open>Scram\<close> (\<^verbatim>\<open>pgwire/auth.go\<close>, \<^verbatim>\<open>scram.go\<close>): database names, API-key
    authentication against a key directory (a locale, interpreted by the store), the SCRAM exchange
    (C10, C11).
  \<^item> \<open>Pg_Ast\<close> and \<open>Sql_Router\<close> (\<^verbatim>\<open>internal/router\<close>): the parse tree, classification, table extraction,
    freshness and the routing decision over a catalogue (a locale, interpreted by the store) (C13).
  \<^item> \<open>Pg_Session\<close> (\<^verbatim>\<open>pgwire/session.go\<close>): admission, startup, cancellation, the query loop and the
    extended protocol, over a query backend (a locale) (C16--C18, C20, C22).
  \<^item> \<open>Connectors\<close> (\<^verbatim>\<open>internal/connectors\<close>): Snowflake, BigQuery and stub connectors behind one
    streaming contract (a locale with an interpretation for each) (C23).
  \<^item> \<open>Worker_Pool\<close> (\<^verbatim>\<open>internal/workers\<close>): the DuckDB pool and the UDF registry (C26).
  \<^item> \<open>Proxy_Handler\<close> (\<^verbatim>\<open>internal/proxy/handler.go\<close>, \<^verbatim>\<open>ai/rewriter.go\<close>, \<^verbatim>\<open>logger\<close>): one query
    from the session to the engine and the log; it interprets the session's backend locale, so the
    session theorems hold of the whole proxy (C29, C30).
  \<^item> \<open>Iceberg\<close> (\<^verbatim>\<open>internal/iceberg\<close>): the type mapping, the Parquet writer's buffering and the
    catalogue calls. \<open>Sync\<close> (\<^verbatim>\<open>internal/sync\<close>): the tick, the customers, connections and tables of a
    run, full and watermark loads. \<open>Sync_Freshness\<close>: what a run leaves for the router: a full load's
    outcome (C3), failed tables are not served (C9), a watermark load replaces the copy (C12), customers do
    not affect each other (C28). A tick visits its tables one after the other, as the code does.
  \<^item> \<open>Lineage\<close> (\<^verbatim>\<open>internal/lineage\<close>: lineage.go, columns.go, runtime.go): table and column edges, the edge
    table and its upsert (C34--C36).
  \<^item> \<open>Lineage_Graph\<close> (\<^verbatim>\<open>lineage/graph.go\<close>): the recursive graph query. Both walks are one locale with
    two interpretations; it terminates and its nodes are those within the depth bound at their shortest
    distance (C37, C38).
  \<^item> \<open>Lineage_Capture\<close>: the queue between the proxy and the lineage consumer; captured queries are
    eventually recorded (C39).
  \<^item> \<open>Api_Gateway\<close> (\<^verbatim>\<open>internal/api\<close>: auth.go, login.go, ratelimit.go; \<^verbatim>\<open>config.Load\<close>): rate limiter,
    token check, login (C21, C25). \<open>Api_Reply\<close>: the replies the feature handlers share.
  \<^item> \<open>Api_Server\<close> (\<^verbatim>\<open>internal/api/server.go\<close>): the handlers over the control store; every request is a step
    of the store, and the path's customer is not compared with the token's (C40).
  \<^item> \<open>Access_Control\<close> (\<^verbatim>\<open>internal/security\<close>, \<^verbatim>\<open>internal/rbac\<close>): column masking, policies and the
    permission matrix (C27).
  \<^item> \<open>Governance\<close> (\<^verbatim>\<open>api/query_approvals.go\<close>, \<^verbatim>\<open>access_reviews.go\<close>): a step relation of the handlers
    with its invariant and the life of rows, and the race of a review decision with a close (C5).
  \<^item> \<open>Query_Diff\<close> (\<^verbatim>\<open>api/query_diff.go\<close>): the line differ and its handler (C2).
  \<^item> \<open>Cost_Control\<close> (\<^verbatim>\<open>internal/costest\<close>, \<^verbatim>\<open>cost\<close>, \<^verbatim>\<open>budgets\<close>, \<^verbatim>\<open>quotas\<close>): estimates, attribution
    and its daily roll-up against the sums of the log (C4), budget alerts, quotas. \<open>Cost_Reports\<close>: the
    endpoints over them (preflight, quotas, forecast, breakdown, export).
  \<^item> \<open>Schema_Diff\<close> (\<^verbatim>\<open>api/schema_diff.go\<close>): snapshots; a difference turns the one into the other (C32).
  \<^item> \<open>Impact\<close> (\<^verbatim>\<open>internal/impact\<close>): what a change of a table or column reaches, at its shortest distance (C24).
  \<^item> \<open>Pr_Report\<close> (\<^verbatim>\<open>internal/githubapp\<close>: diff parsing and the report; \<^verbatim>\<open>internal/dq\<close>): printing a diff and
    parsing it is the identity on files and changes (C8); the patterns of dropped columns run on a
    backtracking matcher. \<open>Github_App\<close> (the same package's client, webhook and analysis;
    \<^verbatim>\<open>api/github_app.go\<close>): a webhook delivery is handled at most once (C19), and the set-up callback lets
    any tenant take over an installation (C33).
  \<^item> \<open>Dashboards\<close> (\<^verbatim>\<open>internal/dashboards\<close>, \<^verbatim>\<open>sharetoken\<close>, the dashboard handlers of \<^verbatim>\<open>internal/api\<close>):
    a step relation with the version insert split from its read; the life of share links (C7), an AI edit
    restored later (C15), version histories under every interleaving (C31).
  \<^item> \<open>Scheduler\<close> (\<^verbatim>\<open>internal/scheduler\<close>, saved and scheduled queries, replay and promotion in
    \<^verbatim>\<open>internal/api\<close>): a due query is run after boundedly many undisturbed ticks (C14).

  \<^bold>\<open>Bounds and fuel.\<close> The keyword scrape is bounded by the code's own limit of 4096 iterations, the lineage
  walk by its depth limit of 64; both are total functions here. Session loops recurse on the rest of the
  byte stream. The recursive SQL query has no fuel: it is a partial function, and that it returns for
  every edge table is C37. Counters that the code keeps as 64-bit integers (rows, seen counts) are
  unbounded here; \<^verbatim>\<open>float64\<close> in the limiter and in amounts of money is exact real arithmetic.

  \<^bold>\<open>Not modelled.\<close> Unicode case mapping and white space beyond ASCII; TLS set-up and certificate files; the
  AI providers, embeddings and prompts; the reverse ETL, SSO and SCIM clients; metrics, tracing and
  command-line wiring; the unused Arrow and storage-API readers of the connectors. Of the control API, the
  aggregate queries of server.go and the remaining feature handlers (inbox, annotations, agents, exports,
  catalogue) are single statements over tables that nothing else here reads; they are the parameter
  \<open>rest\<close> of the router.
\<close>

end
